(* ===== verification/Prelude.thy ===== *)
theory Prelude
  imports
    Main
    "HOL-Library.Char_ord"
    "HOL-Library.List_Lexorder"
    "HOL-Library.Product_Lexorder"
    "HOL-Library.Word"
begin

text \<open>
  What every component of the model shares: the names of the Go types, the list form of a SQLite
  table with the statements the store issues against it, and two interfaces (locales) that several
  components implement: a component whose operations keep an invariant, and a table addressed by
  a key.

  Times (\<open>time.Time\<close>) and durations (\<open>time.Duration\<close>) are whole nanoseconds, as in Go. A Go time
  whose zero value is tested (\<open>IsZero\<close>) is an \<open>option\<close>. A timestamp stored as RFC 3339 text or as
  Unix seconds is the second it denotes: the code always formats UTC times of fixed width, so the
  text order SQLite compares is the order of the seconds.
\<close>

section \<open>Names for the Go types\<close>

type_synonym gotime = int
type_synonym duration = int
type_synonym seconds = int
type_synonym u8 = "8 word"
type_synonym bytes = "u8 list"

definition nanosecond :: duration where "nanosecond = 1"
definition millisecond :: duration where "millisecond = 1000000"
definition second :: duration where "second = 1000000000"
definition minute :: duration where "minute = 60 * second"
definition hour :: duration where "hour = 60 * minute"
definition day :: duration where "day = 24 * hour"

text \<open>\<open>t.Format(time.RFC3339)\<close> and \<open>t.Unix()\<close> keep the whole second.\<close>

definition unix :: "gotime \<Rightarrow> seconds" where
  "unix t = t div second"

text \<open>\<open>d.Milliseconds()\<close> divides as Go does, towards zero.\<close>

definition milliseconds :: "duration \<Rightarrow> int" where
  "milliseconds d = (if 0 \<le> d then d div millisecond else - ((- d) div millisecond))"

lemmas duration_defs = nanosecond_def millisecond_def second_def minute_def hour_def day_def

lemma second_pos [simp]: "0 < second" by (simp add: second_def)
lemma minute_pos [simp]: "0 < minute" by (simp add: duration_defs)
lemma hour_pos [simp]: "0 < hour" by (simp add: duration_defs)
lemma day_pos [simp]: "0 < day" by (simp add: duration_defs)
lemma millisecond_pos [simp]: "0 < millisecond" by (simp add: millisecond_def)

lemma unix_mono: "a \<le> b \<Longrightarrow> unix a \<le> unix b"
  by (simp add: unix_def second_def zdiv_mono1)

lemma unix_add_seconds [simp]: "unix (t + second * k) = unix t + k"
  by (simp add: unix_def second_def)

lemma milliseconds_nonneg: "0 \<le> d \<Longrightarrow> 0 \<le> milliseconds d"
  by (simp add: milliseconds_def millisecond_def)

section \<open>Collections of rules\<close>

named_theorems inv_defs \<open>definitions of the invariants of the components\<close>
named_theorems op_defs \<open>definitions of the operations of the components\<close>
named_theorems table_simps \<open>how the table statements act on lookups, keys and members\<close>

section \<open>Tables\<close>

text \<open>
  A table is the list of its rows, oldest first. The four statements below are the SQL forms the
  store uses: \<open>SELECT .. LIMIT 1\<close>, \<open>UPDATE .. WHERE\<close>, \<open>DELETE .. WHERE\<close> and
  \<open>INSERT .. ON CONFLICT(key) DO UPDATE\<close>.
\<close>

type_synonym 'r table = "'r list"

definition select1 :: "('r \<Rightarrow> bool) \<Rightarrow> 'r table \<Rightarrow> 'r option" where
  "select1 P t = find P t"

definition update_where :: "('r \<Rightarrow> bool) \<Rightarrow> ('r \<Rightarrow> 'r) \<Rightarrow> 'r table \<Rightarrow> 'r table" where
  "update_where P f t = map (\<lambda>r. if P r then f r else r) t"

definition delete_where :: "('r \<Rightarrow> bool) \<Rightarrow> 'r table \<Rightarrow> 'r table" where
  "delete_where P t = filter (\<lambda>r. \<not> P r) t"

definition count_where :: "('r \<Rightarrow> bool) \<Rightarrow> 'r table \<Rightarrow> nat" where
  "count_where P t = length (filter P t)"

definition upsert :: "('r \<Rightarrow> 'k) \<Rightarrow> 'r \<Rightarrow> ('r \<Rightarrow> 'r) \<Rightarrow> 'r table \<Rightarrow> 'r table" where
  "upsert key r f t =
     (if list_ex (\<lambda>x. key x = key r) t then update_where (\<lambda>x. key x = key r) f t else t @ [r])"

text \<open>A unique key: the table's \<open>PRIMARY KEY\<close> or \<open>UNIQUE\<close> constraint.\<close>

definition unique_key :: "('r \<Rightarrow> 'k) \<Rightarrow> 'r table \<Rightarrow> bool" where
  "unique_key key t = distinct (map key t)"

lemma select1_Nil [simp]: "select1 P [] = None"
  by (simp add: select1_def)

lemma select1_Cons [simp]: "select1 P (r # t) = (if P r then Some r else select1 P t)"
  by (simp add: select1_def)

lemma select1_append [table_simps]:
  "select1 P (t @ u) = (case select1 P t of None \<Rightarrow> select1 P u | Some r \<Rightarrow> Some r)"
  by (induction t) auto

lemma select1_SomeD: "select1 P t = Some r \<Longrightarrow> r \<in> set t \<and> P r"
  by (induction t) (auto split: if_splits)

lemma select1_None_iff: "select1 P t = None \<longleftrightarrow> (\<forall>r \<in> set t. \<not> P r)"
  by (induction t) auto

lemma select1_Some_ex: "r \<in> set t \<Longrightarrow> P r \<Longrightarrow> \<exists>x. select1 P t = Some x"
  by (induction t) auto

lemma update_where_Nil [simp]: "update_where P f [] = []"
  by (simp add: update_where_def)

lemma update_where_Cons [simp]:
  "update_where P f (r # t) = (if P r then f r else r) # update_where P f t"
  by (simp add: update_where_def)

lemma update_where_append [simp]:
  "update_where P f (t @ u) = update_where P f t @ update_where P f u"
  by (simp add: update_where_def)

lemma length_update_where [simp]: "length (update_where P f t) = length t"
  by (simp add: update_where_def)

lemma set_update_where: "set (update_where P f t) = (\<lambda>r. if P r then f r else r) ` set t"
  by (simp add: update_where_def)

lemma update_where_id: "(\<And>r. r \<in> set t \<Longrightarrow> \<not> P r) \<Longrightarrow> update_where P f t = t"
  by (induction t) auto

lemma map_update_where [table_simps]:
  "(\<And>r. key (f r) = key r) \<Longrightarrow> map key (update_where P f t) = map key t"
  by (induction t) auto

lemma delete_where_Nil [simp]: "delete_where P [] = []"
  by (simp add: delete_where_def)

lemma delete_where_Cons [simp]:
  "delete_where P (r # t) = (if P r then delete_where P t else r # delete_where P t)"
  by (simp add: delete_where_def)

lemma set_delete_where [simp]: "set (delete_where P t) = {r \<in> set t. \<not> P r}"
  by (auto simp: delete_where_def)

lemma select1_delete_where [table_simps]:
  "select1 P (delete_where Q t) = select1 (\<lambda>r. P r \<and> \<not> Q r) t"
  by (induction t) auto

lemma unique_key_Nil [simp]: "unique_key key []"
  by (simp add: unique_key_def)

lemma unique_key_update_where:
  "unique_key key t \<Longrightarrow> (\<And>r. key (f r) = key r) \<Longrightarrow> unique_key key (update_where P f t)"
  by (simp add: unique_key_def table_simps)

lemma unique_key_delete_where: "unique_key key t \<Longrightarrow> unique_key key (delete_where P t)"
  unfolding unique_key_def delete_where_def by (induction t) auto

lemma unique_key_append1:
  "unique_key key t \<Longrightarrow> (\<And>x. x \<in> set t \<Longrightarrow> key x \<noteq> key r) \<Longrightarrow> unique_key key (t @ [r])"
  by (auto simp: unique_key_def image_iff eq_commute)

lemma unique_key_upsert:
  "unique_key key t \<Longrightarrow> (\<And>x. key (f x) = key x) \<Longrightarrow> unique_key key (upsert key r f t)"
  by (auto simp: upsert_def list_ex_iff intro: unique_key_update_where unique_key_append1)

lemma unique_keyD:
  "unique_key key t \<Longrightarrow> a \<in> set t \<Longrightarrow> b \<in> set t \<Longrightarrow> key a = key b \<Longrightarrow> a = b"
  by (auto simp: unique_key_def distinct_map dest: inj_onD)

lemma unique_key_select1:
  "unique_key key t \<Longrightarrow> r \<in> set t \<Longrightarrow> key r = k \<Longrightarrow> select1 (\<lambda>x. key x = k) t = Some r"
  by (induction t) (auto simp: unique_key_def)

lemma select1_update_where_key:
  assumes "\<And>r. key (f r) = key r"
  shows "select1 (\<lambda>x. key x = k) (update_where P f t) =
    map_option (\<lambda>r. if P r then f r else r) (select1 (\<lambda>x. key x = k) t)"
  using assms by (induction t) auto

lemma select1_update_key:
  assumes "\<And>r. key (f r) = key r"
  shows "select1 (\<lambda>x. key x = k) (update_where (\<lambda>x. key x = j) f t) =
    (if j = k then map_option f (select1 (\<lambda>x. key x = k) t) else select1 (\<lambda>x. key x = k) t)"
  using assms by (induction t) auto

lemma select1_upsert_same:
  assumes "\<And>x. key (f x) = key x"
  shows "select1 (\<lambda>x. key x = key r) (upsert key r f t) =
    (case select1 (\<lambda>x. key x = key r) t of None \<Rightarrow> Some r | Some x \<Rightarrow> Some (f x))"
  using assms by (induction t) (auto simp: upsert_def split: option.splits)

lemma select1_upsert_other:
  assumes "\<And>x. key (f x) = key x" and "k \<noteq> key r"
  shows "select1 (\<lambda>x. key x = k) (upsert key r f t) = select1 (\<lambda>x. key x = k) t"
  using assms
  by (auto simp: upsert_def select1_append select1_update_key split: option.splits)

lemma count_where_0_iff: "count_where P t = 0 \<longleftrightarrow> (\<forall>r \<in> set t. \<not> P r)"
  by (auto simp: count_where_def filter_empty_conv)

section \<open>Interface: a component whose operations keep an invariant\<close>

text \<open>
  A component is a state, a set of operations and the function that applies one. Its contract is
  an invariant of the start state that every operation keeps; the client gets it for every run.
\<close>

fun run_ops :: "('s \<Rightarrow> 'o \<Rightarrow> 's) \<Rightarrow> 's \<Rightarrow> 'o list \<Rightarrow> 's" where
  "run_ops step s [] = s"
| "run_ops step s (x # xs) = run_ops step (step s x) xs"

lemma run_ops_append: "run_ops step s (xs @ ys) = run_ops step (run_ops step s xs) ys"
  by (induction xs arbitrary: s) auto

locale component =
  fixes init :: 's and step :: "'s \<Rightarrow> 'o \<Rightarrow> 's" and inv :: "'s \<Rightarrow> bool"
  assumes inv_init: "inv init"
    and inv_step: "inv s \<Longrightarrow> inv (step s x)"
begin

lemma inv_run: "inv s \<Longrightarrow> inv (run_ops step s xs)"
  by (induction xs arbitrary: s) (auto intro: inv_step)

lemma inv_reachable: "inv (run_ops step init xs)"
  by (rule inv_run [OF inv_init])

end

section \<open>Interface: a table addressed by a key\<close>

text \<open>
  What the clients of a keyed table rely on: a lookup after a write returns what was written, a
  write to one key leaves the others alone, and a delete removes exactly its key.
\<close>

locale keyed_table =
  fixes get :: "'t \<Rightarrow> 'k \<Rightarrow> 'v option"
    and put :: "'t \<Rightarrow> 'k \<Rightarrow> 'v \<Rightarrow> 't"
    and del :: "'t \<Rightarrow> 'k \<Rightarrow> 't"
  assumes get_put_same: "get (put t k v) k = Some v"
    and get_put_other: "j \<noteq> k \<Longrightarrow> get (put t k v) j = get t j"
    and get_del_same: "get (del t k) k = None"
    and get_del_other: "j \<noteq> k \<Longrightarrow> get (del t k) j = get t j"
begin

lemma get_put: "get (put t k v) j = (if j = k then Some v else get t j)"
  by (simp add: get_put_same get_put_other)

lemma get_del: "get (del t k) j = (if j = k then None else get t j)"
  by (simp add: get_del_same get_del_other)

lemma last_write_wins: "get (put (put t k v) k w) j = get (put t k w) j"
  by (simp add: get_put)

lemma put_commute: "j \<noteq> k \<Longrightarrow> get (put (put t j v) k w) i = get (put (put t k w) j v) i"
  by (simp add: get_put)

lemma del_undoes_put: "get t k = None \<Longrightarrow> get (del (put t k v) k) j = get t j"
  by (simp add: get_del get_put)

end

end
