(* ===== verification/GoText.thy ===== *)
theory GoText
  imports Prelude "HOL-Library.Sublist"
begin

text \<open>
  The parts of Go's \<open>strings\<close>, \<open>encoding/hex\<close> and \<open>encoding/base32\<close> packages the program uses,
  and the identifiers and codes built from them (\<open>internal/store/ids.go\<close>, the code and token
  generators of \<open>internal/store/pairing.go\<close> and \<open>internal/store/tokens.go\<close>). A Go string is its
  list of bytes, so a \<open>string\<close> here is a list of bytes as well; \<open>len\<close> is \<open>length\<close>.
  Random bytes are arguments: the models compute what the code computes from the bytes it drew.
\<close>

section \<open>Prefixes, suffixes, searching\<close>

definition has_prefix :: "string \<Rightarrow> string \<Rightarrow> bool" where
  "has_prefix s p = prefix p s"

definition has_suffix :: "string \<Rightarrow> string \<Rightarrow> bool" where
  "has_suffix s p = suffix p s"

definition trim_prefix :: "string \<Rightarrow> string \<Rightarrow> string" where
  "trim_prefix s p = (if has_prefix s p then drop (length p) s else s)"

definition trim_suffix :: "string \<Rightarrow> string \<Rightarrow> string" where
  "trim_suffix s p = (if has_suffix s p then take (length s - length p) s else s)"

text \<open>\<open>strings.CutPrefix\<close>: the rest and whether the prefix was there.\<close>

definition cut_prefix :: "string \<Rightarrow> string \<Rightarrow> string \<times> bool" where
  "cut_prefix s p = (if has_prefix s p then (drop (length p) s, True) else (s, False))"

lemma has_prefix_append [simp]: "has_prefix (p @ s) p"
  by (simp add: has_prefix_def)

lemma trim_prefix_append [simp]: "trim_prefix (p @ s) p = s"
  by (simp add: trim_prefix_def)

lemma trim_suffix_append [simp]: "trim_suffix (s @ p) p = s"
  by (simp add: trim_suffix_def has_suffix_def suffix_def)

text \<open>\<open>strings.Split\<close> on one byte; a string without it is one part.\<close>

fun split_on :: "char \<Rightarrow> string \<Rightarrow> string list" where
  "split_on c [] = [[]]"
| "split_on c (x # xs) =
     (if x = c then [] # split_on c xs
      else (case split_on c xs of [] \<Rightarrow> [[x]] | p # ps \<Rightarrow> (x # p) # ps))"

text \<open>\<open>strings.Join\<close>.\<close>

fun join :: "string \<Rightarrow> string list \<Rightarrow> string" where
  "join sep [] = []"
| "join sep [x] = x"
| "join sep (x # y # xs) = x @ sep @ join sep (y # xs)"

lemma split_on_not_Nil [simp]: "split_on c s \<noteq> []"
  by (induction s) (auto split: list.splits)

lemma split_on_free: "p \<in> set (split_on c s) \<Longrightarrow> c \<notin> set p"
  by (induction s arbitrary: p) (auto split: list.splits if_splits)

lemma join_split_on: "join [c] (split_on c s) = s"
proof (induction s)
  case (Cons x xs)
  obtain p ps where eq: "split_on c xs = p # ps"
    by (metis split_on_not_Nil list.exhaust)
  show ?case
    using Cons eq by (cases ps) auto
qed simp

section \<open>White space\<close>

text \<open>
  \<open>strings.TrimSpace\<close> cuts the Unicode white space at both ends. In UTF-8 these are the ASCII
  blanks and the encodings of U+0085, U+00A0, U+1680, U+2000..U+200A, U+2028, U+2029, U+202F,
  U+205F and U+3000.
\<close>

definition ascii_space :: "char \<Rightarrow> bool" where
  "ascii_space c \<longleftrightarrow> c \<in> {CHR 0x09, CHR 0x0A, CHR 0x0B, CHR 0x0C, CHR 0x0D, CHR '' ''}"

definition space_runes :: "string list" where
  "space_runes =
     map (\<lambda>c. [c]) [CHR 0x09, CHR 0x0A, CHR 0x0B, CHR 0x0C, CHR 0x0D, CHR '' ''] @
     [[CHR 0xC2, CHR 0x85], [CHR 0xC2, CHR 0xA0], [CHR 0xE1, CHR 0x9A, CHR 0x80]] @
     map (\<lambda>c. [CHR 0xE2, CHR 0x80, c])
       [CHR 0x80, CHR 0x81, CHR 0x82, CHR 0x83, CHR 0x84, CHR 0x85, CHR 0x86, CHR 0x87,
        CHR 0x88, CHR 0x89, CHR 0x8A, CHR 0xA8, CHR 0xA9, CHR 0xAF] @
     [[CHR 0xE2, CHR 0x81, CHR 0x9F], [CHR 0xE3, CHR 0x80, CHR 0x80]]"

fun trim_left_fuel :: "nat \<Rightarrow> string \<Rightarrow> string" where
  "trim_left_fuel 0 s = s"
| "trim_left_fuel (Suc n) s =
     (case find (\<lambda>w. prefix w s) space_runes of
        None \<Rightarrow> s | Some w \<Rightarrow> trim_left_fuel n (drop (length w) s))"

fun trim_right_fuel :: "nat \<Rightarrow> string \<Rightarrow> string" where
  "trim_right_fuel 0 s = s"
| "trim_right_fuel (Suc n) s =
     (case find (\<lambda>w. suffix w s) space_runes of
        None \<Rightarrow> s | Some w \<Rightarrow> trim_right_fuel n (take (length s - length w) s))"

text \<open>Every round drops at least one byte, so the length of the string is enough fuel.\<close>

definition trim_left :: "string \<Rightarrow> string" where
  "trim_left s = trim_left_fuel (length s) s"

definition trim_right :: "string \<Rightarrow> string" where
  "trim_right s = trim_right_fuel (length s) s"

definition trim_space :: "string \<Rightarrow> string" where
  "trim_space s = trim_right (trim_left s)"

lemma space_runes_not_Nil: "w \<in> set space_runes \<Longrightarrow> w \<noteq> []"
  by (auto simp: space_runes_def)

lemma find_space_run:
  "find (\<lambda>w. prefix w s) space_runes = Some w \<Longrightarrow> prefix w s \<and> w \<in> set space_runes \<and> w \<noteq> []"
  by (metis find_Some_iff nth_mem space_runes_not_Nil)

lemma find_space_run_right:
  "find (\<lambda>w. suffix w s) space_runes = Some w \<Longrightarrow> suffix w s \<and> w \<in> set space_runes \<and> w \<noteq> []"
  by (metis find_Some_iff nth_mem space_runes_not_Nil)

lemma trim_left_fuel_done:
  "length s \<le> n \<Longrightarrow> w \<in> set space_runes \<Longrightarrow> \<not> prefix w (trim_left_fuel n s)"
proof (induction n arbitrary: s)
  case 0
  then show ?case using space_runes_not_Nil by auto
next
  case (Suc n)
  show ?case
  proof (cases "find (\<lambda>w. prefix w s) space_runes")
    case None
    then have "\<not> prefix w s" using Suc.prems(2) by (auto simp: find_None_iff)
    with None show ?thesis by simp
  next
    case (Some v)
    then have "v \<noteq> []" "prefix v s" using find_space_run by blast+
    then have "length (drop (length v) s) \<le> n"
      using Suc.prems(1) by (cases v) (auto dest!: prefix_length_le)
    with Suc Some show ?thesis by simp
  qed
qed

lemma trim_right_fuel_done:
  "length s \<le> n \<Longrightarrow> w \<in> set space_runes \<Longrightarrow> \<not> suffix w (trim_right_fuel n s)"
proof (induction n arbitrary: s)
  case 0
  then show ?case using space_runes_not_Nil by auto
next
  case (Suc n)
  show ?case
  proof (cases "find (\<lambda>w. suffix w s) space_runes")
    case None
    then have "\<not> suffix w s" using Suc.prems(2) by (auto simp: find_None_iff)
    with None show ?thesis by simp
  next
    case (Some v)
    then have "v \<noteq> []" "suffix v s" using find_space_run_right by blast+
    then have "length (take (length s - length v) s) \<le> n"
      using Suc.prems(1) by (cases v) (auto dest!: suffix_length_le)
    with Suc Some show ?thesis by simp
  qed
qed

lemma trim_space_no_trailing: "w \<in> set space_runes \<Longrightarrow> \<not> suffix w (trim_space s)"
  by (simp add: trim_space_def trim_right_def trim_right_fuel_done)

lemma trim_right_fuel_prefix: "prefix (trim_right_fuel n s) s"
proof (induction n arbitrary: s)
  case (Suc n)
  then show ?case
    by (auto split: option.splits intro: prefix_order.trans[OF _ take_is_prefix])
qed simp

lemma trim_left_fuel_suffix: "suffix (trim_left_fuel n s) s"
proof (induction n arbitrary: s)
  case (Suc n)
  then show ?case
    by (auto split: option.splits intro: suffix_order.trans[OF _ suffix_drop])
qed simp

lemma length_trim_space: "length (trim_space s) \<le> length s"
  using prefix_length_le [OF trim_right_fuel_prefix] suffix_length_le [OF trim_left_fuel_suffix]
  by (metis le_trans trim_left_def trim_right_def trim_space_def)

section \<open>Letter case\<close>

text \<open>
  The letters the code folds are ASCII: extensions, provider names, query keys, MusicBrainz ids,
  base 32 digits.
\<close>

definition lower_char :: "char \<Rightarrow> char" where
  "lower_char c = (if of_char c \<in> {65..90::nat} then char_of (of_char c + 32::nat) else c)"

definition to_lower :: "string \<Rightarrow> string" where
  "to_lower s = map lower_char s"

lemma length_to_lower [simp]: "length (to_lower s) = length s"
  by (simp add: to_lower_def)

section \<open>Hexadecimal and base 32\<close>

definition hex_digits :: string where
  "hex_digits = ''0123456789abcdef''"

fun hex_encode :: "bytes \<Rightarrow> string" where
  "hex_encode [] = []"
| "hex_encode (b # bs) =
     hex_digits ! (unat b div 16) # hex_digits ! (unat b mod 16) # hex_encode bs"

lemma length_hex_encode [simp]: "length (hex_encode bs) = 2 * length bs"
  by (induction bs) auto

lemma unat_u8_lt [simp]: "unat (b :: u8) < 256"
  using unsigned_less [of b] by simp

lemma nth_eq_hex: "i < 16 \<Longrightarrow> j < 16 \<Longrightarrow> hex_digits ! i = hex_digits ! j \<longleftrightarrow> i = j"
  by (rule nth_eq_iff_index_eq) (simp_all add: hex_digits_def)

lemma hex_encode_inj: "hex_encode xs = hex_encode ys \<Longrightarrow> xs = ys"
proof (induction xs arbitrary: ys)
  case Nil
  then show ?case by (cases ys) auto
next
  case (Cons x xs)
  then obtain y zs where ys: "ys = y # zs" by (cases ys) auto
  have lt: "unat x div 16 < 16" "unat y div 16 < 16"
    by (simp_all add: less_mult_imp_div_less)
  with Cons.prems ys have "unat x div 16 = unat y div 16" and "unat x mod 16 = unat y mod 16"
    by (simp_all add: nth_eq_hex)
  then have "unat x = unat y"
    by (metis div_mult_mod_eq)
  with Cons ys show ?case by (auto simp: word_unat_eq_iff)
qed

definition base32_lower :: string where
  "base32_lower = ''abcdefghijklmnopqrstuvwxyz234567''"

text \<open>The number five bytes spell, most significant byte first, and its eight base-32 digits.\<close>

definition be_nat :: "bytes \<Rightarrow> nat" where
  "be_nat bs = foldl (\<lambda>n b. 256 * n + unat b) 0 bs"

definition base32_encode5 :: "bytes \<Rightarrow> string" where
  "base32_encode5 bs =
     map (\<lambda>i. base32_lower ! (be_nat bs div 32 ^ i mod 32)) [7, 6, 5, 4, 3, 2, 1, 0]"

text \<open>\<open>NewID\<close>: a registry prefix and 40 random bits in lower-case base 32 without padding.\<close>

definition new_id :: "string \<Rightarrow> bytes \<Rightarrow> string" where
  "new_id pre b = pre @ ''_'' @ base32_encode5 b"

lemma foldl_bytes:
  "foldl (\<lambda>n b. 256 * n + unat (b::u8)) a bs = a * 256 ^ length bs + be_nat bs"
  unfolding be_nat_def
proof (induction bs arbitrary: a)
  case (Cons b bs)
  show ?case
    using Cons [of "256 * a + unat b"] Cons [of "unat b"] by (simp add: algebra_simps)
qed simp

lemma be_nat_Cons: "be_nat (b # bs) = unat b * 256 ^ length bs + be_nat bs"
  using foldl_bytes [of "unat b" bs] by (simp add: be_nat_def)

lemma be_nat_Nil [simp]: "be_nat [] = 0"
  by (simp add: be_nat_def)

lemma be_nat_bound: "be_nat bs < 256 ^ length bs"
proof (induction bs)
  case (Cons b bs)
  have "unat b * 256 ^ length bs + be_nat bs < unat b * 256 ^ length bs + 256 ^ length bs"
    using Cons by simp
  also have "\<dots> = (unat b + 1) * 256 ^ length bs" by (simp add: algebra_simps)
  also have "\<dots> \<le> 256 * 256 ^ length bs"
    by (rule mult_le_mono1) (use unat_u8_lt [of b] in linarith)
  finally show ?case by (simp add: be_nat_Cons)
qed simp

lemma be_nat_inj: "length xs = length ys \<Longrightarrow> be_nat xs = be_nat ys \<Longrightarrow> xs = ys"
proof (induction xs ys rule: list_induct2)
  case (Cons x xs y ys)
  let ?B = "256 ^ length xs :: nat"
  have eq: "unat x * ?B + be_nat xs = unat y * ?B + be_nat ys"
    using Cons by (simp add: be_nat_Cons)
  have b: "be_nat xs < ?B" "be_nat ys < ?B"
    using be_nat_bound [of xs] be_nat_bound [of ys] Cons by simp_all
  have "(unat x * ?B + be_nat xs) div ?B = unat x" "(unat y * ?B + be_nat ys) div ?B = unat y"
    using b by simp_all
  with eq have "unat x = unat y" by simp
  with eq Cons.IH show ?case by (simp add: word_unat_eq_iff)
qed simp

lemma nth_eq_base32: "i < 32 \<Longrightarrow> j < 32 \<Longrightarrow> base32_lower ! i = base32_lower ! j \<longleftrightarrow> i = j"
  by (rule nth_eq_iff_index_eq) (simp_all add: base32_lower_def)

lemma digits32_eq:
  assumes "\<forall>i < k. (m::nat) div 32 ^ i mod 32 = n div 32 ^ i mod 32"
    and "m < 32 ^ k" and "n < 32 ^ k"
  shows "m = n"
  using assms
proof (induction k arbitrary: m n)
  case (Suc k)
  have "\<forall>i < k. (m div 32) div 32 ^ i mod 32 = (n div 32) div 32 ^ i mod 32"
    using Suc.prems(1) by (auto simp flip: div_mult2_eq dest: spec [of _ "Suc _"])
  moreover have "m div 32 < 32 ^ k" "n div 32 < 32 ^ k"
    using Suc.prems(2,3) by (simp_all add: less_mult_imp_div_less mult.commute)
  ultimately have "m div 32 = n div 32" by (rule Suc.IH)
  moreover have "m mod 32 = n mod 32"
    using Suc.prems(1) by (auto dest: spec [of _ 0])
  ultimately show ?case by (metis div_mult_mod_eq)
qed simp

text \<open>Distinct random bytes give distinct identifiers of one kind.\<close>

lemma new_id_inj:
  assumes "length x = 5" and "length y = 5" and "new_id p x = new_id p y"
  shows "x = y"
proof -
  let ?is = "[7, 6, 5, 4, 3, 2, 1, 0] :: nat list"
  have "\<forall>i \<in> set ?is. base32_lower ! (be_nat x div 32 ^ i mod 32) =
      base32_lower ! (be_nat y div 32 ^ i mod 32)"
    using assms(3) by (simp only: new_id_def base32_encode5_def append_same_eq same_append_eq map_eq_conv)
  then have "\<forall>i \<in> set ?is. be_nat x div 32 ^ i mod 32 = be_nat y div 32 ^ i mod 32"
    by (simp only: nth_eq_base32 mod_less_divisor zero_less_numeral)
  moreover have "set ?is = {..<8}" by (auto simp: lessThan_Suc numeral_eq_Suc)
  ultimately have "\<forall>i < 8. be_nat x div 32 ^ i mod 32 = be_nat y div 32 ^ i mod 32"
    by blast
  moreover have "be_nat x < 32 ^ 8" "be_nat y < 32 ^ 8"
    using be_nat_bound [of x] be_nat_bound [of y] assms(1,2) by simp_all
  ultimately have "be_nat x = be_nat y" by (rule digits32_eq)
  then show ?thesis using assms(1,2) be_nat_inj by metis
qed

lemma new_id_not_Nil [simp]: "new_id p b \<noteq> []"
  by (simp add: new_id_def)

section \<open>Codes and bearer tokens\<close>

definition codeAlphabet :: string where
  "codeAlphabet = ''ABCDEFGHJKMNPQRSTVWXYZ23456789''"

text \<open>\<open>newCode\<close>: six letters, each drawn as an index below the alphabet's length.\<close>

definition newCode :: "nat list \<Rightarrow> string" where
  "newCode ns = map (\<lambda>n. codeAlphabet ! n) ns"

definition newRawToken :: "bytes \<Rightarrow> string" where
  "newRawToken b = ''blt_'' @ hex_encode b"

lemma codeAlphabet_length: "length codeAlphabet = 30"
  by (simp add: codeAlphabet_def)

lemma newRawToken_inj: "newRawToken x = newRawToken y \<Longrightarrow> x = y"
  by (simp add: newRawToken_def hex_encode_inj)

lemma newCode_unambiguous:
  assumes "\<forall>n \<in> set ns. n < length codeAlphabet"
  shows "set (newCode ns) \<inter> set ''01OILU'' = {}"
proof -
  have "set (newCode ns) \<subseteq> set codeAlphabet"
    using assms by (auto simp: newCode_def)
  moreover have "set codeAlphabet \<inter> set ''01OILU'' = {}"
    by (simp add: codeAlphabet_def)
  ultimately show ?thesis by blast
qed


section \<open>Decimal numbers\<close>

text \<open>\<open>%d\<close> of a natural number.\<close>

fun decimal :: "nat \<Rightarrow> string" where
  "decimal n = (if n < 10 then [char_of (48 + n)] else decimal (n div 10) @ [char_of (48 + n mod 10)])"

declare decimal.simps [simp del]

lemma decimal_small: "n < 10 \<Longrightarrow> decimal n = [char_of (48 + n)]"
  by (simp add: decimal.simps)

lemma decimal_nonempty: "decimal n \<noteq> []"
  by (subst decimal.simps) simp

section \<open>Parsing decimal numbers\<close>

definition digit_val :: "char \<Rightarrow> nat option" where
  "digit_val c = (if 48 \<le> (of_char c :: nat) \<and> (of_char c :: nat) \<le> 57 then Some (of_char c - 48) else None)"

fun parse_digits :: "nat \<Rightarrow> string \<Rightarrow> nat option" where
  "parse_digits acc [] = Some acc"
| "parse_digits acc (c # cs) =
     (case digit_val c of None \<Rightarrow> None | Some d \<Rightarrow> parse_digits (acc * 10 + d) cs)"

text \<open>\<open>strconv.ParseInt(s, 10, 64)\<close>: a sign, at least one digit, within 64 bits.\<close>

definition parse_int64 :: "string \<Rightarrow> int option" where
  "parse_int64 s =
     (let (neg, ds) = (case s of [] \<Rightarrow> (False, [])
                       | c # cs \<Rightarrow> if c = CHR ''-'' then (True, cs) else if c = CHR ''+'' then (False, cs) else (False, s))
      in if ds = [] then None
         else case parse_digits 0 ds of
                None \<Rightarrow> None
              | Some n \<Rightarrow>
                  (let v = (if neg then - int n else int n)
                   in if - (2 ^ 63) \<le> v \<and> v < 2 ^ 63 then Some v else None))"

definition format_int :: "int \<Rightarrow> string" where
  "format_int v = (if v < 0 then ''-'' @ decimal (nat (- v)) else decimal (nat v))"

lemma digit_val_char_of: "d < 10 \<Longrightarrow> digit_val (char_of (48 + d)) = Some d"
  by (simp add: digit_val_def)

lemma parse_digits_append:
  "parse_digits acc (xs @ ys) = (case parse_digits acc xs of None \<Rightarrow> None | Some a \<Rightarrow> parse_digits a ys)"
  by (induction xs arbitrary: acc) (auto split: option.splits)

lemma parse_digits_decimal: "parse_digits 0 (decimal n) = Some n"
proof (induction n rule: decimal.induct)
  case (1 n)
  show ?case
  proof (cases "n < 10")
    case True
    then show ?thesis by (simp add: decimal_small digit_val_char_of)
  next
    case False
    then have "parse_digits 0 (decimal (n div 10)) = Some (n div 10)" using 1 by simp
    with False show ?thesis
      by (subst decimal.simps) (simp add: parse_digits_append digit_val_char_of mult.commute)
  qed
qed

definition is_digit :: "char \<Rightarrow> bool" where
  "is_digit c \<longleftrightarrow> digit_val c \<noteq> None"

lemma decimal_digits: "c \<in> set (decimal n) \<Longrightarrow> is_digit c"
proof (induction n rule: decimal.induct)
  case (1 n)
  show ?case
  proof (cases "n < 10")
    case True
    then show ?thesis using 1(2) by (simp add: decimal_small is_digit_def digit_val_char_of)
  next
    case False
    then have "c \<in> set (decimal (n div 10)) \<or> c = char_of (48 + n mod 10)"
      using 1(2) by (subst (asm) decimal.simps) auto
    then show ?thesis using 1(1) [OF False] by (auto simp: is_digit_def digit_val_char_of)
  qed
qed

lemma decimal_inj: "decimal m = decimal n \<Longrightarrow> m = n"
  using parse_digits_decimal by (metis option.inject)

lemma parse_format_int:
  assumes "- (2 ^ 63) \<le> v" and "v < 2 ^ 63"
  shows "parse_int64 (format_int v) = Some v"
proof (cases "v < 0")
  case True
  then show ?thesis using assms parse_digits_decimal [of "nat (- v)"]
    by (simp add: parse_int64_def format_int_def decimal_nonempty)
next
  case False
  obtain c cs where d: "decimal (nat v) = c # cs" using decimal_nonempty by (cases "decimal (nat v)") auto
  then have "is_digit c" using decimal_digits [of c "nat v"] by simp
  then have "c \<noteq> CHR ''-''" "c \<noteq> CHR ''+''" by (auto simp: is_digit_def digit_val_def)
  with False d show ?thesis using assms parse_digits_decimal [of "nat v"]
    by (simp add: parse_int64_def format_int_def)
qed

section \<open>Decoding hexadecimal\<close>

definition hex_val :: "char \<Rightarrow> u8 option" where
  "hex_val c =
     (let n = (of_char c :: nat) in
      if 48 \<le> n \<and> n \<le> 57 then Some (of_nat (n - 48))
      else if 97 \<le> n \<and> n \<le> 102 then Some (of_nat (n - 87))
      else if 65 \<le> n \<and> n \<le> 70 then Some (of_nat (n - 55)) else None)"

text \<open>\<open>hex.DecodeString\<close>: an even number of digits, of either case.\<close>

fun hex_decode :: "string \<Rightarrow> bytes option" where
  "hex_decode [] = Some []"
| "hex_decode [c] = None"
| "hex_decode (a # b # cs) =
     (case (hex_val a, hex_val b, hex_decode cs) of
        (Some x, Some y, Some bs) \<Rightarrow> Some ((16 * x + y) # bs)
      | _ \<Rightarrow> None)"

lemma hex_val_digit: "i < 16 \<Longrightarrow> hex_val (hex_digits ! i) = Some (of_nat i)"
proof -
  have "\<forall>i \<in> set [0..<16]. hex_val (hex_digits ! i) = Some (of_nat i)"
    by (simp add: upt_rec hex_val_def hex_digits_def)
  then show "i < 16 \<Longrightarrow> hex_val (hex_digits ! i) = Some (of_nat i)" by simp
qed

lemma hex_decode_encode: "hex_decode (hex_encode bs) = Some bs"
proof (induction bs)
  case (Cons b bs)
  have lt: "unat b div 16 < 16" by (simp add: less_mult_imp_div_less)
  have "16 * of_nat (unat b div 16) + of_nat (unat b mod 16) = (of_nat (16 * (unat b div 16) + unat b mod 16) :: u8)"
    by (simp only: of_nat_add of_nat_mult of_nat_numeral)
  then have "16 * of_nat (unat b div 16) + of_nat (unat b mod 16) = b" by simp
  with Cons lt show ?case by (simp add: hex_val_digit)
qed simp

end
