(* ===== verification/StoreRows.thy ===== *)
theory StoreRows
  imports GoText
begin

text \<open>
  The row types the store hands to its clients (\<open>internal/store/library.go\<close>,
  \<open>internal/store/profiles.go\<close>) and the outcome of a single-row query. Go's \<open>int\<close> and \<open>int64\<close>
  columns are \<open>int\<close>; none of the arithmetic on them comes near 64 bits.
\<close>

text \<open>
  A query for one row returns it, reports that there is none (\<open>sql.ErrNoRows\<close>, which the accessors
  turn into \<open>found = false\<close>), or fails in the database.
\<close>

datatype 'a lookup = Found 'a | NoRows | DbFailed

record ArtistCreditRow =
  acr_ArtistID :: string
  acr_Name :: string
  acr_JoinPhrase :: string
  acr_MusicBrainzID :: string

record TrackRow =
  tr_TrackID :: string
  tr_Title :: string
  tr_Index :: int
  tr_Disc :: int
  tr_ArtistID :: string
  tr_ArtistName :: string
  tr_AlbumID :: string
  tr_AlbumTitle :: string
  tr_Genre :: string
  tr_DurationMs :: int
  tr_ArtID :: string
  tr_Container :: string
  tr_Codec :: string
  tr_BitrateKbps :: int
  tr_SizeBytes :: int
  tr_PrimaryArtist :: ArtistCreditRow
  tr_ArtistCredits :: "ArtistCreditRow list"
  tr_MusicBrainzRecordingID :: string

record ProfileRecord =
  pr_ProfileID :: string
  pr_Name :: string
  pr_HasPin :: bool
  pr_AvatarColor :: string
  pr_ShareListening :: bool

text \<open>A concrete track and profile for the examples.\<close>

definition sample_track :: "string \<Rightarrow> TrackRow" where
  "sample_track tid =
     \<lparr>tr_TrackID = tid, tr_Title = ''t'', tr_Index = 1, tr_Disc = 1, tr_ArtistID = ''art_a'',
      tr_ArtistName = ''A'', tr_AlbumID = ''alb_a'', tr_AlbumTitle = ''Al'', tr_Genre = '''',
      tr_DurationMs = 200000, tr_ArtID = '''', tr_Container = ''flac'', tr_Codec = ''flac'',
      tr_BitrateKbps = 900, tr_SizeBytes = 1000,
      tr_PrimaryArtist = \<lparr>acr_ArtistID = ''art_a'', acr_Name = ''A'', acr_JoinPhrase = '''',
        acr_MusicBrainzID = ''''\<rparr>,
      tr_ArtistCredits = [], tr_MusicBrainzRecordingID = ''''\<rparr>"

definition sample_profile :: "string \<Rightarrow> ProfileRecord" where
  "sample_profile pid =
     \<lparr>pr_ProfileID = pid, pr_Name = ''P'', pr_HasPin = False, pr_AvatarColor = '''',
      pr_ShareListening = True\<rparr>"

end
