(* ===== verification/Parties.thy ===== *)
theory Parties
  imports StoreRows
begin

text \<open>
  Listen parties, \<open>internal/party/manager.go\<close>: the live parties of the process, their members,
  invitations, queue and timeline, and every operation of \<open>Manager\<close>. An operation is the section
  the code runs under \<open>m.mu\<close>; the broadcast that follows it reads the party as the operation left
  it. The store's lookups (\<open>GetProfileRecord\<close>, \<open>GetTrack\<close>), the random bytes of new identifiers,
  the clock and the order in which Go walks a map are arguments.
\<close>

section \<open>State\<close>

datatype party_err = PErrNotFound string string | PErrHostOnly string | PErrStore

record Member =
  mem_ProfileID :: string
  mem_Name :: string

record QueueItem =
  qi_ItemID :: string
  qi_AddedBy :: string
  qi_Track :: TrackRow
  qi_played :: bool

record PState =
  ps_TrackID :: string
  ps_Paused :: bool
  ps_PositionMs :: int
  ps_AsOf :: gotime

record Party =
  py_PartyID :: string
  py_Name :: string
  py_HostProfileID :: string
  py_Members :: "Member list"
  py_Queue :: "QueueItem list"
  py_State :: PState
  py_CreatedAt :: gotime

text \<open>The private part of a live party: the two sets behind \<open>map[string]bool\<close> and the cursor.\<close>

record party = Party +
  py_invited :: "string set"
  py_members :: "string set"
  py_current :: int

record manager =
  mg_parties :: "string \<rightharpoonup> party"

text \<open>The bus events a party causes: the recipient and the payload.\<close>

datatype party_event =
  PartyUpdated string string bool int seconds "string option"
| PartyInvited string string string string seconds "string option"

type_synonym lookup_profile = "string \<Rightarrow> ProfileRecord lookup"
type_synonym lookup_track = "string \<Rightarrow> TrackRow lookup"
type_synonym map_order = "string set \<Rightarrow> string list"

text \<open>Go ranges over a map in some order that visits every key once.\<close>

definition visits_all :: "map_order \<Rightarrow> bool" where
  "visits_all ord \<longleftrightarrow> (\<forall>S. finite S \<longrightarrow> distinct (ord S) \<and> set (ord S) = S)"

section \<open>Operations\<close>

definition NewManager :: manager where
  "NewManager = \<lparr>mg_parties = Map.empty\<rparr>"

definition snapshot :: "party \<Rightarrow> Party" where
  "snapshot p = Party.truncate p"

definition Create ::
  "manager \<Rightarrow> ProfileRecord lookup \<Rightarrow> string \<Rightarrow> string \<Rightarrow> bytes \<Rightarrow> gotime \<Rightarrow>
   manager \<times> (party_err + Party)" where
  "Create m prof host name rnd now =
     (case prof of
        DbFailed \<Rightarrow> (m, Inl PErrStore)
      | NoRows \<Rightarrow> (m, Inl (PErrNotFound ''profile'' host))
      | Found pr \<Rightarrow>
          (let pid = new_id ''pty'' rnd;
               p = \<lparr>py_PartyID = pid, py_Name = name, py_HostProfileID = host,
                    py_Members = [\<lparr>mem_ProfileID = host, mem_Name = pr_Name pr\<rparr>],
                    py_Queue = [],
                    py_State = \<lparr>ps_TrackID = '''', ps_Paused = True, ps_PositionMs = 0, ps_AsOf = now\<rparr>,
                    py_CreatedAt = now, py_invited = {}, py_members = {host}, py_current = - 1\<rparr>
           in (m\<lparr>mg_parties := (mg_parties m)(pid \<mapsto> p)\<rparr>, Inr (snapshot p))))"

definition Get :: "manager \<Rightarrow> string \<Rightarrow> string \<Rightarrow> party_err + Party" where
  "Get m partyID profileID =
     (case mg_parties m partyID of
        None \<Rightarrow> Inl (PErrNotFound ''party'' partyID)
      | Some p \<Rightarrow>
          if profileID \<notin> py_members p \<and> profileID \<notin> py_invited p
          then Inl (PErrNotFound ''party'' partyID) else Inr (snapshot p))"

definition ListFor :: "map_order \<Rightarrow> manager \<Rightarrow> string \<Rightarrow> Party list" where
  "ListFor ord m profileID =
     List.concat (map (\<lambda>pid. case mg_parties m pid of
         None \<Rightarrow> []
       | Some p \<Rightarrow>
           if profileID \<in> py_members p \<or> profileID \<in> py_invited p then [snapshot p] else [])
       (ord (dom (mg_parties m))))"

definition publishUpdated :: "map_order \<Rightarrow> party \<Rightarrow> (string \<times> party_event) list" where
  "publishUpdated ord p =
     (let s = py_State p;
          ev = PartyUpdated (py_PartyID p) ''party.updated'' (ps_Paused s) (ps_PositionMs s)
                 (unix (ps_AsOf s)) (if ps_TrackID s \<noteq> '''' then Some (ps_TrackID s) else None)
      in map (\<lambda>member. (member, ev)) (ord (py_members p)))"

text \<open>The tail shared by the mutating operations: look the party up again, then publish it.\<close>

definition broadcast :: "map_order \<Rightarrow> manager \<Rightarrow> string \<Rightarrow> (string \<times> party_event) list" where
  "broadcast ord m partyID =
     (case mg_parties m partyID of None \<Rightarrow> [] | Some pp \<Rightarrow> publishUpdated ord pp)"

text \<open>
  The loop of \<open>Invite\<close>: it returns at the first unknown profile, keeping the invitations made
  before it; the collected ids are notified only when the loop completes.
\<close>

fun invite_loop ::
  "lookup_profile \<Rightarrow> party \<Rightarrow> string list \<Rightarrow> string list \<Rightarrow>
   party \<times> (party_err + string list)" where
  "invite_loop profiles p [] acc = (p, Inr acc)"
| "invite_loop profiles p (i # is) acc =
     (case profiles i of
        Found _ \<Rightarrow>
          (if i \<notin> py_members p
           then invite_loop profiles (p\<lparr>py_invited := insert i (py_invited p)\<rparr>) is (acc @ [i])
           else invite_loop profiles p is acc)
      | _ \<Rightarrow> (p, Inl (PErrNotFound ''profile'' i)))"

definition Invite ::
  "manager \<Rightarrow> lookup_profile \<Rightarrow> string \<Rightarrow> string \<Rightarrow> string list \<Rightarrow> gotime \<Rightarrow>
   manager \<times> (party_err + unit) \<times> (string \<times> party_event) list" where
  "Invite m profiles partyID byProfileID profileIDs now =
     (case mg_parties m partyID of
        None \<Rightarrow> (m, Inl (PErrNotFound ''party'' partyID), [])
      | Some p \<Rightarrow>
          if byProfileID \<notin> py_members p then (m, Inl (PErrNotFound ''party'' partyID), [])
          else
            (let hostName = (case profiles byProfileID of Found r \<Rightarrow> pr_Name r | _ \<Rightarrow> '''')
             in case invite_loop profiles p profileIDs [] of
                  (p', r) \<Rightarrow>
                    (m\<lparr>mg_parties := (mg_parties m)(partyID \<mapsto> p')\<rparr>,
                     (case r of
                        Inl e \<Rightarrow> (Inl e, [])
                      | Inr invited \<Rightarrow>
                          (Inr (), map (\<lambda>i. (i, PartyInvited partyID ''party.invited'' byProfileID
                                     hostName (unix now)
                                     (if py_Name p \<noteq> '''' then Some (py_Name p) else None))) invited)))))"

definition join_locked :: "party \<Rightarrow> string \<Rightarrow> string \<Rightarrow> party" where
  "join_locked p profileID name =
     (if profileID \<notin> py_members p
      then p\<lparr>py_members := insert profileID (py_members p),
             py_invited := py_invited p - {profileID},
             py_Members := py_Members p @ [\<lparr>mem_ProfileID = profileID, mem_Name = name\<rparr>]\<rparr>
      else p)"

definition Join ::
  "map_order \<Rightarrow> manager \<Rightarrow> ProfileRecord lookup \<Rightarrow> string \<Rightarrow> string \<Rightarrow>
   manager \<times> (party_err + Party) \<times> (string \<times> party_event) list" where
  "Join ord m prof partyID profileID =
     (case prof of
        Found pr \<Rightarrow>
          (case mg_parties m partyID of
             None \<Rightarrow> (m, Inl (PErrNotFound ''party'' partyID), [])
           | Some p \<Rightarrow>
               (let p' = join_locked p profileID (pr_Name pr);
                    m' = m\<lparr>mg_parties := (mg_parties m)(partyID \<mapsto> p')\<rparr>
                in (m', Inr (snapshot p'), broadcast ord m' partyID)))
      | _ \<Rightarrow> (m, Inl (PErrNotFound ''profile'' profileID), []))"

fun remove_first :: "string \<Rightarrow> Member list \<Rightarrow> Member list" where
  "remove_first profileID [] = []"
| "remove_first profileID (x # xs) =
     (if mem_ProfileID x = profileID then xs else x # remove_first profileID xs)"

definition removeMember :: "party \<Rightarrow> string \<Rightarrow> party" where
  "removeMember p profileID =
     p\<lparr>py_members := py_members p - {profileID}, py_invited := py_invited p - {profileID},
       py_Members := remove_first profileID (py_Members p)\<rparr>"

definition Leave ::
  "map_order \<Rightarrow> manager \<Rightarrow> string \<Rightarrow> string \<Rightarrow>
   manager \<times> (party_err + unit) \<times> (string \<times> party_event) list" where
  "Leave ord m partyID profileID =
     (case mg_parties m partyID of
        None \<Rightarrow> (m, Inl (PErrNotFound ''party'' partyID), [])
      | Some p \<Rightarrow>
          if profileID \<notin> py_members p then (m, Inl (PErrNotFound ''party'' partyID), [])
          else if py_HostProfileID p = profileID
          then (m\<lparr>mg_parties := (mg_parties m)(partyID := None)\<rparr>, Inr (), [])
          else (let m' = m\<lparr>mg_parties := (mg_parties m)(partyID \<mapsto> removeMember p profileID)\<rparr>
                in (m', Inr (), broadcast ord m' partyID)))"

definition End :: "manager \<Rightarrow> string \<Rightarrow> string \<Rightarrow> manager \<times> (party_err + unit)" where
  "End m partyID profileID =
     (case mg_parties m partyID of
        None \<Rightarrow> (m, Inl (PErrNotFound ''party'' partyID))
      | Some p \<Rightarrow>
          if py_HostProfileID p \<noteq> profileID then (m, Inl (PErrHostOnly partyID))
          else (m\<lparr>mg_parties := (mg_parties m)(partyID := None)\<rparr>, Inr ()))"

definition Kick ::
  "map_order \<Rightarrow> manager \<Rightarrow> string \<Rightarrow> string \<Rightarrow> string \<Rightarrow>
   manager \<times> (party_err + unit) \<times> (string \<times> party_event) list" where
  "Kick ord m partyID byProfileID targetProfileID =
     (case mg_parties m partyID of
        None \<Rightarrow> (m, Inl (PErrNotFound ''party'' partyID), [])
      | Some p \<Rightarrow>
          if byProfileID \<notin> py_members p then (m, Inl (PErrNotFound ''party'' partyID), [])
          else if py_HostProfileID p \<noteq> byProfileID then (m, Inl (PErrHostOnly partyID), [])
          else (let m' = m\<lparr>mg_parties := (mg_parties m)(partyID \<mapsto> removeMember p targetProfileID)\<rparr>
                in (m', Inr (), broadcast ord m' partyID)))"

fun resolve_tracks :: "lookup_track \<Rightarrow> string list \<Rightarrow> party_err + TrackRow list" where
  "resolve_tracks tracks [] = Inr []"
| "resolve_tracks tracks (i # is) =
     (case tracks i of
        DbFailed \<Rightarrow> Inl PErrStore
      | NoRows \<Rightarrow> Inl (PErrNotFound ''track'' i)
      | Found tr \<Rightarrow>
          (case resolve_tracks tracks is of Inl e \<Rightarrow> Inl e | Inr rows \<Rightarrow> Inr (tr # rows)))"

definition queue_rows :: "string \<Rightarrow> TrackRow list \<Rightarrow> bytes list \<Rightarrow> QueueItem list" where
  "queue_rows profileID rows rnds =
     map (\<lambda>(tr, rnd). \<lparr>qi_ItemID = new_id ''pqi'' rnd, qi_AddedBy = profileID, qi_Track = tr,
                       qi_played = False\<rparr>) (zip rows rnds)"

text \<open>\<open>rnds\<close> holds the random bytes of as many identifiers as there are tracks.\<close>

definition AppendQueue ::
  "map_order \<Rightarrow> manager \<Rightarrow> lookup_track \<Rightarrow> string \<Rightarrow> string \<Rightarrow> string list \<Rightarrow> bytes list \<Rightarrow>
   manager \<times> (party_err + unit) \<times> (string \<times> party_event) list" where
  "AppendQueue ord m tracks partyID profileID trackIDs rnds =
     (case resolve_tracks tracks trackIDs of
        Inl e \<Rightarrow> (m, Inl e, [])
      | Inr rows \<Rightarrow>
          (case mg_parties m partyID of
             None \<Rightarrow> (m, Inl (PErrNotFound ''party'' partyID), [])
           | Some p \<Rightarrow>
               if profileID \<notin> py_members p then (m, Inl (PErrNotFound ''party'' partyID), [])
               else (let m' = m\<lparr>mg_parties := (mg_parties m)
                             (partyID \<mapsto> p\<lparr>py_Queue := py_Queue p @ queue_rows profileID rows rnds\<rparr>)\<rparr>
                     in (m', Inr (), broadcast ord m' partyID))))"

text \<open>\<open>nextUnplayed\<close>: the loop from the item after the current one.\<close>

fun scan_unplayed :: "QueueItem list \<Rightarrow> int \<Rightarrow> int" where
  "scan_unplayed [] i = - 1"
| "scan_unplayed (q # qs) i = (if \<not> qi_played q then i else scan_unplayed qs (i + 1))"

definition nextUnplayed :: "party \<Rightarrow> int" where
  "nextUnplayed p = scan_unplayed (drop (nat (py_current p + 1)) (py_Queue p)) (py_current p + 1)"

definition materialize :: "gotime \<Rightarrow> PState \<Rightarrow> PState" where
  "materialize now s =
     (if \<not> ps_Paused s \<and> ps_TrackID s \<noteq> ''''
      then s\<lparr>ps_PositionMs := ps_PositionMs s + milliseconds (now - ps_AsOf s), ps_AsOf := now\<rparr>
      else s\<lparr>ps_AsOf := now\<rparr>)"

text \<open>Taking queue item \<open>next\<close>: the cursor, the played mark, the track and position 0.\<close>

definition take_item :: "party \<Rightarrow> int \<Rightarrow> party" where
  "take_item p next =
     p\<lparr>py_current := next,
       py_Queue := (py_Queue p)[nat next := (py_Queue p ! nat next)\<lparr>qi_played := True\<rparr>],
       py_State := (py_State p)\<lparr>ps_TrackID := tr_TrackID (qi_Track (py_Queue p ! nat next)),
                                ps_PositionMs := 0\<rparr>\<rparr>"

definition set_state :: "(PState \<Rightarrow> PState) \<Rightarrow> party \<Rightarrow> party" where
  "set_state f p = p\<lparr>py_State := f (py_State p)\<rparr>"

definition apply_play :: "party \<Rightarrow> party" where
  "apply_play p =
     (let p1 = (if ps_TrackID (py_State p) = '''' \<and> 0 \<le> nextUnplayed p
                then take_item p (nextUnplayed p) else p)
      in if ps_TrackID (py_State p1) \<noteq> '''' then set_state (\<lambda>s. s\<lparr>ps_Paused := False\<rparr>) p1 else p1)"

definition apply_skip :: "party \<Rightarrow> party" where
  "apply_skip p =
     (if 0 \<le> nextUnplayed p
      then set_state (\<lambda>s. s\<lparr>ps_Paused := False\<rparr>) (take_item p (nextUnplayed p))
      else set_state (\<lambda>s. s\<lparr>ps_TrackID := '''', ps_PositionMs := 0, ps_Paused := True\<rparr>) p)"

definition apply_action :: "party \<Rightarrow> string \<Rightarrow> int \<Rightarrow> party option" where
  "apply_action p action positionMs =
     (if action = ''play'' then Some (apply_play p)
      else if action = ''pause'' then Some (set_state (\<lambda>s. s\<lparr>ps_Paused := True\<rparr>) p)
      else if action = ''seek'' then Some (set_state (\<lambda>s. s\<lparr>ps_PositionMs := positionMs\<rparr>) p)
      else if action = ''skip'' then Some (apply_skip p)
      else None)"

definition Transport ::
  "map_order \<Rightarrow> manager \<Rightarrow> string \<Rightarrow> string \<Rightarrow> string \<Rightarrow> int \<Rightarrow> gotime \<Rightarrow>
   manager \<times> (party_err + PState) \<times> (string \<times> party_event) list" where
  "Transport ord m partyID profileID action positionMs now =
     (case mg_parties m partyID of
        None \<Rightarrow> (m, Inl (PErrNotFound ''party'' partyID), [])
      | Some p \<Rightarrow>
          if profileID \<notin> py_members p then (m, Inl (PErrNotFound ''party'' partyID), [])
          else if py_HostProfileID p \<noteq> profileID then (m, Inl (PErrHostOnly partyID), [])
          else
            (let p1 = set_state (materialize now) p
             in case apply_action p1 action positionMs of
                  None \<Rightarrow> (m\<lparr>mg_parties := (mg_parties m)(partyID \<mapsto> p1)\<rparr>,
                           Inl (PErrNotFound ''action'' action), [])
                | Some p2 \<Rightarrow>
                    (let m' = m\<lparr>mg_parties := (mg_parties m)(partyID \<mapsto> p2)\<rparr>
                     in (m', Inr (py_State p2), broadcast ord m' partyID))))"

section \<open>Every operation as one step\<close>

datatype party_op =
  OpCreate "ProfileRecord lookup" string string bytes gotime
| OpInvite lookup_profile string string "string list" gotime
| OpJoin map_order "ProfileRecord lookup" string string
| OpLeave map_order string string
| OpEnd string string
| OpKick map_order string string string
| OpAppendQueue map_order lookup_track string string "string list" "bytes list"
| OpTransport map_order string string string int gotime

fun party_step :: "manager \<Rightarrow> party_op \<Rightarrow> manager" where
  "party_step m (OpCreate prof host name rnd now) = fst (Create m prof host name rnd now)"
| "party_step m (OpInvite profiles pid by ids now) = fst (Invite m profiles pid by ids now)"
| "party_step m (OpJoin ord prof pid who) = fst (Join ord m prof pid who)"
| "party_step m (OpLeave ord pid who) = fst (Leave ord m pid who)"
| "party_step m (OpEnd pid who) = fst (End m pid who)"
| "party_step m (OpKick ord pid by target) = fst (Kick ord m pid by target)"
| "party_step m (OpAppendQueue ord tracks pid who ids rnds) =
     fst (AppendQueue ord m tracks pid who ids rnds)"
| "party_step m (OpTransport ord pid who action pos now) =
     fst (Transport ord m pid who action pos now)"

section \<open>The invariant of a live party\<close>

text \<open>
  The member list and the member set agree and nobody is both member and invited; the cursor is a
  queue index or -1 and no item after it has been played; a running or loaded timeline shows the
  item under the cursor.
\<close>

definition roster_ok :: "party \<Rightarrow> bool" where
  "roster_ok p \<longleftrightarrow> py_members p = mem_ProfileID ` set (py_Members p) \<and>
     distinct (map mem_ProfileID (py_Members p)) \<and> py_invited p \<inter> py_members p = {}"

definition queue_ok :: "party \<Rightarrow> bool" where
  "queue_ok p \<longleftrightarrow> - 1 \<le> py_current p \<and> py_current p < int (length (py_Queue p)) \<and>
     (\<forall>i < length (py_Queue p). qi_played (py_Queue p ! i) \<longrightarrow> int i \<le> py_current p)"

definition timeline_ok :: "party \<Rightarrow> bool" where
  "timeline_ok p \<longleftrightarrow>
     (\<not> ps_Paused (py_State p) \<or> ps_TrackID (py_State p) \<noteq> '''' \<longrightarrow>
        0 \<le> py_current p \<and>
        ps_TrackID (py_State p) = tr_TrackID (qi_Track (py_Queue p ! nat (py_current p))))"

definition party_inv :: "party \<Rightarrow> bool" where
  "party_inv p \<longleftrightarrow> roster_ok p \<and> queue_ok p \<and> timeline_ok p"

definition manager_inv :: "manager \<Rightarrow> bool" where
  "manager_inv m \<longleftrightarrow> finite (dom (mg_parties m)) \<and>
     (\<forall>pid p. mg_parties m pid = Some p \<longrightarrow> py_PartyID p = pid \<and> party_inv p)"

lemma manager_invD:
  "manager_inv m \<Longrightarrow> mg_parties m pid = Some p \<Longrightarrow> py_PartyID p = pid \<and> party_inv p"
  by (simp add: manager_inv_def)

lemma manager_inv_update:
  "manager_inv m \<Longrightarrow> py_PartyID p = pid \<Longrightarrow> party_inv p \<Longrightarrow>
   manager_inv (m\<lparr>mg_parties := (mg_parties m)(pid \<mapsto> p)\<rparr>)"
  by (auto simp: manager_inv_def)

lemma manager_inv_delete:
  "manager_inv m \<Longrightarrow> manager_inv (m\<lparr>mg_parties := (mg_parties m)(pid := None)\<rparr>)"
  by (auto simp: manager_inv_def)

subsection \<open>Members and invitations\<close>

lemma set_remove_first:
  "distinct (map mem_ProfileID ms) \<Longrightarrow>
   mem_ProfileID ` set (remove_first i ms) = mem_ProfileID ` set ms - {i}"
  by (induction ms) (auto intro: rev_image_eqI)

lemma distinct_remove_first:
  "distinct (map mem_ProfileID ms) \<Longrightarrow> distinct (map mem_ProfileID (remove_first i ms))"
proof (induction ms)
  case (Cons a ms)
  then show ?case using set_remove_first [of ms i] by auto
qed simp

lemma roster_ok_remove: "roster_ok p \<Longrightarrow> roster_ok (removeMember p i)"
  by (auto simp: roster_ok_def removeMember_def set_remove_first distinct_remove_first)

lemma roster_ok_join: "roster_ok p \<Longrightarrow> roster_ok (join_locked p i n)"
  by (auto simp: roster_ok_def join_locked_def)

lemma invite_loop_effect:
  "invite_loop profiles p is acc = (p', r) \<Longrightarrow>
   \<exists>S. S \<subseteq> set is - py_members p \<and> p' = p\<lparr>py_invited := py_invited p \<union> S\<rparr>"
proof (induction "is" arbitrary: p acc)
  case Nil
  then show ?case by (intro exI [of _ "{}"]) simp
next
  case (Cons i "is")
  show ?case
  proof (cases "\<exists>x. profiles i = Found x")
    case True
    then obtain x where x: "profiles i = Found x" by blast
    show ?thesis
    proof (cases "i \<in> py_members p")
      case True
      with x Cons.prems have "invite_loop profiles p is acc = (p', r)" by simp
      from Cons.IH [OF this] show ?thesis by auto
    next
      case False
      with x Cons.prems have
        "invite_loop profiles (p\<lparr>py_invited := insert i (py_invited p)\<rparr>) is (acc @ [i]) = (p', r)"
        by simp
      from Cons.IH [OF this] obtain S where "S \<subseteq> set is - py_members p"
        "p' = p\<lparr>py_invited := insert i (py_invited p) \<union> S\<rparr>" by auto
      with False show ?thesis by (intro exI [of _ "insert i S"]) auto
    qed
  next
    case False
    with Cons.prems have "p' = p" by (cases "profiles i") auto
    then show ?thesis by (intro exI [of _ "{}"]) simp
  qed
qed

lemma invite_loop_all:
  "(\<And>i. i \<in> set is \<Longrightarrow> \<exists>x. profiles i = Found x) \<Longrightarrow>
   invite_loop profiles p is acc =
     (p\<lparr>py_invited := py_invited p \<union> (set is - py_members p)\<rparr>,
      Inr (acc @ filter (\<lambda>i. i \<notin> py_members p) is))"
proof (induction "is" arbitrary: p acc)
  case (Cons i "is")
  from Cons.prems obtain x where x: "profiles i = Found x" by auto
  show ?case
  proof (cases "i \<in> py_members p")
    case True
    with x Cons show ?thesis by (simp add: insert_Diff_if)
  next
    case False
    have "invite_loop profiles (p\<lparr>py_invited := insert i (py_invited p)\<rparr>) is (acc @ [i]) =
      (p\<lparr>py_invited := insert i (py_invited p) \<union> (set is - py_members p)\<rparr>,
       Inr (acc @ i # filter (\<lambda>j. j \<notin> py_members p) is))"
      using Cons.IH [of "p\<lparr>py_invited := insert i (py_invited p)\<rparr>" "acc @ [i]"] Cons.prems by simp
    moreover have "insert i (py_invited p) \<union> (set is - py_members p) =
        py_invited p \<union> (set (i # is) - py_members p)"
      using False by auto
    ultimately show ?thesis using x False by simp
  qed
qed simp

subsection \<open>The queue cursor\<close>

lemma scan_unplayed_first:
  "(\<And>q. q \<in> set qs \<Longrightarrow> \<not> qi_played q) \<Longrightarrow> scan_unplayed qs i = (if qs = [] then - 1 else i)"
  by (cases qs) auto

lemma nextUnplayed_eq:
  assumes "queue_ok p"
  shows "nextUnplayed p =
    (if py_current p + 1 < int (length (py_Queue p)) then py_current p + 1 else - 1)"
proof -
  let ?k = "nat (py_current p + 1)"
  have unplayed: "\<not> qi_played q" if "q \<in> set (drop ?k (py_Queue p))" for q
  proof -
    from that obtain j where j: "j < length (py_Queue p) - ?k" "q = py_Queue p ! (?k + j)"
      by (auto simp: in_set_conv_nth)
    then have len: "?k + j < length (py_Queue p)" by simp
    have "py_current p < int (?k + j)" using assms by (simp add: queue_ok_def)
    with assms len have "\<not> qi_played (py_Queue p ! (?k + j))"
      unfolding queue_ok_def by (meson not_le)
    with j show ?thesis by simp
  qed
  have "scan_unplayed (drop ?k (py_Queue p)) (py_current p + 1) =
      (if drop ?k (py_Queue p) = [] then - 1 else py_current p + 1)"
    by (rule scan_unplayed_first) (rule unplayed)
  then show ?thesis using assms by (auto simp: nextUnplayed_def queue_ok_def)
qed

lemma nextUnplayed_nonneg_iff:
  "queue_ok p \<Longrightarrow> 0 \<le> nextUnplayed p \<longleftrightarrow> py_current p + 1 < int (length (py_Queue p))"
  by (auto simp: nextUnplayed_eq queue_ok_def)

lemma take_item_ok:
  assumes "queue_ok p" and "0 \<le> nextUnplayed p"
  shows "queue_ok (take_item p (nextUnplayed p))" and "timeline_ok (take_item p (nextUnplayed p))"
proof -
  have n: "nextUnplayed p = py_current p + 1" "py_current p + 1 < int (length (py_Queue p))"
    "- 1 \<le> py_current p"
    using assms by (auto simp: nextUnplayed_eq queue_ok_def split: if_splits)
  show "queue_ok (take_item p (nextUnplayed p))"
    using assms(1) n by (auto simp: queue_ok_def take_item_def nth_list_update)
  show "timeline_ok (take_item p (nextUnplayed p))"
    using n by (auto simp: timeline_ok_def take_item_def nth_list_update)
qed

lemma queue_ok_set_state [simp]: "queue_ok (set_state f p) = queue_ok p"
  by (simp add: queue_ok_def set_state_def)

lemma roster_ok_set_state [simp]: "roster_ok (set_state f p) = roster_ok p"
  by (simp add: roster_ok_def set_state_def)

lemma roster_ok_take_item [simp]: "roster_ok (take_item p n) = roster_ok p"
  by (simp add: roster_ok_def take_item_def)

lemma nextUnplayed_set_state [simp]: "nextUnplayed (set_state f p) = nextUnplayed p"
  by (simp add: nextUnplayed_def set_state_def)

lemma set_state_fields [simp]:
  "py_State (set_state f p) = f (py_State p)" "py_PartyID (set_state f p) = py_PartyID p"
  "py_Queue (set_state f p) = py_Queue p" "py_current (set_state f p) = py_current p"
  "py_members (set_state f p) = py_members p" "py_invited (set_state f p) = py_invited p"
  "py_HostProfileID (set_state f p) = py_HostProfileID p" "py_Members (set_state f p) = py_Members p"
  by (simp_all add: set_state_def)

lemma take_item_fields [simp]:
  "py_PartyID (take_item p n) = py_PartyID p" "py_members (take_item p n) = py_members p"
  "py_invited (take_item p n) = py_invited p" "py_current (take_item p n) = n"
  "py_HostProfileID (take_item p n) = py_HostProfileID p" "py_Members (take_item p n) = py_Members p"
  "ps_TrackID (py_State (take_item p n)) = tr_TrackID (qi_Track (py_Queue p ! nat n))"
  "ps_PositionMs (py_State (take_item p n)) = 0"
  "ps_AsOf (py_State (take_item p n)) = ps_AsOf (py_State p)"
  "length (py_Queue (take_item p n)) = length (py_Queue p)"
  by (simp_all add: take_item_def)

lemma materialize_fields [simp]:
  "ps_TrackID (materialize now s) = ps_TrackID s" "ps_Paused (materialize now s) = ps_Paused s"
  "ps_AsOf (materialize now s) = now"
  by (simp_all add: materialize_def)

lemma timeline_ok_set_state:
  "timeline_ok p \<Longrightarrow> ps_TrackID (f (py_State p)) = ps_TrackID (py_State p) \<Longrightarrow>
   ps_Paused (f (py_State p)) = ps_Paused (py_State p) \<or> ps_Paused (f (py_State p)) \<or>
     ps_TrackID (py_State p) \<noteq> '''' \<Longrightarrow> timeline_ok (set_state f p)"
  by (auto simp: timeline_ok_def)

subsection \<open>The transport actions\<close>

lemma apply_play_ok:
  assumes "party_inv p"
  shows "party_inv (apply_play p)"
proof -
  define p1 where "p1 = (if ps_TrackID (py_State p) = '''' \<and> 0 \<le> nextUnplayed p
                then take_item p (nextUnplayed p) else p)"
  have inv1: "party_inv p1"
    using assms take_item_ok [of p] by (simp add: p1_def party_inv_def)
  have "timeline_ok (set_state (\<lambda>s. s\<lparr>ps_Paused := False\<rparr>) p1)" if "ps_TrackID (py_State p1) \<noteq> ''''"
    using inv1 that by (intro timeline_ok_set_state) (simp_all add: party_inv_def)
  with inv1 show ?thesis
    by (simp add: apply_play_def p1_def [symmetric] Let_def party_inv_def)
qed

lemma timeline_ok_run_item:
  "timeline_ok (take_item p n) \<Longrightarrow> 0 \<le> n \<Longrightarrow> n < int (length (py_Queue p)) \<Longrightarrow>
   timeline_ok (set_state (\<lambda>s. s\<lparr>ps_Paused := b\<rparr>) (take_item p n))"
  by (auto simp: timeline_ok_def take_item_def set_state_def)

lemma apply_skip_ok:
  assumes "party_inv p"
  shows "party_inv (apply_skip p)"
proof (cases "0 \<le> nextUnplayed p")
  case True
  then have "nextUnplayed p < int (length (py_Queue p))"
    using assms by (auto simp: nextUnplayed_eq party_inv_def split: if_splits)
  with True assms show ?thesis
    using take_item_ok [of p] by (simp add: apply_skip_def party_inv_def timeline_ok_run_item)
next
  case False
  with assms show ?thesis by (simp add: apply_skip_def party_inv_def timeline_ok_def)
qed

lemma materialize_ok: "party_inv p \<Longrightarrow> party_inv (set_state (materialize now) p)"
  by (auto simp: party_inv_def intro: timeline_ok_set_state)

lemma pause_seek_ok:
  assumes "party_inv p"
  shows "party_inv (set_state (\<lambda>s. s\<lparr>ps_Paused := True\<rparr>) p)"
    and "party_inv (set_state (\<lambda>s. s\<lparr>ps_PositionMs := pos\<rparr>) p)"
  using assms by (auto simp: party_inv_def intro!: timeline_ok_set_state)

lemma apply_action_ok: "party_inv p \<Longrightarrow> apply_action p act pos = Some p' \<Longrightarrow> party_inv p'"
  by (auto simp: apply_action_def intro: apply_play_ok apply_skip_ok pause_seek_ok split: if_splits)

lemma apply_action_id: "apply_action p act pos = Some p' \<Longrightarrow> py_PartyID p' = py_PartyID p"
  by (auto simp: apply_action_def apply_play_def apply_skip_def Let_def split: if_splits)

subsection \<open>The operations\<close>

lemma party_inv_roster: "party_inv p \<Longrightarrow> roster_ok p' \<Longrightarrow> py_Queue p' = py_Queue p \<Longrightarrow>
   py_State p' = py_State p \<Longrightarrow> py_current p' = py_current p \<Longrightarrow> party_inv p'"
  by (auto simp: party_inv_def queue_ok_def timeline_ok_def)

lemma removeMember_ok: "party_inv p \<Longrightarrow> party_inv (removeMember p i)"
  by (rule party_inv_roster [of p])
    (simp_all add: roster_ok_remove party_inv_def, simp_all add: removeMember_def)

lemma join_locked_ok: "party_inv p \<Longrightarrow> party_inv (join_locked p i n)"
  by (rule party_inv_roster [of p])
    (simp_all add: roster_ok_join party_inv_def, simp_all add: join_locked_def)

lemma append_ok:
  assumes "party_inv p" and "\<forall>q \<in> set qs. \<not> qi_played q"
  shows "party_inv (p\<lparr>py_Queue := py_Queue p @ qs\<rparr>)"
proof -
  have "queue_ok (p\<lparr>py_Queue := py_Queue p @ qs\<rparr>)"
    using assms by (auto simp: party_inv_def queue_ok_def nth_append)
  moreover have "timeline_ok (p\<lparr>py_Queue := py_Queue p @ qs\<rparr>)"
    using assms by (auto simp: party_inv_def timeline_ok_def queue_ok_def nth_append)
  moreover have "roster_ok (p\<lparr>py_Queue := py_Queue p @ qs\<rparr>)"
    using assms(1) by (auto simp: party_inv_def roster_ok_def)
  ultimately show ?thesis by (simp add: party_inv_def)
qed

lemma queue_rows_unplayed: "q \<in> set (queue_rows who rows rnds) \<Longrightarrow> \<not> qi_played q"
  by (auto simp: queue_rows_def)

lemma record_ids [simp]:
  "py_PartyID (removeMember p i) = py_PartyID p" "py_PartyID (join_locked p i n) = py_PartyID p"
  "py_HostProfileID (removeMember p i) = py_HostProfileID p"
  "py_HostProfileID (join_locked p i n) = py_HostProfileID p"
  "py_members (removeMember p i) = py_members p - {i}"
  "py_invited (removeMember p i) = py_invited p - {i}"
  by (simp_all add: removeMember_def join_locked_def)

lemma Create_inv: "manager_inv m \<Longrightarrow> manager_inv (fst (Create m prof host name rnd now))"
  by (cases prof) (auto simp: Create_def Let_def party_inv_def roster_ok_def queue_ok_def
      timeline_ok_def intro!: manager_inv_update)

lemma invite_ok:
  "party_inv p \<Longrightarrow> S \<inter> py_members p = {} \<Longrightarrow> party_inv (p\<lparr>py_invited := py_invited p \<union> S\<rparr>)"
  by (auto simp: party_inv_def roster_ok_def queue_ok_def timeline_ok_def)

lemma Invite_inv:
  assumes "manager_inv m"
  shows "manager_inv (fst (Invite m profiles pid by ids now))"
proof (cases "mg_parties m pid")
  case (Some p)
  obtain p' r where loop: "invite_loop profiles p ids [] = (p', r)" by fastforce
  from invite_loop_effect [OF this] obtain S where S: "S \<subseteq> set ids - py_members p"
    "p' = p\<lparr>py_invited := py_invited p \<union> S\<rparr>" by blast
  have "party_inv p'" "py_PartyID p' = pid"
    using S manager_invD [OF assms Some] invite_ok [of p S] by auto
  with assms Some loop show ?thesis by (simp add: Invite_def Let_def manager_inv_update)
qed (simp add: Invite_def assms)

lemma Join_inv: "manager_inv m \<Longrightarrow> manager_inv (fst (Join ord m prof pid who))"
  by (auto simp: Join_def Let_def dest: manager_invD intro!: manager_inv_update join_locked_ok
      split: option.splits lookup.splits)

lemma Leave_inv: "manager_inv m \<Longrightarrow> manager_inv (fst (Leave ord m pid who))"
  by (auto simp: Leave_def Let_def dest: manager_invD
      intro!: manager_inv_update manager_inv_delete removeMember_ok split: option.splits)

lemma End_inv: "manager_inv m \<Longrightarrow> manager_inv (fst (End m pid who))"
  by (auto simp: End_def intro!: manager_inv_delete split: option.splits)

lemma Kick_inv: "manager_inv m \<Longrightarrow> manager_inv (fst (Kick ord m pid by target))"
  by (auto simp: Kick_def Let_def dest: manager_invD intro!: manager_inv_update removeMember_ok
      split: option.splits)

lemma AppendQueue_inv: "manager_inv m \<Longrightarrow> manager_inv (fst (AppendQueue ord m tracks pid who ids rnds))"
  by (auto simp: AppendQueue_def Let_def dest: manager_invD queue_rows_unplayed
      intro!: manager_inv_update append_ok split: option.splits sum.splits)

lemma Transport_inv:
  assumes "manager_inv m"
  shows "manager_inv (fst (Transport ord m pid who act pos now))"
proof (cases "mg_parties m pid")
  case (Some p)
  let ?p1 = "set_state (materialize now) p"
  have p1: "party_inv ?p1" "py_PartyID ?p1 = pid"
    using manager_invD [OF assms Some] by (simp_all add: materialize_ok)
  show ?thesis
  proof (cases "apply_action ?p1 act pos")
    case None
    with Some p1 assms show ?thesis by (simp add: Transport_def Let_def manager_inv_update)
  next
    case (Some p2)
    then have "party_inv p2" "py_PartyID p2 = pid"
      using p1 apply_action_ok apply_action_id by (blast, fastforce)
    with Some \<open>mg_parties m pid = Some p\<close> assms show ?thesis
      by (simp add: Transport_def Let_def manager_inv_update)
  qed
qed (simp add: Transport_def assms)

lemma manager_inv_init: "manager_inv NewManager"
  by (simp add: NewManager_def manager_inv_def)

lemma party_step_inv: "manager_inv m \<Longrightarrow> manager_inv (party_step m x)"
  by (cases x) (simp_all add: Create_inv Invite_inv Join_inv Leave_inv End_inv Kick_inv
      AppendQueue_inv Transport_inv)

interpretation parties: component NewManager party_step manager_inv
  by unfold_locales (rule manager_inv_init, rule party_step_inv)

section \<open>What listeners can rely on\<close>

text \<open>C1
  Whatever sequence of calls the party manager has served, every live party is stored under its own
  id, its member list and member set agree without duplicates and no member is also invited, its
  cursor stays inside the queue with nothing played beyond it, and a loaded or running timeline
  shows exactly the queue item under the cursor.
\<close>

theorem reachable_parties_ok: "manager_inv (run_ops party_step NewManager ops)"
  by (rule parties.inv_reachable)

subsection \<open>Skipping walks the queue\<close>

definition queue_ids :: "party \<Rightarrow> string list" where
  "queue_ids p = map (\<lambda>q. tr_TrackID (qi_Track q)) (py_Queue p)"

text \<open>One skip request served at time \<open>t\<close>.\<close>

definition skip_at :: "gotime \<Rightarrow> party \<Rightarrow> party" where
  "skip_at t p = apply_skip (set_state (materialize t) p)"

lemma apply_skip_ids: "queue_ok p \<Longrightarrow> queue_ids (apply_skip p) = queue_ids p"
  by (auto simp: queue_ids_def apply_skip_def take_item_def nextUnplayed_eq queue_ok_def
      nth_list_update intro!: nth_equalityI)

lemma apply_skip_current:
  "queue_ok p \<Longrightarrow> py_current (apply_skip p) =
   (if py_current p + 1 < int (length (py_Queue p)) then py_current p + 1 else py_current p)"
  by (auto simp: apply_skip_def nextUnplayed_eq queue_ok_def)

lemma queue_ids_set_state [simp]: "queue_ids (set_state f p) = queue_ids p"
  by (simp add: queue_ids_def)

lemma skip_at_ids: "queue_ok p \<Longrightarrow> queue_ids (skip_at t p) = queue_ids p"
  by (simp add: skip_at_def apply_skip_ids)

lemma skip_at_fields [simp]:
  "py_HostProfileID (skip_at t p) = py_HostProfileID p" "py_members (skip_at t p) = py_members p"
  by (simp_all add: skip_at_def apply_skip_def)

lemma skip_at_inv: "party_inv p \<Longrightarrow> party_inv (skip_at t p)"
  by (simp add: skip_at_def apply_skip_ok materialize_ok)

lemma skip_at_state:
  assumes "queue_ok p"
  shows "py_State (skip_at t p) =
    (let k = py_current p + 1
     in if k < int (length (queue_ids p)) then \<lparr>ps_TrackID = queue_ids p ! nat k, ps_Paused = False, ps_PositionMs = 0, ps_AsOf = t\<rparr>
        else \<lparr>ps_TrackID = '''', ps_Paused = True, ps_PositionMs = 0, ps_AsOf = t\<rparr>)"
  using assms by (auto simp: skip_at_def apply_skip_def nextUnplayed_eq queue_ok_def queue_ids_def Let_def)

lemma skips_queue:
  assumes "party_inv p"
  shows "party_inv (fold skip_at ts p) \<and> queue_ids (fold skip_at ts p) = queue_ids p \<and>
    py_current (fold skip_at ts p) =
      (if queue_ids p = [] then - 1
       else min (py_current p + int (length ts)) (int (length (queue_ids p)) - 1))"
proof (induction ts rule: rev_induct)
  case Nil
  from assms show ?case by (auto simp: party_inv_def queue_ok_def queue_ids_def)
next
  case (snoc t ts)
  let ?p = "fold skip_at ts p"
  have ok: "queue_ok ?p" using snoc.IH by (simp add: party_inv_def)
  have "length (py_Queue ?p) = length (queue_ids p)"
    using snoc.IH by (metis queue_ids_def length_map)
  then have "py_current (skip_at t ?p) =
      (if py_current ?p + 1 < int (length (queue_ids p)) then py_current ?p + 1 else py_current ?p)"
    using ok by (simp add: skip_at_def apply_skip_current)
  moreover have "- 1 \<le> py_current ?p" using ok by (simp add: queue_ok_def)
  ultimately show ?case using snoc.IH ok by (auto simp: skip_at_inv skip_at_ids)
qed

lemma Transport_skip:
  assumes "mg_parties m pid = Some p" "who \<in> py_members p" "py_HostProfileID p = who"
  shows "party_step m (OpTransport ord pid who ''skip'' pos t) =
    m\<lparr>mg_parties := (mg_parties m)(pid \<mapsto> skip_at t p)\<rparr>"
  using assms by (simp add: Transport_def apply_action_def Let_def skip_at_def)

lemma run_skips:
  assumes "mg_parties m pid = Some p" "who \<in> py_members p" "py_HostProfileID p = who"
  shows "mg_parties (run_ops party_step m (map (OpTransport ord pid who ''skip'' pos) ts)) pid =
    Some (fold skip_at ts p)"
  using assms
proof (induction ts arbitrary: m p)
  case (Cons t ts)
  then show ?case by (simp add: Transport_skip del: party_step.simps)
qed simp

text \<open>C4
  The host's skips play the queue first in, first out: after n+1 skip requests the party runs, from position 0, the track that was queued n+1 places after the current
  one; once the queue is used up the timeline is empty and paused.
\<close>

theorem skips_play_fifo:
  assumes "manager_inv m" and "mg_parties m pid = Some p"
    and "who \<in> py_members p" and "py_HostProfileID p = who"
  shows "map_option py_State (mg_parties
      (run_ops party_step m (map (OpTransport ord pid who ''skip'' pos) (ts @ [t]))) pid) =
    (let k = py_current p + 1 + int (length ts)
     in if k < int (length (queue_ids p))
        then Some \<lparr>ps_TrackID = queue_ids p ! nat k, ps_Paused = False, ps_PositionMs = 0, ps_AsOf = t\<rparr>
        else Some \<lparr>ps_TrackID = '''', ps_Paused = True, ps_PositionMs = 0, ps_AsOf = t\<rparr>)"
proof -
  have pinv: "party_inv p" using manager_invD [OF assms(1,2)] by simp
  let ?p = "fold skip_at ts p"
  have ok: "queue_ok ?p" "queue_ids ?p = queue_ids p"
    "py_current ?p = (if queue_ids p = [] then - 1
       else min (py_current p + int (length ts)) (int (length (queue_ids p)) - 1))"
    using skips_queue [OF pinv, of ts] by (auto simp: party_inv_def)
  have "py_current p = - 1" if "queue_ids p = []"
    using pinv that by (auto simp: party_inv_def queue_ok_def queue_ids_def)
  with ok show ?thesis
    unfolding run_skips [OF assms(2-4)] by (auto simp: skip_at_state Let_def min_def algebra_simps)
qed

definition demo_ord :: map_order where
  "demo_ord S = filter (\<lambda>x. x \<in> S) [''pro_a'', ''pro_b'', ''pro_c'']"

text \<open>A party of two with two queued tracks, as the operations build it.\<close>

definition demo_ops :: "party_op list" where
  "demo_ops =
     [OpCreate (Found (sample_profile ''pro_a'')) ''pro_a'' ''n'' [] 0,
      OpJoin demo_ord (Found (sample_profile ''pro_b'')) (new_id ''pty'' []) ''pro_b'',
      OpAppendQueue demo_ord (\<lambda>t. Found (sample_track t)) (new_id ''pty'' []) ''pro_b''
        [''trk_1'', ''trk_2''] [[], [1]]]"

definition demo :: manager where
  "demo = run_ops party_step NewManager demo_ops"

definition demo_party :: party where
  "demo_party = the (mg_parties demo (new_id ''pty'' []))"

lemma demo_facts:
  "manager_inv demo" "mg_parties demo (new_id ''pty'' []) = Some demo_party"
  "py_members demo_party = {''pro_a'', ''pro_b''}" "py_HostProfileID demo_party = ''pro_a''"
  "queue_ids demo_party = [''trk_1'', ''trk_2'']" "py_current demo_party = - 1"
  "py_State demo_party = \<lparr>ps_TrackID = '''', ps_Paused = True, ps_PositionMs = 0, ps_AsOf = 0\<rparr>"
proof -
  show "manager_inv demo" unfolding demo_def by (rule parties.inv_reachable)
qed (auto simp: demo_def demo_party_def demo_ops_def NewManager_def Create_def Join_def AppendQueue_def Let_def
      join_locked_def sample_profile_def sample_track_def queue_ids_def queue_rows_def)

lemma skips_play_fifo_witness:
  "map_option py_State (mg_parties (run_ops party_step demo
     (map (OpTransport demo_ord (new_id ''pty'' []) ''pro_a'' ''skip'' 0) ([5] @ [9]))) (new_id ''pty'' [])) =
   Some \<lparr>ps_TrackID = ''trk_2'', ps_Paused = False, ps_PositionMs = 0, ps_AsOf = 9\<rparr>"
  using skips_play_fifo [OF demo_facts(1,2), of "''pro_a''" demo_ord 0 "[5]" 9]
  by (simp add: demo_facts Let_def)


subsection \<open>The timeline\<close>

text \<open>
  The contract of the timeline: where playback is at time \<open>t\<close>, the position at the last re-basing
  plus the time that has passed since while playing.
\<close>

definition live_position :: "gotime \<Rightarrow> PState \<Rightarrow> int" where
  "live_position t s =
     (if \<not> ps_Paused s \<and> ps_TrackID s \<noteq> '''' then ps_PositionMs s + milliseconds (t - ps_AsOf s)
      else ps_PositionMs s)"

lemma milliseconds_split:
  assumes "0 \<le> a" and "0 \<le> b"
  shows "milliseconds a + milliseconds b \<le> milliseconds (a + b)"
    and "milliseconds (a + b) \<le> milliseconds a + milliseconds b + 1"
proof -
  let ?c = "1000000::int"
  have "(a + b) div ?c = a div ?c + b div ?c + (a mod ?c + b mod ?c) div ?c"
    by (rule div_add1_eq)
  moreover have "0 \<le> (a mod ?c + b mod ?c) div ?c" by (simp add: pos_imp_zdiv_nonneg_iff)
  moreover have "(a mod ?c + b mod ?c) div ?c \<le> (2 * ?c - 1) div ?c"
    using pos_mod_bound [of ?c a] pos_mod_bound [of ?c b] by (intro zdiv_mono1) linarith+
  ultimately show "milliseconds a + milliseconds b \<le> milliseconds (a + b)"
    "milliseconds (a + b) \<le> milliseconds a + milliseconds b + 1"
    using assms by (simp_all add: milliseconds_def millisecond_def)
qed

lemma materialize_live: "live_position now (materialize now s) = live_position now s"
  by (simp add: live_position_def materialize_def milliseconds_def)

lemma materialize_drift:
  assumes "ps_AsOf s \<le> now" and "now \<le> t"
  shows "live_position t (materialize now s) \<le> live_position t s"
    and "live_position t s \<le> live_position t (materialize now s) + 1"
  using milliseconds_split [of "now - ps_AsOf s" "t - now"] assms
  by (auto simp: live_position_def materialize_def)

text \<open>C5
  A host's call re-bases the timeline at the time it is served, and the action then changes only
  what it names: pausing keeps the position that was live, seeking sets exactly the position asked
  for, playing a loaded track keeps the live position, and an unknown action is refused and moves
  nothing; at any later instant a refused call has shifted the position by at most one millisecond.
\<close>

theorem transport_timeline:
  assumes "mg_parties m pid = Some p" and "who \<in> py_members p" and "py_HostProfileID p = who"
  shows "(let s = py_State p; tr = Transport ord m pid who; live = live_position now s in
    fst (snd (tr ''pause'' pos now)) =
      Inr \<lparr>ps_TrackID = ps_TrackID s, ps_Paused = True, ps_PositionMs = live, ps_AsOf = now\<rparr> \<and>
    fst (snd (tr ''seek'' pos now)) =
      Inr \<lparr>ps_TrackID = ps_TrackID s, ps_Paused = ps_Paused s, ps_PositionMs = pos, ps_AsOf = now\<rparr> \<and>
    (ps_TrackID s \<noteq> '''' \<longrightarrow> fst (snd (tr ''play'' pos now)) =
      Inr \<lparr>ps_TrackID = ps_TrackID s, ps_Paused = False, ps_PositionMs = live, ps_AsOf = now\<rparr>) \<and>
    (act \<notin> {''play'', ''pause'', ''seek'', ''skip''} \<and> ps_AsOf s \<le> now \<and> now \<le> t \<longrightarrow>
      (\<exists>p'. tr act pos now =
            (m\<lparr>mg_parties := (mg_parties m)(pid \<mapsto> p')\<rparr>, Inl (PErrNotFound ''action'' act), []) \<and>
           live_position t (py_State p') \<in> {live_position t s - 1, live_position t s})))"
proof -
  have refused: "\<exists>p'. Transport ord m pid who act pos now =
            (m\<lparr>mg_parties := (mg_parties m)(pid \<mapsto> p')\<rparr>, Inl (PErrNotFound ''action'' act), []) \<and>
           live_position t (py_State p') \<in> {live_position t (py_State p) - 1, live_position t (py_State p)}"
    if "act \<notin> {''play'', ''pause'', ''seek'', ''skip''}" "ps_AsOf (py_State p) \<le> now" "now \<le> t"
    using assms that materialize_drift [OF that(2,3)]
    by (intro exI [of _ "set_state (materialize now) p"])
      (auto simp: Transport_def apply_action_def Let_def)
  show ?thesis
    unfolding Let_def
  proof (intro conjI impI)
    show "fst (snd (Transport ord m pid who ''pause'' pos now)) =
      Inr \<lparr>ps_TrackID = ps_TrackID (py_State p), ps_Paused = True,
           ps_PositionMs = live_position now (py_State p), ps_AsOf = now\<rparr>"
      using assms by (simp add: Transport_def apply_action_def Let_def materialize_def live_position_def)
  qed (use assms refused in \<open>auto simp: Transport_def apply_action_def apply_play_def Let_def
      materialize_def live_position_def\<close>)
qed

lemma transport_timeline_witness:
  "fst (snd (Transport demo_ord demo (new_id ''pty'' []) ''pro_a'' ''pause'' 0 7)) =
      Inr \<lparr>ps_TrackID = '''', ps_Paused = True, ps_PositionMs = 0, ps_AsOf = 7\<rparr> \<and>
   (\<exists>p'. Transport demo_ord demo (new_id ''pty'' []) ''pro_a'' ''stop'' 0 7 =
     (demo\<lparr>mg_parties := (mg_parties demo)(new_id ''pty'' [] \<mapsto> p')\<rparr>, Inl (PErrNotFound ''action'' ''stop''), []) \<and>
     live_position 9 (py_State p') \<in> {- 1, 0})"
  using transport_timeline [OF demo_facts(2), of "''pro_a''" demo_ord 7 0 "''stop''" 9]
  by (simp add: demo_facts live_position_def Let_def)

subsection \<open>Who may see and who may steer\<close>

lemma publishUpdated_members:
  "visits_all ord \<Longrightarrow> finite (py_members p) \<Longrightarrow>
   distinct (map fst (publishUpdated ord p)) \<and> set (map fst (publishUpdated ord p)) = py_members p"
  by (simp add: publishUpdated_def visits_all_def Let_def comp_def)

lemma party_inv_finite: "party_inv p \<Longrightarrow> finite (py_members p)"
  by (simp add: party_inv_def roster_ok_def)

lemma ListFor_iff:
  "manager_inv m \<Longrightarrow> visits_all ord \<Longrightarrow>
   set (ListFor ord m who) = {snapshot p | p pid. mg_parties m pid = Some p \<and> who \<in> py_members p \<union> py_invited p}"
  by (auto simp: ListFor_def manager_inv_def visits_all_def split: option.splits if_splits)

text \<open>C21
  In every reachable state a profile is listed exactly the parties it can open, and it can open
  exactly those it belongs to or is invited to; nobody learns of any other party.
\<close>

theorem listed_iff_visible:
  assumes "visits_all ord"
  shows "x \<in> set (ListFor ord (run_ops party_step NewManager ops) who) \<longleftrightarrow>
    Get (run_ops party_step NewManager ops) (py_PartyID x) who = Inr x"
proof -
  let ?m = "run_ops party_step NewManager ops"
  have m: "manager_inv ?m" by (rule parties.inv_reachable)
  have id: "py_PartyID (snapshot p) = pid" if "mg_parties ?m pid = Some p" for p pid
    using manager_invD [OF m that] by (simp add: snapshot_def Party.truncate_def)
  show ?thesis
    unfolding ListFor_iff [OF m assms] Get_def using id by (auto split: option.splits if_splits)
qed

lemma visits_all_sorted: "visits_all sorted_list_of_set"
  by (simp add: visits_all_def)

lemma apply_action_members:
  "apply_action p act pos = Some p' \<Longrightarrow> py_members p' = py_members p"
  by (auto simp: apply_action_def apply_play_def apply_skip_def Let_def split: if_splits)

lemma listed_iff_visible_witness:
  "snapshot demo_party \<in> set (ListFor sorted_list_of_set demo ''pro_b'')"
  using listed_iff_visible [OF visits_all_sorted, of "snapshot demo_party" demo_ops "''pro_b''"]
    manager_invD [OF demo_facts(1,2)]
  by (simp add: demo_def [symmetric] Get_def snapshot_def Party.truncate_def demo_facts)


definition demo_paused :: PState where
  "demo_paused = \<lparr>ps_TrackID = '''', ps_Paused = True, ps_PositionMs = 0, ps_AsOf = 7\<rparr>"

lemma demo_pause:
  "Transport sorted_list_of_set demo (new_id ''pty'' []) ''pro_a'' ''pause'' 0 7 =
   (demo\<lparr>mg_parties := (mg_parties demo)(new_id ''pty'' [] \<mapsto> demo_party\<lparr>py_State := demo_paused\<rparr>)\<rparr>,
    Inr demo_paused, publishUpdated sorted_list_of_set (demo_party\<lparr>py_State := demo_paused\<rparr>))"
  by (simp add: Transport_def demo_facts apply_action_def set_state_def materialize_def Let_def
      broadcast_def demo_paused_def)


subsection \<open>A host outside the party\<close>

text \<open>
  A host who kicks its own profile is removed from the roster but stays the host: from then on, in
  every state the party keeps until someone joins, no profile can steer it - the former host is
  not a member and every member is not the host.
\<close>

lemma kicked_host_strands_party:
  assumes "Kick ord m pid host host = (m', Inr (), evs)"
  shows "mg_parties m' pid \<noteq> None \<and>
    (\<forall>ord who act pos now. fst (snd (Transport ord m' pid who act pos now)) =
       Inl (if \<exists>p. mg_parties m' pid = Some p \<and> who \<in> py_members p
            then PErrHostOnly pid else PErrNotFound ''party'' pid))"
proof -
  from assms obtain p where p: "mg_parties m pid = Some p" "py_HostProfileID p = host"
    "m' = m\<lparr>mg_parties := (mg_parties m)(pid \<mapsto> removeMember p host)\<rparr>"
    by (auto simp: Kick_def Let_def split: option.splits if_splits)
  then show ?thesis by (auto simp: Transport_def)
qed

lemma kicked_host_strands_party_witness:
  "fst (snd (Transport demo_ord (fst (Kick demo_ord demo (new_id ''pty'' []) ''pro_a'' ''pro_a''))
     (new_id ''pty'' []) ''pro_b'' ''skip'' 0 3)) = Inl (PErrHostOnly (new_id ''pty'' []))"
proof -
  have k: "Kick demo_ord demo (new_id ''pty'' []) ''pro_a'' ''pro_a'' =
    (let m' = demo\<lparr>mg_parties := (mg_parties demo)(new_id ''pty'' [] \<mapsto> removeMember demo_party ''pro_a'')\<rparr>
     in (m', Inr (), broadcast demo_ord m' (new_id ''pty'' [])))"
    by (simp add: Kick_def demo_facts)
  show ?thesis
    using kicked_host_strands_party [OF k [unfolded Let_def]] by (simp add: k Let_def demo_facts)
qed

end
