(* ===== verification/EventBus.thy ===== *)
theory EventBus
  imports GoText
begin

text \<open>
  The durable event log (\<open>internal/store/profile_data.go\<close>, the \<open>events\<close> table) and the bus over it
  (\<open>internal/events/bus.go\<close>): publishing appends a row and then fans the event out to the attached
  subscribers; a subscriber's goroutine first replays the log and then forwards its live channel,
  skipping what it has already sent. A step is one of the atomic sections of the two sides, so that
  every interleaving of publishers and subscribers is a run of the relation \<open>bus_step\<close>.
\<close>

section \<open>The event log\<close>

record EventRow =
  er_Seq :: int
  er_Type :: string
  er_ProfileID :: string
  er_At :: seconds
  er_Data :: string

text \<open>The rows, oldest first, and the AUTOINCREMENT counter, which survives deletions.\<close>

record event_log =
  el_rows :: "EventRow list"
  el_seq :: int

definition AppendEvent :: "event_log \<Rightarrow> string \<Rightarrow> string \<Rightarrow> string \<Rightarrow> gotime \<Rightarrow> event_log \<times> int" where
  "AppendEvent l ty pid json now =
     (let seq = el_seq l + 1
      in (l\<lparr>el_rows := el_rows l @ [\<lparr>er_Seq = seq, er_Type = ty, er_ProfileID = pid, er_At = unix now,
                                     er_Data = json\<rparr>],
            el_seq := seq\<rparr>, seq))"

definition EventsSince :: "event_log \<Rightarrow> string \<Rightarrow> int \<Rightarrow> nat \<Rightarrow> EventRow list" where
  "EventsSince l pid since limit =
     take limit (sort_key er_Seq
       (filter (\<lambda>r. since < er_Seq r \<and> (er_ProfileID r = '''' \<or> er_ProfileID r = pid)) (el_rows l)))"

text \<open>\<open>COALESCE(MAX(seq), 0)\<close>\<close>

definition LatestEventSeq :: "event_log \<Rightarrow> int" where
  "LatestEventSeq l =
     (case el_rows l of [] \<Rightarrow> 0 | r # rs \<Rightarrow> fold (\<lambda>x m. max (er_Seq x) m) rs (er_Seq r))"

definition PruneEvents :: "event_log \<Rightarrow> int \<Rightarrow> event_log" where
  "PruneEvents l keep =
     l\<lparr>el_rows := delete_where (\<lambda>r. er_Seq r \<le> LatestEventSeq l - keep) (el_rows l)\<rparr>"

section \<open>The bus\<close>

record Event =
  ev_Seq :: int
  ev_Type :: string
  ev_ProfileID :: string
  ev_At :: gotime
  ev_Data :: string

text \<open>
  Where a subscriber's goroutine stands: attached to the bus but not yet reading the log, replaying
  the rows still to send, or forwarding its live channel.
\<close>

datatype forwarder = Attached | Replaying "EventRow list" | Live

text \<open>\<open>sub_out\<close> is everything sent on the channel the caller reads, in order.\<close>

record subscriber =
  sub_profileID :: string
  sub_since :: int
  sub_ch :: "Event list"
  sub_state :: forwarder
  sub_lastSent :: int
  sub_out :: "Event list"

text \<open>
  \<open>b_appended\<close> holds the events whose publisher has written the row and not yet taken the lock;
  \<open>b_prunes\<close> counts the publishers that still have to prune the log.
\<close>

record bus =
  b_log :: event_log
  b_subs :: "nat \<rightharpoonup> subscriber"
  b_appended :: "Event list"
  b_published :: int
  b_prunes :: nat

definition pruneKeep :: int where "pruneKeep = 10000"
definition chanCap :: nat where "chanCap = 64"

definition NewBus :: bus where
  "NewBus = \<lparr>b_log = \<lparr>el_rows = [], el_seq = 0\<rparr>, b_subs = Map.empty, b_appended = [],
             b_published = 0, b_prunes = 0\<rparr>"

text \<open>The first half of \<open>Publish\<close>: the row.\<close>

definition publish_append :: "bus \<Rightarrow> string \<Rightarrow> string \<Rightarrow> string \<Rightarrow> gotime \<Rightarrow> gotime \<Rightarrow> bus \<times> Event" where
  "publish_append b ty pid json stored now =
     (case AppendEvent (b_log b) ty pid json stored of
        (l, seq) \<Rightarrow>
          (let ev = \<lparr>ev_Seq = seq, ev_Type = ty, ev_ProfileID = pid, ev_At = now, ev_Data = json\<rparr>
           in (b\<lparr>b_log := l, b_appended := b_appended b @ [ev]\<rparr>, ev)))"

definition offer :: "Event \<Rightarrow> subscriber \<Rightarrow> subscriber" where
  "offer ev s =
     (if (ev_ProfileID ev = '''' \<or> sub_profileID s = ev_ProfileID ev) \<and> length (sub_ch s) < chanCap
      then s\<lparr>sub_ch := sub_ch s @ [ev]\<rparr> else s)"

text \<open>The second half, under the lock: the fan-out and the count of publications.\<close>

definition publish_deliver :: "bus \<Rightarrow> Event \<Rightarrow> bus" where
  "publish_deliver b ev =
     b\<lparr>b_subs := map_option (offer ev) \<circ> b_subs b,
       b_appended := remove1 ev (b_appended b),
       b_published := b_published b + 1,
       b_prunes := b_prunes b + (if (b_published b + 1) mod 1000 = 0 then 1 else 0)\<rparr>"

definition publish_prune :: "bus \<Rightarrow> bus" where
  "publish_prune b = b\<lparr>b_log := PruneEvents (b_log b) pruneKeep, b_prunes := b_prunes b - 1\<rparr>"

definition Subscribe :: "bus \<Rightarrow> nat \<Rightarrow> string \<Rightarrow> int \<Rightarrow> bus" where
  "Subscribe b i pid since =
     b\<lparr>b_subs := (b_subs b)(i \<mapsto> \<lparr>sub_profileID = pid, sub_since = since, sub_ch = [],
        sub_state = Attached, sub_lastSent = since, sub_out = []\<rparr>)\<rparr>"

definition cancel_sub :: "bus \<Rightarrow> nat \<Rightarrow> bus" where
  "cancel_sub b i = b\<lparr>b_subs := (b_subs b)(i := None)\<rparr>"

definition row_event :: "EventRow \<Rightarrow> Event" where
  "row_event r = \<lparr>ev_Seq = er_Seq r, ev_Type = er_Type r, ev_ProfileID = er_ProfileID r,
                  ev_At = second * er_At r, ev_Data = er_Data r\<rparr>"

text \<open>One step of the goroutine of \<open>Subscribe\<close>: read the log, send one replayed row, or take one
  live event, which is skipped when its number was sent before.\<close>

definition forward :: "event_log \<Rightarrow> subscriber \<Rightarrow> subscriber" where
  "forward l s =
     (case sub_state s of
        Attached \<Rightarrow>
          s\<lparr>sub_state := Replaying (EventsSince l (sub_profileID s) (sub_since s) (nat pruneKeep))\<rparr>
      | Replaying [] \<Rightarrow> s\<lparr>sub_state := Live\<rparr>
      | Replaying (r # rs) \<Rightarrow>
          s\<lparr>sub_state := Replaying rs, sub_out := sub_out s @ [row_event r], sub_lastSent := er_Seq r\<rparr>
      | Live \<Rightarrow>
          (case sub_ch s of
             [] \<Rightarrow> s
           | ev # evs \<Rightarrow>
               if ev_Seq ev \<le> sub_lastSent s then s\<lparr>sub_ch := evs\<rparr>
               else s\<lparr>sub_ch := evs, sub_out := sub_out s @ [ev], sub_lastSent := ev_Seq ev\<rparr>))"

definition forward_step :: "bus \<Rightarrow> nat \<Rightarrow> bus" where
  "forward_step b i = b\<lparr>b_subs := (b_subs b)(i := map_option (forward (b_log b)) (b_subs b i))\<rparr>"

text \<open>The replay query fails: the goroutine goes straight to the live channel.\<close>

definition replay_failed :: "bus \<Rightarrow> nat \<Rightarrow> bus" where
  "replay_failed b i =
     b\<lparr>b_subs := (b_subs b)(i := map_option
        (\<lambda>s. if sub_state s = Attached then s\<lparr>sub_state := Live\<rparr> else s) (b_subs b i))\<rparr>"

definition LatestSeq :: "bus \<Rightarrow> int" where
  "LatestSeq b = LatestEventSeq (b_log b)"

section \<open>Every interleaving\<close>

inductive bus_step :: "bus \<Rightarrow> bus \<Rightarrow> bool" where
  append: "bus_step b (fst (publish_append b ty pid json stored now))"
| deliver: "ev \<in> set (b_appended b) \<Longrightarrow> bus_step b (publish_deliver b ev)"
| prune: "0 < b_prunes b \<Longrightarrow> bus_step b (publish_prune b)"
| subscribe: "b_subs b i = None \<Longrightarrow> bus_step b (Subscribe b i pid since)"
| forward: "bus_step b (forward_step b i)"
| failed: "bus_step b (replay_failed b i)"
| cancel: "bus_step b (cancel_sub b i)"

inductive bus_reach :: "bus \<Rightarrow> bool" where
  start: "bus_reach NewBus"
| step: "bus_reach b \<Longrightarrow> bus_step b b' \<Longrightarrow> bus_reach b'"


section \<open>What a subscriber receives\<close>

definition visible :: "string \<Rightarrow> Event \<Rightarrow> bool" where
  "visible pid ev \<longleftrightarrow> ev_ProfileID ev = '''' \<or> ev_ProfileID ev = pid"

definition log_ok :: "event_log \<Rightarrow> bool" where
  "log_ok l \<longleftrightarrow> sorted_wrt (<) (map er_Seq (el_rows l)) \<and> (\<forall>r \<in> set (el_rows l). er_Seq r \<le> el_seq l)"

lemma log_ok_append: "log_ok l \<Longrightarrow> log_ok (fst (AppendEvent l ty pid json now))"
  by (fastforce simp: log_ok_def AppendEvent_def Let_def sorted_wrt_append)

lemma sorted_wrt_filter_map: "sorted_wrt (<) (map f xs) \<Longrightarrow> sorted_wrt (<) (map f (filter P xs))"
  by (induction xs) auto

lemma log_ok_prune: "log_ok l \<Longrightarrow> log_ok (PruneEvents l keep)"
  by (auto simp: log_ok_def PruneEvents_def delete_where_def sorted_wrt_filter_map)

lemma EventsSince_rows:
  assumes "log_ok l"
  shows "EventsSince l pid since n = take n (filter (\<lambda>r. since < er_Seq r \<and>
    (er_ProfileID r = '''' \<or> er_ProfileID r = pid)) (el_rows l))"
proof -
  have "sorted (map er_Seq (filter P (el_rows l)))" for P
    using assms by (auto simp: log_ok_def intro: strict_sorted_imp_sorted sorted_wrt_filter_map)
  then show ?thesis by (simp add: EventsSince_def sorted_sort_id sort_key_id_if_sorted)
qed

text \<open>
  The invariant of a subscriber: what was sent is visible to it, numbered in strictly increasing
  order from after the resume point, and \<open>lastSent\<close> is the last number; rows waiting to be replayed
  continue that order.
\<close>

definition sub_rows :: "subscriber \<Rightarrow> EventRow list" where
  "sub_rows s = (case sub_state s of Replaying rs \<Rightarrow> rs | _ \<Rightarrow> [])"

definition sub_ok :: "subscriber \<Rightarrow> bool" where
  "sub_ok s \<longleftrightarrow>
     sorted_wrt (<) (sub_since s # map ev_Seq (sub_out s) @ map er_Seq (sub_rows s)) \<and>
     sub_lastSent s = last (sub_since s # map ev_Seq (sub_out s)) \<and>
     (\<forall>ev \<in> set (sub_out s) \<union> set (sub_ch s) \<union> row_event ` set (sub_rows s). visible (sub_profileID s) ev) \<and>
     (sub_state s = Attached \<longrightarrow> sub_out s = []) \<and> length (sub_ch s) \<le> chanCap"

definition bus_ok :: "bus \<Rightarrow> bool" where
  "bus_ok b \<longleftrightarrow> log_ok (b_log b) \<and> (\<forall>i s. b_subs b i = Some s \<longrightarrow> sub_ok s)"

lemma offer_ok: "sub_ok s \<Longrightarrow> sub_ok (offer ev s)"
  by (auto simp: sub_ok_def offer_def sub_rows_def visible_def)

lemma sorted_last_snoc:
  "sorted_wrt (<) (a # xs) \<Longrightarrow> last (a # xs) < (y::int) \<Longrightarrow> sorted_wrt (<) (a # xs @ [y])"
proof (induction xs arbitrary: a)
  case (Cons b xs)
  then have "sorted_wrt (<) (b # xs @ [y])" and "a < b" by auto
  then show ?case by (simp add: sorted_wrt2 del: sorted_wrt.simps)
qed simp

lemma EventsSince_sorted:
  assumes "log_ok l"
  shows "sorted_wrt (<) (since # map er_Seq (EventsSince l pid since n))"
proof -
  let ?f = "filter (\<lambda>r. since < er_Seq r \<and> (er_ProfileID r = '''' \<or> er_ProfileID r = pid)) (el_rows l)"
  have "sorted_wrt (<) (map er_Seq ?f)"
    using assms by (simp add: log_ok_def sorted_wrt_filter_map)
  then have "sorted_wrt (<) (map er_Seq (take n ?f))" by (simp only: take_map [symmetric] sorted_wrt_take)
  moreover have "\<forall>r \<in> set (take n ?f). since < er_Seq r" by (auto dest: in_set_takeD)
  ultimately show ?thesis unfolding EventsSince_rows [OF assms] by (simp only: sorted_wrt.simps set_map) blast
qed

lemma EventsSince_visible:
  "log_ok l \<Longrightarrow> r \<in> set (EventsSince l pid since n) \<Longrightarrow> visible pid (row_event r)"
  by (auto simp: EventsSince_rows visible_def row_event_def dest: in_set_takeD)

lemma forward_ok:
  assumes "log_ok l" and "sub_ok s"
  shows "sub_ok (forward l s)"
proof (cases "sub_state s")
  case Attached
  with assms EventsSince_sorted [OF assms(1)] EventsSince_visible [OF assms(1)] show ?thesis
    by (simp add: sub_ok_def forward_def sub_rows_def) blast
next
  case (Replaying rs)
  with assms(2) show ?thesis
    by (cases rs) (auto simp: sub_ok_def forward_def sub_rows_def row_event_def)
next
  case Live
  show ?thesis
  proof (cases "sub_ch s")
    case Nil
    with Live assms show ?thesis by (simp add: forward_def)
  next
    case (Cons ev evs)
    have "sorted_wrt (<) (sub_since s # map ev_Seq (sub_out s) @ [ev_Seq ev])"
      if "\<not> ev_Seq ev \<le> sub_lastSent s"
      using assms(2) that Live by (intro sorted_last_snoc) (simp_all add: sub_ok_def sub_rows_def)
    with Live Cons assms show ?thesis by (auto simp: sub_ok_def forward_def sub_rows_def)
  qed
qed

lemma failed_replay_ok: "sub_ok s \<Longrightarrow> sub_state s = Attached \<Longrightarrow> sub_ok (s\<lparr>sub_state := Live\<rparr>)"
  by (simp add: sub_ok_def sub_rows_def)

lemma bus_step_ok: "bus_step b b' \<Longrightarrow> bus_ok b \<Longrightarrow> bus_ok b'"
proof (induction rule: bus_step.induct)
  case (append b ty pid json stored now)
  then show ?case using log_ok_append [of "b_log b" ty pid json stored]
    by (cases "AppendEvent (b_log b) ty pid json stored")
      (simp add: publish_append_def bus_ok_def Let_def)
next
  case (subscribe b i pid since)
  then show ?case by (simp add: bus_ok_def Subscribe_def sub_ok_def sub_rows_def)
next
  case (failed b i)
  then show ?case by (auto simp: bus_ok_def replay_failed_def intro: failed_replay_ok)
qed (auto simp: bus_ok_def publish_deliver_def publish_prune_def forward_step_def cancel_sub_def
    intro: offer_ok forward_ok log_ok_prune)

lemma reach_ok: "bus_reach b \<Longrightarrow> bus_ok b"
proof (induction rule: bus_reach.induct)
  case start
  show ?case by (simp add: bus_ok_def NewBus_def log_ok_def)
qed (rule bus_step_ok)

text \<open>C11
  Under every interleaving of publishers, replays, forwards, prunings and cancellations, what a
  subscriber has been sent is numbered in strictly increasing order from after its resume point -
  so never twice - and is instance-wide or its own profile's; a subscriber's channel never holds
  more than 64 events.
\<close>

theorem deliveries_ordered_and_visible:
  assumes "bus_reach b" and "b_subs b i = Some s"
  shows "sorted_wrt (<) (sub_since s # map ev_Seq (sub_out s)) \<and>
    (\<forall>ev \<in> set (sub_out s). ev_ProfileID ev = '''' \<or> ev_ProfileID ev = sub_profileID s) \<and>
    length (sub_ch s) \<le> chanCap"
  using reach_ok [OF assms(1)] assms(2)
  by (auto simp: bus_ok_def sub_ok_def sorted_wrt_append visible_def)


section \<open>Resuming without loss\<close>

text \<open>
  \<open>served h b\<close>: the runs in which each publication is one step, in the order of the history \<open>h\<close>,
  no channel it is offered to is full, and a replay starts while everything after its resume point
  is still among the last \<open>pruneKeep\<close> rows. Under these conditions nothing is lost.
\<close>

definition publish :: "bus \<Rightarrow> string \<Rightarrow> string \<Rightarrow> string \<Rightarrow> gotime \<Rightarrow> gotime \<Rightarrow> bus \<times> Event" where
  "publish b ty pid json stored now =
     (case publish_append b ty pid json stored now of (b', ev) \<Rightarrow> (publish_deliver b' ev, ev))"

definition room :: "bus \<Rightarrow> bool" where
  "room b \<longleftrightarrow> (\<forall>i s. b_subs b i = Some s \<longrightarrow> length (sub_ch s) < chanCap)"

definition in_retention :: "bus \<Rightarrow> nat \<Rightarrow> bool" where
  "in_retention b i \<longleftrightarrow> (\<forall>s. b_subs b i = Some s \<longrightarrow> sub_state s = Attached \<longrightarrow>
     el_seq (b_log b) - sub_since s \<le> pruneKeep)"

inductive served :: "Event list \<Rightarrow> bus \<Rightarrow> bool" where
  start: "served [] NewBus"
| publish: "served h b \<Longrightarrow> room b \<Longrightarrow> publish b ty pid json stored now = (b', ev) \<Longrightarrow> served (h @ [ev]) b'"
| prune: "served h b \<Longrightarrow> 0 < b_prunes b \<Longrightarrow> served h (publish_prune b)"
| subscribe: "served h b \<Longrightarrow> b_subs b i = None \<Longrightarrow> served h (Subscribe b i pid since)"
| forward: "served h b \<Longrightarrow> in_retention b i \<Longrightarrow> served h (forward_step b i)"
| cancel: "served h b \<Longrightarrow> served h (cancel_sub b i)"

lemma publish_reach: "bus_reach b \<Longrightarrow> publish b ty pid json stored now = (b', ev) \<Longrightarrow> bus_reach b'"
proof -
  assume b: "bus_reach b" and p: "publish b ty pid json stored now = (b', ev)"
  obtain b1 where b1: "publish_append b ty pid json stored now = (b1, ev)" "b' = publish_deliver b1 ev"
    using p by (auto simp: publish_def split: prod.splits)
  have "bus_reach b1" using bus_reach.step [OF b bus_step.append, of ty pid json stored now] b1 by simp
  moreover have "ev \<in> set (b_appended b1)" using b1 by (auto simp: publish_append_def Let_def split: prod.splits)
  ultimately show ?thesis unfolding b1(2) by (rule bus_reach.step [OF _ bus_step.deliver])
qed

lemma served_reach: "served h b \<Longrightarrow> bus_reach b"
  by (induction rule: served.induct)
    (auto intro: bus_reach.intros bus_step.intros publish_reach)

text \<open>What an event tells the listener: everything but the time stamp, which the log rounds to the
  second.\<close>

definition ekey :: "Event \<Rightarrow> int \<times> string \<times> string \<times> string" where
  "ekey ev = (ev_Seq ev, ev_Type ev, ev_ProfileID ev, ev_Data ev)"

definition owed :: "Event list \<Rightarrow> string \<Rightarrow> int \<Rightarrow> Event list" where
  "owed h pid since = filter (\<lambda>ev. since < ev_Seq ev \<and> visible pid ev) h"

text \<open>What is still under way: rows to replay, then the live events after the last of them.\<close>

definition pipeline :: "subscriber \<Rightarrow> Event list" where
  "pipeline s =
     (let sent = sub_out s @ map row_event (sub_rows s)
      in sent @ filter (\<lambda>ev. last (sub_since s # map ev_Seq sent) < ev_Seq ev) (sub_ch s))"

definition numbered :: "Event list \<Rightarrow> bool" where
  "numbered h \<longleftrightarrow> map ev_Seq h = map int [1..<Suc (length h)]"

definition hist_ok :: "Event list \<Rightarrow> event_log \<Rightarrow> bool" where
  "hist_ok h l \<longleftrightarrow> numbered h \<and> el_seq l = int (length h) \<and>
     (\<exists>k. k \<le> length h \<and> map ekey (map row_event (el_rows l)) = map ekey (drop k h) \<and>
        int k \<le> max 0 (int (length h) - pruneKeep))"

definition sub_complete :: "Event list \<Rightarrow> subscriber \<Rightarrow> bool" where
  "sub_complete h s \<longleftrightarrow>
     (\<exists>k. k \<le> length h \<and> sub_ch s = filter (visible (sub_profileID s)) (drop k h)) \<and>
     (sub_state s \<noteq> Attached \<longrightarrow>
        map ekey (pipeline s) = map ekey (owed h (sub_profileID s) (sub_since s)))"

lemma numbered_snoc: "numbered (h @ [ev]) \<longleftrightarrow> numbered h \<and> ev_Seq ev = int (Suc (length h))"
  by (auto simp: numbered_def)

lemma numbered_after: "numbered h \<Longrightarrow> filter (\<lambda>ev. c < ev_Seq ev) h = drop (nat c) h"
proof (induction h rule: rev_induct)
  case (snoc ev h)
  then have "filter (\<lambda>ev. c < ev_Seq ev) h = drop (nat c) h" "ev_Seq ev = int (Suc (length h))"
    by (simp_all add: numbered_snoc)
  then show ?case by auto
qed simp

lemma numbered_le: "numbered h \<Longrightarrow> ev \<in> set h \<Longrightarrow> 1 \<le> ev_Seq ev \<and> ev_Seq ev \<le> int (length h)"
  by (induction h rule: rev_induct) (auto simp: numbered_snoc)

lemma numbered_sorted: "numbered h \<Longrightarrow> sorted_wrt (<) (map ev_Seq h)"
  by (simp add: numbered_def sorted_wrt_map del: upt_Suc)

lemma numbered_drop_sorted: "numbered h \<Longrightarrow> sorted_wrt (<) (map ev_Seq (filter P (drop k h)))"
  by (rule sorted_wrt_filter_map) (simp only: drop_map [symmetric] sorted_wrt_drop numbered_sorted)

lemma owed_drop: "numbered h \<Longrightarrow> owed h pid since = filter (visible pid) (drop (nat since) h)"
  unfolding owed_def by (subst numbered_after [symmetric]) (simp_all add: conj_commute)

lemma ekey_filter:
  assumes P: "\<And>e e'. ekey e = ekey e' \<Longrightarrow> P e = P e'"
  shows "map ekey xs = map ekey ys \<Longrightarrow> map ekey (filter P xs) = map ekey (filter P ys)"
proof (induction xs arbitrary: ys)
  case (Cons x xs)
  then obtain y ys' where ys: "ys = y # ys'" "ekey x = ekey y" "map ekey xs = map ekey ys'" by (cases ys) auto
  show ?case using P [OF ys(2)] Cons.IH [OF ys(3)] by (simp add: ys)
qed simp

lemma ekey_fields: "ekey e = ekey e' \<Longrightarrow> ev_Seq e = ev_Seq e' \<and> ev_ProfileID e = ev_ProfileID e'"
  by (simp add: ekey_def)

lemma ekey_visible: "ekey e = ekey e' \<Longrightarrow> visible pid e = visible pid e'"
  by (simp add: ekey_def visible_def)

lemma ekey_seqs: "map ekey xs = map ekey ys \<Longrightarrow> map ev_Seq xs = map ev_Seq ys"
proof -
  have "map ev_Seq zs = map fst (map ekey zs)" for zs by (simp add: ekey_def)
  then show "map ekey xs = map ekey ys \<Longrightarrow> map ev_Seq xs = map ev_Seq ys" by metis
qed

text \<open>What was sent and what is still to be replayed stays below the numbers to come.\<close>

lemma sent_bound:
  assumes "numbered h" and "map ekey (pipeline s) = map ekey (owed h pid since)"
    and "ev \<in> set (sub_out s @ map row_event (sub_rows s))"
  shows "since < ev_Seq ev \<and> ev_Seq ev \<le> int (length h)"
proof -
  have "ev_Seq ev \<in> set (map ev_Seq (pipeline s))" using assms(3) by (auto simp: pipeline_def Let_def)
  then have "ev_Seq ev \<in> set (map ev_Seq (owed h pid since))" using ekey_seqs [OF assms(2)] by simp
  then show ?thesis using numbered_le [OF assms(1)] by (auto simp: owed_def)
qed

lemma complete_publish:
  assumes h: "numbered h" and s: "sub_complete h s" and ev: "ev_Seq ev = int (Suc (length h))"
    and room: "length (sub_ch s) < chanCap"
  shows "sub_complete (h @ [ev]) (offer ev s)"
proof -
  let ?pid = "sub_profileID s" and ?sent = "sub_out s @ map row_event (sub_rows s)"
  have off: "offer ev s = (if visible ?pid ev then s\<lparr>sub_ch := sub_ch s @ [ev]\<rparr> else s)"
    using room by (auto simp: offer_def visible_def)
  from s obtain k where k: "k \<le> length h" "sub_ch s = filter (visible ?pid) (drop k h)"
    by (auto simp: sub_complete_def)
  have "map ekey (pipeline (offer ev s)) = map ekey (owed (h @ [ev]) ?pid (sub_since s))"
    if st: "sub_state s \<noteq> Attached"
  proof -
    from s st have p: "map ekey (pipeline s) = map ekey (owed h ?pid (sub_since s))"
      by (simp add: sub_complete_def)
    have "last (sub_since s # map ev_Seq ?sent) < ev_Seq ev \<longleftrightarrow> sub_since s < ev_Seq ev"
    proof (cases "?sent = []")
      case False
      then have "last ?sent \<in> set ?sent" by (rule last_in_set)
      moreover have "last (sub_since s # map ev_Seq ?sent) = ev_Seq (last ?sent)"
        using False by (metis last_ConsR last_map map_is_Nil_conv)
      ultimately show ?thesis using sent_bound [OF h p] ev by fastforce
    qed simp
    with p show ?thesis
      unfolding off pipeline_def owed_def by (auto simp: sub_rows_def Let_def)
  qed
  with k off show ?thesis unfolding sub_complete_def by (auto intro!: exI [of _ k])
qed

lemma numbered_take: "numbered h \<Longrightarrow> numbered (take k h)"
proof -
  assume h: "numbered h"
  have "map ev_Seq (take k h) = take k (map ev_Seq h)" by (rule take_map [symmetric])
  also have "\<dots> = map int (take k [1..<Suc (length h)])" using h by (simp only: numbered_def take_map)
  also have "take k [1..<Suc (length h)] = [1..<Suc (length (take k h))]"
    by (cases "k \<le> length h") (simp_all add: take_upt min_def del: upt_Suc)
  finally show ?thesis by (simp add: numbered_def)
qed

lemma strict_le_last: "sorted_wrt (<) (xs :: int list) \<Longrightarrow> x \<in> set xs \<Longrightarrow> x \<le> last xs"
  by (induction xs rule: rev_induct) (auto simp: sorted_wrt_append)

lemma after_drop:
  assumes "numbered h" and "k \<le> nat c \<or> k = 0"
  shows "filter (\<lambda>ev. c < ev_Seq ev) (drop k h) = drop (nat c) h"
proof -
  have "filter (\<lambda>ev. c < ev_Seq ev) (take k h) = []"
    using assms numbered_le [OF numbered_take [OF assms(1)], of _ k] by (fastforce simp: filter_empty_conv)
  moreover have "filter (\<lambda>ev. c < ev_Seq ev) h =
      filter (\<lambda>ev. c < ev_Seq ev) (take k h) @ filter (\<lambda>ev. c < ev_Seq ev) (drop k h)"
    by (simp only: filter_append [symmetric] append_take_drop_id)
  ultimately show ?thesis using numbered_after [OF assms(1)] by simp
qed

lemma replay_rows:
  assumes h: "hist_ok h l" and ok: "log_ok l" and ret: "el_seq l - c \<le> pruneKeep"
  shows "map ekey (map row_event (EventsSince l pid c (nat pruneKeep))) = map ekey (owed h pid c)"
proof -
  from h obtain k where num: "numbered h" and k: "k \<le> length h"
    "map ekey (map row_event (el_rows l)) = map ekey (drop k h)"
    "int k \<le> max 0 (int (length h) - pruneKeep)" and len: "el_seq l = int (length h)"
    by (auto simp: hist_ok_def)
  let ?F = "filter (\<lambda>r. c < er_Seq r \<and> (er_ProfileID r = '''' \<or> er_ProfileID r = pid)) (el_rows l)"
  let ?P = "\<lambda>ev. c < ev_Seq ev \<and> visible pid ev"
  have "k \<le> nat c \<or> k = 0" using k(3) ret len by (auto simp: pruneKeep_def)
  then have dropc: "filter (\<lambda>ev. c < ev_Seq ev) (drop k h) = drop (nat c) h"
    by (rule after_drop [OF num])
  have "map row_event ?F = filter ?P (map row_event (el_rows l))"
    by (simp add: filter_map comp_def visible_def row_event_def)
  moreover have "map ekey (filter ?P (map row_event (el_rows l))) = map ekey (filter ?P (drop k h))"
    using k(2) by (rule ekey_filter [rotated]) (auto simp: ekey_def visible_def)
  moreover have "filter ?P (drop k h) = filter (visible pid) (drop (nat c) h)"
    unfolding dropc [symmetric] by (simp add: conj_commute)
  ultimately have F: "map ekey (map row_event ?F) = map ekey (owed h pid c)"
    by (simp add: owed_drop [OF num])
  have "length ?F = length (owed h pid c)" using arg_cong [OF F, of length] by simp
  also have "\<dots> \<le> length h - nat c" unfolding owed_drop [OF num]
    by (rule order_trans [OF length_filter_le]) simp
  also have "\<dots> \<le> nat pruneKeep" using ret len by (auto simp: pruneKeep_def)
  finally show ?thesis using F by (simp add: EventsSince_rows [OF ok])
qed

lemma complete_replay:
  assumes h: "hist_ok h l" and ok: "log_ok l" and s: "sub_complete h s" and st: "sub_state s = Attached"
    and ret: "el_seq l - sub_since s \<le> pruneKeep" and out: "sub_out s = []"
  shows "sub_complete h (forward l s)"
proof -
  let ?pid = "sub_profileID s" and ?c = "sub_since s"
  let ?rows = "EventsSince l ?pid ?c (nat pruneKeep)"
  let ?sent = "?c # map ev_Seq (map row_event ?rows)"
  note rows = replay_rows [OF h ok ret, of ?pid]
  from s obtain k where k: "k \<le> length h" "sub_ch s = filter (visible ?pid) (drop k h)"
    by (auto simp: sub_complete_def)
  have sent: "sorted_wrt (<) ?sent"
    using EventsSince_sorted [OF ok, of ?c ?pid "nat pruneKeep"] by (simp add: row_event_def comp_def)
  have "filter (\<lambda>ev. last ?sent < ev_Seq ev) (sub_ch s) = []"
  proof (simp only: filter_empty_conv, intro ballI)
    fix ev assume "ev \<in> set (sub_ch s)"
    then have ev: "ev \<in> set h" "visible ?pid ev" by (auto simp: k(2) dest: in_set_dropD)
    have "?c \<le> last ?sent" by (rule strict_le_last [OF sent]) simp
    moreover have "ev_Seq ev \<le> last ?sent" if "?c < ev_Seq ev"
    proof -
      from that ev have "ev_Seq ev \<in> set (map ev_Seq (owed h ?pid ?c))" by (simp add: owed_def)
      then have "ev_Seq ev \<in> set ?sent" using ekey_seqs [OF rows] by simp
      then show ?thesis by (rule strict_le_last [OF sent])
    qed
    ultimately show "\<not> last ?sent < ev_Seq ev" by linarith
  qed
  then have "map ekey (pipeline (forward l s)) = map ekey (owed h ?pid ?c)"
    using rows out st by (simp only: pipeline_def sub_rows_def forward_def Let_def) simp
  then show ?thesis
    using k st by (auto simp: sub_complete_def forward_def)
qed

lemma complete_forward:
  assumes num: "numbered h" and s: "sub_complete h s" and ok: "sub_ok s" and st: "sub_state s \<noteq> Attached"
  shows "sub_complete h (forward l s)"
proof (cases "sub_state s")
  case (Replaying rs)
  with s show ?thesis
    by (cases rs) (auto simp: sub_complete_def forward_def pipeline_def sub_rows_def Let_def)
next
  case Live
  show ?thesis
  proof (cases "sub_ch s")
    case Nil
    with Live s show ?thesis by (simp add: forward_def)
  next
    case (Cons ev evs)
    from s obtain k where k: "k \<le> length h" "ev # evs = filter (visible (sub_profileID s)) (drop k h)"
      by (auto simp: sub_complete_def Cons)
    then obtain us vs where vs: "drop k h = us @ ev # vs" "evs = filter (visible (sub_profileID s)) vs"
      by (auto simp: Cons_eq_filter_iff)
    then have "vs = drop (k + length us + 1) h"
      by (metis (no_types) add.commute append.assoc append_Cons append_Nil append_eq_conv_conj drop_drop length_append_singleton plus_1_eq_Suc add_Suc_right)
    moreover have "length (drop k h) = length us + 1 + length vs" using vs by simp
    then have "k + length us + 1 \<le> length h" using k(1) by simp
    ultimately have ex: "\<exists>k. k \<le> length h \<and> evs = filter (visible (sub_profileID s)) (drop k h)"
      using vs by blast
    have "sorted_wrt (<) (map ev_Seq (ev # evs))" unfolding k(2) by (rule numbered_drop_sorted [OF num])
    then have "filter (\<lambda>e. ev_Seq ev < ev_Seq e) evs = evs" 
      and "\<not> ev_Seq ev \<le> sub_lastSent s \<Longrightarrow> filter (\<lambda>e. sub_lastSent s < ev_Seq e) evs = evs"
      by (fastforce simp: filter_id_conv)+
    moreover have "last (sub_since s # map ev_Seq (sub_out s)) = sub_lastSent s"
      using ok by (simp add: sub_ok_def)
    moreover have "last (sub_since s # map ev_Seq (sub_out s) @ [ev_Seq ev]) = ev_Seq ev" by simp
    ultimately have "pipeline (forward l s) = pipeline s"
      using Live Cons by (simp add: pipeline_def forward_def sub_rows_def Let_def del: last.simps)
    then show ?thesis using s ex Live Cons by (auto simp: sub_complete_def forward_def)
  qed
qed (use st in simp)

lemma hist_publish:
  assumes "hist_ok h (b_log b)" and "publish b ty pid json stored now = (b', ev)"
  shows "hist_ok (h @ [ev]) (b_log b')" and "ev_Seq ev = int (Suc (length h))"
    and "b_subs b' = map_option (offer ev) \<circ> b_subs b"
proof -
  show ev: "ev_Seq ev = int (Suc (length h))" and subs: "b_subs b' = map_option (offer ev) \<circ> b_subs b"
    using assms by (auto simp: publish_def publish_append_def publish_deliver_def AppendEvent_def
        hist_ok_def Let_def)
  obtain k where "numbered h" and k: "k \<le> length h" 
    "map ekey (map row_event (el_rows (b_log b))) = map ekey (drop k h)" 
    "int k \<le> max 0 (int (length h) - pruneKeep)"
    using assms(1) by (auto simp: hist_ok_def)
  have log: "el_seq (b_log b') = el_seq (b_log b) + 1"
    "map ekey (map row_event (el_rows (b_log b'))) = map ekey (map row_event (el_rows (b_log b))) @ [ekey ev]"
    using assms(2) by (auto simp: publish_def publish_append_def publish_deliver_def AppendEvent_def
        Let_def ekey_def row_event_def)
  have "map ekey (map row_event (el_rows (b_log b'))) = map ekey (drop k (h @ [ev]))"
    unfolding log(2) k(2) using k(1) by simp
  moreover have "int k \<le> max 0 (int (length (h @ [ev])) - pruneKeep)" using k(3) by simp
  moreover have "k \<le> length (h @ [ev])" using k(1) by simp
  ultimately show "hist_ok (h @ [ev]) (b_log b')"
    unfolding hist_ok_def numbered_snoc using assms(1) \<open>numbered h\<close> ev log(1) by (auto simp: hist_ok_def)
qed

lemma LatestEventSeq_last:
  assumes "log_ok l" "el_rows l \<noteq> []"
  shows "LatestEventSeq l = er_Seq (last (el_rows l))"
proof -
  have "fold (\<lambda>x m. max (er_Seq x) m) rs (er_Seq r) = er_Seq (last (r # rs))"
    if "sorted_wrt (<) (map er_Seq (r # rs))" for r rs
    using that by (induction rs arbitrary: r) (auto simp: max_def)
  note fold_last = this
  obtain r rs where "el_rows l = r # rs" using assms(2) by (cases "el_rows l") auto
  with fold_last [of r rs] assms(1) show ?thesis by (simp add: LatestEventSeq_def log_ok_def)
qed

lemma hist_prune:
  assumes "hist_ok h l" and ok: "log_ok l"
  shows "hist_ok h (PruneEvents l pruneKeep)"
proof -
  obtain k where num: "numbered h" and k: "k \<le> length h" 
    "map ekey (map row_event (el_rows l)) = map ekey (drop k h)" 
    "int k \<le> max 0 (int (length h) - pruneKeep)"
    using assms(1) by (auto simp: hist_ok_def)
  show ?thesis
  proof (cases "el_rows l = []")
    case True
    then have "PruneEvents l pruneKeep = l" by (simp add: PruneEvents_def)
    then show ?thesis using assms(1) by simp
  next
    case False
    then have "drop k h \<noteq> []" using k(2) by auto
    let ?c = "int (length h) - pruneKeep"
    have "er_Seq (last (el_rows l)) = ev_Seq (last (drop k h))"
    proof -
      have "last (map ev_Seq (map row_event (el_rows l))) = last (map ev_Seq (drop k h))"
        using ekey_seqs [OF k(2)] by simp
      then show ?thesis using False \<open>drop k h \<noteq> []\<close> by (simp add: last_map row_event_def)
    qed
    also have "\<dots> = int (length h)"
    proof -
      have h: "k < length h" "h \<noteq> []" using \<open>drop k h \<noteq> []\<close> by auto
      have "last (map ev_Seq h) = int (length h)" using num h by (auto simp: numbered_def)
      moreover have "last (map ev_Seq h) = ev_Seq (last h)" using h(2) by (rule last_map)
      moreover have "last (drop k h) = last h" using h(1) by (rule last_drop)
      ultimately show ?thesis by simp
    qed
    finally have "LatestEventSeq l - pruneKeep = ?c" using LatestEventSeq_last [OF ok False] by simp
    then have rows: "map row_event (el_rows (PruneEvents l pruneKeep)) =
        filter (\<lambda>ev. ?c < ev_Seq ev) (map row_event (el_rows l))"
      by (simp add: PruneEvents_def delete_where_def filter_map comp_def row_event_def not_le)
    have "k \<le> nat ?c \<or> k = 0" using k(3) by auto
    then have "filter (\<lambda>ev. ?c < ev_Seq ev) (drop k h) = drop (nat ?c) h" by (rule after_drop [OF num])
    moreover have "map ekey (filter (\<lambda>ev. ?c < ev_Seq ev) (map row_event (el_rows l))) =
        map ekey (filter (\<lambda>ev. ?c < ev_Seq ev) (drop k h))"
      using k(2) by (rule ekey_filter [rotated]) (simp add: ekey_def)
    ultimately have "map ekey (map row_event (el_rows (PruneEvents l pruneKeep))) = map ekey (drop (nat ?c) h)"
      unfolding rows by simp
    moreover have "nat ?c \<le> length h" by (simp add: pruneKeep_def)
    ultimately show ?thesis using assms(1) unfolding hist_ok_def
      by (auto simp: PruneEvents_def intro!: exI [of _ "nat ?c"])
  qed
qed

lemma served_ok:
  "served h b \<Longrightarrow> hist_ok h (b_log b) \<and> (\<forall>i s. b_subs b i = Some s \<longrightarrow> sub_complete h s)"
proof (induction rule: served.induct)
  case start
  show ?case by (simp add: hist_ok_def numbered_def NewBus_def)
next
  case (publish h b ty pid json stored now b' ev)
  note pub = hist_publish [OF _ publish.hyps(3)]
  from publish.IH have h: "hist_ok h (b_log b)" by simp
  have "sub_complete (h @ [ev]) s" if "b_subs b' i = Some s" for i s
  proof -
    from that obtain s0 where "b_subs b i = Some s0" "s = offer ev s0" by (auto simp: pub(3) [OF h])
    then show ?thesis
      using complete_publish pub(2) [OF h] publish.IH publish.hyps(2) h by (auto simp: room_def hist_ok_def)
  qed
  with pub(1) [OF h] show ?case by blast
next
  case (prune h b)
  then have "log_ok (b_log b)" using reach_ok [OF served_reach] by (simp add: bus_ok_def)
  with prune show ?case by (simp add: publish_prune_def hist_prune)
next
  case (subscribe h b i pid since)
  then show ?case by (auto simp: Subscribe_def sub_complete_def intro: exI [of _ "length h"])
next
  case (forward h b i)
  then have ok: "bus_ok b" using reach_ok [OF served_reach] by simp
  have "sub_complete h (EventBus.forward (b_log b) s)" if s: "b_subs b i = Some s" for s
  proof (cases "sub_state s = Attached")
    case True
    with s ok forward show ?thesis
      by (intro complete_replay) (auto simp: in_retention_def bus_ok_def sub_ok_def)
  next
    case False
    with s ok forward show ?thesis
      by (intro complete_forward) (auto simp: hist_ok_def bus_ok_def)
  qed
  with forward show ?case by (auto simp: forward_step_def)
next
  case (cancel h b i)
  then show ?case by (simp add: cancel_sub_def)
qed


definition demo_pub :: "bus \<Rightarrow> string \<Rightarrow> bus \<times> Event" where
  "demo_pub b json = publish b ''x'' ''p'' json 0 0"

definition demo_b1 :: bus where "demo_b1 = Subscribe (fst (demo_pub NewBus ''a'')) 0 ''p'' 0"
definition demo_b2 :: bus where "demo_b2 = fst (demo_pub demo_b1 ''b'')"
definition demo_b3 :: bus where "demo_b3 = forward_step (forward_step demo_b2 0) 0"
definition demo_b4 :: bus where "demo_b4 = forward_step (forward_step (forward_step demo_b3 0) 0) 0"

definition demo_hist :: "Event list" where
  "demo_hist = [snd (demo_pub NewBus ''a''), snd (demo_pub demo_b1 ''b'')]"

lemmas bus_eval = demo_b1_def demo_b2_def demo_b3_def demo_b4_def demo_hist_def demo_pub_def publish_def
  publish_append_def publish_deliver_def AppendEvent_def Subscribe_def forward_step_def forward_def
  offer_def chanCap_def NewBus_def EventsSince_def row_event_def pruneKeep_def unix_def second_def Let_def

lemma served_demo_pub: "served h b \<Longrightarrow> room b \<Longrightarrow> served (h @ [snd (demo_pub b j)]) (fst (demo_pub b j))"
  by (rule served.publish) (auto simp: demo_pub_def)

lemma demo_served: "served demo_hist demo_b4"
proof -
  have 1: "served ([] @ [snd (demo_pub NewBus ''a'')]) (fst (demo_pub NewBus ''a''))"
    by (rule served_demo_pub [OF served.start]) (simp add: room_def NewBus_def)
  have "served [snd (demo_pub NewBus ''a'')] demo_b1"
    unfolding demo_b1_def using 1 by (intro served.subscribe) (simp_all add: bus_eval)
  then have 2: "served ([snd (demo_pub NewBus ''a'')] @ [snd (demo_pub demo_b1 ''b'')]) demo_b2"
    unfolding demo_b2_def by (rule served_demo_pub) (simp add: room_def bus_eval)
  have 3: "served demo_hist demo_b3"
    unfolding demo_b3_def using 2
    by (intro served.forward) (simp_all add: demo_hist_def in_retention_def, simp_all add: bus_eval)
  then show ?thesis
    unfolding demo_b4_def
    by (intro served.forward) (simp_all add: in_retention_def, simp_all add: bus_eval)
qed


lemma deliveries_ordered_and_visible_witness:
  "\<exists>s. b_subs demo_b4 0 = Some s \<and> sorted_wrt (<) (0 # map ev_Seq (sub_out s)) \<and> sub_out s \<noteq> []"
proof -
  have "b_subs demo_b4 0 \<noteq> None" by (simp add: bus_eval)
  then obtain s where s0: "b_subs demo_b4 0 = Some s" by auto
  then have s: "b_subs demo_b4 0 = Some s" "sub_since s = 0" "sub_out s \<noteq> []"
    by (auto simp: bus_eval)
  from deliveries_ordered_and_visible [OF served_reach [OF demo_served] s(1)] s show ?thesis by auto
qed

subsection \<open>Overtaking\<close>

text \<open>
  Two publishers append their rows in one order and reach the lock in the other: a live subscriber
  is sent the second event, skips the first as already replayed, and a reconnect from the last
  number it saw does not replay it either.
\<close>

definition overtaken :: bus where
  "overtaken =
     (let b0 = forward_step (forward_step (Subscribe NewBus 0 ''p'' 0) 0) 0;
          (b1, e1) = publish_append b0 ''x'' ''p'' ''first'' 0 0;
          (b2, e2) = publish_append b1 ''x'' ''p'' ''second'' 0 0;
          b3 = publish_deliver (publish_deliver b2 e2) e1
      in forward_step (forward_step b3 0) 0)"

lemma overtaken_reach: "bus_reach overtaken"
proof -
  let ?b0 = "forward_step (forward_step (Subscribe NewBus 0 ''p'' 0) 0) 0"
  let ?b1 = "fst (publish_append ?b0 ''x'' ''p'' ''first'' 0 0)"
  let ?e1 = "snd (publish_append ?b0 ''x'' ''p'' ''first'' 0 0)"
  let ?b2 = "fst (publish_append ?b1 ''x'' ''p'' ''second'' 0 0)"
  let ?e2 = "snd (publish_append ?b1 ''x'' ''p'' ''second'' 0 0)"
  have "bus_reach ?b2"
    by (intro bus_reach.step [OF _ bus_step.append] bus_reach.step [OF _ bus_step.forward]
        bus_reach.step [OF _ bus_step.subscribe] bus_reach.start) (simp add: NewBus_def)
  moreover have "?e2 \<in> set (b_appended ?b2)" "?e1 \<in> set (b_appended (publish_deliver ?b2 ?e2))"
    by (simp_all add: bus_eval)
  ultimately have "bus_reach (publish_deliver (publish_deliver ?b2 ?e2) ?e1)"
    by (meson bus_reach.step bus_step.deliver)
  then show ?thesis
    unfolding overtaken_def Let_def split_beta
    by (intro bus_reach.step [OF _ bus_step.forward])
qed

text \<open>
  An event can be lost for good: in a reachable state everything published has been fanned out and
  the subscriber has drained its channel, yet an event addressed to its profile was never sent, and
  resuming from the last number sent - the Last-Event-ID of a reconnect - does not return it.
\<close>

lemma overtaken_event_lost:
  "bus_reach overtaken \<and> b_appended overtaken = [] \<and>
   (\<exists>s lost. b_subs overtaken 0 = Some s \<and> sub_state s = Live \<and> sub_ch s = [] \<and> sub_since s = 0 \<and>
      lost \<in> set (EventsSince (b_log overtaken) ''p'' 0 10000) \<and> er_ProfileID lost = sub_profileID s \<and>
      er_Seq lost \<notin> set (map ev_Seq (sub_out s)) \<and>
      lost \<notin> set (EventsSince (b_log overtaken) ''p'' (sub_lastSent s) 10000))"
  using overtaken_reach
  by (intro conjI, assumption, simp add: overtaken_def bus_eval)
    (simp add: overtaken_def bus_eval, rule exI [of _ "\<lparr>er_Seq = 1, er_Type = ''x'', er_ProfileID = ''p'',
      er_At = 0, er_Data = ''first''\<rparr>"], simp)

end
