(* ===== verification/Activity.thy ===== *)
theory Activity
  imports Prelude
begin

text \<open>
  The process-local activity snapshot (\<open>internal/activity/tracker.go\<close>), fenced by generation
  tokens, and the log cadence of the pipelines (\<open>internal/progress/reporter.go\<close>). The clock is an
  argument of each operation.
\<close>

section \<open>The tracker\<close>

datatype Stage = StageFilesystemScan | StageMusicBrainzResolution | StageMusicBrainzArtistMetadata
  | StageAlbumArtwork | StageArtistArtwork

datatype AState = StateRunning | StateFailed

datatype Reason = NoReason | ReasonOperationFailed

record Counts =
  cn_Total :: int
  cn_Discovered :: int
  cn_Reused :: int
  cn_Probed :: int
  cn_Indexed :: int
  cn_Processed :: int
  cn_Attempted :: int
  cn_Changed :: int
  cn_Removed :: int
  cn_Succeeded :: int
  cn_Skipped :: int
  cn_Missed :: int
  cn_Transient :: int
  cn_Failed :: int
  cn_Terminal :: int
  cn_Remaining :: int

definition no_counts :: Counts where
  "no_counts = \<lparr>cn_Total = 0, cn_Discovered = 0, cn_Reused = 0, cn_Probed = 0, cn_Indexed = 0,
     cn_Processed = 0, cn_Attempted = 0, cn_Changed = 0, cn_Removed = 0, cn_Succeeded = 0,
     cn_Skipped = 0, cn_Missed = 0, cn_Transient = 0, cn_Failed = 0, cn_Terminal = 0, cn_Remaining = 0\<rparr>"

record Snapshot =
  sn_Stage :: Stage
  sn_State :: AState
  sn_StartedAt :: gotime
  sn_UpdatedAt :: gotime
  sn_Counts :: Counts
  sn_Reason :: Reason

text \<open>A token is its generation, a \<open>uint64\<close>; 0 is the zero token.\<close>

type_synonym Token = "64 word"

record tracker =
  tk_generation :: "64 word"
  tk_snapshot :: "Snapshot option"

definition NewTracker :: tracker where
  "NewTracker = \<lparr>tk_generation = 0, tk_snapshot = None\<rparr>"

definition current :: "tracker \<Rightarrow> Token \<Rightarrow> bool" where
  "current t tok \<longleftrightarrow> tk_snapshot t \<noteq> None \<and> tok \<noteq> 0 \<and> tok = tk_generation t"

definition Start :: "tracker \<Rightarrow> Stage \<Rightarrow> Counts \<Rightarrow> gotime \<Rightarrow> tracker \<times> Token" where
  "Start t stage counts now =
     (let g = tk_generation t + 1
      in (\<lparr>tk_generation = g,
           tk_snapshot = Some \<lparr>sn_Stage = stage, sn_State = StateRunning, sn_StartedAt = now,
             sn_UpdatedAt = now, sn_Counts = counts, sn_Reason = NoReason\<rparr>\<rparr>, g))"

definition Update :: "tracker \<Rightarrow> Token \<Rightarrow> Counts \<Rightarrow> gotime \<Rightarrow> tracker" where
  "Update t tok counts now =
     (if \<not> current t tok then t
      else t\<lparr>tk_snapshot := map_option (\<lambda>s. s\<lparr>sn_Counts := counts, sn_UpdatedAt := now\<rparr>) (tk_snapshot t)\<rparr>)"

definition Fail :: "tracker \<Rightarrow> Token \<Rightarrow> Counts \<Rightarrow> gotime \<Rightarrow> tracker" where
  "Fail t tok counts now =
     (if \<not> current t tok then t
      else t\<lparr>tk_snapshot := map_option (\<lambda>s. s\<lparr>sn_State := StateFailed, sn_Counts := counts,
               sn_Reason := ReasonOperationFailed, sn_UpdatedAt := now\<rparr>) (tk_snapshot t)\<rparr>)"

definition Finish :: "tracker \<Rightarrow> Token \<Rightarrow> tracker" where
  "Finish t tok = (if current t tok then t\<lparr>tk_snapshot := None\<rparr> else t)"

definition RetainFailure :: "tracker \<Rightarrow> Token \<Rightarrow> Snapshot \<Rightarrow> gotime \<Rightarrow> tracker" where
  "RetainFailure t tok failed now =
     (if \<not> current t tok then t
      else t\<lparr>tk_snapshot := Some (failed\<lparr>sn_State := StateFailed, sn_Reason := ReasonOperationFailed,
               sn_UpdatedAt := now\<rparr>)\<rparr>)"

text \<open>An operation of a pipeline that holds some token, or the start of a new stage.\<close>

datatype track_op =
  TStart Stage Counts gotime
| TUpdate Token Counts gotime
| TFail Token Counts gotime
| TFinish Token
| TRetain Token Snapshot gotime

fun track_step :: "tracker \<Rightarrow> track_op \<Rightarrow> tracker" where
  "track_step t (TStart st c now) = fst (Start t st c now)"
| "track_step t (TUpdate tok c now) = Update t tok c now"
| "track_step t (TFail tok c now) = Fail t tok c now"
| "track_step t (TFinish tok) = Finish t tok"
| "track_step t (TRetain tok s now) = RetainFailure t tok s now"

fun op_token :: "track_op \<Rightarrow> Token option" where
  "op_token (TStart _ _ _) = None"
| "op_token (TUpdate tok _ _) = Some tok"
| "op_token (TFail tok _ _) = Some tok"
| "op_token (TFinish tok) = Some tok"
| "op_token (TRetain tok _ _) = Some tok"

lemmas track_defs = Start_def Update_def Fail_def Finish_def RetainFailure_def current_def

lemma track_step_generation: "op_token x \<noteq> None \<Longrightarrow> tk_generation (track_step t x) = tk_generation t"
  by (cases x) (simp_all add: track_defs)

lemma track_step_stale: "op_token x = Some tok \<Longrightarrow> tok \<noteq> tk_generation t \<Longrightarrow> track_step t x = t"
  by (cases x) (auto simp: track_defs)

text \<open>A failed snapshot always says why, and a running one has no reason.\<close>

definition snapshot_ok :: "tracker \<Rightarrow> bool" where
  "snapshot_ok t \<longleftrightarrow> (\<forall>s. tk_snapshot t = Some s \<longrightarrow>
     (sn_State s = StateFailed) = (sn_Reason s = ReasonOperationFailed))"

interpretation tracker: component NewTracker track_step snapshot_ok
proof unfold_locales
  show "snapshot_ok NewTracker" by (simp add: snapshot_ok_def NewTracker_def)
  show "snapshot_ok (track_step t x)" if "snapshot_ok t" for t x
    using that by (cases x) (auto simp: snapshot_ok_def track_defs Let_def)
qed

text \<open>
  A stage that has been superseded can no longer touch the activity: after a new stage starts, any
  operations of holders of other tokens leave exactly what the new stage's own operations leave.
\<close>

lemma stale_tokens_powerless:
  assumes "Start t stage counts now = (t', tok)" and "\<forall>x \<in> set xs. op_token x \<noteq> None"
  shows "run_ops track_step t' xs = run_ops track_step t' (filter (\<lambda>x. op_token x = Some tok) xs)"
proof -
  have gen: "tk_generation t' = tok" using assms(1) by (auto simp: Start_def Let_def)
  have "run_ops track_step s xs = run_ops track_step s (filter (\<lambda>x. op_token x = Some tok) xs)"
    if "tk_generation s = tok" "\<forall>x \<in> set xs. op_token x \<noteq> None" for s
    using that
  proof (induction xs arbitrary: s)
    case (Cons x xs)
    then have "tk_generation (track_step s x) = tok" by (simp add: track_step_generation)
    moreover have "track_step s x = s" if "op_token x \<noteq> Some tok"
      using Cons.prems that by (auto intro: track_step_stale)
    ultimately show ?case using Cons by auto
  qed simp
  from this [OF gen assms(2)] show ?thesis .
qed

lemma stale_tokens_powerless_witness:
  "tk_snapshot (run_ops track_step (fst (Start NewTracker StageAlbumArtwork no_counts 5)) [TFinish 7, TFail 3 no_counts 9]) =
   tk_snapshot (fst (Start NewTracker StageAlbumArtwork no_counts 5))"
  using stale_tokens_powerless [of NewTracker StageAlbumArtwork no_counts 5
      "fst (Start NewTracker StageAlbumArtwork no_counts 5)" 1 "[TFinish 7, TFail 3 no_counts 9]"]
  by (simp add: Start_def NewTracker_def Let_def)

section \<open>The progress cadence\<close>

record reporter =
  rp_interval :: duration
  rp_started :: gotime
  rp_last :: gotime
  rp_lastProcessed :: int

definition NewReporter :: "gotime \<Rightarrow> duration \<Rightarrow> reporter" where
  "NewReporter now interval = \<lparr>rp_interval = interval, rp_started = now, rp_last = now, rp_lastProcessed = 0\<rparr>"

definition Due :: "reporter \<Rightarrow> gotime \<Rightarrow> int \<Rightarrow> reporter \<times> bool" where
  "Due r now processed =
     (if processed \<le> rp_lastProcessed r then (r, False)
      else if now - rp_last r < rp_interval r then (r, False)
      else (r\<lparr>rp_last := now, rp_lastProcessed := processed\<rparr>, True))"

definition DurationMS :: "reporter \<Rightarrow> gotime \<Rightarrow> int" where
  "DurationMS r now = milliseconds (now - rp_started r)"

text \<open>The instants, with the counter, at which a sequence of calls reports.\<close>

fun reports :: "reporter \<Rightarrow> (gotime \<times> int) list \<Rightarrow> (gotime \<times> int) list" where
  "reports r [] = []"
| "reports r ((now, n) # xs) =
     (case Due r now n of (r', due) \<Rightarrow> (if due then [(now, n)] else []) @ reports r' xs)"

lemma reports_spaced_from:
  "sorted_wrt (\<lambda>a b. rp_interval r \<le> fst b - fst a \<and> snd a < snd b) ((rp_last r, rp_lastProcessed r) # reports r xs)"
  if "0 \<le> rp_interval r"
  using that
proof (induction xs arbitrary: r)
  case (Cons x xs)
  obtain now n where x: "x = (now, n)" by fastforce
  show ?case
  proof (cases "snd (Due r now n)")
    case True
    then have due: "Due r now n = (r\<lparr>rp_last := now, rp_lastProcessed := n\<rparr>, True)"
      and "rp_lastProcessed r < n" "rp_interval r \<le> now - rp_last r"
      by (auto simp: Due_def split: if_splits)
    with Cons.IH [of "r\<lparr>rp_last := now, rp_lastProcessed := n\<rparr>"] Cons.prems x show ?thesis
      by fastforce
  next
    case False
    then have "Due r now n = (r, False)" by (auto simp: Due_def split: if_splits)
    with Cons x show ?thesis by simp
  qed
qed simp

text \<open>
  Two progress reports are never closer together than the interval, and the counter has advanced
  between them.
\<close>

lemma reports_spaced:
  "0 \<le> interval \<Longrightarrow> sorted_wrt (\<lambda>a b. interval \<le> fst b - fst a \<and> snd a < snd b) (reports (NewReporter now interval) xs)"
  using reports_spaced_from [of "NewReporter now interval" xs] by (simp add: NewReporter_def)

end
