(* ===== verification/Pacer.thy ===== *)
theory Pacer
  imports Prelude
begin

text \<open>
  The provider pacer (\<open>internal/enrich/pacer.go\<close>): it releases the requests to one provider no
  closer together than an interval, in the order they came. The state holds, besides the fields of
  \<open>providerPacer\<close>, the clock, the \<open>AfterFunc\<close> timers still pending (the instants they are due) and
  the history of releases. A step is one section under the lock, or the passing of time.
\<close>

record pacer =
  pc_interval :: duration
  pc_last :: "gotime option"
  pc_queue :: "nat list"
  pc_waitCount :: nat
  pc_timers :: "gotime list"
  pc_now :: gotime
  pc_released :: "(gotime \<times> nat) list"

definition newProviderPacer :: "duration \<Rightarrow> gotime \<Rightarrow> pacer" where
  "newProviderPacer interval now =
     \<lparr>pc_interval = interval, pc_last = None, pc_queue = [], pc_waitCount = 0, pc_timers = [],
      pc_now = now, pc_released = []\<rparr>"

text \<open>\<open>Wait\<close> up to its \<open>select\<close>: the caller \<open>w\<close> is let through at once or queued.\<close>

definition Wait :: "pacer \<Rightarrow> nat \<Rightarrow> pacer" where
  "Wait p w =
     (let p = p\<lparr>pc_waitCount := pc_waitCount p + 1\<rparr>;
          through = p\<lparr>pc_last := Some (pc_now p), pc_released := pc_released p @ [(pc_now p, w)]\<rparr>
      in case pc_last p of
           None \<Rightarrow> through
         | Some l0 \<Rightarrow>
             if pc_interval p \<le> pc_now p - l0 \<and> pc_queue p = [] then through
             else
               (let q = pc_queue p @ [w];
                    delay = max 0 (l0 + pc_interval p - pc_now p)
                in p\<lparr>pc_queue := q,
                     pc_timers := (if length q = 1 then pc_timers p @ [pc_now p + delay] else pc_timers p)\<rparr>))"

text \<open>The \<open>ctx.Done\<close> branch of \<open>Wait\<close>.\<close>

definition cancel_wait :: "pacer \<Rightarrow> nat \<Rightarrow> pacer" where
  "cancel_wait p w = p\<lparr>pc_queue := remove1 w (pc_queue p)\<rparr>"

definition advance :: "pacer \<Rightarrow> pacer" where
  "advance p =
     (case pc_queue p of
        [] \<Rightarrow> p
      | w # q \<Rightarrow>
          p\<lparr>pc_queue := q, pc_last := Some (pc_now p), pc_released := pc_released p @ [(pc_now p, w)],
            pc_timers := (if q \<noteq> [] then pc_timers p @ [pc_now p + pc_interval p] else pc_timers p)\<rparr>)"

text \<open>A timer that is due fires: it leaves the pending timers and calls \<open>advance\<close>.\<close>

definition fire :: "pacer \<Rightarrow> gotime \<Rightarrow> pacer" where
  "fire p t = advance (p\<lparr>pc_timers := remove1 t (pc_timers p)\<rparr>)"

definition tick :: "pacer \<Rightarrow> duration \<Rightarrow> pacer" where
  "tick p d = p\<lparr>pc_now := pc_now p + d\<rparr>"

text \<open>\<open>paced c p\<close>: the pacer's reachable states; \<open>c\<close> says whether waiters may be cancelled.\<close>

inductive paced :: "bool \<Rightarrow> duration \<Rightarrow> pacer \<Rightarrow> bool" for c :: bool and iv :: duration where
  start: "paced c iv (newProviderPacer iv t)"
| wait: "paced c iv p \<Longrightarrow> paced c iv (Wait p w)"
| fire: "paced c iv p \<Longrightarrow> t \<in> set (pc_timers p) \<Longrightarrow> t \<le> pc_now p \<Longrightarrow> paced c iv (fire p t)"
| tick: "paced c iv p \<Longrightarrow> 0 \<le> d \<Longrightarrow> paced c iv (tick p d)"
| cancel: "paced c iv p \<Longrightarrow> c \<Longrightarrow> w \<in> set (pc_queue p) \<Longrightarrow> paced c iv (cancel_wait p w)"

inductive_cases paced_cancelE: "paced c iv (cancel_wait p w)"

section \<open>Nobody waits without a timer\<close>

text \<open>
  With or without cancellations: while somebody waits, a timer is pending that is due no later than
  one interval after the last release (or now, if that is past).
\<close>

definition live :: "duration \<Rightarrow> pacer \<Rightarrow> bool" where
  "live iv p \<longleftrightarrow> pc_interval p = iv \<and>
     (case pc_last p of
        None \<Rightarrow> pc_queue p = []
      | Some l \<Rightarrow> l \<le> pc_now p \<and>
          (pc_queue p \<noteq> [] \<longrightarrow> (\<exists>t \<in> set (pc_timers p). t \<le> pc_now p \<or> t \<le> l + iv)))"

lemma live_wait: "live iv p \<Longrightarrow> live iv (Wait p w)"
  by (cases "pc_last p") (auto simp: live_def Wait_def Let_def)

lemma live_fire: "live iv p \<Longrightarrow> live iv (fire p t)"
  by (cases "pc_queue p") (auto simp: live_def fire_def advance_def split: option.splits)

lemma live_tick: "live iv p \<Longrightarrow> 0 \<le> d \<Longrightarrow> live iv (tick p d)"
  by (cases "pc_last p") (simp_all add: live_def tick_def, meson add_increasing2 order_refl order_trans)

lemma live_cancel: "live iv p \<Longrightarrow> live iv (cancel_wait p w)"
  by (cases "pc_last p") (auto simp: live_def cancel_wait_def)

lemma paced_live: "paced c iv p \<Longrightarrow> live iv p"
  by (induction rule: paced.induct)
    (simp_all add: live_wait live_fire live_tick live_cancel, simp add: live_def newProviderPacer_def)

section \<open>Releases are spaced by the interval\<close>

abbreviation gaps :: "duration \<Rightarrow> gotime list \<Rightarrow> bool" where
  "gaps iv xs \<equiv> sorted_wrt (\<lambda>a b. iv \<le> b - a) xs"

definition spaced :: "duration \<Rightarrow> pacer \<Rightarrow> bool" where
  "spaced iv p \<longleftrightarrow> pc_interval p = iv \<and> gaps iv (map fst (pc_released p)) \<and>
     (case pc_last p of None \<Rightarrow> pc_released p = [] \<and> pc_queue p = [] \<and> pc_timers p = []
      | Some l \<Rightarrow> pc_released p \<noteq> [] \<and> l = last (map fst (pc_released p)) \<and>
          (if pc_queue p = [] then pc_timers p = [] else \<exists>t. pc_timers p = [t] \<and> l + iv \<le> t))"

lemma gaps_snoc:
  "0 \<le> iv \<Longrightarrow> gaps iv xs \<Longrightarrow> (xs \<noteq> [] \<Longrightarrow> iv \<le> y - last xs) \<Longrightarrow> gaps iv (xs @ [y])"
proof (induction xs)
  case (Cons a xs)
  show ?case
  proof (cases "xs = []")
    case False
    then have "iv \<le> last xs - a" using Cons.prems by simp
    moreover have "iv \<le> y - last xs" using Cons.prems(3) False by simp
    ultimately have "iv \<le> y - a" using Cons.prems(1) by linarith
    moreover have "gaps iv (xs @ [y])" using Cons False by simp
    ultimately show ?thesis using Cons.prems(2) by auto
  qed (use Cons in simp)
qed simp

lemma spaced_wait: "spaced iv p \<Longrightarrow> 0 \<le> iv \<Longrightarrow> spaced iv (Wait p w)"
proof (cases "pc_last p")
  case (Some l)
  assume s: "spaced iv p" and iv: "0 \<le> iv"
  show ?thesis
  proof (cases "iv \<le> pc_now p - l \<and> pc_queue p = []")
    case True
    have "gaps iv (map fst (pc_released p) @ [pc_now p])"
      using s iv True Some by (intro gaps_snoc) (auto simp: spaced_def)
    with s True Some show ?thesis by (auto simp: spaced_def Wait_def Let_def)
  next
    case False
    with s Some show ?thesis by (auto simp: spaced_def Wait_def Let_def)
  qed
qed (simp add: spaced_def Wait_def Let_def)

lemma spaced_fire:
  assumes s: "spaced iv p" and iv: "0 \<le> iv" and t: "t \<in> set (pc_timers p)" "t \<le> pc_now p"
  shows "spaced iv (fire p t)"
proof -
  from s t obtain l w q where l: "pc_last p = Some l" "pc_queue p = w # q" "pc_timers p = [t]" "l + iv \<le> t"
    by (cases "pc_queue p") (auto simp: spaced_def split: option.splits if_splits)
  have "gaps iv (map fst (pc_released p) @ [pc_now p])"
    using s iv l t by (intro gaps_snoc) (auto simp: spaced_def)
  with s l show ?thesis by (auto simp: spaced_def fire_def advance_def)
qed

lemma paced_spaced: "paced False iv p \<Longrightarrow> 0 \<le> iv \<Longrightarrow> spaced iv p"
proof (induction rule: paced.induct)
  case (tick p d)
  then show ?case by (simp add: spaced_def tick_def split: option.splits)
qed (simp_all add: spaced_wait spaced_fire, simp add: spaced_def newProviderPacer_def)

section \<open>First come, first served\<close>

text \<open>The waiters in the order of their calls: the released ones, then the queue.\<close>

definition order_of :: "pacer \<Rightarrow> nat list" where
  "order_of p = map snd (pc_released p) @ pc_queue p"

lemma order_wait: "live iv p \<Longrightarrow> order_of (Wait p w) = order_of p @ [w]"
  by (cases "pc_last p") (auto simp: order_of_def Wait_def Let_def live_def)

lemma order_fire: "order_of (fire p t) = order_of p"
  by (cases "pc_queue p") (auto simp: order_of_def fire_def advance_def)

text \<open>C36
  As long as no waiter gives up, requests to a provider are released in the order they asked, any
  two releases at least the interval apart, and while anybody waits a timer is pending that is due
  at the latest one interval after the last release.
\<close>

theorem pacer_fair_and_spaced:
  assumes "paced False iv p" and "0 \<le> iv"
  shows "gaps iv (map fst (pc_released p)) \<and>
    order_of (Wait p w) = order_of p @ [w] \<and> order_of (fire p t) = order_of p \<and>
    (pc_queue p \<noteq> [] \<longrightarrow> (\<exists>l t. pc_last p = Some l \<and> pc_timers p = [t] \<and> l + iv \<le> t \<and> t \<le> max (pc_now p) (l + iv)))"
proof -
  have s: "spaced iv p" and l: "live iv p" using paced_spaced paced_live assms by blast+
  have "\<exists>l t. pc_last p = Some l \<and> pc_timers p = [t] \<and> l + iv \<le> t \<and> t \<le> max (pc_now p) (l + iv)"
    if "pc_queue p \<noteq> []"
    using s l that by (auto simp: spaced_def live_def split: option.splits)
  with s show ?thesis by (simp add: spaced_def order_wait [OF l] order_fire)
qed

definition pacer_demo :: pacer where
  "pacer_demo = Wait (Wait (newProviderPacer 10 100) 1) 2"

lemma pacer_fair_and_spaced_witness:
  "gaps 10 (map fst (pc_released pacer_demo)) \<and> order_of pacer_demo = [1, 2] \<and> pc_timers pacer_demo = [110]"
proof -
  have "paced False 10 pacer_demo" unfolding pacer_demo_def by (intro paced.intros)
  from pacer_fair_and_spaced [OF this, of 3 110] show ?thesis
    by (auto simp: pacer_demo_def newProviderPacer_def Wait_def Let_def order_of_def)
qed

section \<open>A cancelled waiter leaves its timer behind\<close>

definition double_release :: pacer where
  "double_release =
     (let p = tick (Wait (newProviderPacer 10 100) 1) 5;
          p = cancel_wait (Wait p 2) 2;
          p = tick (Wait (Wait p 3) 4) 5
      in fire (fire p 110) 110)"

text \<open>
  Cancellation breaks the pace: when the only queued waiter gives up, its timer stays, the next
  waiter starts a second one for the same instant, and two requests are released at that very
  instant although the interval between them should be 10.
\<close>

lemma cancelled_waiter_double_release:
  "paced True 10 double_release \<and> pc_released double_release = [(100, 1), (110, 3), (110, 4)]"
proof -
  define p where "p = tick (Wait (newProviderPacer 10 100) 1) 5"
  define q where "q = tick (Wait (Wait (cancel_wait (Wait p 2) 2) 3) 4) 5"
  have p: "p = \<lparr>pc_interval = 10, pc_last = Some 100, pc_queue = [], pc_waitCount = 1, pc_timers = [],
      pc_now = 105, pc_released = [(100, 1)]\<rparr>"
    by (simp add: p_def Wait_def tick_def newProviderPacer_def Let_def)
  have "paced True 10 p" unfolding p_def by (intro paced.intros) simp
  then have pq: "paced True 10 q" unfolding q_def
    by (intro paced.tick paced.wait paced.cancel) (simp_all add: p Wait_def)
  have q: "q = \<lparr>pc_interval = 10, pc_last = Some 100, pc_queue = [3, 4], pc_waitCount = 4,
      pc_timers = [110, 110], pc_now = 110, pc_released = [(100, 1)]\<rparr>"
    by (simp add: q_def p Wait_def tick_def cancel_wait_def Let_def)
  have "paced True 10 (fire q 110)" by (rule paced.fire [OF pq]) (simp_all add: q)
  then have "paced True 10 (fire (fire q 110) 110)"
    by (rule paced.fire) (simp_all add: q fire_def advance_def)
  moreover have "double_release = fire (fire q 110) 110"
    by (simp add: double_release_def q_def p_def Let_def)
  moreover have "pc_released (fire (fire q 110) 110) = [(100, 1), (110, 3), (110, 4)]"
    by (simp add: q fire_def advance_def)
  ultimately show ?thesis by metis
qed

end
