(* ===== verification/LibraryManager.thy ===== *)
theory LibraryManager
  imports Activity GoText
begin

text \<open>
  The library manager (\<open>internal/library/manager.go\<close>, the job handling of
  \<open>internal/library/scan.go\<close> and \<open>internal/library/scheduling.go\<close>): which source is active, the life
  of a scan, the enrichment goroutine and the operation token that keeps the two apart. Each section
  under \<open>m.mu\<close> is a function on the state; the goroutines are program counters in the state, and the
  relation \<open>lm_step\<close> interleaves them with the calls of the API in every order.
\<close>

section \<open>State\<close>

text \<open>A source value is the pointer \<open>filesystem.New\<close> returns; every call makes a new one.\<close>

type_synonym src_ptr = nat

record scanJob =
  sj_src :: src_ptr
  sj_sourceID :: string
  sj_generation :: int
  sj_parserVersion :: int

text \<open>A scan goroutine waits for the operation token, runs, or has left its critical section and
  still has to release the token and to trigger the enrichment.\<close>

datatype scan_pc = SQueued scanJob | SRunning scanJob | STail bool bool

text \<open>
  The enrichment goroutine: at the top of its loop, waiting for the token with the two reset flags
  it took, resetting the artists, resetting the albums, checking for flags set meanwhile, about to
  run the enricher, past the pass and about to release the token, deciding whether to go on, or
  waiting to retry a failed reset. The number is \<open>retryAttempt\<close>; the flags of the later states are
  \<open>resetFailed\<close> and \<open>moreResets\<close>.
\<close>

datatype enrich_pc =
  ETop nat
| EAcquire bool bool nat
| EResetArtists bool bool nat
| EResetAlbums bool bool nat
| ECheck bool nat
| ERun bool bool nat
| ERelease bool bool nat
| EDecide bool nat
| EWaitRetry nat

record libmgr =
  lm_src :: "src_ptr option"
  lm_sourceID :: string
  lm_sourceGeneration :: int
  lm_scanning :: bool
  lm_scanPending :: bool
  lm_enriching :: bool
  lm_enrichmentPending :: bool
  lm_resetArtists :: bool
  lm_resetAlbums :: bool
  lm_closed :: bool
  lm_enricher :: bool
  lm_operation :: bool
  lm_unlinking :: "(src_ptr option \<times> string \<times> int) option"
  lm_nextSrc :: src_ptr
  lm_scans :: "scan_pc list"
  lm_enrich :: "enrich_pc option"

definition NewLibMgr :: "(string \<times> int) option \<Rightarrow> libmgr" where
  "NewLibMgr restored =
     \<lparr>lm_src = (case restored of None \<Rightarrow> None | Some _ \<Rightarrow> Some 0),
      lm_sourceID = (case restored of None \<Rightarrow> '''' | Some (i, _) \<Rightarrow> i),
      lm_sourceGeneration = (case restored of None \<Rightarrow> 0 | Some (_, g) \<Rightarrow> g),
      lm_scanning = False, lm_scanPending = False, lm_enriching = False, lm_enrichmentPending = False,
      lm_resetArtists = False, lm_resetAlbums = False, lm_closed = False, lm_enricher = False,
      lm_operation = True, lm_unlinking = None, lm_nextSrc = 1, lm_scans = [], lm_enrich = None\<rparr>"

datatype lib_err = ErrNotConfigured | ErrClosed | ErrSourcePath | ErrLibStore | ErrGenerationChanged

section \<open>Scans\<close>

definition parserVersion :: int where "parserVersion = 2"

definition jobCurrent :: "libmgr \<Rightarrow> scanJob \<Rightarrow> bool" where
  "jobCurrent m job \<longleftrightarrow> lm_src m = Some (sj_src job) \<and> lm_sourceID m = sj_sourceID job \<and>
     lm_sourceGeneration m = sj_generation job"

definition startScan :: "libmgr \<Rightarrow> libmgr" where
  "startScan m =
     (case lm_src m of
        None \<Rightarrow> m
      | Some s \<Rightarrow>
          m\<lparr>lm_scanning := True,
            lm_scans := lm_scans m @ [SQueued \<lparr>sj_src = s, sj_sourceID = lm_sourceID m,
               sj_generation = lm_sourceGeneration m, sj_parserVersion = parserVersion\<rparr>]\<rparr>)"

definition startPendingScan :: "libmgr \<Rightarrow> libmgr" where
  "startPendingScan m =
     (if lm_scanPending m \<and> lm_src m \<noteq> None \<and> \<not> lm_closed m
      then startScan (m\<lparr>lm_scanPending := False\<rparr>)
      else m\<lparr>lm_scanning := False\<rparr>)"

text \<open>\<open>withCurrentSource\<close>: the work is done under the lock, and only for the current source.\<close>

definition withCurrentSource :: "libmgr \<Rightarrow> scanJob \<Rightarrow> 'a \<Rightarrow> lib_err + 'a" where
  "withCurrentSource m job work =
     (if \<not> jobCurrent m job \<or> lm_closed m then Inl ErrGenerationChanged else Inr work)"

datatype scan_outcome = ScanOk int | ScanCanceled | ScanError string

definition aggregateError :: "int \<Rightarrow> string" where
  "aggregateError failed =
     decimal (nat failed) @ '' '' @ (if failed = 1 then ''file'' else ''files'') @ '' failed''"

text \<open>What \<open>finishScanJob\<close> does beside the manager's own fields: whether it publishes
  \<open>library.changed\<close>, the new value of \<open>library_last_scan_error\<close>, whether the activity ends failed,
  and whether an enrichment pass is triggered.\<close>

record scan_report =
  rep_publish :: bool
  rep_lastError :: "string option"
  rep_failed :: bool
  rep_trigger :: bool

definition finishScanJob ::
  "libmgr \<Rightarrow> scanJob \<Rightarrow> bool \<Rightarrow> scan_outcome \<Rightarrow> libmgr \<times> scan_report" where
  "finishScanJob m job mutated out =
     (if \<not> jobCurrent m job
      then (startPendingScan m,
            \<lparr>rep_publish = mutated, rep_lastError = None, rep_failed = False, rep_trigger = False\<rparr>)
      else if lm_closed m \<or> out = ScanCanceled
      then (m\<lparr>lm_scanning := False\<rparr>,
            \<lparr>rep_publish = False, rep_lastError = None, rep_failed = False, rep_trigger = False\<rparr>)
      else
        (m\<lparr>lm_scanning := False\<rparr>,
         (case out of
            ScanError e \<Rightarrow>
              \<lparr>rep_publish = mutated, rep_lastError = Some e, rep_failed = True, rep_trigger = True\<rparr>
          | ScanOk failed \<Rightarrow>
              \<lparr>rep_publish = True,
               rep_lastError = Some (if 0 < failed then aggregateError failed else ''''),
               rep_failed = 0 < failed, rep_trigger = True\<rparr>
          | ScanCanceled \<Rightarrow>
              \<lparr>rep_publish = False, rep_lastError = None, rep_failed = False, rep_trigger = False\<rparr>)))"

text \<open>\<open>Configure\<close>, with the outcome of \<open>os.Stat\<close> and of \<open>ConfigureFilesystemSource\<close>.\<close>

definition ConfigureSource ::
  "libmgr \<Rightarrow> bool \<Rightarrow> (string \<times> int) option \<Rightarrow> libmgr \<times> (lib_err + unit)" where
  "ConfigureSource m isDir stored =
     (if lm_closed m then (m, Inl ErrClosed)
      else if \<not> isDir then (m, Inl ErrSourcePath)
      else case stored of
             None \<Rightarrow> (m, Inl ErrLibStore)
           | Some (i, g) \<Rightarrow>
               (let m1 = m\<lparr>lm_src := Some (lm_nextSrc m), lm_sourceID := i, lm_sourceGeneration := g,
                           lm_nextSrc := lm_nextSrc m + 1\<rparr>
                in if lm_scanning m then (m1\<lparr>lm_scanPending := True\<rparr>, Inr ())
                   else (startScan m1, Inr ())))"

text \<open>\<open>Unlink\<close> fences the source under the lock, clears the store outside of it, and then either
  takes the store's generation or restores the source under a new generation.\<close>

definition Unlink_fence :: "libmgr \<Rightarrow> libmgr \<times> (lib_err + unit)" where
  "Unlink_fence m =
     (if lm_closed m then (m, Inl ErrClosed)
      else (m\<lparr>lm_unlinking := Some (lm_src m, lm_sourceID m, lm_sourceGeneration m + 1),
             lm_sourceGeneration := lm_sourceGeneration m + 1, lm_src := None, lm_sourceID := '''',
             lm_scanPending := False\<rparr>, Inr ()))"

definition Unlink_finish :: "libmgr \<Rightarrow> int option \<Rightarrow> libmgr \<times> (lib_err + unit)" where
  "Unlink_finish m stored =
     (case lm_unlinking m of
        None \<Rightarrow> (m, Inr ())
      | Some (src, i, g) \<Rightarrow>
          (let m = m\<lparr>lm_unlinking := None\<rparr> in
           case stored of
             Some generation \<Rightarrow> (m\<lparr>lm_sourceGeneration := generation\<rparr>, Inr ())
           | None \<Rightarrow>
               if lm_closed m then (m, Inl ErrLibStore)
               else
                 (let m = m\<lparr>lm_src := src, lm_sourceID := i, lm_sourceGeneration := g\<rparr>
                  in (if src = None then m
                      else if lm_scanning m then m\<lparr>lm_scanPending := True\<rparr> else startScan m,
                      Inl ErrLibStore))))"

definition Rescan :: "libmgr \<Rightarrow> libmgr \<times> (lib_err + unit)" where
  "Rescan m =
     (if lm_closed m then (m, Inl ErrClosed)
      else if lm_src m = None then (m, Inl ErrNotConfigured)
      else if lm_scanning m then (m, Inr ())
      else (startScan m, Inr ()))"

section \<open>Enrichment\<close>

definition triggerEnrichment :: "libmgr \<Rightarrow> bool \<Rightarrow> bool \<Rightarrow> libmgr" where
  "triggerEnrichment m resetArtists resetAlbums =
     (if lm_closed m \<or> \<not> lm_enricher m then m
      else
        (let m = m\<lparr>lm_enrichmentPending := True, lm_resetArtists := lm_resetArtists m \<or> resetArtists,
                   lm_resetAlbums := lm_resetAlbums m \<or> resetAlbums\<rparr>
         in if lm_enriching m then m else m\<lparr>lm_enriching := True, lm_enrich := Some (ETop 0)\<rparr>))"

definition TriggerEnrichment :: "libmgr \<Rightarrow> libmgr" where
  "TriggerEnrichment m = triggerEnrichment m False False"

definition TriggerArtistEnrichment :: "libmgr \<Rightarrow> libmgr" where
  "TriggerArtistEnrichment m = triggerEnrichment m True False"

definition TriggerAlbumEnrichment :: "libmgr \<Rightarrow> libmgr" where
  "TriggerAlbumEnrichment m = triggerEnrichment m False True"

definition enrich_goto :: "libmgr \<Rightarrow> enrich_pc \<Rightarrow> libmgr" where
  "enrich_goto m pc = m\<lparr>lm_enrich := Some pc\<rparr>"

definition enrich_exit :: "libmgr \<Rightarrow> libmgr" where
  "enrich_exit m = m\<lparr>lm_enriching := False, lm_enrich := None\<rparr>"

text \<open>
  One step of \<open>runEnrichment\<close>. \<open>ok\<close> is the outcome of what the step calls: a reset, or the wait
  before a retry, which fails only when the manager is closed. The result also says whether an
  enrichment pass ran. The step waiting for the token does nothing until it is free, and gives up
  once the manager is closed.
\<close>

definition runEnrichment :: "libmgr \<Rightarrow> bool \<Rightarrow> libmgr \<times> bool" where
  "runEnrichment m ok =
     (case lm_enrich m of
        None \<Rightarrow> (m, False)
      | Some (ETop k) \<Rightarrow>
          if lm_closed m then (enrich_exit m, False)
          else
            (let m' = m\<lparr>lm_enrichmentPending := False, lm_resetArtists := False, lm_resetAlbums := False\<rparr>
             in if \<not> lm_enricher m then (enrich_exit m', False)
                else (enrich_goto m' (EAcquire (lm_resetArtists m) (lm_resetAlbums m) k), False))
      | Some (EAcquire ra rl k) \<Rightarrow>
          if lm_closed m then (enrich_exit m, False)
          else if lm_operation m
          then (enrich_goto (m\<lparr>lm_operation := False\<rparr>) (EResetArtists ra rl k), False)
          else (m, False)
      | Some (EResetArtists ra rl k) \<Rightarrow>
          if ra \<and> \<not> ok then (enrich_goto (m\<lparr>lm_resetArtists := True\<rparr>) (EResetAlbums True rl k), False)
          else (enrich_goto m (EResetAlbums False rl k), False)
      | Some (EResetAlbums failed rl k) \<Rightarrow>
          if rl \<and> \<not> ok then (enrich_goto (m\<lparr>lm_resetAlbums := True\<rparr>) (ECheck True k), False)
          else (enrich_goto m (ECheck failed k), False)
      | Some (ECheck failed k) \<Rightarrow>
          (enrich_goto m (ERun failed (\<not> failed \<and> (lm_resetArtists m \<or> lm_resetAlbums m)) k), False)
      | Some (ERun failed again k) \<Rightarrow>
          if \<not> failed \<and> \<not> again \<and> \<not> lm_closed m then (enrich_goto m (ERelease failed again 0), True)
          else (enrich_goto m (ERelease failed again k), False)
      | Some (ERelease failed again k) \<Rightarrow>
          (enrich_goto (m\<lparr>lm_operation := True\<rparr>) (if again then ETop k else EDecide failed k), False)
      | Some (EDecide failed k) \<Rightarrow>
          if lm_closed m then (enrich_exit m, False)
          else if failed then (enrich_goto m (EWaitRetry (k + 1)), False)
          else if \<not> lm_enrichmentPending m \<and> \<not> lm_resetArtists m \<and> \<not> lm_resetAlbums m
          then (enrich_exit m, False)
          else (enrich_goto m (ETop k), False)
      | Some (EWaitRetry k) \<Rightarrow>
          if lm_closed m then (enrich_exit m, False) else (enrich_goto m (ETop k), False))"

text \<open>\<open>waitForResetRetry\<close>: 100 ms doubled with every attempt, up to the eighth.\<close>

definition resetRetryDelay :: "nat \<Rightarrow> duration" where
  "resetRetryDelay attempt = 100 * millisecond * 2 ^ (min attempt 8 - 1)"

definition SetEnricher :: "libmgr \<Rightarrow> libmgr" where
  "SetEnricher m =
     (let m1 = m\<lparr>lm_enricher := True\<rparr>
      in if lm_closed m1 then m1
         else if lm_src m1 \<noteq> None then fst (Rescan m1) else TriggerEnrichment m1)"

definition CloseLib :: "libmgr \<Rightarrow> libmgr" where
  "CloseLib m = m\<lparr>lm_closed := True\<rparr>"

section \<open>Every interleaving of the API and the goroutines\<close>

text \<open>
  The steps of scan goroutine \<open>i\<close>: take the token or give up, finish, release the token, trigger the
  enrichment and end. A finished job may leave a pending one behind it in the list.
\<close>

definition set_scan :: "libmgr \<Rightarrow> nat \<Rightarrow> scan_pc \<Rightarrow> libmgr" where
  "set_scan m i pc = m\<lparr>lm_scans := (lm_scans m)[i := pc]\<rparr>"

inductive lm_step :: "libmgr \<Rightarrow> libmgr \<Rightarrow> bool" where
  configure: "lm_unlinking m = None \<Longrightarrow> lm_step m (fst (ConfigureSource m d st))"
| unlink_fence: "lm_unlinking m = None \<Longrightarrow> lm_step m (fst (Unlink_fence m))"
| unlink_finish: "lm_step m (fst (Unlink_finish m st))"
| rescan: "lm_step m (fst (Rescan m))"
| trigger: "lm_step m (triggerEnrichment m ra rl)"
| set_enricher: "lm_step m (SetEnricher m)"
| close: "lm_step m (CloseLib m)"
| enrich: "lm_step m (fst (runEnrichment m ok))"
| scan_start: "i < length (lm_scans m) \<Longrightarrow> lm_scans m ! i = SQueued job \<Longrightarrow> lm_operation m \<Longrightarrow>
    \<not> lm_closed m \<Longrightarrow> lm_step m (set_scan (m\<lparr>lm_operation := False\<rparr>) i (SRunning job))"
| scan_give_up: "i < length (lm_scans m) \<Longrightarrow> lm_scans m ! i = SQueued job \<Longrightarrow> lm_closed m \<Longrightarrow>
    lm_step m (set_scan (fst (finishScanJob m job False ScanCanceled)) i (STail False False))"
| scan_finish: "i < length (lm_scans m) \<Longrightarrow> lm_scans m ! i = SRunning job \<Longrightarrow>
    finishScanJob m job mutated out = (m', rep) \<Longrightarrow>
    lm_step m (set_scan m' i (STail True (rep_trigger rep)))"
| scan_release: "i < length (lm_scans m) \<Longrightarrow> lm_scans m ! i = STail True t \<Longrightarrow>
    lm_step m (set_scan (m\<lparr>lm_operation := True\<rparr>) i (STail False t))"
| scan_trigger: "i < length (lm_scans m) \<Longrightarrow> lm_scans m ! i = STail False True \<Longrightarrow>
    lm_step m (set_scan (TriggerEnrichment m) i (STail False False))"

inductive lm_reach :: "libmgr \<Rightarrow> bool" where
  start: "lm_reach (NewLibMgr restored)"
| step: "lm_reach m \<Longrightarrow> lm_step m m' \<Longrightarrow> lm_reach m'"

section \<open>Mutual exclusion\<close>

text \<open>Who holds the operation token, and which scans are live (queued or running).\<close>

fun holds_scan :: "scan_pc \<Rightarrow> bool" where
  "holds_scan (SQueued _) = False"
| "holds_scan (SRunning _) = True"
| "holds_scan (STail h _) = h"

fun holds_enrich :: "enrich_pc \<Rightarrow> bool" where
  "holds_enrich (EResetArtists _ _ _) = True"
| "holds_enrich (EResetAlbums _ _ _) = True"
| "holds_enrich (ECheck _ _) = True"
| "holds_enrich (ERun _ _ _) = True"
| "holds_enrich (ERelease _ _ _) = True"
| "holds_enrich _ = False"

fun scan_live :: "scan_pc \<Rightarrow> bool" where
  "scan_live (STail _ _) = False"
| "scan_live _ = True"

definition enrich_holds :: "enrich_pc option \<Rightarrow> nat" where
  "enrich_holds e = (case e of Some pc \<Rightarrow> of_bool (holds_enrich pc) | None \<Rightarrow> 0)"

definition scan_holds :: "scan_pc list \<Rightarrow> nat" where
  "scan_holds xs = length (filter holds_scan xs)"

definition live_scans :: "scan_pc list \<Rightarrow> nat" where
  "live_scans xs = length (filter scan_live xs)"

abbreviation holders :: "libmgr \<Rightarrow> nat" where
  "holders m \<equiv> scan_holds (lm_scans m) + enrich_holds (lm_enrich m)"

definition excl_inv :: "libmgr \<Rightarrow> bool" where
  "excl_inv m \<longleftrightarrow> holders m = of_bool (\<not> lm_operation m) \<and> live_scans (lm_scans m) = of_bool (lm_scanning m) \<and>
     lm_enriching m = (lm_enrich m \<noteq> None)"

lemma Suc_of_bool [simp]: "Suc n = of_bool b \<longleftrightarrow> b \<and> n = 0" "of_bool b = Suc n \<longleftrightarrow> b \<and> n = 0"
  by (auto simp: of_bool_def)

lemma scan_counts_snoc [simp]:
  "scan_holds (xs @ [x]) = scan_holds xs + of_bool (holds_scan x)"
  "live_scans (xs @ [x]) = live_scans xs + of_bool (scan_live x)"
  by (simp_all add: scan_holds_def live_scans_def)

lemma enrich_holds_simps [simp]:
  "enrich_holds None = 0" "enrich_holds (Some pc) = of_bool (holds_enrich pc)"
  by (simp_all add: enrich_holds_def)

lemma length_filter_update:
  "i < length xs \<Longrightarrow> length (filter P (xs[i := x])) + of_bool (P (xs ! i)) = length (filter P xs) + of_bool (P x)"
proof (induction xs arbitrary: i)
  case (Cons y ys)
  then show ?case by (cases i) auto
qed simp

lemma startScan_fields [simp]:
  "lm_operation (startScan m) = lm_operation m" "lm_enrich (startScan m) = lm_enrich m"
  "lm_enriching (startScan m) = lm_enriching m" "lm_closed (startScan m) = lm_closed m"
  "lm_scanPending (startScan m) = lm_scanPending m" "lm_src (startScan m) = lm_src m"
  "lm_sourceID (startScan m) = lm_sourceID m" "lm_sourceGeneration (startScan m) = lm_sourceGeneration m"
  "lm_unlinking (startScan m) = lm_unlinking m" "lm_nextSrc (startScan m) = lm_nextSrc m"
  by (simp_all add: startScan_def split: option.splits)

lemma excl_startScan: "excl_inv m \<Longrightarrow> \<not> lm_scanning m \<Longrightarrow> excl_inv (startScan m)"
  by (cases "lm_src m") (auto simp: excl_inv_def startScan_def)

lemma excl_cong:
  assumes "excl_inv m" "lm_operation m' = lm_operation m" "lm_scans m' = lm_scans m" "lm_enrich m' = lm_enrich m"
    "lm_enriching m' = lm_enriching m" "lm_scanning m' = lm_scanning m"
  shows "excl_inv m'"
  using assms by (simp add: excl_inv_def)

lemma excl_trigger: "excl_inv m \<Longrightarrow> excl_inv (triggerEnrichment m ra rl)"
  by (auto simp: excl_inv_def triggerEnrichment_def Let_def)

lemma excl_rescan: "excl_inv m \<Longrightarrow> excl_inv (fst (Rescan m))"
  by (auto simp: Rescan_def intro: excl_startScan)

lemma excl_configure: "excl_inv m \<Longrightarrow> excl_inv (fst (ConfigureSource m d st))"
  by (auto simp: ConfigureSource_def Let_def split: option.splits
      intro!: excl_startScan elim!: excl_cong)

lemma excl_unlink: "excl_inv m \<Longrightarrow> excl_inv (fst (Unlink_fence m))"
  by (auto simp: Unlink_fence_def elim!: excl_cong)

lemma excl_unlink_finish: "excl_inv m \<Longrightarrow> excl_inv (fst (Unlink_finish m st))"
  by (auto simp: Unlink_finish_def Let_def split: option.splits
      intro!: excl_startScan elim!: excl_cong)

lemma excl_enrich: "excl_inv m \<Longrightarrow> excl_inv (fst (runEnrichment m ok))"
  by (auto simp: runEnrichment_def Let_def excl_inv_def
      enrich_exit_def enrich_goto_def split: option.splits enrich_pc.splits)

lemma scan_counts_update:
  "i < length xs \<Longrightarrow> scan_holds (xs[i := x]) + of_bool (holds_scan (xs ! i)) = scan_holds xs + of_bool (holds_scan x)"
  "i < length xs \<Longrightarrow> live_scans (xs[i := x]) + of_bool (scan_live (xs ! i)) = live_scans xs + of_bool (scan_live x)"
  by (simp_all add: scan_holds_def live_scans_def length_filter_update)

text \<open>A live scan that leaves its critical section: the flag, and a pending scan if there is one.\<close>

lemma excl_finish:
  assumes inv: "excl_inv m" and i: "i < length (lm_scans m)" and live: "scan_live (lm_scans m ! i)"
    and h: "holds_scan (lm_scans m ! i) = h"
    and fin: "finishScanJob m job mutated out = (m', rep)"
  shows "excl_inv (set_scan m' i (STail h t))"
proof -
  have upd: "scan_holds ((lm_scans m)[i := STail h t]) = scan_holds (lm_scans m)"
    "Suc (live_scans ((lm_scans m)[i := STail h t])) = live_scans (lm_scans m)"
    using scan_counts_update [OF i, of "STail h t"] live h by auto
  have scanning: "lm_scanning m" "live_scans ((lm_scans m)[i := STail h t]) = 0"
    using inv upd(2) by (auto simp: excl_inv_def of_bool_def split: if_splits)
  let ?m0 = "set_scan (m\<lparr>lm_scanning := False\<rparr>) i (STail h t)"
  have stop: "excl_inv ?m0"
    using inv scanning upd by (simp add: excl_inv_def set_scan_def)
  consider "m' = m\<lparr>lm_scanning := False\<rparr>" | s where "m' = startScan (m\<lparr>lm_scanPending := False\<rparr>)" "lm_src m = Some s"
    using fin by (auto simp: finishScanJob_def startPendingScan_def split: if_splits)
  then show ?thesis
  proof cases
    case 2
    have "excl_inv (startScan (?m0\<lparr>lm_scanPending := False\<rparr>))"
      by (rule excl_startScan, rule excl_cong [OF stop]) (simp_all add: set_scan_def)
    moreover have "set_scan m' i (STail h t) = startScan (?m0\<lparr>lm_scanPending := False\<rparr>)"
      using 2 i by (simp add: set_scan_def startScan_def list_update_append1)
    ultimately show ?thesis by simp
  qed (use stop in simp)
qed

lemma excl_set_scan:
  assumes "excl_inv m" "i < length (lm_scans m)"
    "lm_scans m' = lm_scans m" "lm_enrich m' = lm_enrich m" "lm_enriching m' = lm_enriching m"
    "lm_scanning m' = lm_scanning m" "scan_live pc = scan_live (lm_scans m ! i)"
    "of_bool (\<not> lm_operation m') + of_bool (holds_scan (lm_scans m ! i)) =
       of_bool (\<not> lm_operation m) + (of_bool (holds_scan pc) :: nat)"
  shows "excl_inv (set_scan m' i pc)"
proof -
  have "live_scans ((lm_scans m)[i := pc]) = live_scans (lm_scans m)"
    using scan_counts_update(2) [OF assms(2), of pc] assms(7) by simp
  moreover have "scan_holds ((lm_scans m)[i := pc]) + of_bool (holds_scan (lm_scans m ! i)) =
      scan_holds (lm_scans m) + of_bool (holds_scan pc)"
    by (rule scan_counts_update(1) [OF assms(2)])
  ultimately show ?thesis
    using assms(1,3-6,8) by (simp add: excl_inv_def set_scan_def)
qed

lemma excl_step: "lm_step m m' \<Longrightarrow> excl_inv m \<Longrightarrow> excl_inv m'"
proof (induction rule: lm_step.induct)
  case (set_enricher m)
  have "excl_inv (m\<lparr>lm_enricher := True\<rparr>)" using set_enricher by (rule excl_cong) simp_all
  then show ?case by (auto simp: SetEnricher_def Let_def TriggerEnrichment_def intro: excl_rescan excl_trigger)
next
  case (close m)
  then show ?case by (rule excl_cong) (simp_all add: CloseLib_def)
next
  case (scan_start i m job)
  then show ?case by (intro excl_set_scan [where m = m]) simp_all
next
  case (scan_give_up i m job)
  then show ?case
    by (cases "finishScanJob m job False ScanCanceled") (auto intro!: excl_finish [where m = m])
next
  case (scan_finish i m job mutated out m' rep)
  then show ?case by (intro excl_finish [where m = m]) simp_all
next
  case (scan_release i m t)
  moreover from this have "scan_holds (lm_scans m) \<noteq> 0"
    by (auto simp: scan_holds_def filter_empty_conv) (metis holds_scan.simps(3) nth_mem)
  then have "\<not> lm_operation m" using scan_release by (auto simp: excl_inv_def)
  ultimately show ?case by (intro excl_set_scan [where m = m]) simp_all
next
  case (scan_trigger i m)
  have "excl_inv (TriggerEnrichment m)" unfolding TriggerEnrichment_def using scan_trigger by (intro excl_trigger)
  moreover have "lm_scans (TriggerEnrichment m) = lm_scans m"
    by (simp add: TriggerEnrichment_def triggerEnrichment_def Let_def)
  ultimately show ?case using scan_trigger by (intro excl_set_scan [where m = "TriggerEnrichment m"]) simp_all
qed (auto intro: excl_configure excl_unlink excl_unlink_finish excl_rescan excl_trigger excl_enrich)

lemma excl_reach: "lm_reach m \<Longrightarrow> excl_inv m"
proof (induction rule: lm_reach.induct)
  case (start restored)
  show ?case by (simp add: excl_inv_def NewLibMgr_def scan_holds_def live_scans_def)
qed (rule excl_step)

section \<open>Scans of a replaced source\<close>

text \<open>A job the manager has handed out, and one whose source has been replaced or unlinked since.\<close>

definition known :: "libmgr \<Rightarrow> scanJob \<Rightarrow> bool" where
  "known m job \<longleftrightarrow> sj_src job < lm_nextSrc m \<and>
     (lm_src m = Some (sj_src job) \<longrightarrow> sj_generation job \<le> lm_sourceGeneration m) \<and>
     (\<forall>i g. lm_unlinking m = Some (Some (sj_src job), i, g) \<longrightarrow> sj_generation job < g)"

definition stale :: "libmgr \<Rightarrow> scanJob \<Rightarrow> bool" where
  "stale m job \<longleftrightarrow> sj_src job < lm_nextSrc m \<and>
     (lm_src m = Some (sj_src job) \<longrightarrow> sj_generation job < lm_sourceGeneration m) \<and>
     (\<forall>i g. lm_unlinking m = Some (Some (sj_src job), i, g) \<longrightarrow> sj_generation job < g)"

definition fence_inv :: "libmgr \<Rightarrow> bool" where
  "fence_inv m \<longleftrightarrow> (\<forall>s. lm_src m = Some s \<longrightarrow> s < lm_nextSrc m \<and> lm_unlinking m = None) \<and>
     (\<forall>s i g. lm_unlinking m = Some (s, i, g) \<longrightarrow> lm_src m = None \<and> (\<forall>x. s = Some x \<longrightarrow> x < lm_nextSrc m))"

lemma trigger_fields [simp]:
  "lm_src (triggerEnrichment m ra rl) = lm_src m" "lm_sourceID (triggerEnrichment m ra rl) = lm_sourceID m"
  "lm_sourceGeneration (triggerEnrichment m ra rl) = lm_sourceGeneration m"
  "lm_unlinking (triggerEnrichment m ra rl) = lm_unlinking m"
  "lm_nextSrc (triggerEnrichment m ra rl) = lm_nextSrc m" "lm_scans (triggerEnrichment m ra rl) = lm_scans m"
  "lm_closed (triggerEnrichment m ra rl) = lm_closed m" "lm_scanning (triggerEnrichment m ra rl) = lm_scanning m"
  "lm_scanPending (triggerEnrichment m ra rl) = lm_scanPending m"
  by (simp_all add: triggerEnrichment_def Let_def)

lemma enrich_fields [simp]:
  "lm_src (fst (runEnrichment m ok)) = lm_src m" "lm_sourceID (fst (runEnrichment m ok)) = lm_sourceID m"
  "lm_sourceGeneration (fst (runEnrichment m ok)) = lm_sourceGeneration m"
  "lm_unlinking (fst (runEnrichment m ok)) = lm_unlinking m"
  "lm_nextSrc (fst (runEnrichment m ok)) = lm_nextSrc m" "lm_scans (fst (runEnrichment m ok)) = lm_scans m"
  "lm_closed (fst (runEnrichment m ok)) = lm_closed m" "lm_scanning (fst (runEnrichment m ok)) = lm_scanning m"
  "lm_scanPending (fst (runEnrichment m ok)) = lm_scanPending m"
  by (auto simp: runEnrichment_def Let_def enrich_exit_def enrich_goto_def
      split: option.splits enrich_pc.splits)

lemma finish_fields:
  assumes "finishScanJob m job mu out = (m', rep)"
  shows "lm_src m' = lm_src m" "lm_sourceID m' = lm_sourceID m" "lm_sourceGeneration m' = lm_sourceGeneration m"
    "lm_unlinking m' = lm_unlinking m" "lm_nextSrc m' = lm_nextSrc m" "lm_closed m' = lm_closed m"
  using assms by (auto simp: finishScanJob_def startPendingScan_def split: if_splits)

lemma set_scan_fields [simp]:
  "lm_src (set_scan m i pc) = lm_src m" "lm_sourceID (set_scan m i pc) = lm_sourceID m"
  "lm_sourceGeneration (set_scan m i pc) = lm_sourceGeneration m"
  "lm_unlinking (set_scan m i pc) = lm_unlinking m" "lm_nextSrc (set_scan m i pc) = lm_nextSrc m"
  "lm_closed (set_scan m i pc) = lm_closed m" "lm_scanning (set_scan m i pc) = lm_scanning m"
  "lm_scanPending (set_scan m i pc) = lm_scanPending m" "lm_scans (set_scan m i pc) = (lm_scans m)[i := pc]"
  by (simp_all add: set_scan_def)

lemma rescan_fields [simp]:
  "lm_src (fst (Rescan m)) = lm_src m" "lm_sourceID (fst (Rescan m)) = lm_sourceID m"
  "lm_sourceGeneration (fst (Rescan m)) = lm_sourceGeneration m"
  "lm_unlinking (fst (Rescan m)) = lm_unlinking m" "lm_nextSrc (fst (Rescan m)) = lm_nextSrc m"
  "lm_closed (fst (Rescan m)) = lm_closed m" "lm_scanPending (fst (Rescan m)) = lm_scanPending m"
  by (simp_all add: Rescan_def)

lemma set_enricher_fields [simp]:
  "lm_src (SetEnricher m) = lm_src m" "lm_sourceID (SetEnricher m) = lm_sourceID m"
  "lm_sourceGeneration (SetEnricher m) = lm_sourceGeneration m"
  "lm_unlinking (SetEnricher m) = lm_unlinking m" "lm_nextSrc (SetEnricher m) = lm_nextSrc m"
  "lm_closed (SetEnricher m) = lm_closed m" "lm_scanPending (SetEnricher m) = lm_scanPending m"
  by (simp_all add: SetEnricher_def Let_def TriggerEnrichment_def)

text \<open>The steps that leave the source alone.\<close>

definition same_source :: "libmgr \<Rightarrow> libmgr \<Rightarrow> bool" where
  "same_source m m' \<longleftrightarrow> lm_src m' = lm_src m \<and> lm_sourceID m' = lm_sourceID m \<and>
     lm_sourceGeneration m' = lm_sourceGeneration m \<and> lm_unlinking m' = lm_unlinking m \<and>
     lm_nextSrc m' = lm_nextSrc m"

lemma step_source_cases:
  assumes "lm_step m m'"
  obtains "same_source m m'"
  | st where "lm_unlinking m = None" "m' = fst (ConfigureSource m True (Some st))" "\<not> lm_closed m"
  | "lm_unlinking m = None" "m' = fst (Unlink_fence m)" "\<not> lm_closed m"
  | st where "m' = fst (Unlink_finish m st)"
  using assms
proof (cases rule: lm_step.cases)
  case (configure d st)
  then show ?thesis using that(1,2)
    by (cases "lm_closed m \<or> \<not> d \<or> st = None") (auto simp: ConfigureSource_def same_source_def)
next
  case unlink_fence
  then show ?thesis using that(1,3) by (cases "lm_closed m") (auto simp: Unlink_fence_def same_source_def)
next
  case (scan_give_up i job)
  then show ?thesis using that(1)
    by (cases "finishScanJob m job False ScanCanceled") (auto simp: same_source_def dest: finish_fields)
qed (use that(1,4) in \<open>auto simp: same_source_def CloseLib_def TriggerEnrichment_def dest: finish_fields\<close>)

lemma same_source_fence: "same_source m m' \<Longrightarrow> fence_inv m \<Longrightarrow> fence_inv m'"
  by (simp add: same_source_def fence_inv_def)

lemma same_source_stale: "same_source m m' \<Longrightarrow> stale m' job = stale m job"
  by (simp add: same_source_def stale_def)

lemma same_source_known: "same_source m m' \<Longrightarrow> known m' job = known m job"
  by (simp add: same_source_def known_def)

lemma configure_fields:
  assumes "\<not> lm_closed m"
  shows "lm_src (fst (ConfigureSource m True (Some st))) = Some (lm_nextSrc m)"
    "lm_nextSrc (fst (ConfigureSource m True (Some st))) = lm_nextSrc m + 1"
    "lm_unlinking (fst (ConfigureSource m True (Some st))) = lm_unlinking m"
    "lm_sourceID (fst (ConfigureSource m True (Some st))) = fst st"
    "lm_sourceGeneration (fst (ConfigureSource m True (Some st))) = snd st"
    "lm_closed (fst (ConfigureSource m True (Some st))) = lm_closed m"
  using assms by (auto simp: ConfigureSource_def Let_def split: prod.splits)

lemma unlink_finish_fields:
  assumes "lm_unlinking m = Some (src, i, g)"
  shows "lm_unlinking (fst (Unlink_finish m st)) = None"
    "lm_nextSrc (fst (Unlink_finish m st)) = lm_nextSrc m"
    "lm_closed (fst (Unlink_finish m st)) = lm_closed m"
    "lm_src (fst (Unlink_finish m st)) = (if st = None \<and> \<not> lm_closed m then src else lm_src m)"
    "st = None \<Longrightarrow> \<not> lm_closed m \<Longrightarrow> lm_sourceGeneration (fst (Unlink_finish m st)) = g"
  using assms by (auto simp: Unlink_finish_def Let_def split: option.splits)

lemma unlink_finish_None: "lm_unlinking m = None \<Longrightarrow> Unlink_finish m st = (m, Inr ())"
  by (simp add: Unlink_finish_def)

lemma fence_step:
  assumes step: "lm_step m m'" and f: "fence_inv m"
  shows "fence_inv m'"
  using step
proof (cases rule: step_source_cases)
  case (4 st)
  show ?thesis
  proof (cases "lm_unlinking m")
    case None
    then show ?thesis using 4 f by (simp add: unlink_finish_None)
  next
    case (Some u)
    obtain src i g where u: "lm_unlinking m = Some (src, i, g)" using Some by (cases u) auto
    show ?thesis using f by (auto simp: fence_inv_def 4 unlink_finish_fields [OF u] u)
  qed
next
  case (2 st)
  then show ?thesis using f by (auto simp: fence_inv_def configure_fields)
next
  case 3
  then show ?thesis using f by (auto simp: fence_inv_def Unlink_fence_def)
qed (use f in \<open>simp add: same_source_fence\<close>)

lemma fence_reach: "lm_reach m \<Longrightarrow> fence_inv m"
proof (induction rule: lm_reach.induct)
  case (start restored)
  show ?case by (cases restored) (auto simp: fence_inv_def NewLibMgr_def)
qed (rule fence_step)

lemma stale_step:
  assumes step: "lm_step m m'" and f: "fence_inv m" and s: "stale m job"
  shows "stale m' job"
  using step
proof (cases rule: step_source_cases)
  case (4 st)
  show ?thesis
  proof (cases "lm_unlinking m")
    case None
    then show ?thesis using 4 s by (simp add: unlink_finish_None)
  next
    case (Some u)
    obtain src i g where u: "lm_unlinking m = Some (src, i, g)" using Some by (cases u) auto
    show ?thesis using f s u by (auto simp: stale_def fence_inv_def 4 unlink_finish_fields [OF u])
  qed
next
  case (2 st)
  then show ?thesis using s f by (auto simp: stale_def configure_fields)
next
  case 3
  then show ?thesis using s f by (auto simp: stale_def Unlink_fence_def fence_inv_def)
qed (use s in \<open>simp add: same_source_stale\<close>)

lemma known_step:
  assumes step: "lm_step m m'" and f: "fence_inv m" and s: "known m job"
  shows "known m' job"
  using step
proof (cases rule: step_source_cases)
  case (4 st)
  show ?thesis
  proof (cases "lm_unlinking m")
    case None
    then show ?thesis using 4 s by (simp add: unlink_finish_None)
  next
    case (Some u)
    obtain src i g where u: "lm_unlinking m = Some (src, i, g)" using Some by (cases u) auto
    show ?thesis using f s u by (auto simp: known_def fence_inv_def 4 unlink_finish_fields [OF u])
  qed
next
  case (2 st)
  then show ?thesis using s f by (auto simp: known_def configure_fields)
next
  case 3
  then show ?thesis using s f by (auto simp: known_def Unlink_fence_def fence_inv_def)
qed (use s in \<open>simp add: same_source_known\<close>)

lemma stale_not_current: "stale m job \<Longrightarrow> \<not> jobCurrent m job"
  by (auto simp: stale_def jobCurrent_def)

lemma stale_steps:
  "rtranclp lm_step m m' \<Longrightarrow> fence_inv m \<Longrightarrow> stale m job \<Longrightarrow> stale m' job \<and> fence_inv m'"
  by (induction rule: rtranclp_induct) (blast intro: stale_step fence_step)+

text \<open>Every job a scan goroutine carries was handed out.\<close>

fun job_of :: "scan_pc \<Rightarrow> scanJob option" where
  "job_of (SQueued job) = Some job"
| "job_of (SRunning job) = Some job"
| "job_of (STail _ _) = None"

definition jobs_known :: "libmgr \<Rightarrow> bool" where
  "jobs_known m \<longleftrightarrow> (\<forall>pc \<in> set (lm_scans m). \<forall>job. job_of pc = Some job \<longrightarrow> known m job)"

definition the_job :: "libmgr \<Rightarrow> src_ptr \<Rightarrow> scanJob" where
  "the_job m s = \<lparr>sj_src = s, sj_sourceID = lm_sourceID m, sj_generation = lm_sourceGeneration m,
     sj_parserVersion = parserVersion\<rparr>"

lemma startScan_scans: "lm_scans (startScan m) = lm_scans m @
    (case lm_src m of None \<Rightarrow> [] | Some s \<Rightarrow> [SQueued (the_job m s)])"
  by (simp add: startScan_def the_job_def split: option.splits)

lemma the_job_known: "fence_inv m \<Longrightarrow> lm_src m = Some s \<Longrightarrow> known m (the_job m s)"
  by (auto simp: known_def the_job_def fence_inv_def)

lemma the_job_current: "lm_src m = Some s \<Longrightarrow> jobCurrent m (the_job m s)"
  by (simp add: jobCurrent_def the_job_def)

text \<open>After a step a goroutine carries a job it or a goroutine before the step carried, or the
  current source's.\<close>

lemma configure_scans:
  "lm_scans (fst (ConfigureSource m d st)) = lm_scans m \<or>
   (\<exists>s. lm_src (fst (ConfigureSource m d st)) = Some s \<and>
     lm_scans (fst (ConfigureSource m d st)) = lm_scans m @ [SQueued (the_job (fst (ConfigureSource m d st)) s)])"
  by (auto simp: ConfigureSource_def Let_def startScan_scans the_job_def split: option.splits)

lemma unlink_finish_scans:
  "lm_scans (fst (Unlink_finish m st)) = lm_scans m \<or>
   (\<exists>s. lm_src (fst (Unlink_finish m st)) = Some s \<and>
     lm_scans (fst (Unlink_finish m st)) = lm_scans m @ [SQueued (the_job (fst (Unlink_finish m st)) s)])"
  by (auto simp: Unlink_finish_def Let_def startScan_scans the_job_def split: option.splits)

lemma rescan_scans:
  "lm_scans (fst (Rescan m)) = lm_scans m \<or>
   (\<exists>s. lm_src (fst (Rescan m)) = Some s \<and>
     lm_scans (fst (Rescan m)) = lm_scans m @ [SQueued (the_job (fst (Rescan m)) s)])"
  by (auto simp: Rescan_def startScan_scans the_job_def)

lemma the_job_enricher [simp]: "the_job (m\<lparr>lm_enricher := b\<rparr>) s = the_job m s"
  by (simp add: the_job_def)

lemma set_enricher_scans:
  "lm_scans (SetEnricher m) = lm_scans m \<or>
   (\<exists>s. lm_src (SetEnricher m) = Some s \<and>
     lm_scans (SetEnricher m) = lm_scans m @ [SQueued (the_job (SetEnricher m) s)])"
  using rescan_scans [of "m\<lparr>lm_enricher := True\<rparr>"]
  by (auto simp: SetEnricher_def Let_def TriggerEnrichment_def the_job_def)

lemma finish_scans:
  assumes "finishScanJob m job mu out = (m', rep)"
  shows "lm_scans m' = lm_scans m \<or>
    (\<exists>s. lm_src m' = Some s \<and> lm_scans m' = lm_scans m @ [SQueued (the_job m' s)])"
  using assms by (auto simp: finishScanJob_def startPendingScan_def startScan_scans the_job_def split: if_splits)

definition keeps_jobs :: "scan_pc list \<Rightarrow> scan_pc list \<Rightarrow> bool" where
  "keeps_jobs xs ys \<longleftrightarrow> (\<forall>pc \<in> set ys. job_of pc = None \<or> (\<exists>pc' \<in> set xs. job_of pc' = job_of pc))"

lemma keeps_refl [simp]: "keeps_jobs xs xs"
  by (auto simp: keeps_jobs_def)

lemma keeps_update:
  assumes "i < length xs" "job_of pc = None \<or> job_of pc = job_of (xs ! i)"
  shows "keeps_jobs xs (xs[i := pc])"
  using assms set_update_subset_insert [of xs i pc] nth_mem [OF assms(1)]
  unfolding keeps_jobs_def by fastforce

lemma step_scans:
  assumes "lm_step m m'"
  shows "\<exists>xs. keeps_jobs (lm_scans m) xs \<and>
    (lm_scans m' = xs \<or> (\<exists>s. lm_src m' = Some s \<and> lm_scans m' = xs @ [SQueued (the_job m' s)]))"
  using assms
proof (cases rule: lm_step.cases)
  case (scan_give_up i job)
  obtain m1 rep where fin: "finishScanJob m job False ScanCanceled = (m1, rep)" by fastforce
  show ?thesis using finish_scans [OF fin] scan_give_up
    by (intro exI [of _ "(lm_scans m)[i := STail False False]"] conjI keeps_update)
      (auto simp: fin list_update_append1 the_job_def)
next
  case (scan_finish i job mutated out m1 rep)
  show ?thesis using finish_scans [OF scan_finish(4)] scan_finish
    by (intro exI [of _ "(lm_scans m)[i := STail True (rep_trigger rep)]"] conjI keeps_update)
      (auto simp: list_update_append1 the_job_def)
next
  case (scan_start i job)
  then show ?thesis by (intro exI [of _ "(lm_scans m)[i := SRunning job]"] conjI keeps_update) auto
next
  case (scan_release i t)
  then show ?thesis by (intro exI [of _ "(lm_scans m)[i := STail False t]"] conjI keeps_update) auto
next
  case (scan_trigger i)
  then show ?thesis by (intro exI [of _ "(lm_scans m)[i := STail False False]"] conjI keeps_update)
      (auto simp: TriggerEnrichment_def)
next
  case (unlink_fence)
  then show ?thesis by (intro exI [of _ "lm_scans m"]) (auto simp: Unlink_fence_def)
next
  case (close)
  then show ?thesis by (intro exI [of _ "lm_scans m"]) (auto simp: CloseLib_def)
next
  case (configure d st)
  then show ?thesis using configure_scans [of m d st] by (intro exI [of _ "lm_scans m"]) simp
next
  case (unlink_finish st)
  then show ?thesis using unlink_finish_scans [of m st] by (intro exI [of _ "lm_scans m"]) simp
next
  case rescan
  then show ?thesis using rescan_scans [of m] by (intro exI [of _ "lm_scans m"]) simp
next
  case set_enricher
  then show ?thesis using set_enricher_scans [of m] by (intro exI [of _ "lm_scans m"]) simp
qed (auto intro: exI [of _ "lm_scans m"])

lemma step_jobs:
  assumes "lm_step m m'" and "pc \<in> set (lm_scans m')" and "job_of pc = Some job"
  shows "(\<exists>pc \<in> set (lm_scans m). job_of pc = Some job) \<or> (\<exists>s. lm_src m' = Some s \<and> job = the_job m' s)"
proof -
  from step_scans [OF assms(1)] obtain xs where k: "keeps_jobs (lm_scans m) xs"
    and "lm_scans m' = xs \<or> (\<exists>s. lm_src m' = Some s \<and> lm_scans m' = xs @ [SQueued (the_job m' s)])"
    by blast
  then consider "pc \<in> set xs" | s where "lm_src m' = Some s" "pc = SQueued (the_job m' s)"
    using assms(2) by auto
  then show ?thesis using k assms(3) by cases (fastforce simp: keeps_jobs_def)+
qed

lemma jobs_known_step:
  assumes "lm_step m m'" "fence_inv m" "jobs_known m"
  shows "jobs_known m'"
  unfolding jobs_known_def
proof (intro ballI allI impI)
  fix pc job assume "pc \<in> set (lm_scans m')" "job_of pc = Some job"
  from step_jobs [OF assms(1) this] show "known m' job"
    using assms by (auto simp: jobs_known_def intro: known_step the_job_known fence_step)
qed

lemma jobs_known_reach: "lm_reach m \<Longrightarrow> jobs_known m"
proof (induction rule: lm_reach.induct)
  case (start restored)
  show ?case by (simp add: jobs_known_def NewLibMgr_def)
qed (blast intro: jobs_known_step fence_reach)

text \<open>C6
  A scan of a replaced or unlinked source can no longer write: once another source is configured, or
  the source is unlinked, every later attempt of a scan job of before to touch the library - at any
  later moment, however the goroutines interleave, even if the unlinking fails and the source comes
  back - is refused.
\<close>

theorem replaced_source_never_writes:
  assumes "lm_reach m" and "\<not> lm_closed m" and "lm_unlinking m = None"
    and "pc \<in> set (lm_scans m)" and "job_of pc = Some job"
    and "ma \<in> {fst (ConfigureSource m True (Some st)), fst (Unlink_fence m)}"
    and "rtranclp lm_step ma mb"
  shows "withCurrentSource mb job w = Inl ErrGenerationChanged"
proof -
  have k: "known m job" using jobs_known_reach [OF assms(1)] assms(4,5) by (auto simp: jobs_known_def)
  have f: "fence_inv m" by (rule fence_reach [OF assms(1)])
  have "lm_step m ma" using assms(3,6) by (auto intro: lm_step.intros)
  then have fa: "fence_inv ma" using f by (rule fence_step)
  have "stale ma job"
    using assms(2,3,6) k f by (auto simp: stale_def known_def configure_fields Unlink_fence_def fence_inv_def)
  then have "stale mb job" using stale_steps [OF assms(7) fa] by blast
  then show ?thesis by (simp add: withCurrentSource_def stale_not_current)
qed

definition lm_demo :: libmgr where
  "lm_demo = fst (ConfigureSource (NewLibMgr None) True (Some (''src_a'', 1)))"

lemma lm_demo_reach: "lm_reach lm_demo"
  unfolding lm_demo_def
  by (rule lm_reach.step [OF lm_reach.start lm_step.configure]) (simp add: NewLibMgr_def)

lemma lm_demo_simps:
  "lm_scans lm_demo = [SQueued \<lparr>sj_src = 1, sj_sourceID = ''src_a'', sj_generation = 1, sj_parserVersion = 2\<rparr>]"
  "lm_src lm_demo = Some 1" "\<not> lm_closed lm_demo" "lm_unlinking lm_demo = None" "lm_scanning lm_demo"
  "lm_sourceGeneration lm_demo = 1" "lm_sourceID lm_demo = ''src_a''" "lm_operation lm_demo"
  "\<not> lm_enriching lm_demo" "lm_enrich lm_demo = None" "\<not> lm_scanPending lm_demo" "\<not> lm_enricher lm_demo"
  by (simp_all add: lm_demo_def ConfigureSource_def NewLibMgr_def startScan_def parserVersion_def Let_def)

lemma replaced_source_never_writes_witness:
  "withCurrentSource (fst (Unlink_finish (fst (Unlink_fence lm_demo)) None))
     \<lparr>sj_src = 1, sj_sourceID = ''src_a'', sj_generation = 1, sj_parserVersion = 2\<rparr> () = Inl ErrGenerationChanged"
  by (rule replaced_source_never_writes [OF lm_demo_reach, where ma = "fst (Unlink_fence lm_demo)" and st = "(''x'', 2)"])
    (auto simp: lm_demo_simps intro: lm_step.unlink_finish)

section \<open>The newest source is scanned\<close>

text \<open>
  In an open manager: a pending scan waits for a live one that is not of the current source; with a
  source and nothing pending, every live scan is of that source.
\<close>

definition live_jobs :: "libmgr \<Rightarrow> scanJob set" where
  "live_jobs m = {job. \<exists>pc \<in> set (lm_scans m). job_of pc = Some job}"

definition scan_inv :: "libmgr \<Rightarrow> bool" where
  "scan_inv m \<longleftrightarrow> \<not> lm_closed m \<longrightarrow>
     (lm_scanPending m \<longrightarrow> lm_scanning m \<and> lm_src m \<noteq> None \<and> (\<forall>job \<in> live_jobs m. \<not> jobCurrent m job)) \<and>
     (lm_src m \<noteq> None \<and> \<not> lm_scanPending m \<longrightarrow> (\<forall>job \<in> live_jobs m. jobCurrent m job))"

lemma jobCurrent_same: "same_source m m' \<Longrightarrow> jobCurrent m' job = jobCurrent m job"
  by (simp add: same_source_def jobCurrent_def)

lemma keeps_live: "keeps_jobs (lm_scans m) (lm_scans m') \<Longrightarrow> live_jobs m' \<subseteq> live_jobs m"
  by (fastforce simp: live_jobs_def keeps_jobs_def)

lemma scan_inv_keep:
  assumes "same_source m m'" "scan_inv m" "lm_scanPending m' = lm_scanPending m" "lm_closed m' = lm_closed m"
    "lm_scanning m' = lm_scanning m" "keeps_jobs (lm_scans m) (lm_scans m')"
  shows "scan_inv m'"
proof -
  have "lm_src m' = lm_src m" using assms(1) by (simp add: same_source_def)
  then show ?thesis
    using assms(2-5) keeps_live [OF assms(6)] jobCurrent_same [OF assms(1)] by (simp add: scan_inv_def) blast
qed

lemma no_live_jobs: "live_scans (lm_scans m) = 0 \<Longrightarrow> live_jobs m = {}"
proof -
  assume "live_scans (lm_scans m) = 0"
  then have "\<not> scan_live pc" if "pc \<in> set (lm_scans m)" for pc
    using that by (auto simp: live_scans_def filter_empty_conv)
  then have "job_of pc = None" if "pc \<in> set (lm_scans m)" for pc
    using that by (cases pc) fastforce+
  then show "live_jobs m = {}" by (auto simp: live_jobs_def)
qed

lemma idle_no_jobs: "excl_inv m \<Longrightarrow> \<not> lm_scanning m \<Longrightarrow> live_jobs m = {}"
  by (rule no_live_jobs) (simp add: excl_inv_def)

lemma live_jobs_snoc:
  "lm_scans m' = lm_scans m @ [SQueued job] \<Longrightarrow> live_jobs m' = insert job (live_jobs m)"
  by (auto simp: live_jobs_def)

lemma startScan_inv:
  assumes "live_jobs m = {}" "\<not> lm_scanPending m"
  shows "scan_inv (startScan m)"
proof (cases "lm_src m")
  case None
  then show ?thesis using assms by (simp add: scan_inv_def)
next
  case (Some s)
  have "lm_scans (startScan m) = lm_scans m @ [SQueued (the_job m s)]" using Some by (simp add: startScan_scans)
  then have "live_jobs (startScan m) = {the_job m s}" using live_jobs_snoc assms(1) by blast
  then show ?thesis using assms(2) Some by (simp add: scan_inv_def jobCurrent_def the_job_def)
qed

lemma scan_inv_idle: "live_jobs m = {} \<Longrightarrow> \<not> lm_scanPending m \<Longrightarrow> scan_inv m"
  by (simp add: scan_inv_def)

lemma idle_not_pending: "scan_inv m \<Longrightarrow> \<not> lm_closed m \<Longrightarrow> \<not> lm_scanning m \<Longrightarrow> \<not> lm_scanPending m"
  by (auto simp: scan_inv_def)

lemma rescan_scan_inv: "excl_inv m \<Longrightarrow> scan_inv m \<Longrightarrow> scan_inv (fst (Rescan m))"
  using startScan_inv [OF idle_no_jobs idle_not_pending] by (simp add: Rescan_def)

lemma live_known: "jobs_known m \<Longrightarrow> job \<in> live_jobs m \<Longrightarrow> known m job"
  by (auto simp: jobs_known_def live_jobs_def)

lemma configure_scan_inv:
  assumes "excl_inv m" "scan_inv m" "jobs_known m" "\<not> lm_closed m"
  shows "scan_inv (fst (ConfigureSource m True (Some st)))"
proof (cases "lm_scanning m")
  case True
  have "live_jobs (fst (ConfigureSource m True (Some st))) = live_jobs m"
    using assms True by (auto simp: ConfigureSource_def live_jobs_def Let_def split: prod.splits)
  moreover have "\<not> jobCurrent (fst (ConfigureSource m True (Some st))) job" if "job \<in> live_jobs m" for job
    using live_known [OF assms(3) that] by (auto simp: known_def jobCurrent_def configure_fields [OF assms(4)])
  moreover have "lm_scanning (fst (ConfigureSource m True (Some st)))" "lm_scanPending (fst (ConfigureSource m True (Some st)))"
    using assms(4) True by (auto simp: ConfigureSource_def Let_def split: prod.splits)
  ultimately show ?thesis by (simp add: scan_inv_def configure_fields [OF assms(4)])
next
  case False
  obtain i g where st: "st = (i, g)" by fastforce
  let ?m = "m\<lparr>lm_src := Some (lm_nextSrc m), lm_sourceID := i, lm_sourceGeneration := g, lm_nextSrc := lm_nextSrc m + 1\<rparr>"
  have "live_jobs ?m = {}" using idle_no_jobs [OF assms(1) False] by (simp add: live_jobs_def)
  moreover have "\<not> lm_scanPending ?m" using idle_not_pending [OF assms(2,4) False] by simp
  ultimately have "scan_inv (startScan ?m)" by (rule startScan_inv)
  then show ?thesis using False assms(4) st by (simp add: ConfigureSource_def Let_def)
qed

lemma unlink_finish_scan_inv:
  assumes ex: "excl_inv m" and s: "scan_inv m" and k: "jobs_known m" and f: "fence_inv m"
    and u: "lm_unlinking m = Some (src, i, g)"
  shows "scan_inv (fst (Unlink_finish m st))"
proof -
  have none: "lm_src m = None" using f u by (simp add: fence_inv_def)
  have np: "lm_closed m \<or> \<not> lm_scanPending m" using s none by (auto simp: scan_inv_def)
  show ?thesis
  proof (cases "st \<noteq> None \<or> lm_closed m \<or> src = None")
    case True
    then show ?thesis using u none np s
      by (auto simp: Unlink_finish_def Let_def scan_inv_def split: option.splits)
  next
    case False
    let ?m = "m\<lparr>lm_unlinking := None, lm_src := src, lm_sourceID := i, lm_sourceGeneration := g\<rparr>"
    have fin: "fst (Unlink_finish m st) = (if lm_scanning m then ?m\<lparr>lm_scanPending := True\<rparr> else startScan ?m)"
      using u False by (auto simp: Unlink_finish_def Let_def)
    show ?thesis
    proof (cases "lm_scanning m")
      case True
      have "\<not> jobCurrent (?m\<lparr>lm_scanPending := True\<rparr>) job" if "job \<in> live_jobs m" for job
        using live_known [OF k that] u by (auto simp: known_def jobCurrent_def)
      moreover have "live_jobs (?m\<lparr>lm_scanPending := True\<rparr>) = live_jobs m" by (simp add: live_jobs_def)
      ultimately have "scan_inv (?m\<lparr>lm_scanPending := True\<rparr>)" using True False by (auto simp: scan_inv_def)
      then show ?thesis by (simp only: fin True if_True)
    next
      case scn: False
      have "scan_inv (startScan ?m)"
        using idle_no_jobs [OF ex scn] np False by (intro startScan_inv) (simp_all add: live_jobs_def)
      then show ?thesis by (simp only: fin scn if_False)
    qed
  qed
qed

lemma finish_scan_inv:
  assumes ex: "excl_inv m" and s: "scan_inv m" and i: "i < length (lm_scans m)"
    and pc: "job_of (lm_scans m ! i) = Some job" and fin: "finishScanJob m job mu out = (m', rep)"
  shows "scan_inv (set_scan m' i (STail h t))"
proof -
  have live: "scan_live (lm_scans m ! i)" using pc by (cases "lm_scans m ! i") auto
  have "Suc (live_scans ((lm_scans m)[i := STail h t])) = live_scans (lm_scans m)"
    using scan_counts_update(2) [OF i, of "STail h t"] live by simp
  then have z: "live_scans ((lm_scans m)[i := STail h t]) = 0" and sc: "lm_scanning m"
    using ex by (auto simp: excl_inv_def)
  let ?m0 = "set_scan m i (STail h t)"
  have none: "live_jobs ?m0 = {}" by (rule no_live_jobs) (simp add: z)
  have job: "job \<in> live_jobs m" using i pc nth_mem by (force simp: live_jobs_def)
  consider "m' = startScan (m\<lparr>lm_scanPending := False\<rparr>)"
    | "m' = m\<lparr>lm_scanning := False\<rparr>" "lm_closed m \<or> \<not> lm_scanPending m"
    using fin s job by (auto simp: finishScanJob_def startPendingScan_def scan_inv_def split: if_splits)
  then show ?thesis
  proof cases
    case 1
    have eq: "set_scan m' i (STail h t) = startScan (?m0\<lparr>lm_scanPending := False\<rparr>)"
      using 1 i by (auto simp: set_scan_def startScan_def list_update_append1 split: option.splits)
    show ?thesis unfolding eq by (rule startScan_inv) (use none in \<open>simp_all add: live_jobs_def\<close>)
  next
    case 2
    then show ?thesis using none by (auto simp: scan_inv_def live_jobs_def)
  qed
qed

lemma scan_inv_step:
  assumes step: "lm_step m m'" and ex: "excl_inv m" and s: "scan_inv m" and k: "jobs_known m" and f: "fence_inv m"
  shows "scan_inv m'"
  using step
proof (cases rule: lm_step.cases)
  case (configure d st)
  show ?thesis
  proof (cases "lm_closed m \<or> \<not> d \<or> st = None")
    case True
    then have "m' = m" using configure by (auto simp: ConfigureSource_def)
    then show ?thesis using s by simp
  next
    case False
    then show ?thesis using configure configure_scan_inv [OF ex s k] by auto
  qed
next
  case unlink_fence
  then show ?thesis using s by (auto simp: Unlink_fence_def scan_inv_def)
next
  case (unlink_finish st)
  show ?thesis
  proof (cases "lm_unlinking m")
    case None
    then show ?thesis using s unlink_finish by (simp add: unlink_finish_None)
  next
    case (Some u)
    then show ?thesis using unlink_finish_scan_inv [OF ex s k f] unlink_finish by (cases u) auto
  qed
next
  case rescan
  then show ?thesis using rescan_scan_inv [OF ex s] by simp
next
  case (trigger ra rl)
  show ?thesis by (rule scan_inv_keep [OF _ s]) (simp_all add: trigger same_source_def)
next
  case set_enricher
  have "excl_inv (m\<lparr>lm_enricher := True\<rparr>)" using ex by (rule excl_cong) simp_all
  moreover have "scan_inv (m\<lparr>lm_enricher := True\<rparr>)"
    by (rule scan_inv_keep [OF _ s]) (simp_all add: same_source_def)
  ultimately have "scan_inv (fst (Rescan (m\<lparr>lm_enricher := True\<rparr>)))" by (rule rescan_scan_inv)
  moreover have "scan_inv (triggerEnrichment (m\<lparr>lm_enricher := True\<rparr>) False False)"
    by (rule scan_inv_keep [OF _ s]) (simp_all add: same_source_def)
  ultimately show ?thesis using set_enricher \<open>scan_inv (m\<lparr>lm_enricher := True\<rparr>)\<close>
    by (simp add: SetEnricher_def Let_def TriggerEnrichment_def)
next
  case close
  then show ?thesis by (simp add: scan_inv_def CloseLib_def)
next
  case (enrich ok)
  show ?thesis by (rule scan_inv_keep [OF _ s]) (simp_all add: enrich same_source_def)
next
  case (scan_start i job)
  have "keeps_jobs (lm_scans m) ((lm_scans m)[i := SRunning job])" using scan_start by (intro keeps_update) simp_all
  then show ?thesis by (intro scan_inv_keep [OF _ s]) (simp_all add: scan_start same_source_def)
next
  case (scan_give_up i job)
  then show ?thesis using finish_scan_inv [OF ex s, of i job False ScanCanceled]
    by (cases "finishScanJob m job False ScanCanceled") auto
next
  case (scan_finish i job mutated out m1 rep)
  then show ?thesis using finish_scan_inv [OF ex s, of i job mutated out m1 rep] by auto
next
  case (scan_release i t)
  have "keeps_jobs (lm_scans m) ((lm_scans m)[i := STail False t])" using scan_release by (intro keeps_update) simp_all
  then show ?thesis by (intro scan_inv_keep [OF _ s]) (simp_all add: scan_release same_source_def)
next
  case (scan_trigger i)
  have "keeps_jobs (lm_scans m) ((lm_scans m)[i := STail False False])" using scan_trigger by (intro keeps_update) simp_all
  then show ?thesis
    by (intro scan_inv_keep [OF _ s]) (simp_all add: scan_trigger same_source_def TriggerEnrichment_def)
qed

lemma scan_reach: "lm_reach m \<Longrightarrow> scan_inv m"
proof (induction rule: lm_reach.induct)
  case (start restored)
  show ?case by (simp add: scan_inv_def NewLibMgr_def live_jobs_def)
qed (blast intro: scan_inv_step excl_reach jobs_known_reach fence_reach)

text \<open>C30
  Scans and enrichment passes exclude each other and scans never overlap: in every reachable state
  at most one goroutine holds the operation token - exactly when it is taken - and there is at most
  one live scan, precisely while the manager reports scanning.
\<close>

theorem one_operation_at_a_time:
  assumes "lm_reach m"
  shows "scan_holds (lm_scans m) + enrich_holds (lm_enrich m) = of_bool (\<not> lm_operation m) \<and>
    live_scans (lm_scans m) = of_bool (lm_scanning m)"
  using excl_reach [OF assms] by (simp add: excl_inv_def)

lemma one_operation_at_a_time_witness:
  "live_scans (lm_scans lm_demo) = 1 \<and> scan_holds (lm_scans lm_demo) = 0"
  using one_operation_at_a_time [OF lm_demo_reach] by (simp add: lm_demo_simps)

text \<open>C31
  No configured source is left unscanned: in every reachable state of an open manager with a source,
  when the live scan finishes - whatever its outcome - it was a scan of the current source, or a scan
  of the current source is queued by the very step that ends it.
\<close>

theorem newest_source_gets_scanned:
  assumes "lm_reach m" and "\<not> lm_closed m" and "lm_src m = Some s"
    and "i < length (lm_scans m)" and "job_of (lm_scans m ! i) = Some job"
    and "finishScanJob m job mutated out = (m', rep)"
  shows "jobCurrent m job \<or>
    (lm_scanning m' \<and> \<not> lm_scanPending m' \<and> (\<exists>j. last (lm_scans m') = SQueued j \<and> jobCurrent m' j))"
proof (cases "jobCurrent m job")
  case False
  note n = this
  have "job \<in> live_jobs m" using assms(4,5) nth_mem by (force simp: live_jobs_def)
  then have "lm_scanPending m" using scan_reach [OF assms(1)] n assms(2,3) by (auto simp: scan_inv_def)
  then have "m' = startScan (m\<lparr>lm_scanPending := False\<rparr>)"
    using assms(2,3,6) n by (auto simp: finishScanJob_def startPendingScan_def)
  then show ?thesis using assms(3) by (simp add: startScan_def jobCurrent_def)
qed simp

definition lm_demo2 :: libmgr where
  "lm_demo2 = fst (ConfigureSource lm_demo True (Some (''src_b'', 2)))"

lemma newest_source_gets_scanned_witness:
  "\<exists>j. last (lm_scans (fst (finishScanJob lm_demo2 (the_job lm_demo 1) True (ScanOk 0)))) = SQueued j \<and> sj_src j = 2"
proof -
  have r: "lm_reach lm_demo2" unfolding lm_demo2_def
    by (rule lm_reach.step [OF lm_demo_reach lm_step.configure]) (simp add: lm_demo_simps)
  have f: "\<not> lm_closed lm_demo2" "lm_src lm_demo2 = Some 2" "0 < length (lm_scans lm_demo2)"
    "job_of (lm_scans lm_demo2 ! 0) = Some (the_job lm_demo 1)" "\<not> jobCurrent lm_demo2 (the_job lm_demo 1)"
    by (simp_all add: lm_demo2_def ConfigureSource_def lm_demo_simps the_job_def parserVersion_def jobCurrent_def)
      (simp_all add: lm_demo_def ConfigureSource_def NewLibMgr_def)
  from newest_source_gets_scanned [OF r f(1-4) surjective_pairing, of True "ScanOk 0"] f
  show ?thesis by (auto simp: jobCurrent_def finishScanJob_def startPendingScan_def split: if_splits)
qed

section \<open>No enrichment trigger is lost\<close>

definition owes_artists :: "libmgr \<Rightarrow> bool" where
  "owes_artists m \<longleftrightarrow> lm_resetArtists m \<or>
     (case lm_enrich m of Some (EAcquire ra _ _) \<Rightarrow> ra | Some (EResetArtists ra _ _) \<Rightarrow> ra | _ \<Rightarrow> False)"

definition owes_albums :: "libmgr \<Rightarrow> bool" where
  "owes_albums m \<longleftrightarrow> lm_resetAlbums m \<or>
     (case lm_enrich m of Some (EAcquire _ rl _) \<Rightarrow> rl | Some (EResetArtists _ rl _) \<Rightarrow> rl
      | Some (EResetAlbums _ rl _) \<Rightarrow> rl | _ \<Rightarrow> False)"

fun before_pass :: "enrich_pc \<Rightarrow> bool" where
  "before_pass (ERelease failed again _) = (failed \<or> again)"
| "before_pass (EDecide failed _) = failed"
| "before_pass _ = True"

definition owes_pass :: "libmgr \<Rightarrow> bool" where
  "owes_pass m \<longleftrightarrow> lm_enrichmentPending m \<or> lm_resetArtists m \<or> lm_resetAlbums m \<or>
     (case lm_enrich m of Some pc \<Rightarrow> before_pass pc | None \<Rightarrow> False)"

definition enrich_inv :: "libmgr \<Rightarrow> bool" where
  "enrich_inv m \<longleftrightarrow> (lm_enrich m \<noteq> None \<longrightarrow> lm_enricher m) \<and>
     (lm_enriching m \<longleftrightarrow> lm_enrich m \<noteq> None) \<and>
     (\<not> lm_closed m \<longrightarrow> lm_enrich m = None \<longrightarrow>
        \<not> lm_enrichmentPending m \<and> \<not> lm_resetArtists m \<and> \<not> lm_resetAlbums m)"

text \<open>The steps that leave the enrichment side alone, but for the closed flag.\<close>

definition same_enrich :: "libmgr \<Rightarrow> libmgr \<Rightarrow> bool" where
  "same_enrich m m' \<longleftrightarrow> lm_enrich m' = lm_enrich m \<and> lm_enricher m' = lm_enricher m \<and>
     lm_enriching m' = lm_enriching m \<and> lm_enrichmentPending m' = lm_enrichmentPending m \<and>
     lm_resetArtists m' = lm_resetArtists m \<and> lm_resetAlbums m' = lm_resetAlbums m \<and>
     (lm_closed m \<longrightarrow> lm_closed m')"

lemma startScan_enrich [simp]:
  "lm_enricher (startScan m) = lm_enricher m" "lm_enrichmentPending (startScan m) = lm_enrichmentPending m"
  "lm_resetArtists (startScan m) = lm_resetArtists m" "lm_resetAlbums (startScan m) = lm_resetAlbums m"
  by (simp_all add: startScan_def split: option.splits)

lemma finish_enrich:
  "finishScanJob m job mu out = (m', rep) \<Longrightarrow> same_enrich m (set_scan m' i pc)"
  by (auto simp: finishScanJob_def startPendingScan_def same_enrich_def set_scan_def split: if_splits)

lemma rescan_enrich: "same_enrich m (fst (Rescan m))"
  by (simp add: Rescan_def same_enrich_def)

lemma step_enrich_cases:
  assumes "lm_step m m'"
  obtains "same_enrich m m'"
  | ra rl i pc where "m' = triggerEnrichment m ra rl \<or> m' = set_scan (triggerEnrichment m ra rl) i pc"
  | "m' = SetEnricher m"
  | ok where "m' = fst (runEnrichment m ok)"
  using assms
proof (cases rule: lm_step.cases)
  case (configure d st)
  have "same_enrich m (fst (ConfigureSource m d st))"
    by (auto simp: ConfigureSource_def same_enrich_def Let_def split: option.splits)
  then show ?thesis using configure that(1) by simp
next
  case (unlink_finish st)
  have "same_enrich m (fst (Unlink_finish m st))"
    by (auto simp: Unlink_finish_def same_enrich_def Let_def split: option.splits)
  then show ?thesis using unlink_finish that(1) by simp
next
  case (scan_give_up i job)
  obtain m1 rep where "finishScanJob m job False ScanCanceled = (m1, rep)" by fastforce
  then show ?thesis using scan_give_up that(1) finish_enrich by simp
next
  case (scan_finish i job mutated out m1 rep)
  then show ?thesis using that(1) finish_enrich by simp
next
  case (scan_trigger i)
  then show ?thesis using that(2) unfolding TriggerEnrichment_def by blast
next
  case rescan
  then show ?thesis using that(1) rescan_enrich by simp
next
  case (trigger ra rl)
  then show ?thesis using that(2) by blast
next
  case unlink_fence
  have "same_enrich m (fst (Unlink_fence m))" by (simp add: same_enrich_def Unlink_fence_def)
  then show ?thesis using unlink_fence that(1) by simp
next
  case close
  have "same_enrich m (CloseLib m)" by (simp add: same_enrich_def CloseLib_def)
  then show ?thesis using close that(1) by simp
next
  case (scan_start i job)
  have "same_enrich m (set_scan (m\<lparr>lm_operation := False\<rparr>) i pc)" for i pc
    by (simp add: same_enrich_def set_scan_def)
  then show ?thesis using scan_start that(1) by simp
next
  case (scan_release i t)
  have "same_enrich m (set_scan (m\<lparr>lm_operation := True\<rparr>) i pc)" for i pc
    by (simp add: same_enrich_def set_scan_def)
  then show ?thesis using scan_release that(1) by simp
qed (rule that(3) that(4), assumption)+

lemma enrich_inv_same: "same_enrich m m' \<Longrightarrow> enrich_inv m \<Longrightarrow> enrich_inv m'"
  by (auto simp: same_enrich_def enrich_inv_def)

lemma enrich_inv_trigger: "enrich_inv m \<Longrightarrow> enrich_inv (triggerEnrichment m ra rl)"
  by (auto simp: enrich_inv_def triggerEnrichment_def Let_def)

lemma enrich_inv_run: "enrich_inv m \<Longrightarrow> enrich_inv (fst (runEnrichment m ok))"
  by (auto simp: enrich_inv_def runEnrichment_def enrich_exit_def enrich_goto_def Let_def
      split: option.splits enrich_pc.splits)

lemma set_scan_enrich: "same_enrich m (set_scan m i pc)"
  by (simp add: same_enrich_def set_scan_def)

lemma enrich_inv_setenricher:
  assumes "enrich_inv m"
  shows "enrich_inv (SetEnricher m)"
proof -
  have "enrich_inv (m\<lparr>lm_enricher := True\<rparr>)" using assms by (simp add: enrich_inv_def)
  then show ?thesis
    by (auto simp: SetEnricher_def Let_def TriggerEnrichment_def
        intro: enrich_inv_trigger enrich_inv_same [OF rescan_enrich])
qed

lemma enrich_inv_step: "lm_step m m' \<Longrightarrow> enrich_inv m \<Longrightarrow> enrich_inv m'"
proof (erule step_enrich_cases)
  fix ra rl i pc
  assume "m' = triggerEnrichment m ra rl \<or> m' = set_scan (triggerEnrichment m ra rl) i pc" and "enrich_inv m"
  then show "enrich_inv m'" by (auto intro: enrich_inv_trigger enrich_inv_same [OF set_scan_enrich])
qed (auto intro: enrich_inv_same enrich_inv_setenricher enrich_inv_run)

lemma enrich_reach: "lm_reach m \<Longrightarrow> enrich_inv m"
proof (induction rule: lm_reach.induct)
  case (start restored)
  show ?case by (simp add: enrich_inv_def NewLibMgr_def)
qed (rule enrich_inv_step)

lemma owes_trigger:
  "owes_pass m \<Longrightarrow> owes_pass (triggerEnrichment m ra rl)"
  "owes_artists m \<Longrightarrow> owes_artists (triggerEnrichment m ra rl)"
  "owes_albums m \<Longrightarrow> owes_albums (triggerEnrichment m ra rl)" if "enrich_inv m"
  using that by (auto simp: owes_pass_def owes_artists_def owes_albums_def triggerEnrichment_def enrich_inv_def Let_def)

lemma owes_same:
  "same_enrich m m' \<Longrightarrow> owes_pass m' = owes_pass m \<and> owes_artists m' = owes_artists m \<and> owes_albums m' = owes_albums m"
  by (simp add: same_enrich_def owes_pass_def owes_artists_def owes_albums_def)

lemma owes_setenricher:
  assumes "enrich_inv m"
  shows "owes_pass m \<Longrightarrow> owes_pass (SetEnricher m)" "owes_artists m \<Longrightarrow> owes_artists (SetEnricher m)"
    "owes_albums m \<Longrightarrow> owes_albums (SetEnricher m)"
proof -
  let ?m = "m\<lparr>lm_enricher := True\<rparr>"
  have i: "enrich_inv ?m" using assms by (simp add: enrich_inv_def)
  have o: "owes_pass ?m = owes_pass m" "owes_artists ?m = owes_artists m" "owes_albums ?m = owes_albums m"
    by (simp_all add: owes_pass_def owes_artists_def owes_albums_def)
  show "owes_pass m \<Longrightarrow> owes_pass (SetEnricher m)" "owes_artists m \<Longrightarrow> owes_artists (SetEnricher m)"
    "owes_albums m \<Longrightarrow> owes_albums (SetEnricher m)"
    using o owes_trigger [OF i] owes_same [OF rescan_enrich, of ?m]
    by (auto simp: SetEnricher_def Let_def TriggerEnrichment_def)
qed

lemma owes_artists_run:
  "owes_artists m \<Longrightarrow> enrich_inv m \<Longrightarrow> owes_artists (fst (runEnrichment m ok)) \<or> lm_closed m \<or>
   (\<exists>rl k. lm_enrich m = Some (EResetArtists True rl k) \<and> ok)"
  by (auto simp: owes_artists_def runEnrichment_def enrich_exit_def enrich_goto_def Let_def enrich_inv_def
      split: option.splits enrich_pc.splits if_splits)

lemma owes_albums_run:
  "owes_albums m \<Longrightarrow> enrich_inv m \<Longrightarrow> owes_albums (fst (runEnrichment m ok)) \<or> lm_closed m \<or>
   (\<exists>f k. lm_enrich m = Some (EResetAlbums f True k) \<and> ok)"
  by (auto simp: owes_albums_def runEnrichment_def enrich_exit_def enrich_goto_def Let_def enrich_inv_def
      split: option.splits enrich_pc.splits if_splits)

lemma owes_pass_run:
  "owes_pass m \<Longrightarrow> enrich_inv m \<Longrightarrow> owes_pass (fst (runEnrichment m ok)) \<or> lm_closed m \<or> snd (runEnrichment m ok)"
  by (auto simp: owes_pass_def runEnrichment_def enrich_exit_def enrich_goto_def Let_def enrich_inv_def
      split: option.splits enrich_pc.splits if_splits)

text \<open>
  No enrichment trigger is lost: whatever the interleaving, an open manager stops owing a pass only
  by the step that runs one, stops owing a reset of the artist or album retries only by carrying it
  out successfully, and never drops its enrichment goroutine while it owes any of them.
\<close>

lemma enrichment_debts_are_paid:
  assumes "lm_reach m" and "lm_step m m'" and "\<not> lm_closed m"
  shows "(owes_pass m \<longrightarrow> owes_pass m' \<or> (\<exists>ok. m' = fst (runEnrichment m ok) \<and> snd (runEnrichment m ok))) \<and>
    (owes_artists m \<longrightarrow> owes_artists m' \<or>
       (\<exists>rl k. lm_enrich m = Some (EResetArtists True rl k) \<and> m' = fst (runEnrichment m True))) \<and>
    (owes_albums m \<longrightarrow> owes_albums m' \<or>
       (\<exists>f k. lm_enrich m = Some (EResetAlbums f True k) \<and> m' = fst (runEnrichment m True))) \<and>
    (owes_pass m \<or> owes_artists m \<or> owes_albums m \<longrightarrow> lm_enrich m \<noteq> None)"
proof -
  have inv: "enrich_inv m" by (rule enrich_reach [OF assms(1)])
  have alive: "owes_pass m \<or> owes_artists m \<or> owes_albums m \<longrightarrow> lm_enrich m \<noteq> None"
    using inv assms(3) by (auto simp: enrich_inv_def owes_pass_def owes_artists_def owes_albums_def)
  from assms(2) show ?thesis
  proof (cases rule: step_enrich_cases)
    case 1
    then show ?thesis using alive owes_same by blast
  next
    case (2 ra rl i pc)
    then show ?thesis using alive owes_trigger [OF inv] owes_same [OF set_scan_enrich] by blast
  next
    case 3
    then show ?thesis using alive owes_setenricher [OF inv] by blast
  next
    case (4 ok)
    then show ?thesis
      using alive owes_artists_run [OF _ inv, of ok] owes_albums_run [OF _ inv, of ok]
        owes_pass_run [OF _ inv, of ok] assms(3) by auto
  qed
qed

lemma enrichment_debts_are_paid_witness:
  "owes_pass (TriggerArtistEnrichment (SetEnricher (NewLibMgr None))) \<and>
   lm_enrich (TriggerArtistEnrichment (SetEnricher (NewLibMgr None))) \<noteq> None"
proof -
  let ?m = "TriggerArtistEnrichment (SetEnricher (NewLibMgr None))"
  have "lm_reach ?m" unfolding TriggerArtistEnrichment_def
    by (intro lm_reach.step [OF _ lm_step.trigger] lm_reach.step [OF lm_reach.start lm_step.set_enricher])
  moreover have o: "owes_pass ?m" "\<not> lm_closed ?m"
    by (simp_all add: owes_pass_def TriggerArtistEnrichment_def triggerEnrichment_def SetEnricher_def
        TriggerEnrichment_def NewLibMgr_def)
  ultimately show ?thesis using enrichment_debts_are_paid [OF _ lm_step.close] by blast
qed

end
