(* ===== verification/Identity.thy ===== *)
theory Identity
  imports StoreRows
begin

text \<open>
  Who may talk to the server: profiles, devices, bearer tokens, admin sessions, PIN pairings and QR
  pair codes (\<open>internal/store/profiles.go\<close>, \<open>tokens.go\<close>, \<open>sessions.go\<close>, \<open>admin.go\<close>, \<open>pairing.go\<close>,
  the settings of \<open>store.go\<close>, and \<open>internal/server/pairing.go\<close>). The state is the tables these files
  use; foreign keys act as the migrations declare them. SHA-256 (\<open>sha\<close>) and argon2id (\<open>hashpw\<close>,
  \<open>verifypw\<close>) are parameters; random bytes and the clock are arguments.
\<close>

section \<open>Tables\<close>

record profile_row =
  pf_profile_id :: string
  pf_name :: string
  pf_pin_hash :: "string option"
  pf_avatar_color :: "string option"
  pf_share_listening :: bool
  pf_created_at :: seconds

record DeviceRecord =
  dv_DeviceID :: string
  dv_Name :: string
  dv_Type :: string
  dv_PairedAt :: seconds
  dv_LastSeenAt :: "seconds option"

record device_token =
  dt_token_hash :: string
  dt_device_id :: string

record profile_token =
  pt_token_hash :: string
  pt_device_id :: string
  pt_profile_id :: string

record admin_session =
  as_token_hash :: string
  as_expires_at :: seconds

datatype pair_status = Pending | Approved | Denied | Expired

record Pairing =
  pg_PairingID :: string
  pg_Code :: string
  pg_DeviceName :: string
  pg_DeviceType :: string
  pg_AppVersion :: string
  pg_Status :: pair_status
  pg_RequestedAt :: seconds
  pg_ExpiresAt :: seconds

text \<open>The stored row also has the device the pairing was delivered to.\<close>

record pairing_row = Pairing +
  pg_device_id :: "string option"

record pair_code =
  cd_code :: string
  cd_created_at :: seconds
  cd_expires_at :: seconds
  cd_used_at :: "seconds option"

record idstore =
  db_settings :: "(string \<times> string) table"
  db_profiles :: "profile_row table"
  db_devices :: "DeviceRecord table"
  db_device_tokens :: "device_token table"
  db_profile_tokens :: "profile_token table"
  db_admin_sessions :: "admin_session table"
  db_pairings :: "pairing_row table"
  db_pair_codes :: "pair_code table"

definition empty_idstore :: idstore where
  "empty_idstore = \<lparr>db_settings = [], db_profiles = [], db_devices = [], db_device_tokens = [],
     db_profile_tokens = [], db_admin_sessions = [], db_pairings = [], db_pair_codes = []\<rparr>"

text \<open>\<open>EConstraint\<close>: a row with that primary key exists, or a referenced row does not.\<close>

datatype id_err = ENotFound | EGone | EConstraint | EPasswordTooShort

section \<open>Settings\<close>

definition get_setting :: "(string \<times> string) table \<Rightarrow> string \<Rightarrow> string option" where
  "get_setting t key = map_option snd (select1 (\<lambda>r. fst r = key) t)"

definition put_setting :: "(string \<times> string) table \<Rightarrow> string \<Rightarrow> string \<Rightarrow> (string \<times> string) table" where
  "put_setting t key v = upsert fst (key, v) (\<lambda>r. (fst r, v)) t"

definition del_setting :: "(string \<times> string) table \<Rightarrow> string \<Rightarrow> (string \<times> string) table" where
  "del_setting t key = delete_where (\<lambda>r. fst r = key) t"

definition GetSetting :: "idstore \<Rightarrow> string \<Rightarrow> string option" where
  "GetSetting s key = get_setting (db_settings s) key"

definition SetSetting :: "idstore \<Rightarrow> string \<Rightarrow> string \<Rightarrow> idstore" where
  "SetSetting s key v = s\<lparr>db_settings := put_setting (db_settings s) key v\<rparr>"

definition SetupComplete :: "idstore \<Rightarrow> bool" where
  "SetupComplete s = (GetSetting s ''admin_password_hash'' \<noteq> None)"

interpretation settings: keyed_table get_setting put_setting del_setting
proof unfold_locales
  fix t :: "(string \<times> string) table" and j k v :: string
  show "get_setting (put_setting t k v) k = Some v"
    using select1_upsert_same [of fst "\<lambda>r. (fst r, v)" "(k, v)" t]
    by (auto simp: get_setting_def put_setting_def split: option.splits)
  show "j \<noteq> k \<Longrightarrow> get_setting (put_setting t k v) j = get_setting t j"
    using select1_upsert_other [of fst "\<lambda>r. (fst r, v)" j "(k, v)" t]
    by (simp add: get_setting_def put_setting_def)
  show "get_setting (del_setting t k) k = None"
    by (simp add: get_setting_def del_setting_def select1_delete_where select1_None_iff)
  show "j \<noteq> k \<Longrightarrow> get_setting (del_setting t k) j = get_setting t j"
  proof -
    assume "j \<noteq> k"
    then have "(\<lambda>r :: string \<times> string. fst r = j \<and> fst r \<noteq> k) = (\<lambda>r. fst r = j)" by auto
    then show ?thesis by (simp add: get_setting_def del_setting_def select1_delete_where)
  qed
qed

section \<open>Profiles\<close>

definition profile_record :: "profile_row \<Rightarrow> ProfileRecord" where
  "profile_record r = \<lparr>pr_ProfileID = pf_profile_id r, pr_Name = pf_name r,
     pr_HasPin = (pf_pin_hash r \<noteq> None),
     pr_AvatarColor = (case pf_avatar_color r of None \<Rightarrow> '''' | Some c \<Rightarrow> c),
     pr_ShareListening = pf_share_listening r\<rparr>"

definition nonempty :: "string \<Rightarrow> string option" where
  "nonempty x = (if x = '''' then None else Some x)"

definition CreateProfileRecord ::
  "(bytes \<Rightarrow> string \<Rightarrow> string) \<Rightarrow> idstore \<Rightarrow> string \<Rightarrow> string \<Rightarrow> string \<Rightarrow> bytes \<Rightarrow> bytes \<Rightarrow> gotime \<Rightarrow>
   idstore \<times> (id_err + ProfileRecord)" where
  "CreateProfileRecord hashpw s name pin avatarColor rnd salt now =
     (let pid = new_id ''prf'' rnd;
          row = \<lparr>pf_profile_id = pid, pf_name = name, pf_pin_hash = map_option (hashpw salt) (nonempty pin),
                 pf_avatar_color = nonempty avatarColor, pf_share_listening = True, pf_created_at = unix now\<rparr>
      in if select1 (\<lambda>r. pf_profile_id r = pid) (db_profiles s) \<noteq> None then (s, Inl EConstraint)
         else (s\<lparr>db_profiles := db_profiles s @ [row]\<rparr>,
               Inr \<lparr>pr_ProfileID = pid, pr_Name = name, pr_HasPin = (pin \<noteq> ''''),
                    pr_AvatarColor = avatarColor, pr_ShareListening = True\<rparr>))"

definition GetProfileRecord :: "idstore \<Rightarrow> string \<Rightarrow> ProfileRecord lookup" where
  "GetProfileRecord s pid =
     (case select1 (\<lambda>r. pf_profile_id r = pid) (db_profiles s) of
        None \<Rightarrow> NoRows | Some r \<Rightarrow> Found (profile_record r))"

definition ListProfileRecords :: "idstore \<Rightarrow> ProfileRecord list" where
  "ListProfileRecords s =
     map profile_record (sort_key (\<lambda>r. (pf_created_at r, pf_name r, pf_profile_id r)) (db_profiles s))"

record ProfileUpdate =
  up_Name :: "string option"
  up_AvatarColor :: "string option"
  up_SetPin :: bool
  up_Pin :: string

text \<open>\<open>exec1\<close> on the profiles: an update that must touch a row.\<close>

definition exec1_profile ::
  "(profile_row \<Rightarrow> profile_row) \<Rightarrow> string \<Rightarrow> idstore \<Rightarrow> id_err + idstore" where
  "exec1_profile f pid s =
     (if count_where (\<lambda>r. pf_profile_id r = pid) (db_profiles s) = 0 then Inl ENotFound
      else Inr (s\<lparr>db_profiles := update_where (\<lambda>r. pf_profile_id r = pid) f (db_profiles s)\<rparr>))"

definition update_profile_row ::
  "(bytes \<Rightarrow> string \<Rightarrow> string) \<Rightarrow> ProfileUpdate \<Rightarrow> bytes \<Rightarrow> profile_row \<Rightarrow> profile_row" where
  "update_profile_row hashpw u salt r =
     r\<lparr>pf_name := (case up_Name u of None \<Rightarrow> pf_name r | Some n \<Rightarrow> n),
       pf_avatar_color := (case up_AvatarColor u of None \<Rightarrow> pf_avatar_color r | Some c \<Rightarrow> nonempty c),
       pf_pin_hash := (if up_SetPin u then map_option (hashpw salt) (nonempty (up_Pin u)) else pf_pin_hash r)\<rparr>"

definition UpdateProfile ::
  "(bytes \<Rightarrow> string \<Rightarrow> string) \<Rightarrow> idstore \<Rightarrow> string \<Rightarrow> ProfileUpdate \<Rightarrow> bytes \<Rightarrow>
   idstore \<times> (id_err + ProfileRecord)" where
  "UpdateProfile hashpw s pid u salt =
     (case exec1_profile (update_profile_row hashpw u salt) pid s of
        Inl e \<Rightarrow> (s, Inl e)
      | Inr s' \<Rightarrow>
          (s', (case GetProfileRecord s' pid of Found p \<Rightarrow> Inr p | _ \<Rightarrow> Inl ENotFound)))"

text \<open>Deleting a profile takes its tokens with it (\<open>ON DELETE CASCADE\<close>).\<close>

definition DeleteProfile :: "idstore \<Rightarrow> string \<Rightarrow> idstore \<times> (id_err + unit)" where
  "DeleteProfile s pid =
     (if count_where (\<lambda>r. pf_profile_id r = pid) (db_profiles s) = 0 then (s, Inl ENotFound)
      else (s\<lparr>db_profiles := delete_where (\<lambda>r. pf_profile_id r = pid) (db_profiles s),
             db_profile_tokens := delete_where (\<lambda>r. pt_profile_id r = pid) (db_profile_tokens s)\<rparr>, Inr ()))"

definition VerifyProfilePIN ::
  "(string \<Rightarrow> string \<Rightarrow> bool) \<Rightarrow> idstore \<Rightarrow> string \<Rightarrow> string \<Rightarrow> id_err + (bool \<times> bool)" where
  "VerifyProfilePIN verifypw s pid pin =
     (case select1 (\<lambda>r. pf_profile_id r = pid) (db_profiles s) of
        None \<Rightarrow> Inl ENotFound
      | Some r \<Rightarrow>
          (case pf_pin_hash r of
             None \<Rightarrow> Inr (pin = '''', False)
           | Some h \<Rightarrow> Inr (verifypw pin h, True)))"

definition SetShareListening :: "idstore \<Rightarrow> string \<Rightarrow> bool \<Rightarrow> idstore \<times> (id_err + unit)" where
  "SetShareListening s pid share =
     (case exec1_profile (\<lambda>r. r\<lparr>pf_share_listening := share\<rparr>) pid s of
        Inl e \<Rightarrow> (s, Inl e) | Inr s' \<Rightarrow> (s', Inr ()))"

section \<open>Devices and bearer tokens\<close>

definition HashToken :: "(bytes \<Rightarrow> bytes) \<Rightarrow> string \<Rightarrow> string" where
  "HashToken sha raw = hex_encode (sha (map of_char raw))"

definition CreateDevice :: "idstore \<Rightarrow> string \<Rightarrow> string \<Rightarrow> bytes \<Rightarrow> gotime \<Rightarrow> idstore \<times> (id_err + string)" where
  "CreateDevice s name typ rnd now =
     (let did = new_id ''dev'' rnd in
      if select1 (\<lambda>r. dv_DeviceID r = did) (db_devices s) \<noteq> None then (s, Inl EConstraint)
      else (s\<lparr>db_devices := db_devices s @ [\<lparr>dv_DeviceID = did, dv_Name = name, dv_Type = typ,
               dv_PairedAt = unix now, dv_LastSeenAt = None\<rparr>]\<rparr>, Inr did))"

definition CreateDeviceToken ::
  "(bytes \<Rightarrow> bytes) \<Rightarrow> idstore \<Rightarrow> string \<Rightarrow> bytes \<Rightarrow> idstore \<times> (id_err + string)" where
  "CreateDeviceToken sha s did rnd =
     (let raw = newRawToken rnd; h = HashToken sha raw in
      if select1 (\<lambda>r. dt_token_hash r = h) (db_device_tokens s) \<noteq> None \<or>
         select1 (\<lambda>r. dv_DeviceID r = did) (db_devices s) = None
      then (s, Inl EConstraint)
      else (s\<lparr>db_device_tokens := db_device_tokens s @ [\<lparr>dt_token_hash = h, dt_device_id = did\<rparr>]\<rparr>, Inr raw))"

definition CreateProfileToken ::
  "(bytes \<Rightarrow> bytes) \<Rightarrow> idstore \<Rightarrow> string \<Rightarrow> string \<Rightarrow> bytes \<Rightarrow> idstore \<times> (id_err + string)" where
  "CreateProfileToken sha s did pid rnd =
     (let raw = newRawToken rnd; h = HashToken sha raw in
      if select1 (\<lambda>r. pt_token_hash r = h) (db_profile_tokens s) \<noteq> None \<or>
         select1 (\<lambda>r. dv_DeviceID r = did) (db_devices s) = None \<or>
         select1 (\<lambda>r. pf_profile_id r = pid) (db_profiles s) = None
      then (s, Inl EConstraint)
      else (s\<lparr>db_profile_tokens := db_profile_tokens s @
               [\<lparr>pt_token_hash = h, pt_device_id = did, pt_profile_id = pid\<rparr>]\<rparr>, Inr raw))"

text \<open>The resolved identity (\<open>internal/auth/identity.go\<close>): an empty profile means a device token.\<close>

record Identity =
  idn_DeviceID :: string
  idn_ProfileID :: string

definition ResolveToken :: "(bytes \<Rightarrow> bytes) \<Rightarrow> idstore \<Rightarrow> string \<Rightarrow> Identity lookup" where
  "ResolveToken sha s raw =
     (let h = HashToken sha raw in
      case select1 (\<lambda>r. pt_token_hash r = h) (db_profile_tokens s) of
        Some t \<Rightarrow> Found \<lparr>idn_DeviceID = pt_device_id t, idn_ProfileID = pt_profile_id t\<rparr>
      | None \<Rightarrow>
          (case select1 (\<lambda>r. dt_token_hash r = h) (db_device_tokens s) of
             Some t \<Rightarrow> Found \<lparr>idn_DeviceID = dt_device_id t, idn_ProfileID = ''''\<rparr>
           | None \<Rightarrow> NoRows))"

text \<open>Deleting a device cascades to its tokens and clears it in the pairings (\<open>ON DELETE SET NULL\<close>).\<close>

definition DeleteDevice :: "idstore \<Rightarrow> string \<Rightarrow> idstore \<times> (id_err + unit)" where
  "DeleteDevice s did =
     (if count_where (\<lambda>r. dv_DeviceID r = did) (db_devices s) = 0 then (s, Inl ENotFound)
      else (s\<lparr>db_devices := delete_where (\<lambda>r. dv_DeviceID r = did) (db_devices s),
             db_device_tokens := delete_where (\<lambda>r. dt_device_id r = did) (db_device_tokens s),
             db_profile_tokens := delete_where (\<lambda>r. pt_device_id r = did) (db_profile_tokens s),
             db_pairings := update_where (\<lambda>r. pg_device_id r = Some did) (\<lambda>r. r\<lparr>pg_device_id := None\<rparr>)
               (db_pairings s)\<rparr>, Inr ()))"

definition GetDevice :: "idstore \<Rightarrow> string \<Rightarrow> DeviceRecord lookup" where
  "GetDevice s did =
     (case select1 (\<lambda>r. dv_DeviceID r = did) (db_devices s) of None \<Rightarrow> NoRows | Some d \<Rightarrow> Found d)"

definition ListDevices :: "idstore \<Rightarrow> DeviceRecord list" where
  "ListDevices s = sort_key (\<lambda>d. (dv_PairedAt d, dv_DeviceID d)) (db_devices s)"

definition TouchDevice :: "idstore \<Rightarrow> string \<Rightarrow> gotime \<Rightarrow> idstore" where
  "TouchDevice s did now =
     s\<lparr>db_devices := update_where (\<lambda>r. dv_DeviceID r = did) (\<lambda>r. r\<lparr>dv_LastSeenAt := Some (unix now)\<rparr>) (db_devices s)\<rparr>"

definition Counts_dashboard :: "idstore \<Rightarrow> gotime \<Rightarrow> nat \<times> nat \<times> nat" where
  "Counts_dashboard s now =
     (length (db_profiles s), length (db_devices s),
      count_where (\<lambda>p. pg_Status p = Pending \<and> unix now < pg_ExpiresAt p) (db_pairings s))"

section \<open>Admin setup and sessions\<close>

definition MinAdminPasswordLength :: nat where "MinAdminPasswordLength = 10"

definition InitializeAdminPassword ::
  "(bytes \<Rightarrow> string \<Rightarrow> string) \<Rightarrow> idstore \<Rightarrow> string \<Rightarrow> bytes \<Rightarrow> idstore \<times> (id_err + bool)" where
  "InitializeAdminPassword hashpw s password salt =
     (if length password < MinAdminPasswordLength then (s, Inl EPasswordTooShort)
      else if GetSetting s ''admin_password_hash'' \<noteq> None then (s, Inr False)
      else (s\<lparr>db_settings := db_settings s @ [(''admin_password_hash'', hashpw salt password)]\<rparr>, Inr True))"

definition adminSessionTTL :: duration where "adminSessionTTL = 7 * 24 * hour"

definition CreateAdminSession ::
  "(bytes \<Rightarrow> bytes) \<Rightarrow> idstore \<Rightarrow> bytes \<Rightarrow> gotime \<Rightarrow> idstore \<times> (id_err + string)" where
  "CreateAdminSession sha s rnd now =
     (let raw = newRawToken rnd; h = HashToken sha raw in
      if select1 (\<lambda>r. as_token_hash r = h) (db_admin_sessions s) \<noteq> None then (s, Inl EConstraint)
      else (s\<lparr>db_admin_sessions := db_admin_sessions s @
               [\<lparr>as_token_hash = h, as_expires_at = unix (now + adminSessionTTL)\<rparr>]\<rparr>, Inr raw))"

definition ValidateAdminSession :: "(bytes \<Rightarrow> bytes) \<Rightarrow> idstore \<Rightarrow> string \<Rightarrow> gotime \<Rightarrow> bool" where
  "ValidateAdminSession sha s raw now =
     (case select1 (\<lambda>r. as_token_hash r = HashToken sha raw) (db_admin_sessions s) of
        None \<Rightarrow> False | Some r \<Rightarrow> now < second * as_expires_at r)"

definition DeleteAdminSession :: "(bytes \<Rightarrow> bytes) \<Rightarrow> idstore \<Rightarrow> string \<Rightarrow> idstore" where
  "DeleteAdminSession sha s raw =
     s\<lparr>db_admin_sessions := delete_where (\<lambda>r. as_token_hash r = HashToken sha raw) (db_admin_sessions s)\<rparr>"

section \<open>PIN pairing\<close>

definition pairingTTL :: duration where "pairingTTL = 10 * minute"
definition pairCodeTTL :: duration where "pairCodeTTL = 15 * minute"

definition StartPairing ::
  "idstore \<Rightarrow> string \<Rightarrow> string \<Rightarrow> string \<Rightarrow> bytes \<Rightarrow> nat list \<Rightarrow> gotime \<Rightarrow> idstore \<times> (id_err + Pairing)" where
  "StartPairing s deviceName deviceType appVersion rnd digits now =
     (let p = \<lparr>pg_PairingID = new_id ''pair'' rnd, pg_Code = newCode digits, pg_DeviceName = deviceName,
               pg_DeviceType = deviceType, pg_AppVersion = appVersion, pg_Status = Pending,
               pg_RequestedAt = unix now, pg_ExpiresAt = unix (now + pairingTTL)\<rparr>
      in if select1 (\<lambda>r. pg_PairingID r = pg_PairingID p) (db_pairings s) \<noteq> None then (s, Inl EConstraint)
         else (s\<lparr>db_pairings := db_pairings s @ [Pairing.extend p (pairing_row.fields None)]\<rparr>, Inr p))"

text \<open>\<open>scanPairing\<close>: a pending row that is past its expiry reads as expired.\<close>

definition scanPairing :: "gotime \<Rightarrow> pairing_row \<Rightarrow> Pairing" where
  "scanPairing now r =
     (let p = Pairing.truncate r in
      if pg_Status p = Pending \<and> second * pg_ExpiresAt p < now then p\<lparr>pg_Status := Expired\<rparr> else p)"

definition GetPairing :: "idstore \<Rightarrow> string \<Rightarrow> gotime \<Rightarrow> Pairing lookup" where
  "GetPairing s pid now =
     (case select1 (\<lambda>r. pg_PairingID r = pid) (db_pairings s) of
        None \<Rightarrow> NoRows | Some r \<Rightarrow> Found (scanPairing now r))"

definition ListPendingPairings :: "idstore \<Rightarrow> gotime \<Rightarrow> Pairing list" where
  "ListPendingPairings s now =
     sort_key pg_RequestedAt (map Pairing.truncate
       (filter (\<lambda>r. pg_Status r = Pending \<and> unix now < pg_ExpiresAt r) (db_pairings s)))"

definition setPairingStatus :: "idstore \<Rightarrow> string \<Rightarrow> pair_status \<Rightarrow> gotime \<Rightarrow> idstore \<times> (id_err + unit)" where
  "setPairingStatus s pid status now =
     (let P = (\<lambda>r. pg_PairingID r = pid \<and> pg_Status r = Pending \<and> unix now < pg_ExpiresAt r) in
      if count_where P (db_pairings s) = 0 then (s, Inl ENotFound)
      else (s\<lparr>db_pairings := update_where P (\<lambda>r. r\<lparr>pg_Status := status\<rparr>) (db_pairings s)\<rparr>, Inr ()))"

definition ApprovePairing :: "idstore \<Rightarrow> string \<Rightarrow> gotime \<Rightarrow> idstore \<times> (id_err + unit)" where
  "ApprovePairing s pid now = setPairingStatus s pid Approved now"

definition DenyPairing :: "idstore \<Rightarrow> string \<Rightarrow> gotime \<Rightarrow> idstore \<times> (id_err + unit)" where
  "DenyPairing s pid now = setPairingStatus s pid Denied now"

text \<open>The device and its first token, in the transaction of the caller.\<close>

definition mint_device ::
  "(bytes \<Rightarrow> bytes) \<Rightarrow> idstore \<Rightarrow> string \<Rightarrow> string \<Rightarrow> bytes \<Rightarrow> bytes \<Rightarrow> gotime \<Rightarrow>
   id_err + (idstore \<times> string \<times> string)" where
  "mint_device sha s name typ rnd trnd now =
     (case CreateDevice s name typ rnd now of
        (_, Inl e) \<Rightarrow> Inl e
      | (s1, Inr did) \<Rightarrow>
          (case CreateDeviceToken sha s1 did trnd of
             (_, Inl e) \<Rightarrow> Inl e
           | (s2, Inr raw) \<Rightarrow> Inr (s2, raw, did)))"

definition DeliverPairingToken ::
  "(bytes \<Rightarrow> bytes) \<Rightarrow> idstore \<Rightarrow> string \<Rightarrow> bytes \<Rightarrow> bytes \<Rightarrow> gotime \<Rightarrow>
   idstore \<times> (id_err + (string \<times> string) option)" where
  "DeliverPairingToken sha s pid rnd trnd now =
     (case select1 (\<lambda>r. pg_PairingID r = pid \<and> pg_Status r = Approved \<and> pg_device_id r = None) (db_pairings s) of
        None \<Rightarrow> (s, Inr None)
      | Some row \<Rightarrow>
          (case mint_device sha s (pg_DeviceName row) (pg_DeviceType row) rnd trnd now of
             Inl e \<Rightarrow> (s, Inl e)
           | Inr (s1, raw, did) \<Rightarrow>
               (s1\<lparr>db_pairings := update_where (\<lambda>r. pg_PairingID r = pid \<and> pg_device_id r = None)
                    (\<lambda>r. r\<lparr>pg_device_id := Some did\<rparr>) (db_pairings s1)\<rparr>, Inr (Some (raw, did)))))"

text \<open>\<open>GET /v1/pair/{id}\<close>: the first poll after the approval delivers the token.\<close>

definition poll_pairing ::
  "(bytes \<Rightarrow> bytes) \<Rightarrow> idstore \<Rightarrow> string \<Rightarrow> bytes \<Rightarrow> bytes \<Rightarrow> gotime \<Rightarrow>
   idstore \<times> (id_err + pair_status \<times> (string \<times> string) option)" where
  "poll_pairing sha s pid rnd trnd now =
     (case GetPairing s pid now of
        Found p \<Rightarrow>
          if pg_Status p = Approved
          then (case DeliverPairingToken sha s pid rnd trnd now of
                  (s', Inl e) \<Rightarrow> (s', Inl e)
                | (s', Inr d) \<Rightarrow> (s', Inr (pg_Status p, d)))
          else (s, Inr (pg_Status p, None))
      | _ \<Rightarrow> (s, Inl ENotFound))"

section \<open>QR pair codes\<close>

definition CreatePairCode :: "idstore \<Rightarrow> nat list \<Rightarrow> gotime \<Rightarrow> idstore \<times> (id_err + string \<times> seconds)" where
  "CreatePairCode s digits now =
     (let code = newCode digits; expiresAt = unix (now + pairCodeTTL) in
      if select1 (\<lambda>r. cd_code r = code) (db_pair_codes s) \<noteq> None then (s, Inl EConstraint)
      else (s\<lparr>db_pair_codes := db_pair_codes s @
               [\<lparr>cd_code = code, cd_created_at = unix now, cd_expires_at = expiresAt, cd_used_at = None\<rparr>]\<rparr>,
            Inr (code, expiresAt)))"

definition ClaimPairCode ::
  "(bytes \<Rightarrow> bytes) \<Rightarrow> idstore \<Rightarrow> string \<Rightarrow> string \<Rightarrow> string \<Rightarrow> bytes \<Rightarrow> bytes \<Rightarrow> gotime \<Rightarrow>
   idstore \<times> (id_err + string \<times> string)" where
  "ClaimPairCode sha s code deviceName deviceType rnd trnd now =
     (let P = (\<lambda>r. cd_code r = code \<and> cd_used_at r = None \<and> unix now < cd_expires_at r) in
      if count_where P (db_pair_codes s) = 0
      then (s, Inl (if count_where (\<lambda>r. cd_code r = code) (db_pair_codes s) = 0 then ENotFound else EGone))
      else (case mint_device sha
                   (s\<lparr>db_pair_codes := update_where P (\<lambda>r. r\<lparr>cd_used_at := Some (unix now)\<rparr>) (db_pair_codes s)\<rparr>)
                   deviceName deviceType rnd trnd now of
              Inl e \<Rightarrow> (s, Inl e)
            | Inr (s1, raw, did) \<Rightarrow> (s1, Inr (raw, did))))"

section \<open>Every operation as one step\<close>

datatype id_op =
  ISetSetting string string
| ICreateProfile string string string bytes bytes gotime
| IUpdateProfile string ProfileUpdate bytes
| IDeleteProfile string
| ISetShare string bool
| ICreateDevice string string bytes gotime
| ICreateDeviceToken string bytes
| ICreateProfileToken string string bytes
| IDeleteDevice string
| ITouchDevice string gotime
| IInitAdmin string bytes
| ICreateSession bytes gotime
| IDeleteSession string
| IStartPairing string string string bytes "nat list" gotime
| IApprove string gotime
| IDeny string gotime
| IPoll string bytes bytes gotime
| ICreateCode "nat list" gotime
| IClaim string string string bytes bytes gotime

fun id_step :: "(bytes \<Rightarrow> bytes) \<Rightarrow> (bytes \<Rightarrow> string \<Rightarrow> string) \<Rightarrow> idstore \<Rightarrow> id_op \<Rightarrow> idstore" where
  "id_step sha hp s (ISetSetting k v) = SetSetting s k v"
| "id_step sha hp s (ICreateProfile n p c rnd salt now) = fst (CreateProfileRecord hp s n p c rnd salt now)"
| "id_step sha hp s (IUpdateProfile pid u salt) = fst (UpdateProfile hp s pid u salt)"
| "id_step sha hp s (IDeleteProfile pid) = fst (DeleteProfile s pid)"
| "id_step sha hp s (ISetShare pid b) = fst (SetShareListening s pid b)"
| "id_step sha hp s (ICreateDevice n t rnd now) = fst (CreateDevice s n t rnd now)"
| "id_step sha hp s (ICreateDeviceToken d rnd) = fst (CreateDeviceToken sha s d rnd)"
| "id_step sha hp s (ICreateProfileToken d p rnd) = fst (CreateProfileToken sha s d p rnd)"
| "id_step sha hp s (IDeleteDevice d) = fst (DeleteDevice s d)"
| "id_step sha hp s (ITouchDevice d now) = TouchDevice s d now"
| "id_step sha hp s (IInitAdmin pw salt) = fst (InitializeAdminPassword hp s pw salt)"
| "id_step sha hp s (ICreateSession rnd now) = fst (CreateAdminSession sha s rnd now)"
| "id_step sha hp s (IDeleteSession raw) = DeleteAdminSession sha s raw"
| "id_step sha hp s (IStartPairing n t v rnd ds now) = fst (StartPairing s n t v rnd ds now)"
| "id_step sha hp s (IApprove pid now) = fst (ApprovePairing s pid now)"
| "id_step sha hp s (IDeny pid now) = fst (DenyPairing s pid now)"
| "id_step sha hp s (IPoll pid rnd trnd now) = fst (poll_pairing sha s pid rnd trnd now)"
| "id_step sha hp s (ICreateCode ds now) = fst (CreatePairCode s ds now)"
| "id_step sha hp s (IClaim c n t rnd trnd now) = fst (ClaimPairCode sha s c n t rnd trnd now)"

section \<open>Keys and references\<close>

text \<open>
  The primary keys are unique and every token belongs to a device that exists, a profile token also
  to a profile that exists; a pairing's device exists.
\<close>

definition keys_ok :: "idstore \<Rightarrow> bool" where
  "keys_ok s \<longleftrightarrow> unique_key fst (db_settings s) \<and> unique_key pf_profile_id (db_profiles s) \<and>
     unique_key dv_DeviceID (db_devices s) \<and> unique_key dt_token_hash (db_device_tokens s) \<and>
     unique_key pt_token_hash (db_profile_tokens s) \<and> unique_key as_token_hash (db_admin_sessions s) \<and>
     unique_key pg_PairingID (db_pairings s) \<and> unique_key cd_code (db_pair_codes s)"

definition refs_ok :: "idstore \<Rightarrow> bool" where
  "refs_ok s \<longleftrightarrow>
     dt_device_id ` set (db_device_tokens s) \<subseteq> dv_DeviceID ` set (db_devices s) \<and>
     pt_device_id ` set (db_profile_tokens s) \<subseteq> dv_DeviceID ` set (db_devices s) \<and>
     pt_profile_id ` set (db_profile_tokens s) \<subseteq> pf_profile_id ` set (db_profiles s) \<and>
     (\<forall>p \<in> set (db_pairings s). \<forall>d. pg_device_id p = Some d \<longrightarrow> d \<in> dv_DeviceID ` set (db_devices s))"

definition id_inv :: "idstore \<Rightarrow> bool" where
  "id_inv s \<longleftrightarrow> keys_ok s \<and> refs_ok s"

lemma image_update_where [table_simps]:
  "(\<And>r. key (f r) = key r) \<Longrightarrow> key ` set (update_where P f t) = key ` set t"
  by (metis list.set_map map_update_where)

lemma select1_None_key: "select1 (\<lambda>r. key r = k) t = None \<longleftrightarrow> k \<notin> key ` set t"
  by (auto simp: select1_None_iff)

lemma count_0_key: "count_where (\<lambda>r. key r = k) t = 0 \<longleftrightarrow> k \<notin> key ` set t"
  by (auto simp: count_where_0_iff)

lemma unique_key_insert: "unique_key key t \<Longrightarrow> key r \<notin> key ` set t \<Longrightarrow> unique_key key (t @ [r])"
  by (auto simp: unique_key_def)

lemma CreateDevice_inv: "id_inv s \<Longrightarrow> id_inv (fst (CreateDevice s n t rnd now))"
  by (auto simp: CreateDevice_def Let_def id_inv_def keys_ok_def refs_ok_def select1_None_key
      intro!: unique_key_insert)

lemma CreateDeviceToken_inv: "id_inv s \<Longrightarrow> id_inv (fst (CreateDeviceToken sha s d rnd))"
  by (auto simp: CreateDeviceToken_def Let_def id_inv_def keys_ok_def refs_ok_def select1_None_key
      intro!: unique_key_insert)

lemma CreateProfileToken_inv: "id_inv s \<Longrightarrow> id_inv (fst (CreateProfileToken sha s d p rnd))"
  by (auto simp: CreateProfileToken_def Let_def id_inv_def keys_ok_def refs_ok_def select1_None_key
      intro!: unique_key_insert)

lemma mint_device_inv:
  assumes "id_inv s" "mint_device sha s n t rnd trnd now = Inr (s', raw, did)"
  shows "id_inv s'" "did \<in> dv_DeviceID ` set (db_devices s')" "db_pairings s' = db_pairings s"
    "db_pair_codes s' = db_pair_codes s"
proof -
  obtain s1 where 1: "CreateDevice s n t rnd now = (s1, Inr did)" "CreateDeviceToken sha s1 did trnd = (s', Inr raw)"
    using assms(2) by (auto simp: mint_device_def split: prod.splits sum.splits)
  show "id_inv s'" using CreateDevice_inv [OF assms(1), of n t rnd now] CreateDeviceToken_inv [of s1 sha did trnd] 1
    by simp
  show "did \<in> dv_DeviceID ` set (db_devices s')" "db_pairings s' = db_pairings s" "db_pair_codes s' = db_pair_codes s"
    using 1 by (auto simp: CreateDevice_def CreateDeviceToken_def Let_def split: if_splits)
qed

lemma mint_invariants:
  assumes "id_inv s" "mint_device sha s n t rnd trnd now = Inr (s', raw, did)"
    and "\<And>r. pg_PairingID (f r) = pg_PairingID r" "\<And>r. pg_device_id (f r) = Some did"
  shows "id_inv (s'\<lparr>db_pairings := update_where P f (db_pairings s')\<rparr>)"
proof -
  note m = mint_device_inv [OF assms(1,2)]
  have "\<forall>p \<in> set (update_where P f (db_pairings s')). \<forall>d. pg_device_id p = Some d \<longrightarrow>
      d \<in> dv_DeviceID ` set (db_devices s')"
    using m(1,2) assms(4) by (auto simp: set_update_where id_inv_def refs_ok_def)
  then show ?thesis
    using m(1) assms(3) by (simp add: id_inv_def keys_ok_def refs_ok_def unique_key_update_where)
qed

lemma Deliver_inv: "id_inv s \<Longrightarrow> id_inv (fst (DeliverPairingToken sha s pid rnd trnd now))"
  by (auto simp: DeliverPairingToken_def split: option.splits sum.splits prod.splits intro!: mint_invariants)

lemma poll_inv: "id_inv s \<Longrightarrow> id_inv (fst (poll_pairing sha s pid rnd trnd now))"
  using Deliver_inv [of s sha pid rnd trnd now]
  by (auto simp: poll_pairing_def split: lookup.splits prod.splits sum.splits)

lemma claim_update_inv:
  "id_inv s \<Longrightarrow> (\<And>r. cd_code (f r) = cd_code r) \<Longrightarrow> id_inv (s\<lparr>db_pair_codes := update_where P f (db_pair_codes s)\<rparr>)"
  by (simp add: id_inv_def keys_ok_def refs_ok_def unique_key_update_where)

lemma Claim_inv: "id_inv s \<Longrightarrow> id_inv (fst (ClaimPairCode sha s c n t rnd trnd now))"
  by (auto simp: ClaimPairCode_def Let_def split: sum.splits prod.splits
      dest: mint_device_inv(1) [rotated] intro!: claim_update_inv)

lemma exec1_inv:
  assumes "id_inv s" "exec1_profile f pid s = Inr s'" "\<And>r. pf_profile_id (f r) = pf_profile_id r"
  shows "id_inv s'"
proof -
  have "s' = s\<lparr>db_profiles := update_where (\<lambda>r. pf_profile_id r = pid) f (db_profiles s)\<rparr>"
    using assms(2) by (auto simp: exec1_profile_def split: if_splits)
  then show ?thesis using assms(1,3)
    by (simp add: id_inv_def keys_ok_def refs_ok_def unique_key_update_where image_update_where)
qed

lemma DeleteProfile_inv: "id_inv s \<Longrightarrow> id_inv (fst (DeleteProfile s pid))"
  by (auto simp: DeleteProfile_def id_inv_def keys_ok_def refs_ok_def unique_key_delete_where)

lemma image_delete_key: "key ` set (delete_where (\<lambda>r. key r = k) t) = key ` set t - {k}"
  by auto

lemma DeleteDevice_inv:
  assumes "id_inv s"
  shows "id_inv (fst (DeleteDevice s did))"
proof (cases "count_where (\<lambda>r. dv_DeviceID r = did) (db_devices s) = 0")
  case False
  let ?s = "fst (DeleteDevice s did)"
  have "dv_DeviceID ` set (db_devices ?s) = dv_DeviceID ` set (db_devices s) - {did}"
    "dt_device_id ` set (db_device_tokens ?s) = dt_device_id ` set (db_device_tokens s) - {did}"
    "pt_device_id ` set (db_profile_tokens ?s) = pt_device_id ` set (db_profile_tokens s) - {did}"
    "pt_profile_id ` set (db_profile_tokens ?s) \<subseteq> pt_profile_id ` set (db_profile_tokens s)"
    "db_profiles ?s = db_profiles s"
    using False by (auto simp: DeleteDevice_def image_delete_key simp del: set_delete_where)
      (auto simp: DeleteDevice_def)
  moreover have "\<forall>p \<in> set (db_pairings ?s). \<forall>d. pg_device_id p = Some d \<longrightarrow>
      d \<in> dv_DeviceID ` set (db_devices s) - {did}"
    using assms False by (auto simp: DeleteDevice_def set_update_where id_inv_def refs_ok_def)
  ultimately have "refs_ok ?s" using assms unfolding id_inv_def refs_ok_def by (simp add: subset_iff)
  moreover have "keys_ok ?s"
    using assms False by (simp add: DeleteDevice_def id_inv_def keys_ok_def unique_key_delete_where unique_key_update_where)
  ultimately show ?thesis by (simp add: id_inv_def)
qed (simp add: DeleteDevice_def assms)

lemma SetSetting_inv: "id_inv s \<Longrightarrow> id_inv (SetSetting s k v)"
  by (simp add: SetSetting_def put_setting_def id_inv_def keys_ok_def refs_ok_def unique_key_upsert)

lemma InitializeAdmin_inv:
  assumes "id_inv s"
  shows "id_inv (fst (InitializeAdminPassword hp s pw salt))"
proof (cases "length pw < MinAdminPasswordLength \<or> GetSetting s ''admin_password_hash'' \<noteq> None")
  case False
  then have "''admin_password_hash'' \<notin> fst ` set (db_settings s)"
    by (simp add: GetSetting_def get_setting_def select1_None_key)
  then have "unique_key fst (db_settings s @ [(''admin_password_hash'', hp salt pw)])"
    using assms by (intro unique_key_insert) (simp_all add: id_inv_def keys_ok_def)
  then show ?thesis using False assms by (simp add: InitializeAdminPassword_def id_inv_def keys_ok_def refs_ok_def)
qed (auto simp: InitializeAdminPassword_def assms)

lemma setPairingStatus_inv: "id_inv s \<Longrightarrow> id_inv (fst (setPairingStatus s pid st now))"
  by (auto simp: setPairingStatus_def Let_def id_inv_def keys_ok_def refs_ok_def unique_key_update_where
      set_update_where)

lemma id_step_inv: "id_inv s \<Longrightarrow> id_inv (id_step sha hp s x)"
proof (cases x)
  case (IClaim)
  then show "id_inv s \<Longrightarrow> id_inv (id_step sha hp s x)" by (simp add: Claim_inv)
next
  case (ICreateProfile)
  then show "id_inv s \<Longrightarrow> id_inv (id_step sha hp s x)"
    by (auto simp: CreateProfileRecord_def Let_def id_inv_def keys_ok_def refs_ok_def select1_None_key
        intro!: unique_key_insert)
next
  case (IUpdateProfile pid u salt)
  then show "id_inv s \<Longrightarrow> id_inv (id_step sha hp s x)"
    by (auto simp: UpdateProfile_def update_profile_row_def split: sum.splits elim!: exec1_inv)
next
  case (ISetShare pid b)
  then show "id_inv s \<Longrightarrow> id_inv (id_step sha hp s x)"
    by (auto simp: SetShareListening_def split: sum.splits elim!: exec1_inv)
next
  case (ITouchDevice d now)
  then show "id_inv s \<Longrightarrow> id_inv (id_step sha hp s x)"
    by (simp add: TouchDevice_def id_inv_def keys_ok_def refs_ok_def unique_key_update_where image_update_where)
next
  case (ICreateSession rnd now)
  then show "id_inv s \<Longrightarrow> id_inv (id_step sha hp s x)"
    by (auto simp: CreateAdminSession_def Let_def id_inv_def keys_ok_def refs_ok_def select1_None_key
        intro!: unique_key_insert)
next
  case (IDeleteSession raw)
  then show "id_inv s \<Longrightarrow> id_inv (id_step sha hp s x)"
    by (simp add: DeleteAdminSession_def id_inv_def keys_ok_def refs_ok_def unique_key_delete_where)
next
  case (IStartPairing n t v rnd ds now)
  then show "id_inv s \<Longrightarrow> id_inv (id_step sha hp s x)"
    by (auto simp: StartPairing_def Let_def id_inv_def keys_ok_def refs_ok_def select1_None_key
        Pairing.extend_def pairing_row.fields_def intro!: unique_key_insert)
next
  case (ICreateCode ds now)
  then show "id_inv s \<Longrightarrow> id_inv (id_step sha hp s x)"
    by (auto simp: CreatePairCode_def Let_def id_inv_def keys_ok_def refs_ok_def select1_None_key
        intro!: unique_key_insert)
qed (simp_all add: SetSetting_inv DeleteProfile_inv CreateDevice_inv CreateDeviceToken_inv CreateProfileToken_inv
    DeleteDevice_inv InitializeAdmin_inv ApprovePairing_def DenyPairing_def setPairingStatus_inv poll_inv)

interpretation identities: component empty_idstore "id_step sha hp" id_inv
  by unfold_locales (simp add: id_inv_def keys_ok_def refs_ok_def empty_idstore_def, rule id_step_inv)

section \<open>What holds of the credentials\<close>

lemma resolve_refs:
  assumes "refs_ok s" "ResolveToken sha s raw = Found i"
  shows "idn_DeviceID i \<in> dv_DeviceID ` set (db_devices s)"
    "idn_ProfileID i = '''' \<or> idn_ProfileID i \<in> pf_profile_id ` set (db_profiles s)"
  using assms by (auto simp: ResolveToken_def refs_ok_def Let_def dest!: select1_SomeD split: option.splits)

lemma DeleteDevice_gone: "did \<notin> dv_DeviceID ` set (db_devices (fst (DeleteDevice s did)))"
  by (auto simp: DeleteDevice_def count_0_key)

lemma DeleteProfile_gone: "pid \<notin> pf_profile_id ` set (db_profiles (fst (DeleteProfile s pid)))"
  by (auto simp: DeleteProfile_def count_0_key)

text \<open>C13
  A bearer token never outlives what it stands for: in every reachable store, right after a device
  is revoked no token resolves to it, right after a profile is deleted no token acts for it, and any
  token that resolves names a device that exists.
\<close>

theorem no_token_outlives_its_owner:
  "(let s = run_ops (id_step sha hp) empty_idstore ops in
    (\<forall>raw i. ResolveToken sha s raw = Found i \<longrightarrow> GetDevice s (idn_DeviceID i) \<noteq> NoRows) \<and>
    (\<forall>did raw i. ResolveToken sha (fst (DeleteDevice s did)) raw = Found i \<longrightarrow> idn_DeviceID i \<noteq> did) \<and>
    (\<forall>pid raw i. pid \<noteq> '''' \<and> ResolveToken sha (fst (DeleteProfile s pid)) raw = Found i \<longrightarrow> idn_ProfileID i \<noteq> pid))"
proof -
  let ?s = "run_ops (id_step sha hp) empty_idstore ops"
  have inv: "id_inv ?s"  by (rule identities.inv_reachable)
  have "GetDevice ?s (idn_DeviceID i) \<noteq> NoRows" if "ResolveToken sha ?s raw = Found i" for raw i
  proof -
    have "idn_DeviceID i \<in> dv_DeviceID ` set (db_devices ?s)"
      using resolve_refs(1) [OF _ that] inv by (simp add: id_inv_def)
    then have "select1 (\<lambda>r. dv_DeviceID r = idn_DeviceID i) (db_devices ?s) \<noteq> None"
      by (simp add: select1_None_key)
    then show ?thesis by (auto simp: GetDevice_def split: option.splits)
  qed
  moreover have "idn_DeviceID i \<noteq> did" if "ResolveToken sha (fst (DeleteDevice ?s did)) raw = Found i" for did raw i
    using resolve_refs(1) [OF _ that] DeleteDevice_inv [OF inv] DeleteDevice_gone by (auto simp: id_inv_def)
  moreover have "idn_ProfileID i \<noteq> pid"
    if "pid \<noteq> ''''" "ResolveToken sha (fst (DeleteProfile ?s pid)) raw = Found i" for pid raw i
    using resolve_refs(2) [OF _ that(2)] that(1) DeleteProfile_inv [OF inv] DeleteProfile_gone by (auto simp: id_inv_def)
  ultimately show ?thesis unfolding Let_def by blast
qed

definition token_demo :: "id_op list" where
  "token_demo = [ICreateDevice ''tv'' ''tv'' [1] 0, ICreateDeviceToken (new_id ''dev'' [1]) [7]]"

lemma no_token_outlives_its_owner_witness:
  "GetDevice (run_ops (id_step id (\<lambda>_ p. p)) empty_idstore token_demo) (new_id ''dev'' [1]) \<noteq> NoRows"
proof -
  have "ResolveToken id (run_ops (id_step id (\<lambda>_ p. p)) empty_idstore token_demo) (newRawToken [7]) =
      Found \<lparr>idn_DeviceID = new_id ''dev'' [1], idn_ProfileID = ''''\<rparr>"
    by (simp add: token_demo_def empty_idstore_def CreateDevice_def CreateDeviceToken_def ResolveToken_def Let_def)
  with no_token_outlives_its_owner [of id "\<lambda>_ p. p" token_demo] show ?thesis
    unfolding Let_def by fastforce
qed

subsection \<open>Pair codes\<close>

definition code_used :: "string \<Rightarrow> idstore \<Rightarrow> bool" where
  "code_used code s \<longleftrightarrow> unique_key cd_code (db_pair_codes s) \<and>
     (\<exists>r \<in> set (db_pair_codes s). cd_code r = code \<and> cd_used_at r \<noteq> None)"

lemma code_used_update:
  assumes "code_used code s" "\<And>r. cd_code (f r) = cd_code r" "\<And>r. cd_used_at r \<noteq> None \<Longrightarrow> cd_used_at (f r) \<noteq> None"
  shows "code_used code (s\<lparr>db_pair_codes := update_where P f (db_pair_codes s)\<rparr>)"
proof -
  from assms(1) obtain r where r: "r \<in> set (db_pair_codes s)" "cd_code r = code" "cd_used_at r \<noteq> None"
    and k: "unique_key cd_code (db_pair_codes s)" by (auto simp: code_used_def)
  have "(if P r then f r else r) \<in> set (update_where P f (db_pair_codes s))"
    using r(1) by (auto simp: set_update_where)
  then have "\<exists>x \<in> set (update_where P f (db_pair_codes s)). cd_code x = code \<and> cd_used_at x \<noteq> None"
    using r(2,3) assms(2,3) by (intro bexI) auto
  then show ?thesis using unique_key_update_where [OF k] assms(2) by (simp add: code_used_def)
qed

lemma code_used_same: "db_pair_codes s' = db_pair_codes s \<Longrightarrow> code_used code s' = code_used code s"
  by (simp add: code_used_def)

lemma mint_codes: "mint_device sha s n t rnd trnd now = Inr (s', r) \<Longrightarrow> db_pair_codes s' = db_pair_codes s"
  by (auto simp: mint_device_def CreateDevice_def CreateDeviceToken_def Let_def split: prod.splits sum.splits if_splits)

lemma code_used_claim: "code_used code s \<Longrightarrow> code_used code (fst (ClaimPairCode sha s c n t rnd trnd now))"
proof -
  assume u: "code_used code s"
  let ?s = "s\<lparr>db_pair_codes := update_where (\<lambda>r. cd_code r = c \<and> cd_used_at r = None \<and> unix now < cd_expires_at r)
    (\<lambda>r. r\<lparr>cd_used_at := Some (unix now)\<rparr>) (db_pair_codes s)\<rparr>"
  have "code_used code ?s" using u by (rule code_used_update) simp_all
  then have "code_used code s'" if "mint_device sha ?s n t rnd trnd now = Inr (s', r)" for s' r
    using mint_codes [OF that] by (simp add: code_used_def)
  then show ?thesis using u by (auto simp: ClaimPairCode_def Let_def split: sum.splits prod.splits)
qed

lemma poll_codes: "db_pair_codes (fst (poll_pairing sha s pid rnd trnd now)) = db_pair_codes s"
  by (auto simp: poll_pairing_def DeliverPairingToken_def dest: mint_codes
      split: lookup.splits prod.splits sum.splits option.splits)

lemma code_used_step: "code_used code s \<Longrightarrow> code_used code (id_step sha hp s x)"
proof (cases x)
  case (IClaim c n t rnd trnd now)
  then show "code_used code s \<Longrightarrow> code_used code (id_step sha hp s x)" by (simp add: code_used_claim)
next
  case (ICreateCode ds now)
  then show "code_used code s \<Longrightarrow> code_used code (id_step sha hp s x)"
    by (auto simp: CreatePairCode_def Let_def code_used_def select1_None_key intro!: unique_key_insert)
next
  case (IPoll pid rnd trnd now)
  then show "code_used code s \<Longrightarrow> code_used code (id_step sha hp s x)"
    by (simp add: poll_codes code_used_def)
qed (auto simp: code_used_def SetSetting_def CreateProfileRecord_def UpdateProfile_def exec1_profile_def
    DeleteProfile_def SetShareListening_def CreateDevice_def CreateDeviceToken_def CreateProfileToken_def
    DeleteDevice_def TouchDevice_def InitializeAdminPassword_def CreateAdminSession_def DeleteAdminSession_def
    StartPairing_def ApprovePairing_def DenyPairing_def setPairingStatus_def Let_def split: sum.splits if_splits)

lemma code_used_claim_gone:
  assumes "code_used code s"
  shows "ClaimPairCode sha s code n t rnd trnd now = (s, Inl EGone)"
proof -
  obtain r where r: "r \<in> set (db_pair_codes s)" "cd_code r = code" "cd_used_at r \<noteq> None"
    using assms by (auto simp: code_used_def)
  have "cd_used_at x \<noteq> None" if "x \<in> set (db_pair_codes s)" "cd_code x = code" for x
    using unique_keyD [of cd_code "db_pair_codes s" x r] assms that r by (simp add: code_used_def)
  then have "count_where (\<lambda>r. cd_code r = code \<and> cd_used_at r = None \<and> unix now < cd_expires_at r) (db_pair_codes s) = 0"
    by (auto simp: count_where_0_iff)
  moreover have "count_where (\<lambda>r. cd_code r = code) (db_pair_codes s) \<noteq> 0"
    using r by (auto simp: count_where_0_iff)
  ultimately show ?thesis by (simp add: ClaimPairCode_def Let_def)
qed

lemma claim_uses_code:
  assumes "id_inv s" "ClaimPairCode sha s code n t rnd trnd now = (s', Inr r)"
  shows "code_used code s'"
proof -
  let ?P = "\<lambda>r. cd_code r = code \<and> cd_used_at r = None \<and> unix now < cd_expires_at r"
  let ?s = "s\<lparr>db_pair_codes := update_where ?P (\<lambda>r. r\<lparr>cd_used_at := Some (unix now)\<rparr>) (db_pair_codes s)\<rparr>"
  from assms(2) have c: "count_where ?P (db_pair_codes s) \<noteq> 0"
    and m: "\<exists>r'. mint_device sha ?s n t rnd trnd now = Inr (s', r')"
    by (auto simp: ClaimPairCode_def Let_def split: if_splits sum.splits prod.splits)
  from c obtain x where "x \<in> set (db_pair_codes s)" "?P x" by (auto simp: count_where_0_iff)
  then have "x\<lparr>cd_used_at := Some (unix now)\<rparr> \<in> set (db_pair_codes ?s)" and "cd_code x = code"
    by (auto simp: set_update_where intro!: image_eqI [of _ _ x])
  then have "\<exists>r \<in> set (db_pair_codes ?s). cd_code r = code \<and> cd_used_at r \<noteq> None"
    by (intro bexI [of _ "x\<lparr>cd_used_at := Some (unix now)\<rparr>"]) simp_all
  then have "code_used code ?s"
    unfolding code_used_def using assms(1) by (simp add: id_inv_def keys_ok_def unique_key_update_where)
  moreover from m obtain r' where "mint_device sha ?s n t rnd trnd now = Inr (s', r')" by blast
  then have "db_pair_codes s' = db_pair_codes ?s" by (rule mint_codes)
  ultimately show ?thesis by (simp only: code_used_def)
qed

text \<open>C14
  A QR pair code works once: after it has been claimed, whatever the server does next - other
  claims, new codes, revocations, any later time - claiming it again fails as expired or used and
  changes nothing.
\<close>

theorem pair_code_single_use:
  assumes "ClaimPairCode sha (run_ops (id_step sha hp) empty_idstore ops) code n t rnd trnd now = (s', Inr r)"
  shows "ClaimPairCode sha (run_ops (id_step sha hp) s' later) code n' t' rnd' trnd' now' =
    (run_ops (id_step sha hp) s' later, Inl EGone)"
proof (rule code_used_claim_gone)
  have "code_used code s'" by (rule claim_uses_code [OF identities.inv_reachable assms])
  then show "code_used code (run_ops (id_step sha hp) s' later)"
    by (induction later arbitrary: s') (auto intro: code_used_step)
qed

definition code_demo :: "id_op list" where "code_demo = [ICreateCode [0, 1, 2, 3, 4, 5] 0]"

lemma pair_code_single_use_witness:
  "ClaimPairCode id (fst (ClaimPairCode id (run_ops (id_step id (\<lambda>_ p. p)) empty_idstore code_demo)
      (newCode [0, 1, 2, 3, 4, 5]) ''tv'' ''tv'' [1] [2] 5)) (newCode [0, 1, 2, 3, 4, 5]) ''x'' ''y'' [3] [4] 6 =
    (fst (ClaimPairCode id (run_ops (id_step id (\<lambda>_ p. p)) empty_idstore code_demo)
      (newCode [0, 1, 2, 3, 4, 5]) ''tv'' ''tv'' [1] [2] 5), Inl EGone)"
proof -
  let ?c = "ClaimPairCode id (run_ops (id_step id (\<lambda>_ p. p)) empty_idstore code_demo)
      (newCode [0, 1, 2, 3, 4, 5]) ''tv'' ''tv'' [1] [2] 5"
  have "\<exists>r. snd ?c = Inr r"
    by (simp add: code_demo_def CreatePairCode_def empty_idstore_def ClaimPairCode_def count_where_def
        mint_device_def CreateDevice_def CreateDeviceToken_def pairCodeTTL_def duration_defs unix_def Let_def)
  then obtain r where "?c = (fst ?c, Inr r)" by (metis prod.collapse)
  from pair_code_single_use [OF this, of "[]"] show ?thesis by simp
qed

subsection \<open>PIN pairings\<close>

definition never_approved :: "string \<Rightarrow> idstore \<Rightarrow> bool" where
  "never_approved pid s \<longleftrightarrow> unique_key pg_PairingID (db_pairings s) \<and>
     (\<exists>r \<in> set (db_pairings s). pg_PairingID r = pid \<and> pg_Status r \<noteq> Approved)"

lemma never_approved_update:
  assumes "never_approved pid s" "\<And>r. pg_PairingID (f r) = pg_PairingID r"
    "\<And>r. pg_PairingID r = pid \<Longrightarrow> P r \<Longrightarrow> pg_Status r \<noteq> Approved \<Longrightarrow> pg_Status (f r) \<noteq> Approved"
    and s': "db_pairings s' = update_where P f (db_pairings s)"
  shows "never_approved pid s'"
proof -
  from assms(1) obtain r where r: "r \<in> set (db_pairings s)" "pg_PairingID r = pid" "pg_Status r \<noteq> Approved"
    and k: "unique_key pg_PairingID (db_pairings s)" by (auto simp: never_approved_def)
  have "(if P r then f r else r) \<in> set (db_pairings s')" using r(1) by (auto simp: set_update_where s')
  then have "\<exists>x \<in> set (db_pairings s'). pg_PairingID x = pid \<and> pg_Status x \<noteq> Approved"
    using r(2,3) assms(2,3) by (intro bexI) auto
  then show ?thesis using unique_key_update_where [OF k] assms(2) by (simp add: never_approved_def s')
qed

lemma mint_pairings: "mint_device sha s n t rnd trnd now = Inr (s', r) \<Longrightarrow> db_pairings s' = db_pairings s"
  by (auto simp: mint_device_def CreateDevice_def CreateDeviceToken_def Let_def split: prod.splits sum.splits if_splits)

definition delivered_in :: "pairing_row table \<Rightarrow> pairing_row table \<Rightarrow> bool" where
  "delivered_in t t' \<longleftrightarrow> t' = t \<or> (\<exists>P d. t' = update_where P (\<lambda>r. r\<lparr>pg_device_id := Some d\<rparr>) t)"

lemma deliver_pairings: "delivered_in (db_pairings s) (db_pairings (fst (DeliverPairingToken sha s pid rnd trnd now)))"
  unfolding delivered_in_def
  by (cases "\<exists>r s' raw did. select1 (\<lambda>r. pg_PairingID r = pid \<and> pg_Status r = Approved \<and> pg_device_id r = None)
        (db_pairings s) = Some r \<and> mint_device sha s (pg_DeviceName r) (pg_DeviceType r) rnd trnd now = Inr (s', raw, did)")
    (auto simp: DeliverPairingToken_def mint_pairings split: option.splits sum.splits)

lemma poll_pairings: "delivered_in (db_pairings s) (db_pairings (fst (poll_pairing sha s pid rnd trnd now)))"
  using deliver_pairings [of s sha pid rnd trnd now]
  by (cases "DeliverPairingToken sha s pid rnd trnd now")
    (auto simp: poll_pairing_def delivered_in_def split: lookup.split sum.split)

lemma claim_pairings: "db_pairings (fst (ClaimPairCode sha s c n t rnd trnd now)) = db_pairings s"
  by (auto simp: ClaimPairCode_def Let_def dest: mint_pairings split: sum.splits prod.splits)

fun approves :: "string \<Rightarrow> id_op \<Rightarrow> bool" where
  "approves pid (IApprove p now) = (p = pid)"
| "approves pid _ = False"

lemma never_approved_same: "never_approved pid s \<Longrightarrow> db_pairings s' = db_pairings s \<Longrightarrow> never_approved pid s'"
  by (simp add: never_approved_def)

lemma setStatus_never_approved:
  assumes "never_approved pid s" "st \<noteq> Approved \<or> p \<noteq> pid"
  shows "never_approved pid (fst (setPairingStatus s p st now))"
proof (cases "snd (setPairingStatus s p st now)")
  case (Inl e)
  then have "fst (setPairingStatus s p st now) = s" by (auto simp: setPairingStatus_def Let_def split: if_splits)
  then show ?thesis using assms(1) by simp
next
  case (Inr u)
  show ?thesis
  proof (rule never_approved_update [OF assms(1)])
    show "db_pairings (fst (setPairingStatus s p st now)) =
      update_where (\<lambda>r. pg_PairingID r = p \<and> pg_Status r = Pending \<and> unix now < pg_ExpiresAt r)
        (\<lambda>r. r\<lparr>pg_Status := st\<rparr>) (db_pairings s)"
      using Inr by (auto simp: setPairingStatus_def Let_def split: if_splits)
  qed (use assms(2) in auto)
qed

lemma never_approved_step:
  assumes n: "never_approved pid s" and a: "\<not> approves pid x"
  shows "never_approved pid (id_step sha hp s x)"
proof (cases x)
  case (IPoll p rnd trnd now)
  then consider "db_pairings (id_step sha hp s x) = db_pairings s"
    | P d where "db_pairings (id_step sha hp s x) = update_where P (\<lambda>r. r\<lparr>pg_device_id := Some d\<rparr>) (db_pairings s)"
    using poll_pairings [of s sha p rnd trnd now] by (auto simp: delivered_in_def)
  then show ?thesis
  proof cases
    case (2 P d)
    show ?thesis by (rule never_approved_update [OF n _ _ 2]) simp_all
  qed (rule never_approved_same [OF n])
next
  case (IDeleteDevice d)
  show ?thesis
  proof (cases "snd (DeleteDevice s d)")
    case (Inr u)
    then show ?thesis using IDeleteDevice
      by (intro never_approved_update [OF n, of "\<lambda>r. r\<lparr>pg_device_id := None\<rparr>" "\<lambda>r. pg_device_id r = Some d"])
        (auto simp: DeleteDevice_def split: if_splits)
  qed (use IDeleteDevice n in \<open>auto simp: DeleteDevice_def split: if_splits\<close>)
next
  case (IStartPairing m t v rnd ds now)
  then show ?thesis using n
    by (auto simp: StartPairing_def Let_def never_approved_def select1_None_key Pairing.extend_def
        pairing_row.fields_def intro!: unique_key_insert)
next
  case (IApprove p now)
  then show ?thesis using setStatus_never_approved [OF n] a by (simp add: ApprovePairing_def)
next
  case (IDeny p now)
  then show ?thesis using setStatus_never_approved [OF n] by (simp add: DenyPairing_def)
next
  case (IClaim c m t rnd trnd now)
  then show ?thesis using claim_pairings n by (intro never_approved_same [OF n]) simp
qed (rule never_approved_same [OF n], auto simp: SetSetting_def CreateProfileRecord_def UpdateProfile_def exec1_profile_def
    DeleteProfile_def SetShareListening_def CreateDevice_def CreateDeviceToken_def CreateProfileToken_def
    TouchDevice_def InitializeAdminPassword_def CreateAdminSession_def DeleteAdminSession_def
    CreatePairCode_def Let_def split: sum.splits if_splits)+

lemma never_approved_run:
  "never_approved pid s \<Longrightarrow> \<forall>x \<in> set ops. \<not> approves pid x \<Longrightarrow> never_approved pid (run_ops (id_step sha hp) s ops)"
  by (induction ops arbitrary: s) (auto intro: never_approved_step)

lemma never_approved_poll:
  assumes "never_approved pid s"
  shows "\<nexists>st tok. snd (poll_pairing sha s pid rnd trnd now) = Inr (st, Some tok)"
proof -
  from assms obtain r where r: "select1 (\<lambda>r. pg_PairingID r = pid) (db_pairings s) = Some r" "pg_Status r \<noteq> Approved"
    using unique_key_select1 [of pg_PairingID "db_pairings s" _ pid] by (auto simp: never_approved_def)
  then show ?thesis by (auto simp: poll_pairing_def GetPairing_def scanPairing_def Let_def Pairing.truncate_def)
qed

text \<open>C15
  A device is paired only with the admin's consent: after a pairing request, as long as no approval
  of that request is among the operations served - whatever else is, and however much time passes -
  no poll of it hands out a token.
\<close>

theorem no_token_without_approval:
  assumes "StartPairing (run_ops (id_step sha hp) empty_idstore ops) n t v rnd ds now = (s', Inr p)"
    and "\<forall>x \<in> set later. \<not> approves (pg_PairingID p) x"
  shows "\<nexists>st tok. snd (poll_pairing sha (run_ops (id_step sha hp) s' later) (pg_PairingID p) rnd' trnd' now') =
    Inr (st, Some tok)"
proof -
  have inv: "id_inv (run_ops (id_step sha hp) empty_idstore ops)" by (rule identities.inv_reachable)
  have "unique_key pg_PairingID (db_pairings s')"
    using identities.inv_step [OF inv, of sha hp "IStartPairing n t v rnd ds now"] assms(1)
    by (simp add: id_inv_def keys_ok_def)
  then have "never_approved (pg_PairingID p) s'"
    using assms(1) by (auto simp: StartPairing_def Let_def never_approved_def Pairing.extend_def
        pairing_row.fields_def split: if_splits)
  then show ?thesis using assms(2) by (intro never_approved_poll never_approved_run)
qed

definition started :: "idstore \<times> (id_err + Pairing)" where
  "started = StartPairing empty_idstore ''tv'' ''tv'' ''1'' [9] [0, 0, 0, 0, 0, 0] 0"

lemma started_Inr: "\<exists>p. started = (fst started, Inr p) \<and> pg_PairingID p = new_id ''pair'' [9]"
  by (simp add: started_def StartPairing_def empty_idstore_def Let_def)

lemma no_token_without_approval_witness:
  "\<nexists>st tok. snd (poll_pairing id (run_ops (id_step id (\<lambda>_ p. p)) (fst started) [IDeny (new_id ''pair'' [9]) 5])
     (new_id ''pair'' [9]) [1] [2] 6) = Inr (st, Some tok)"
proof -
  obtain p where p: "started = (fst started, Inr p)" "pg_PairingID p = new_id ''pair'' [9]" using started_Inr by blast
  have "StartPairing (run_ops (id_step id (\<lambda>_ p. p)) empty_idstore []) ''tv'' ''tv'' ''1'' [9] [0, 0, 0, 0, 0, 0] 0 =
      (fst started, Inr p)"
    using p(1) by (simp add: started_def)
  from no_token_without_approval [OF this, of "[IDeny (new_id ''pair'' [9]) 5]"] p(2) show ?thesis by simp
qed

definition repair_ops :: "id_op list" where
  "repair_ops = [IStartPairing ''tv'' ''tv'' ''1'' [9] [0, 0, 0, 0, 0, 0] 0, IApprove (new_id ''pair'' [9]) 1,
     IPoll (new_id ''pair'' [9]) [1] [2] 3, IDeleteDevice (new_id ''dev'' [1])]"

text \<open>
  Revoking a paired device re-arms its pairing: the approved pairing loses its device and the next
  poll - an unauthenticated request - mints a fresh device and token, so a pairing can deliver more
  than once.
\<close>

lemma revoked_device_repairs:
  "snd (poll_pairing id (run_ops (id_step id (\<lambda>_ p. p)) empty_idstore repair_ops) (new_id ''pair'' [9]) [4] [5] 99) =
   Inr (Approved, Some (newRawToken [5], new_id ''dev'' [4]))"
  by (simp add: repair_ops_def empty_idstore_def StartPairing_def ApprovePairing_def setPairingStatus_def
      poll_pairing_def GetPairing_def scanPairing_def DeliverPairingToken_def mint_device_def CreateDevice_def
      CreateDeviceToken_def DeleteDevice_def Pairing.extend_def pairing_row.fields_def Pairing.truncate_def
      count_where_def pairingTTL_def duration_defs unix_def new_id_def base32_encode5_def Let_def)

subsection \<open>Admin sessions\<close>

text \<open>
  An admin session is good for seven days from its creation, to the second, and not after it is
  deleted.
\<close>

lemma session_lifetime:
  assumes "CreateAdminSession sha s rnd now = (s', Inr raw)"
  shows "ValidateAdminSession sha s' raw t = (t < second * unix (now + adminSessionTTL)) \<and>
    \<not> ValidateAdminSession sha (DeleteAdminSession sha s' raw) raw t"
proof -
  have new: "select1 (\<lambda>r. as_token_hash r = HashToken sha raw) (db_admin_sessions s) = None"
    and s': "s' = s\<lparr>db_admin_sessions := db_admin_sessions s @
      [\<lparr>as_token_hash = HashToken sha raw, as_expires_at = unix (now + adminSessionTTL)\<rparr>]\<rparr>"
    using assms by (auto simp: CreateAdminSession_def Let_def split: if_splits)
  have "select1 (\<lambda>r. as_token_hash r = HashToken sha raw) (db_admin_sessions (DeleteAdminSession sha s' raw)) = None"
    by (simp add: DeleteAdminSession_def select1_delete_where select1_None_iff)
  then show ?thesis using new by (simp add: ValidateAdminSession_def s' select1_append)
qed

lemma session_lifetime_witness:
  "ValidateAdminSession id (fst (CreateAdminSession id empty_idstore [3] 0)) (newRawToken [3]) (second * 604799) \<and>
   \<not> ValidateAdminSession id (fst (CreateAdminSession id empty_idstore [3] 0)) (newRawToken [3]) (second * 604800)"
proof -
  have "CreateAdminSession id empty_idstore [3] 0 = (fst (CreateAdminSession id empty_idstore [3] 0), Inr (newRawToken [3]))"
    by (simp add: CreateAdminSession_def empty_idstore_def Let_def)
  from session_lifetime [OF this] show ?thesis by (simp add: adminSessionTTL_def unix_def duration_defs)
qed

end
