(* ===== verification/HttpAuth.thy ===== *)
theory HttpAuth
  imports Identity
begin

text \<open>
  The gate in front of every handler: the bearer realm (\<open>internal/httpserver/middleware.go\<close>), the
  admin realm and the rate limit (\<open>admin_auth.go\<close>), signed stream grants (\<open>streaming.go\<close>), the admin
  login (\<open>admin_session.go\<close>), and the order and the routes \<open>server.go\<close> puts them in. HMAC-SHA256
  (\<open>hm\<close>) is a parameter like the other primitives. A request carries its decoded path, the two query
  values the gate reads, the headers and the cookie; an absent header or query value is the empty
  string, as Go returns it.
\<close>

record request =
  rq_method :: string
  rq_path :: string
  rq_authorization :: string
  rq_grant :: string
  rq_exp :: string
  rq_cookie :: "string option"
  rq_remote :: string
  rq_host :: string
  rq_https :: bool

datatype 'r outcome = Reject int string | Pass 'r

section \<open>The bearer realm\<close>

definition isPublic :: "string \<Rightarrow> string \<Rightarrow> bool" where
  "isPublic method path \<longleftrightarrow>
     method = ''GET'' \<and> path = ''/v1/ping'' \<or>
     method = ''GET'' \<and> has_prefix path ''/v1/lastfm/callback/'' \<or>
     method = ''POST'' \<and> path = ''/v1/pair'' \<or>
     method = ''POST'' \<and> path = ''/v1/pair/claim'' \<or>
     method = ''GET'' \<and> has_prefix path ''/v1/pair/'' \<or>
     method = ''GET'' \<and> path = ''/'' \<or>
     method = ''GET'' \<and> path = ''/api/openapi.yaml'' \<or>
     method = ''GET'' \<and> has_prefix path ''/docs/'' \<or>
     method = ''GET'' \<and> path = ''/admin/'' \<or>
     method = ''GET'' \<and> has_prefix path ''/admin/assets/''"

definition deviceTokenAllowed :: "string \<Rightarrow> string \<Rightarrow> bool" where
  "deviceTokenAllowed method path \<longleftrightarrow>
     method = ''GET'' \<and> path = ''/v1/me'' \<or>
     method = ''GET'' \<and> path = ''/v1/profiles'' \<or>
     method = ''POST'' \<and> path = ''/v1/profile-tokens'' \<or>
     method = ''GET'' \<and> path = ''/v1/status'' \<or>
     method = ''GET'' \<and> path = ''/v1/capabilities''"

section \<open>Stream grants\<close>

definition streamGrantTTL :: duration where "streamGrantTTL = 5 * minute"

text \<open>The secret is created on first use, from the random bytes \<open>rnd\<close>.\<close>

definition grantSecret :: "idstore \<Rightarrow> bytes \<Rightarrow> idstore \<times> bytes option" where
  "grantSecret s rnd =
     (let v = (case GetSetting s ''stream_grant_secret'' of None \<Rightarrow> '''' | Some v \<Rightarrow> v)
      in if v = ''''
         then (SetSetting s ''stream_grant_secret'' (hex_encode rnd), hex_decode (hex_encode rnd))
         else (s, hex_decode v))"

definition grant_message :: "string \<Rightarrow> int \<Rightarrow> string" where
  "grant_message trackID expiry = trackID @ ''|'' @ format_int expiry"

definition grantMAC :: "(bytes \<Rightarrow> bytes \<Rightarrow> bytes) \<Rightarrow> bytes \<Rightarrow> string \<Rightarrow> int \<Rightarrow> string" where
  "grantMAC hm secret trackID expiry = hex_encode (hm secret (map of_char (grant_message trackID expiry)))"

definition validStreamGrant ::
  "(bytes \<Rightarrow> bytes \<Rightarrow> bytes) \<Rightarrow> idstore \<Rightarrow> request \<Rightarrow> bytes \<Rightarrow> gotime \<Rightarrow> idstore \<times> bool" where
  "validStreamGrant hm s r rnd now =
     (let trackID = trim_prefix (rq_path r) ''/v1/stream/'' in
      if trackID = '''' \<or> rq_grant r = '''' \<or> rq_exp r = '''' then (s, False)
      else case parse_int64 (rq_exp r) of
             None \<Rightarrow> (s, False)
           | Some expiry \<Rightarrow>
               if expiry < unix now then (s, False)
               else (case grantSecret s rnd of
                       (s', None) \<Rightarrow> (s', False)
                     | (s', Some secret) \<Rightarrow> (s', grantMAC hm secret trackID expiry = rq_grant r)))"

text \<open>\<open>url.PathEscape\<close>: what a path segment may carry stays, every other byte becomes \<open>%XX\<close>.\<close>

definition upper_hex :: string where "upper_hex = ''0123456789ABCDEF''"

definition segment_char :: "char \<Rightarrow> bool" where
  "segment_char c \<longleftrightarrow>
     (let n = (of_char c :: nat) in
      48 \<le> n \<and> n \<le> 57 \<or> 65 \<le> n \<and> n \<le> 90 \<or> 97 \<le> n \<and> n \<le> 122 \<or> c \<in> set ''-_.~$&+:=@'')"

definition path_escape :: "string \<Rightarrow> string" where
  "path_escape s = List.concat (map (\<lambda>c. if segment_char c then [c]
     else [CHR ''%'', upper_hex ! (of_char c div 16), upper_hex ! (of_char c mod 16)]) s)"

text \<open>The URL and expiry \<open>handleCreateStreamGrant\<close> answers for a track that was found.\<close>

record stream_grant =
  sg_base :: string
  sg_trackID :: string
  sg_mac :: string
  sg_exp :: string
  sg_expiresAt :: gotime

definition grant_url :: "stream_grant \<Rightarrow> string" where
  "grant_url g = trim_suffix (sg_base g) ''/'' @ ''/v1/stream/'' @ path_escape (sg_trackID g) @
     ''?grant='' @ sg_mac g @ ''&exp='' @ sg_exp g"

definition handleCreateStreamGrant ::
  "(bytes \<Rightarrow> bytes \<Rightarrow> bytes) \<Rightarrow> idstore \<Rightarrow> request \<Rightarrow> string \<Rightarrow> 'a lookup \<Rightarrow> bytes \<Rightarrow> gotime \<Rightarrow>
   idstore \<times> stream_grant outcome" where
  "handleCreateStreamGrant hm s r trackID track rnd now =
     (if trackID = '''' then (s, Reject 400 ''bad_request'')
      else case track of
        DbFailed \<Rightarrow> (s, Reject 500 ''internal'')
      | NoRows \<Rightarrow> (s, Reject 404 ''not_found'')
      | Found _ \<Rightarrow>
          (case grantSecret s rnd of
             (s', None) \<Rightarrow> (s', Reject 500 ''internal'')
           | (s', Some secret) \<Rightarrow>
               (let canonical = (case GetSetting s' ''canonical_url'' of None \<Rightarrow> '''' | Some b \<Rightarrow> b);
                    base = (if canonical = '''' then (if rq_https r then ''https'' else ''http'') @ ''://'' @ rq_host r
                            else canonical);
                    expiresAt = now + streamGrantTTL
                in (s', Pass \<lparr>sg_base = base, sg_trackID = trackID,
                         sg_mac = grantMAC hm secret trackID (unix expiresAt),
                         sg_exp = format_int (unix expiresAt), sg_expiresAt = expiresAt\<rparr>))))"

section \<open>The middlewares\<close>

text \<open>\<open>Auth\<close>: the identity a request is served with, if any; a bearer request touches its device.\<close>

definition Auth ::
  "(bytes \<Rightarrow> bytes) \<Rightarrow> (bytes \<Rightarrow> bytes \<Rightarrow> bytes) \<Rightarrow> idstore \<Rightarrow> request \<Rightarrow> bytes \<Rightarrow> gotime \<Rightarrow>
   idstore \<times> Identity option outcome" where
  "Auth sha hm s r rnd now =
     (if isPublic (rq_method r) (rq_path r) \<or> has_prefix (rq_path r) ''/admin/api/'' then (s, Pass None)
      else if rq_method r = ''GET'' \<and> has_prefix (rq_path r) ''/v1/stream/'' \<and> rq_grant r \<noteq> ''''
      then (case validStreamGrant hm s r rnd now of
              (s', ok) \<Rightarrow> (s', if ok then Pass None else Reject 401 ''invalid_grant''))
      else
        (let (raw, ok) = cut_prefix (rq_authorization r) ''Bearer '' in
         if \<not> ok \<or> raw = '''' then (s, Reject 401 ''missing_token'')
         else case ResolveToken sha s raw of
                DbFailed \<Rightarrow> (s, Reject 500 ''internal'')
              | NoRows \<Rightarrow> (s, Reject 401 ''invalid_token'')
              | Found i \<Rightarrow>
                  if idn_ProfileID i = '''' \<and> \<not> deviceTokenAllowed (rq_method r) (rq_path r)
                  then (s, Reject 403 ''profile_token_required'')
                  else (TouchDevice s (idn_DeviceID i) now, Pass (Some i))))"

definition isAdminPublic :: "string \<Rightarrow> string \<Rightarrow> bool" where
  "isAdminPublic method path \<longleftrightarrow>
     method = ''POST'' \<and> (path = ''/admin/api/setup'' \<or> path = ''/admin/api/session'')"

definition AdminAuth :: "(bytes \<Rightarrow> bytes) \<Rightarrow> idstore \<Rightarrow> request \<Rightarrow> gotime \<Rightarrow> unit outcome" where
  "AdminAuth sha s r now =
     (if \<not> has_prefix (rq_path r) ''/admin/api/'' \<or> isAdminPublic (rq_method r) (rq_path r) then Pass ()
      else case rq_cookie r of
             None \<Rightarrow> Reject 401 ''admin_session_required''
           | Some c \<Rightarrow>
               if c = '''' then Reject 401 ''admin_session_required''
               else if ValidateAdminSession sha s c now then Pass () else Reject 401 ''invalid_session'')"

section \<open>The rate limit\<close>

type_synonym hit_table = "(string \<times> gotime list) list"

text \<open>The address up to its last colon: what follows the colon is the port.\<close>

definition client_ip :: "string \<Rightarrow> string" where
  "client_ip addr =
     (if CHR '':'' \<in> set addr
      then rev (drop 1 (dropWhile (\<lambda>c. c \<noteq> CHR '':'') (rev addr))) else addr)"

definition hits_of :: "hit_table \<Rightarrow> string \<Rightarrow> gotime list" where
  "hits_of h ip = (case select1 (\<lambda>r. fst r = ip) h of None \<Rightarrow> [] | Some r \<Rightarrow> snd r)"

definition RateLimit :: "nat \<Rightarrow> string list \<Rightarrow> hit_table \<Rightarrow> request \<Rightarrow> gotime \<Rightarrow> hit_table \<times> unit outcome" where
  "RateLimit perMinute routes h r now =
     (if rq_method r @ '' '' @ rq_path r \<notin> set routes then (h, Pass ())
      else
        (let ip = client_ip (rq_remote r);
             kept = filter (\<lambda>t. now - minute < t) (hits_of h ip);
             allowed = length kept < perMinute;
             kept = (if allowed then kept @ [now] else kept);
             h = upsert fst (ip, kept) (\<lambda>r. (fst r, kept)) h;
             h = (if 10000 < length h then [(ip, kept)] else h)
         in (h, if allowed then Pass () else Reject 429 ''rate_limited'')))"

section \<open>Routes\<close>

datatype route = RLogin | RLogout | REvents | RDownload | RStream | RArt | RGrants | RMux

definition root_route :: "string \<Rightarrow> string \<Rightarrow> route" where
  "root_route method path =
     (if path = ''/admin/api/session'' \<and> method = ''POST'' then RLogin
      else if path = ''/admin/api/session'' \<and> method = ''DELETE'' then RLogout
      else if path = ''/v1/events'' \<and> method = ''GET'' then REvents
      else if has_prefix path ''/v1/artifacts/'' \<and> has_suffix path ''/file'' \<and> method = ''GET'' then RDownload
      else if has_prefix path ''/v1/stream/'' \<and> method = ''GET'' then RStream
      else if has_prefix path ''/v1/art/'' \<and> method = ''GET'' then RArt
      else if path = ''/v1/stream-grants'' \<and> method = ''POST'' then RGrants
      else RMux)"

definition limited_routes :: "string list" where
  "limited_routes = [''POST /v1/pair'', ''POST /v1/pair/claim'']"

text \<open>The stack of \<open>handlerWithServer\<close>, outermost first, down to the route that serves the request.\<close>

definition serve ::
  "(bytes \<Rightarrow> bytes) \<Rightarrow> (bytes \<Rightarrow> bytes \<Rightarrow> bytes) \<Rightarrow> idstore \<times> hit_table \<Rightarrow> request \<Rightarrow> bytes \<Rightarrow> gotime \<Rightarrow>
   (idstore \<times> hit_table) \<times> (route \<times> Identity option) outcome" where
  "serve sha hm st r rnd now =
     (case st of (s, h) \<Rightarrow>
      case AdminAuth sha s r now of
        Reject c e \<Rightarrow> ((s, h), Reject c e)
      | Pass _ \<Rightarrow>
          (case Auth sha hm s r rnd now of
             (s', Reject c e) \<Rightarrow> ((s', h), Reject c e)
           | (s', Pass i) \<Rightarrow>
               (case RateLimit 30 limited_routes h r now of
                  (h', Reject c e) \<Rightarrow> ((s', h'), Reject c e)
                | (h', Pass _) \<Rightarrow> ((s', h'), Pass (root_route (rq_method r) (rq_path r), i)))))"

text \<open>\<open>handleAdminLogin\<close>: the session token that goes into the cookie. \<open>password\<close> is the decoded body,
  if it decoded.\<close>

definition handleAdminLogin ::
  "(bytes \<Rightarrow> bytes) \<Rightarrow> (string \<Rightarrow> string \<Rightarrow> bool) \<Rightarrow> idstore \<Rightarrow> string option \<Rightarrow> bytes \<Rightarrow> gotime \<Rightarrow>
   idstore \<times> string outcome" where
  "handleAdminLogin sha verifypw s password rnd now =
     (case password of
        None \<Rightarrow> (s, Reject 400 ''bad_request'')
      | Some pw \<Rightarrow>
          if pw = '''' then (s, Reject 400 ''bad_request'')
          else case GetSetting s ''admin_password_hash'' of
                 None \<Rightarrow> (s, Reject 401 ''setup_incomplete'')
               | Some hash \<Rightarrow>
                   if \<not> verifypw pw hash then (s, Reject 401 ''wrong_password'')
                   else (case CreateAdminSession sha s rnd now of
                           (s', Inl _) \<Rightarrow> (s', Reject 500 ''internal'')
                         | (s', Inr raw) \<Rightarrow> (s', Pass raw)))"

definition handleAdminLogout :: "(bytes \<Rightarrow> bytes) \<Rightarrow> idstore \<Rightarrow> request \<Rightarrow> idstore" where
  "handleAdminLogout sha s r =
     (case rq_cookie r of None \<Rightarrow> s | Some c \<Rightarrow> DeleteAdminSession sha s c)"

section \<open>Grants\<close>

lemma format_int_no_bar: "CHR ''|'' \<notin> set (format_int e)"
proof -
  have "CHR ''|'' \<notin> set (decimal n)" for n
    using decimal_digits [of "CHR ''|''" n] by (auto simp: is_digit_def digit_val_def)
  then show ?thesis by (simp add: format_int_def)
qed

lemma format_int_inj: "format_int a = format_int b \<Longrightarrow> a = b"
proof -
  assume eq: "format_int a = format_int b"
  have nominus: "decimal n \<noteq> ''-'' @ s" for n s
    using decimal_digits [of "CHR ''-''" n] by (auto simp: is_digit_def digit_val_def)
  show "a = b"
    using eq nominus nominus [symmetric]
    by (auto simp: format_int_def dest!: decimal_inj split: if_splits)
qed

lemma split_at_last: "xs @ c # ys = xs' @ c # ys' \<Longrightarrow> c \<notin> set ys \<Longrightarrow> c \<notin> set ys' \<Longrightarrow> xs = xs' \<and> ys = ys'"
proof (induction xs arbitrary: xs')
  case Nil
  then show ?case by (cases xs') auto
next
  case (Cons a xs)
  then show ?case by (cases xs') auto
qed

lemma grant_message_inj: "grant_message t e = grant_message t' e' \<Longrightarrow> t = t' \<and> e = e'"
  using split_at_last [of t "CHR ''|''" "format_int e" t' "format_int e'"] format_int_no_bar format_int_inj
  by (auto simp: grant_message_def)

lemma grantSecret_stable:
  assumes "grantSecret s rnd = (s', Some secret)" and "rnd \<noteq> []"
  shows "grantSecret s' rnd' = (s', Some secret)"
proof -
  obtain b bs where b: "rnd = b # bs" using assms(2) by (cases rnd) auto
  show ?thesis
  proof (cases "GetSetting s ''stream_grant_secret'' \<in> {None, Some ''''}")
    case True
    then have "s' = SetSetting s ''stream_grant_secret'' (hex_encode rnd)" "secret = rnd"
      using assms(1) by (auto simp: grantSecret_def hex_decode_encode Let_def)
    then show ?thesis
      by (simp add: grantSecret_def SetSetting_def GetSetting_def settings.get_put_same hex_decode_encode Let_def)
        (simp add: b)
  next
    case False
    then have "s' = s" using assms(1) by (auto simp: grantSecret_def Let_def split: option.splits if_splits)
    then show ?thesis using False assms(1)
      by (auto simp: grantSecret_def Let_def split: option.splits if_splits)
  qed
qed


definition grant_request :: "string \<Rightarrow> string \<Rightarrow> string \<Rightarrow> request" where
  "grant_request track mac expiry = \<lparr>rq_method = ''GET'', rq_path = ''/v1/stream/'' @ track, rq_authorization = '''',
     rq_grant = mac, rq_exp = expiry, rq_cookie = None, rq_remote = ''10.0.0.1:1'', rq_host = ''h'', rq_https = False\<rparr>"


section \<open>The rate limit\<close>

text \<open>The limited requests that are let through, with the address they come from.\<close>

fun limited_run :: "nat \<Rightarrow> string list \<Rightarrow> hit_table \<Rightarrow> (request \<times> gotime) list \<Rightarrow> (string \<times> gotime) list" where
  "limited_run n routes h [] = []"
| "limited_run n routes h ((r, now) # xs) =
     (case RateLimit n routes h r now of
        (h', Pass _) \<Rightarrow>
          (if rq_method r @ '' '' @ rq_path r \<in> set routes then [(client_ip (rq_remote r), now)] else []) @
          limited_run n routes h' xs
      | (h', Reject _ _) \<Rightarrow> limited_run n routes h' xs)"

definition times_of :: "string \<Rightarrow> (string \<times> gotime) list \<Rightarrow> gotime list" where
  "times_of ip log = map snd (filter (\<lambda>e. fst e = ip) log)"

definition window_ok :: "nat \<Rightarrow> (string \<times> gotime) list \<Rightarrow> bool" where
  "window_ok n log \<longleftrightarrow> (\<forall>ip T. length (filter (\<lambda>t. T - minute < t \<and> t \<le> T) (times_of ip log)) \<le> n)"

definition limiter_inv :: "nat \<Rightarrow> string set \<Rightarrow> hit_table \<Rightarrow> (string \<times> gotime) list \<Rightarrow> gotime \<Rightarrow> bool" where
  "limiter_inv n ips h log l \<longleftrightarrow> unique_key fst h \<and> fst ` set h \<subseteq> ips \<and> window_ok n log \<and>
     (\<forall>ip. \<exists>c \<le> l - minute. hits_of h ip = filter (\<lambda>t. c < t) (times_of ip log))"

lemma times_of_snoc: "times_of ip (log @ [(i, t)]) = times_of ip log @ (if i = ip then [t] else [])"
  by (simp add: times_of_def)

lemma hits_of_upsert:
  "hits_of (upsert fst (ip, kept) (\<lambda>r. (fst r, kept)) h) j = (if j = ip then kept else hits_of h j)"
  using select1_upsert_same [of fst "\<lambda>r. (fst r, kept)" "(ip, kept)" h]
    select1_upsert_other [of fst "\<lambda>r. (fst r, kept)" j "(ip, kept)" h]
  by (auto simp: hits_of_def split: option.splits)

lemma upsert_keys: "(\<And>x. key (f x) = key x) \<Longrightarrow> key ` set (upsert key r f t) = insert (key r) (key ` set t)"
proof -
  assume k: "\<And>x. key (f x) = key x"
  have "key ` set (update_where P f t) = key ` set t" for P
    using map_update_where [of key f P t] k by (metis list.set_map)
  moreover have "insert (key r) (key ` set t) = key ` set t" if "list_ex (\<lambda>x. key x = key r) t"
  proof -
    obtain x where "x \<in> set t" "key x = key r" using \<open>list_ex _ t\<close> by (auto simp: list_ex_iff)
    then have "key r \<in> key ` set t" by (metis imageI)
    then show ?thesis by (rule insert_absorb)
  qed
  ultimately show ?thesis by (simp add: upsert_def)
qed

lemma limiter_step:
  assumes inv: "limiter_inv n ips h log l" and lim: "rq_method r @ '' '' @ rq_path r \<in> set routes"
    and ip: "client_ip (rq_remote r) \<in> ips" and card: "finite ips" "card ips \<le> 10000" and mono: "l \<le> now"
    and step: "RateLimit n routes h r now = (h', out)"
  shows "limiter_inv n ips h' (log @ (if out = Pass () then [(client_ip (rq_remote r), now)] else [])) now"
proof -
  let ?ip = "client_ip (rq_remote r)"
  let ?kept = "filter (\<lambda>t. now - minute < t) (hits_of h ?ip)"
  obtain k where k: "k = (if length ?kept < n then ?kept @ [now] else ?kept)" by blast
  let ?h = "upsert fst (?ip, k) (\<lambda>r. (fst r, k)) h"
  have old: "unique_key fst h" "fst ` set h \<subseteq> ips" using inv by (simp_all add: limiter_inv_def)
  have keys: "unique_key fst ?h" "fst ` set ?h = insert ?ip (fst ` set h)"
    using old(1) unique_key_upsert [of fst h "\<lambda>r. (fst r, k)" "(?ip, k)"]
      upsert_keys [of fst "\<lambda>r. (fst r, k)" "(?ip, k)" h] by simp_all
  then have key: "unique_key fst ?h" "fst ` set ?h \<subseteq> ips" using old(2) ip by simp_all
  have "length ?h = card (fst ` set ?h)"
    using keys(1) distinct_card [of "map fst ?h"] by (simp add: unique_key_def)
  also have "\<dots> \<le> 10000" using card_mono [OF card(1) key(2)] card(2) by linarith
  finally have h': "h' = ?h" "out = (if length ?kept < n then Pass () else Reject 429 ''rate_limited'')"
    using step lim by (simp_all add: RateLimit_def Let_def flip: k)
  have minute: "0 < minute" by simp
  have old_hits: "\<exists>c \<le> l - minute. hits_of h ip = filter (\<lambda>t. c < t) (times_of ip log)" for ip
    using inv by (simp only: limiter_inv_def)
  have kept: "?kept = filter (\<lambda>t. now - minute < t) (times_of ?ip log)"
  proof -
    obtain c where c: "c \<le> l - minute" "hits_of h ?ip = filter (\<lambda>t. c < t) (times_of ?ip log)"
      using old_hits by blast
    have "(\<lambda>t. now - minute < t \<and> c < t) = (\<lambda>t. now - minute < t)" using c(1) mono by auto
    then show ?thesis by (simp add: c(2) conj_commute)
  qed
  let ?log = "log @ (if out = Pass () then [(?ip, now)] else [])"
  have hits: "\<exists>c \<le> now - minute. hits_of h' ip = filter (\<lambda>t. c < t) (times_of ip ?log)" for ip
  proof (cases "ip = ?ip")
    case True
    then show ?thesis using kept minute h' k by (intro exI [of _ "now - minute"]) (auto simp: hits_of_upsert times_of_snoc)
  next
    case False
    obtain c where "c \<le> l - minute" "hits_of h ip = filter (\<lambda>t. c < t) (times_of ip log)"
      using old_hits by blast
    then show ?thesis using False mono h' by (intro exI [of _ c]) (auto simp: hits_of_upsert times_of_snoc)
  qed
  have "length (filter (\<lambda>t. T - minute < t \<and> t \<le> T) (times_of ip ?log)) \<le> n" for ip T
  proof (cases "ip = ?ip \<and> out = Pass () \<and> T - minute < now \<and> now \<le> T")
    case True
    have "filter (\<lambda>t. T - minute < t \<and> t \<le> T) (times_of ?ip log) =
        filter (\<lambda>t. T - minute < t \<and> t \<le> T) (filter (\<lambda>t. now - minute < t) (times_of ?ip log))"
      using True by (simp only: filter_filter) (rule filter_cong, auto)
    then have "length (filter (\<lambda>t. T - minute < t \<and> t \<le> T) (times_of ?ip log)) \<le> length ?kept"
      unfolding kept by (simp only: length_filter_le)
    moreover have "length ?kept < n" using True h'(2) by (auto split: if_splits)
    ultimately show ?thesis using True by (simp add: times_of_snoc)
  next
    case False
    then show ?thesis using inv by (auto simp: limiter_inv_def window_ok_def times_of_snoc)
  qed
  then show ?thesis using key hits h'(1) by (simp add: limiter_inv_def window_ok_def)
qed

lemma limited_run_ok:
  "limiter_inv n ips h log l \<Longrightarrow> finite ips \<Longrightarrow> card ips \<le> 10000 \<Longrightarrow>
   \<forall>(r, t) \<in> set xs. client_ip (rq_remote r) \<in> ips \<Longrightarrow> sorted (l # map snd xs) \<Longrightarrow>
   window_ok n (log @ limited_run n routes h xs)"
proof (induction xs arbitrary: h log l)
  case (Cons x xs)
  obtain r now where x: "x = (r, now)" by fastforce
  obtain h' out where step: "RateLimit n routes h r now = (h', out)" by fastforce
  have s: "l \<le> now" "sorted (now # map snd xs)" using Cons.prems(5) x by auto
  show ?case
  proof (cases "rq_method r @ '' '' @ rq_path r \<in> set routes")
    case True
    have ip: "client_ip (rq_remote r) \<in> ips" using Cons.prems(4) x by auto
    note inv = limiter_step [OF Cons.prems(1) True ip Cons.prems(2,3) s(1) step]
    have "window_ok n ((log @ (if out = Pass () then [(client_ip (rq_remote r), now)] else [])) @ limited_run n routes h' xs)"
      by (rule Cons.IH [OF inv Cons.prems(2,3) _ s(2)]) (use Cons.prems(4) in auto)
    then show ?thesis using step True x by (cases out) auto
  next
    case False
    then have "h' = h" "out = Pass ()" using step by (auto simp: RateLimit_def)
    moreover have "window_ok n (log @ limited_run n routes h xs)"
      using Cons.prems s by (intro Cons.IH [OF Cons.prems(1)]) auto
    ultimately show ?thesis using step False x by simp
  qed
qed (simp add: limiter_inv_def)


definition pair_request :: request where
  "pair_request = \<lparr>rq_method = ''POST'', rq_path = ''/v1/pair'', rq_authorization = '''', rq_grant = '''',
     rq_exp = '''', rq_cookie = None, rq_remote = ''10.0.0.1:5'', rq_host = ''h'', rq_https = False\<rparr>"


section \<open>Revoked credentials\<close>


definition revoked_demo :: idstore where
  "revoked_demo = fst (DeleteDevice (run_ops (id_step id (\<lambda>_ p. p)) empty_idstore token_demo) ''other'')"

definition status_request :: request where
  "status_request = \<lparr>rq_method = ''GET'', rq_path = ''/v1/status'', rq_authorization = ''Bearer '' @ newRawToken [7],
     rq_grant = '''', rq_exp = '''', rq_cookie = None, rq_remote = ''10.0.0.1:5'', rq_host = ''h'', rq_https = False\<rparr>"


end
