(* ===== verification/Paging.thy ===== *)
theory Paging
  imports StoreRows "HOL-Library.Multiset"
begin

text \<open>
  Keyset pagination (\<open>internal/store/library.go\<close>, \<open>keysetClause\<close> and the list queries; the same
  form in \<open>library_changes_snapshot.go\<close> and \<open>profile_data.go\<close>): a page is the rows after the cursor,
  in order, one more than the limit; if the extra row is there it is cut off and the last row kept
  becomes the next cursor. A cursor is modelled decoded: the pair of the sort key and the row id
  that \<open>encodeCursor\<close> writes as base64 JSON, and no cursor where the id is empty.
\<close>

section \<open>Ordering rows\<close>

text \<open>\<open>ORDER BY\<close>: a stable sort by a strict order.\<close>

fun insert_by :: "('a \<Rightarrow> 'a \<Rightarrow> bool) \<Rightarrow> 'a \<Rightarrow> 'a list \<Rightarrow> 'a list" where
  "insert_by lt x [] = [x]"
| "insert_by lt x (y # ys) = (if lt y x then y # insert_by lt x ys else x # y # ys)"

fun order_by :: "('a \<Rightarrow> 'a \<Rightarrow> bool) \<Rightarrow> 'a list \<Rightarrow> 'a list" where
  "order_by lt [] = []"
| "order_by lt (x # xs) = insert_by lt x (order_by lt xs)"

lemma set_insert_by [simp]: "set (insert_by lt x ys) = insert x (set ys)"
  by (induction ys) auto

lemma set_order_by [simp]: "set (order_by lt xs) = set xs"
  by (induction xs) auto

lemma length_insert_by [simp]: "length (insert_by lt x ys) = Suc (length ys)"
  by (induction ys) auto

lemma length_order_by [simp]: "length (order_by lt xs) = length xs"
  by (induction xs) auto

lemma order_by_Nil_iff [simp]: "order_by lt xs = [] \<longleftrightarrow> xs = []"
  by (metis length_0_conv length_order_by)

lemma mset_insert_by [simp]: "mset (insert_by lt x ys) = add_mset x (mset ys)"
  by (induction ys) auto

lemma mset_order_by [simp]: "mset (order_by lt xs) = mset xs"
  by (induction xs) auto

section \<open>Pages\<close>

definition keyset_page ::
  "('c \<Rightarrow> 'c \<Rightarrow> bool) \<Rightarrow> ('r \<Rightarrow> 'c) \<Rightarrow> 'r list \<Rightarrow> 'c option \<Rightarrow> nat \<Rightarrow> 'r list \<times> 'c option" where
  "keyset_page before cur rows c limit =
     (let sel = (case c of None \<Rightarrow> rows | Some c \<Rightarrow> filter (\<lambda>r. before c (cur r)) rows);
          out = take (limit + 1) (order_by (\<lambda>a b. before (cur a) (cur b)) sel)
      in if limit < length out then (take limit out, Some (cur (out ! (limit - 1)))) else (out, None))"

text \<open>What a client does with a paged endpoint: follow the cursor until there is none.\<close>

fun walk_pages :: "('c option \<Rightarrow> 'r list \<times> 'c option) \<Rightarrow> nat \<Rightarrow> 'c option \<Rightarrow> 'r list" where
  "walk_pages page 0 c = []"
| "walk_pages page (Suc fuel) c =
     (case page c of (out, None) \<Rightarrow> out | (out, Some c') \<Rightarrow> out @ walk_pages page fuel (Some c'))"

lemma set_keyset_page: "set (fst (keyset_page before cur rows c limit)) \<subseteq> set rows"
  by (auto simp: keyset_page_def Let_def dest!: in_set_takeD split: option.splits if_splits)

lemma set_walk_pages:
  assumes "\<And>c. set (fst (page c)) \<subseteq> X"
  shows "set (walk_pages page fuel c) \<subseteq> X"
proof (induction fuel arbitrary: c)
  case (Suc fuel)
  obtain out c' where p: "page c = (out, c')" by fastforce
  then have "set out \<subseteq> X" using assms [of c] by simp
  then show ?case using Suc p by (auto split: option.splits)
qed simp

section \<open>Interface: the order of a paged list\<close>

text \<open>
  What a paged list promises its client: its order on cursors is a strict order, total on the rows,
  which the row id tells apart.
\<close>

locale keyset_order =
  fixes before :: "'c \<Rightarrow> 'c \<Rightarrow> bool" and rowid :: "'c \<Rightarrow> 'i"
  assumes irrefl: "\<not> before c c"
    and trans: "before a b \<Longrightarrow> before b c \<Longrightarrow> before a c"
    and total: "rowid a \<noteq> rowid b \<Longrightarrow> before a b \<or> before b a"
begin

abbreviation row_before :: "('r \<Rightarrow> 'c) \<Rightarrow> 'r \<Rightarrow> 'r \<Rightarrow> bool" where
  "row_before cur a b \<equiv> before (cur a) (cur b)"

lemma insert_sorted:
  assumes "sorted_wrt (row_before cur) ys" and "\<forall>y \<in> set ys. rowid (cur y) \<noteq> rowid (cur x)"
  shows "sorted_wrt (row_before cur) (insert_by (row_before cur) x ys)"
  using assms
proof (induction ys)
  case (Cons y ys)
  then show ?case using total [of "cur y" "cur x"] by (auto intro: trans)
qed simp

lemma order_sorted:
  "distinct (map (rowid \<circ> cur) rows) \<Longrightarrow> sorted_wrt (row_before cur) (order_by (row_before cur) rows)"
proof (induction rows)
  case (Cons r rows)
  then show ?case by (auto simp: image_iff intro!: insert_sorted) metis
qed simp

lemma sorted_unique:
  "sorted_wrt (row_before cur) xs \<Longrightarrow> sorted_wrt (row_before cur) ys \<Longrightarrow> set xs = set ys \<Longrightarrow> xs = ys"
proof (induction xs arbitrary: ys)
  case (Cons x xs)
  obtain y zs where ys: "ys = y # zs" using Cons.prems(3) by (cases ys) auto
  have "x = y"
  proof (rule ccontr)
    assume "x \<noteq> y"
    then have "row_before cur x y" "row_before cur y x" using Cons.prems ys by auto
    then show False using trans irrefl by blast
  qed
  moreover have "x \<notin> set xs" "y \<notin> set zs" using Cons.prems(1,2) ys irrefl by auto
  ultimately have "set xs = set zs" using Cons.prems(3) ys by auto
  with Cons \<open>x = y\<close> ys show ?case by simp
qed simp

lemma order_filter:
  assumes "distinct (map (rowid \<circ> cur) rows)"
  shows "order_by (row_before cur) (filter P rows) = filter P (order_by (row_before cur) rows)"
  using order_sorted [OF assms] order_sorted [OF distinct_map_filter [OF assms]]
  by (intro sorted_unique [of cur]) (auto simp: sorted_wrt_filter)

lemma after_prefix:
  assumes "sorted_wrt (row_before cur) (xs @ r # ys)"
  shows "filter (\<lambda>z. before (cur r) (cur z)) (xs @ r # ys) = ys"
proof -
  have "\<not> before (cur r) (cur x)" if "x \<in> set xs" for x
  proof
    assume "before (cur r) (cur x)"
    moreover have "before (cur x) (cur r)" using assms that by (simp add: sorted_wrt_append)
    ultimately show False using trans irrefl by blast
  qed
  then have "filter (\<lambda>z. before (cur r) (cur z)) xs = []" by (simp add: filter_empty_conv)
  then show ?thesis using assms irrefl by (auto simp: sorted_wrt_append)
qed

lemma page_after:
  assumes d: "distinct (map (rowid \<circ> cur) rows)" and s: "order_by (row_before cur) rows = xs @ ys"
    and c: "c = (if xs = [] then None else Some (cur (last xs)))" and n: "0 < n"
  shows "keyset_page before cur rows c n =
    (take n ys, if n < length ys then Some (cur (ys ! (n - 1))) else None)"
proof -
  have "order_by (row_before cur) (case c of None \<Rightarrow> rows | Some c \<Rightarrow> filter (\<lambda>r. before c (cur r)) rows) = ys"
  proof (cases xs rule: rev_cases)
    case (snoc zs z)
    have "filter (\<lambda>r. before (cur z) (cur r)) (zs @ z # ys) = ys"
      using after_prefix [of cur zs z ys] order_sorted [OF d] s snoc by simp
    then show ?thesis using c s snoc order_filter [OF d] by simp
  qed (use c s in simp)
  then show ?thesis using n unfolding keyset_page_def Let_def by (simp del: length_order_by add: min_def)
qed

lemma walk_from:
  assumes d: "distinct (map (rowid \<circ> cur) rows)" and n: "0 < n"
  shows "order_by (row_before cur) rows = xs @ ys \<Longrightarrow> length ys < fuel \<Longrightarrow>
    walk_pages (\<lambda>c. keyset_page before cur rows c n) fuel (if xs = [] then None else Some (cur (last xs))) = ys"
proof (induction fuel arbitrary: xs ys)
  case (Suc fuel)
  note page = page_after [OF d Suc.prems(1) refl n]
  show ?case
  proof (cases "n < length ys")
    case True
    have split: "order_by (row_before cur) rows = (xs @ take n ys) @ drop n ys" using Suc.prems(1) by simp
    have t: "take n ys \<noteq> []" "last (take n ys) = ys ! (n - 1)"
    proof -
      show "take n ys \<noteq> []" using True n by auto
      from last_conv_nth [OF this] show "last (take n ys) = ys ! (n - 1)" using True n by simp
    qed
    have "walk_pages (\<lambda>c. keyset_page before cur rows c n) fuel (Some (cur (ys ! (n - 1)))) = drop n ys"
      using Suc.IH [OF split] Suc.prems(2) True n t by simp
    then show ?thesis using page True by simp
  next
    case False
    then show ?thesis using page by simp
  qed
qed simp

text \<open>Following the cursors returns every row exactly once, in order.\<close>

lemma walk_all:
  assumes "distinct (map (rowid \<circ> cur) rows)" and "0 < n" and "length rows < fuel"
  shows "walk_pages (\<lambda>c. keyset_page before cur rows c n) fuel None = order_by (row_before cur) rows"
  using walk_from [OF assms(1,2), of "[]"] assms(3) by simp

lemma walk_mset:
  assumes "distinct (map (rowid \<circ> cur) rows)" and "0 < n" and "length rows < fuel"
  shows "mset (walk_pages (\<lambda>c. keyset_page before cur rows c n) fuel None) = mset rows"
  using walk_all [OF assms] by simp

end

section \<open>The orders of the store\<close>

text \<open>
  \<open>keysetClause\<close>: the key ascending or descending, ties by ascending id. A text key compares byte
  by byte; a column declared \<open>COLLATE NOCASE\<close> folds the ASCII letters first.
\<close>

type_synonym cursor = "string \<times> string"

definition keyset_asc :: "cursor \<Rightarrow> cursor \<Rightarrow> bool" where
  "keyset_asc c r \<longleftrightarrow> fst r > fst c \<or> fst r = fst c \<and> snd r > snd c"

definition keyset_desc :: "cursor \<Rightarrow> cursor \<Rightarrow> bool" where
  "keyset_desc c r \<longleftrightarrow> fst r < fst c \<or> fst r = fst c \<and> snd r > snd c"

definition keyset_nocase :: "cursor \<Rightarrow> cursor \<Rightarrow> bool" where
  "keyset_nocase c r \<longleftrightarrow> to_lower (fst r) > to_lower (fst c) \<or>
     to_lower (fst r) = to_lower (fst c) \<and> snd r > snd c"

interpretation asc: keyset_order keyset_asc snd
  by unfold_locales (auto simp: keyset_asc_def)

interpretation desc: keyset_order keyset_desc snd
  by unfold_locales (auto simp: keyset_desc_def)

interpretation nocase: keyset_order keyset_nocase snd
  by unfold_locales (auto simp: keyset_nocase_def)

text \<open>The page limit of a request: 200, unless the client asks for 1 to 1000.\<close>

definition page_limit :: "int option \<Rightarrow> nat" where
  "page_limit limit = (case limit of Some l \<Rightarrow> if 0 < l \<and> l \<le> 1000 then nat l else 200 | None \<Rightarrow> 200)"

lemma page_limit_bounds: "0 < page_limit l" "page_limit l \<le> 1000"
  by (auto simp: page_limit_def split: option.splits)

end
