(* ===== verification/Source.thy ===== *)
theory Source
  imports GoText
begin

text \<open>
  What a music source reports (\<open>internal/source/source.go\<close>): the credits, the cheap file fingerprint
  and the parsed metadata of a track. Go's \<open>int\<close> and \<open>int64\<close> fields are \<open>int\<close>.
\<close>

record ArtistCredit =
  ac_Name :: string
  ac_JoinPhrase :: string
  ac_MBID :: string

record ArtistReference =
  af_Name :: string
  af_MBID :: string

record TrackCandidate =
  tc_NativeID :: string
  tc_SizeBytes :: int
  tc_MtimeNS :: int

record TrackMeta =
  tm_NativeID :: string
  tm_Title :: string
  tm_PrimaryArtist :: ArtistReference
  tm_TrackCredits :: "ArtistCredit list"
  tm_AlbumCredits :: "ArtistCredit list"
  tm_Album :: string
  tm_RecordingMBID :: string
  tm_ReleaseMBID :: string
  tm_ReleaseGroupMBID :: string
  tm_Genre :: string
  tm_Year :: int
  tm_Index :: int
  tm_Disc :: int
  tm_DurationMs :: int
  tm_Container :: string
  tm_Codec :: string
  tm_BitrateKbps :: int
  tm_SizeBytes :: int
  tm_Version :: int
  tm_ArtHash :: string

text \<open>A concrete track for the examples.\<close>

definition sample_meta :: "string \<Rightarrow> string \<Rightarrow> string \<Rightarrow> TrackMeta" where
  "sample_meta native title album =
     \<lparr>tm_NativeID = native, tm_Title = title, tm_PrimaryArtist = \<lparr>af_Name = ''A'', af_MBID = ''''\<rparr>,
      tm_TrackCredits = [\<lparr>ac_Name = ''A'', ac_JoinPhrase = '''', ac_MBID = ''''\<rparr>],
      tm_AlbumCredits = [\<lparr>ac_Name = ''A'', ac_JoinPhrase = '''', ac_MBID = ''''\<rparr>],
      tm_Album = album, tm_RecordingMBID = '''', tm_ReleaseMBID = '''', tm_ReleaseGroupMBID = '''',
      tm_Genre = '''', tm_Year = 0, tm_Index = 1, tm_Disc = 1, tm_DurationMs = 1000,
      tm_Container = ''flac'', tm_Codec = ''flac'', tm_BitrateKbps = 900, tm_SizeBytes = 10,
      tm_Version = 1, tm_ArtHash = ''''\<rparr>"

end
