(* ===== verification/Catalog.thy ===== *)
theory Catalog
  imports Paging Source Complex_Main "HOL-Library.Option_ord"
begin

text \<open>
  The catalogue the scans build (\<open>internal/store/library.go\<close>): artists, albums, tracks and their
  credits, and the operations that write them. \<open>UpsertTrack\<close> is not a transaction: a statement
  that violates a constraint fails, and the ones before it stay. SQLite compares \<open>title\<close>, \<open>genre\<close>
  and the artists' \<open>name\<close> with \<open>COLLATE NOCASE\<close> (\<open>same_text\<close>). \<open>strings.EqualFold\<close> (\<open>eqf\<close>) is a
  parameter; new ids are drawn from the random bytes \<open>ct_rnd\<close>. The settings \<open>library_scan_seq\<close> and
  \<open>library_updated_at\<close>, which only this code writes, are the numbers they hold.
\<close>

section \<open>Tables\<close>

record art_retry =
  rt_tried :: int
  rt_tried_at :: seconds
  rt_next_attempt_at :: seconds
  rt_miss_count :: int

record artist_row =
  ar_artist_id :: string
  ar_name :: string
  ar_mbid :: "string option"
  ar_art_id :: "string option"
  ar_missing :: bool
  ar_created_at :: seconds
  ar_change_seq :: int
  ar_retry :: art_retry

record album_row =
  al_album_id :: string
  al_artist_id :: string
  al_title :: string
  al_release_id :: "string option"
  al_group_id :: "string option"
  al_release_date :: "string option"
  al_year :: "int option"
  al_art_id :: "string option"
  al_missing :: bool
  al_created_at :: seconds
  al_change_seq :: int
  al_retry :: art_retry

record track_row =
  tk_track_id :: string
  tk_album_id :: string
  tk_artist_id :: string
  tk_artist_name :: string
  tk_recording_id :: "string option"
  tk_title :: string
  tk_idx :: "int option"
  tk_disc :: "int option"
  tk_genre :: string
  tk_duration_ms :: int
  tk_container :: string
  tk_codec :: string
  tk_bitrate :: "int option"
  tk_size :: int
  tk_source_kind :: string
  tk_native_id :: string
  tk_version :: int
  tk_art_id :: "string option"
  tk_seen_seq :: int
  tk_missing :: bool
  tk_created_at :: seconds
  tk_change_seq :: int

record credit_row =
  cr_owner :: string
  cr_position :: nat
  cr_artist_id :: string
  cr_name :: string
  cr_join :: string

record art_row =
  at_art_id :: string
  at_hash :: string
  at_mime :: string
  at_path :: string

record match_row =
  mr_album_id :: string
  mr_state :: string
  mr_release_id :: "string option"
  mr_group_id :: "string option"
  mr_confidence :: rat
  mr_attempt_count :: int
  mr_next_attempt_at :: seconds
  mr_last_error :: string
  mr_updated_at :: seconds

record catalog =
  ct_artists :: "artist_row table"
  ct_aliases :: "(string \<times> string) table"
  ct_albums :: "album_row table"
  ct_tracks :: "track_row table"
  ct_album_credits :: "credit_row table"
  ct_track_credits :: "credit_row table"
  ct_art :: "art_row table"
  ct_matches :: "match_row table"
  ct_genres :: "(string \<times> nat \<times> string) table"
  ct_scan_seq :: "int option"
  ct_updated_at :: "seconds option"
  ct_rnd :: "nat \<Rightarrow> bytes"
  ct_drawn :: nat

definition no_retry :: art_retry where
  "no_retry = \<lparr>rt_tried = 0, rt_tried_at = 0, rt_next_attempt_at = 0, rt_miss_count = 0\<rparr>"

definition same_text :: "string \<Rightarrow> string \<Rightarrow> bool" where
  "same_text a b \<longleftrightarrow> to_lower a = to_lower b"

datatype cat_err = ConstraintFailed | NoCredits | NoSuchRow | NotConverged

text \<open>\<open>nullStr\<close>, \<open>nullInt\<close>, and SQL's \<open>COALESCE\<close>.\<close>

definition nullStr :: "string \<Rightarrow> string option" where
  "nullStr v = (if v = '''' then None else Some v)"

definition nullInt :: "int \<Rightarrow> int option" where
  "nullInt v = (if v = 0 then None else Some v)"

definition coalesce :: "'a option \<Rightarrow> 'a option \<Rightarrow> 'a option" where
  "coalesce a b = (case a of None \<Rightarrow> b | Some _ \<Rightarrow> a)"

section \<open>Statements\<close>

text \<open>\<open>PRIMARY KEY\<close> and \<open>UNIQUE\<close> (on a column that may be null) and the foreign keys of the schema.\<close>

definition unique_some :: "('r \<Rightarrow> 'k option) \<Rightarrow> 'r table \<Rightarrow> bool" where
  "unique_some key t = distinct (filter (\<lambda>k. k \<noteq> None) (map key t))"

definition untagged_identity :: "album_row table \<Rightarrow> (string \<times> string) list" where
  "untagged_identity t = map (\<lambda>r. (al_artist_id r, to_lower (al_title r))) (filter (\<lambda>r. al_release_id r = None \<and> \<not> al_missing r) t)"

definition constraints_ok :: "catalog \<Rightarrow> bool" where
  "constraints_ok s \<longleftrightarrow>
     unique_key ar_artist_id (ct_artists s) \<and> unique_some ar_mbid (ct_artists s) \<and>
     unique_key al_album_id (ct_albums s) \<and> unique_some al_release_id (ct_albums s) \<and>
     distinct (untagged_identity (ct_albums s)) \<and>
     unique_key tk_track_id (ct_tracks s) \<and> unique_key (\<lambda>t. (tk_source_kind t, tk_native_id t)) (ct_tracks s) \<and>
     unique_key (\<lambda>c. (cr_owner c, cr_position c)) (ct_album_credits s) \<and>
     unique_key (\<lambda>c. (cr_owner c, cr_position c)) (ct_track_credits s) \<and>
     unique_key at_art_id (ct_art s) \<and> unique_key at_hash (ct_art s) \<and>
     list_all (\<lambda>a. al_artist_id a \<in> ar_artist_id ` set (ct_artists s)) (ct_albums s) \<and>
     list_all (\<lambda>t. tk_album_id t \<in> al_album_id ` set (ct_albums s) \<and>
       tk_artist_id t \<in> ar_artist_id ` set (ct_artists s)) (ct_tracks s) \<and>
     list_all (\<lambda>c. cr_owner c \<in> al_album_id ` set (ct_albums s) \<and>
       cr_artist_id c \<in> ar_artist_id ` set (ct_artists s)) (ct_album_credits s) \<and>
     list_all (\<lambda>c. cr_owner c \<in> tk_track_id ` set (ct_tracks s) \<and>
       cr_artist_id c \<in> ar_artist_id ` set (ct_artists s)) (ct_track_credits s)"

text \<open>A statement that violates a constraint fails and changes nothing.\<close>

definition exec :: "(catalog \<Rightarrow> catalog) \<Rightarrow> catalog \<Rightarrow> catalog \<times> (cat_err + unit)" where
  "exec f s = (if constraints_ok (f s) then (f s, Inr ()) else (s, Inl ConstraintFailed))"

text \<open>A statement whose error the code discards.\<close>

definition exec_ignoring :: "(catalog \<Rightarrow> catalog) \<Rightarrow> catalog \<Rightarrow> catalog \<times> (cat_err + unit)" where
  "exec_ignoring f s = (fst (exec f s), Inr ())"

text \<open>Statements in sequence: the first error ends the operation; what was written stays.\<close>

definition bindE :: "('s \<Rightarrow> 's \<times> ('e + 'a)) \<Rightarrow> ('a \<Rightarrow> 's \<Rightarrow> 's \<times> ('e + 'b)) \<Rightarrow> 's \<Rightarrow> 's \<times> ('e + 'b)" where
  "bindE f g s = (case f s of (s', Inl e) \<Rightarrow> (s', Inl e) | (s', Inr x) \<Rightarrow> g x s')"

definition returnE :: "'a \<Rightarrow> 's \<Rightarrow> 's \<times> ('e + 'a)" where "returnE x s = (s, Inr x)"

definition failE :: "'e \<Rightarrow> 's \<Rightarrow> 's \<times> ('e + 'a)" where "failE e s = (s, Inl e)"

text \<open>\<open>NewID\<close>.\<close>

definition draw_id :: "string \<Rightarrow> catalog \<Rightarrow> catalog \<times> (cat_err + string)" where
  "draw_id pre s = (s\<lparr>ct_drawn := ct_drawn s + 1\<rparr>, Inr (new_id pre (ct_rnd s (ct_drawn s))))"

definition NextScanSeq :: "catalog \<Rightarrow> catalog \<times> int" where
  "NextScanSeq s =
     (let seq = (case ct_scan_seq s of None \<Rightarrow> 1 | Some v \<Rightarrow> v + 1) in (s\<lparr>ct_scan_seq := Some seq\<rparr>, seq))"

section \<open>Artists and credits\<close>

text \<open>\<open>SELECT .. ORDER BY key LIMIT 1\<close>.\<close>

definition first_by :: "('r \<Rightarrow> 'k::linorder) \<Rightarrow> ('r \<Rightarrow> bool) \<Rightarrow> 'r table \<Rightarrow> 'r option" where
  "first_by key P t = (case sort_key key (filter P t) of [] \<Rightarrow> None | r # _ \<Rightarrow> Some r)"

definition artist_by_mbid :: "catalog \<Rightarrow> string \<Rightarrow> artist_row option" where
  "artist_by_mbid s mbid = select1 (\<lambda>a. ar_mbid a = Some mbid) (ct_artists s)"

definition promote_artist :: "string \<Rightarrow> string \<Rightarrow> int \<Rightarrow> catalog \<Rightarrow> catalog" where
  "promote_artist aid mbid seq s = s\<lparr>ct_artists := update_where (\<lambda>a. ar_artist_id a = aid \<and> ar_mbid a = None)
     (\<lambda>a. a\<lparr>ar_mbid := Some mbid, ar_change_seq := seq\<rparr>) (ct_artists s)\<rparr>"

text \<open>The artist a name and MusicBrainz id stand for, with its canonical name, if there is one. A
  linked artist without a MusicBrainz id is promoted to the id.\<close>

definition find_artist ::
  "string \<Rightarrow> string \<Rightarrow> string \<Rightarrow> int \<Rightarrow> catalog \<Rightarrow> catalog \<times> (cat_err + artist_row option)" where
  "find_artist name mbid linkedID seq s =
     (if mbid = ''''
      then (s, Inr (first_by ar_created_at (\<lambda>a. ar_mbid a = None \<and> same_text (ar_name a) name) (ct_artists s)))
      else case artist_by_mbid s mbid of
             Some a \<Rightarrow> (s, Inr (Some a))
           | None \<Rightarrow>
               if linkedID = '''' then (s, Inr None)
               else (case exec (promote_artist linkedID mbid seq) s of
                       (s', Inr _) \<Rightarrow>
                         (s', Inr (select1 (\<lambda>a. ar_artist_id a = linkedID \<and> ar_mbid a = Some mbid) (ct_artists s')))
                     | (s', Inl e) \<Rightarrow>
                         (case artist_by_mbid s' mbid of None \<Rightarrow> (s', Inl e) | Some a \<Rightarrow> (s', Inr (Some a)))))"

definition insert_artist :: "string \<Rightarrow> string \<Rightarrow> string \<Rightarrow> seconds \<Rightarrow> int \<Rightarrow> catalog \<Rightarrow> catalog" where
  "insert_artist aid name mbid now seq s = s\<lparr>ct_artists := ct_artists s @
     [\<lparr>ar_artist_id = aid, ar_name = name, ar_mbid = nullStr mbid, ar_art_id = None, ar_missing = False,
       ar_created_at = now, ar_change_seq = seq, ar_retry = no_retry\<rparr>]\<rparr>"

text \<open>\<open>INSERT OR IGNORE\<close>: the alias is stored once, whatever its case.\<close>

definition insert_alias :: "string \<Rightarrow> string \<Rightarrow> catalog \<Rightarrow> catalog" where
  "insert_alias aid name s =
     (if list_ex (\<lambda>r. fst r = aid \<and> same_text (snd r) name) (ct_aliases s) then s
      else s\<lparr>ct_aliases := ct_aliases s @ [(aid, name)]\<rparr>)"

definition upsertArtist ::
  "(string \<Rightarrow> string \<Rightarrow> bool) \<Rightarrow> string \<Rightarrow> string \<Rightarrow> string \<Rightarrow> seconds \<Rightarrow> int \<Rightarrow> catalog \<Rightarrow> catalog \<times> (cat_err + string)" where
  "upsertArtist eqf name mbid linkedID now seq =
     bindE (find_artist name mbid linkedID seq) (\<lambda>found.
     bindE (case found of
              Some a \<Rightarrow> returnE (ar_artist_id a, ar_name a)
            | None \<Rightarrow> bindE (draw_id ''art'') (\<lambda>aid.
                      bindE (exec (insert_artist aid name mbid now seq)) (\<lambda>_. returnE (aid, name)))) (\<lambda>(aid, canonical).
     if name \<noteq> '''' \<and> \<not> eqf name canonical
     then bindE (exec (insert_alias aid name)) (\<lambda>_. returnE aid)
     else returnE aid))"

text \<open>The two credit tables; \<open>CAlbum\<close> and \<open>CTrack\<close> say which one an operation works on.\<close>

datatype credit_table = CAlbum | CTrack

definition credits_of :: "credit_table \<Rightarrow> catalog \<Rightarrow> credit_row table" where
  "credits_of ct s = (case ct of CAlbum \<Rightarrow> ct_album_credits s | CTrack \<Rightarrow> ct_track_credits s)"

definition set_credits :: "credit_table \<Rightarrow> credit_row table \<Rightarrow> catalog \<Rightarrow> catalog" where
  "set_credits ct t s = (case ct of CAlbum \<Rightarrow> s\<lparr>ct_album_credits := t\<rparr> | CTrack \<Rightarrow> s\<lparr>ct_track_credits := t\<rparr>)"

text \<open>The join with \<open>artists\<close> drops a credit whose artist does not exist.\<close>

definition readCredits :: "credit_table \<Rightarrow> string \<Rightarrow> catalog \<Rightarrow> ArtistCreditRow list" where
  "readCredits ct owner s = List.map_filter (\<lambda>c.
     case select1 (\<lambda>a. ar_artist_id a = cr_artist_id c) (ct_artists s) of
       None \<Rightarrow> None
     | Some a \<Rightarrow> Some \<lparr>acr_ArtistID = cr_artist_id c, acr_Name = cr_name c, acr_JoinPhrase = cr_join c,
         acr_MusicBrainzID = (case ar_mbid a of None \<Rightarrow> '''' | Some m \<Rightarrow> m)\<rparr>)
     (sort_key cr_position (filter (\<lambda>c. cr_owner c = owner) (credits_of ct s)))"

text \<open>The artists of the credits, one after the other; \<open>existing\<close> is what the owner was credited to.\<close>

fun credit_artists ::
  "(string \<Rightarrow> string \<Rightarrow> bool) \<Rightarrow> ArtistCredit list \<Rightarrow> ArtistCreditRow list \<Rightarrow> seconds \<Rightarrow> int \<Rightarrow>
   catalog \<Rightarrow> catalog \<times> (cat_err + string list)" where
  "credit_artists eqf [] existing now seq = returnE []"
| "credit_artists eqf (c # cs) existing now seq =
     bindE (upsertArtist eqf (ac_Name c) (ac_MBID c) (case existing of [] \<Rightarrow> '''' | e # _ \<Rightarrow> acr_ArtistID e) now seq) (\<lambda>aid.
     bindE (credit_artists eqf cs (drop 1 existing) now seq) (\<lambda>ids. returnE (aid # ids)))"

fun insert_credits ::
  "credit_table \<Rightarrow> string \<Rightarrow> nat \<Rightarrow> (string \<times> ArtistCredit) list \<Rightarrow> catalog \<Rightarrow> catalog \<times> (cat_err + unit)" where
  "insert_credits ct owner i [] = returnE ()"
| "insert_credits ct owner i ((aid, c) # cs) =
     bindE (exec (\<lambda>s. set_credits ct (credits_of ct s @
       [\<lparr>cr_owner = owner, cr_position = i, cr_artist_id = aid, cr_name = ac_Name c, cr_join = ac_JoinPhrase c\<rparr>]) s))
     (\<lambda>_. insert_credits ct owner (i + 1) cs)"

definition same_credits :: "ArtistCreditRow list \<Rightarrow> string list \<Rightarrow> ArtistCredit list \<Rightarrow> bool" where
  "same_credits existing ids credits \<longleftrightarrow> length existing = length credits \<and>
     list_all (\<lambda>(e, aid, c). acr_ArtistID e = aid \<and> acr_Name e = ac_Name c \<and> acr_JoinPhrase e = ac_JoinPhrase c)
       (zip existing (zip ids credits))"

text \<open>Whether the credits were rewritten.\<close>

definition replaceCredits ::
  "(string \<Rightarrow> string \<Rightarrow> bool) \<Rightarrow> credit_table \<Rightarrow> string \<Rightarrow> ArtistCredit list \<Rightarrow> seconds \<Rightarrow> int \<Rightarrow>
   catalog \<Rightarrow> catalog \<times> (cat_err + bool)" where
  "replaceCredits eqf ct owner credits now seq s =
     (if credits = [] then (s, Inl NoCredits)
      else
        (let existing = readCredits ct owner s in
         bindE (credit_artists eqf credits existing now seq) (\<lambda>ids.
         if same_credits existing ids credits then returnE False
         else bindE (exec (\<lambda>s. set_credits ct (delete_where (\<lambda>c. cr_owner c = owner) (credits_of ct s)) s)) (\<lambda>_.
              bindE (insert_credits ct owner 0 (zip ids credits)) (\<lambda>_. returnE True))) s))"

section \<open>Indexing a track\<close>

definition creditsHaveMBID :: "ArtistCredit list \<Rightarrow> bool" where
  "creditsHaveMBID credits = list_ex (\<lambda>c. ac_MBID c \<noteq> '''') credits"

definition creditDisplay :: "ArtistCredit list \<Rightarrow> string" where
  "creditDisplay credits = List.concat (map (\<lambda>c. ac_Name c @ ac_JoinPhrase c) credits)"

definition track_by_native :: "catalog \<Rightarrow> string \<Rightarrow> string \<Rightarrow> track_row option" where
  "track_by_native s kind native = select1 (\<lambda>t. tk_source_kind t = kind \<and> tk_native_id t = native) (ct_tracks s)"

text \<open>An untagged file keeps the album and credits a resolver matched for it.\<close>

definition preserve_resolved :: "catalog \<Rightarrow> TrackMeta \<Rightarrow> string \<Rightarrow> bool" where
  "preserve_resolved s m linkedAlbum \<longleftrightarrow>
     linkedAlbum \<noteq> '''' \<and> tm_ReleaseMBID m = '''' \<and> tm_ReleaseGroupMBID m = '''' \<and> tm_RecordingMBID m = '''' \<and>
     \<not> creditsHaveMBID (tm_AlbumCredits m) \<and> \<not> creditsHaveMBID (tm_TrackCredits m) \<and>
     list_ex (\<lambda>a. al_album_id a = linkedAlbum \<and> list_ex (\<lambda>r. ar_artist_id r = al_artist_id a \<and>
       (ar_mbid r \<noteq> None \<or> list_ex (\<lambda>x. mr_album_id x = al_album_id a \<and> mr_state x = ''matched'') (ct_matches s)))
       (ct_artists s)) (ct_albums s)"

text \<open>The artist an album is grouped under: its first credit with a name or an id, else the primary
  artist, else the first track credit.\<close>

definition grouping_artist :: "TrackMeta \<Rightarrow> ArtistReference" where
  "grouping_artist m =
     (let g = (case select1 (\<lambda>c. ac_Name c \<noteq> '''' \<or> ac_MBID c \<noteq> '''') (tm_AlbumCredits m) of
                 Some c \<Rightarrow> \<lparr>af_Name = ac_Name c, af_MBID = ac_MBID c\<rparr>
               | None \<Rightarrow> tm_PrimaryArtist m)
      in if af_Name g = '''' \<and> af_MBID g = '''' \<and> tm_TrackCredits m \<noteq> []
         then \<lparr>af_Name = ac_Name (hd (tm_TrackCredits m)), af_MBID = ac_MBID (hd (tm_TrackCredits m))\<rparr>
         else g)"

definition album_by_release :: "catalog \<Rightarrow> string \<Rightarrow> album_row option" where
  "album_by_release s release = select1 (\<lambda>a. al_release_id a = Some release) (ct_albums s)"

definition untagged_album :: "catalog \<Rightarrow> string \<Rightarrow> string \<Rightarrow> string \<Rightarrow> album_row option" where
  "untagged_album s artist title notID = select1 (\<lambda>a. al_artist_id a = artist \<and> same_text (al_title a) title \<and>
     al_release_id a = None \<and> al_album_id a \<noteq> notID) (ct_albums s)"

definition update_album :: "string \<Rightarrow> (album_row \<Rightarrow> album_row) \<Rightarrow> catalog \<Rightarrow> catalog" where
  "update_album albumID f s = s\<lparr>ct_albums := update_where (\<lambda>a. al_album_id a = albumID) f (ct_albums s)\<rparr>"

definition promote_album :: "TrackMeta \<Rightarrow> int \<Rightarrow> album_row \<Rightarrow> album_row" where
  "promote_album m seq a = a\<lparr>al_release_id := Some (tm_ReleaseMBID m),
     al_group_id := coalesce (nullStr (tm_ReleaseGroupMBID m)) (al_group_id a), al_change_seq := seq\<rparr>"

text \<open>The album the file belongs to, if it is known already.\<close>

definition find_album ::
  "TrackMeta \<Rightarrow> string \<Rightarrow> string \<Rightarrow> bool \<Rightarrow> int \<Rightarrow> catalog \<Rightarrow> catalog \<times> (cat_err + string option)" where
  "find_album m artist linked preserve seq s =
     (if linked \<noteq> '''' \<and> tm_ReleaseMBID m = ''''
      then (s, Inr (Some (if preserve then linked
              else case untagged_album s artist (tm_Album m) linked of None \<Rightarrow> linked | Some a \<Rightarrow> al_album_id a)))
      else if tm_ReleaseMBID m \<noteq> ''''
      then (case album_by_release s (tm_ReleaseMBID m) of
              Some a \<Rightarrow> (s, Inr (Some (al_album_id a)))
            | None \<Rightarrow>
                if linked = '''' then (s, Inr None)
                else (case exec (update_album linked (promote_album m seq)) s of
                        (s', Inr _) \<Rightarrow>
                          if count_where (\<lambda>a. al_album_id a = linked) (ct_albums s) = 1
                          then (s', Inr (Some linked))
                          else (s', Inr (map_option al_album_id (album_by_release s' (tm_ReleaseMBID m))))
                      | (s', Inl e) \<Rightarrow>
                          (case album_by_release s' (tm_ReleaseMBID m) of
                             None \<Rightarrow> (s', Inl e) | Some a \<Rightarrow> (s', Inr (Some (al_album_id a))))))
      else (s, Inr (map_option al_album_id (select1 (\<lambda>a. al_artist_id a = artist \<and>
              same_text (al_title a) (tm_Album m) \<and> al_release_id a = None) (ct_albums s)))))"

definition insert_album :: "TrackMeta \<Rightarrow> string \<Rightarrow> string \<Rightarrow> seconds \<Rightarrow> int \<Rightarrow> catalog \<Rightarrow> catalog" where
  "insert_album m albumID artist now seq s = s\<lparr>ct_albums := ct_albums s @
     [\<lparr>al_album_id = albumID, al_artist_id = artist, al_title = tm_Album m,
       al_release_id = nullStr (tm_ReleaseMBID m), al_group_id = nullStr (tm_ReleaseGroupMBID m),
       al_release_date = None, al_year = nullInt (tm_Year m), al_art_id = None, al_missing = False, al_created_at = now,
       al_change_seq = seq, al_retry = no_retry\<rparr>]\<rparr>"

definition update_album_identity :: "TrackMeta \<Rightarrow> string \<Rightarrow> bool \<Rightarrow> int \<Rightarrow> album_row \<Rightarrow> album_row" where
  "update_album_identity m artist preserve seq a =
     (let release = coalesce (nullStr (tm_ReleaseMBID m)) (al_release_id a);
          group = coalesce (nullStr (tm_ReleaseGroupMBID m)) (al_group_id a)
      in a\<lparr>al_artist_id := (if preserve then al_artist_id a
                           else if tm_ReleaseMBID m = '''' \<and> al_release_id a \<noteq> None then al_artist_id a
                           else artist),
            al_release_id := release, al_group_id := group,
            al_change_seq := (if \<not> preserve \<and> al_artist_id a \<noteq> artist \<or> al_release_id a \<noteq> release \<or>
                                al_group_id a \<noteq> group then seq else al_change_seq a)\<rparr>)"

definition update_album_metadata :: "TrackMeta \<Rightarrow> int \<Rightarrow> album_row \<Rightarrow> album_row" where
  "update_album_metadata m seq a =
     (let title = tm_Album m; year = nullInt (tm_Year m)
      in a\<lparr>al_title := title, al_year := coalesce year (al_year a),
            al_retry := (if \<not> same_text (al_title a) title \<and> al_art_id a = None then no_retry else al_retry a),
            al_change_seq := (if \<not> same_text (al_title a) title \<or> year \<noteq> None \<and> al_year a \<noteq> year then seq
                              else al_change_seq a)\<rparr>)"

text \<open>The row of a file seen for the first time.\<close>

definition new_track ::
  "string \<Rightarrow> TrackMeta \<Rightarrow> string \<Rightarrow> string \<Rightarrow> string \<Rightarrow> string \<Rightarrow> int \<Rightarrow> seconds \<Rightarrow> track_row" where
  "new_track kind m artID trackID albumID artistID seq now =
     \<lparr>tk_track_id = trackID, tk_album_id = albumID, tk_artist_id = artistID,
      tk_artist_name = creditDisplay (tm_TrackCredits m), tk_recording_id = nullStr (tm_RecordingMBID m),
      tk_title = tm_Title m, tk_idx = nullInt (tm_Index m), tk_disc = nullInt (tm_Disc m), tk_genre = tm_Genre m,
      tk_duration_ms = tm_DurationMs m, tk_container = tm_Container m, tk_codec = tm_Codec m,
      tk_bitrate = nullInt (tm_BitrateKbps m), tk_size = tm_SizeBytes m, tk_source_kind = kind,
      tk_native_id = tm_NativeID m, tk_version = tm_Version m, tk_art_id = nullStr artID, tk_seen_seq = seq,
      tk_missing = False, tk_created_at = now, tk_change_seq = seq\<rparr>"

text \<open>The conflict clause: what a known row \<open>t\<close> takes from the excluded row \<open>x\<close>, and whether that
  stamps it.\<close>

definition track_changed :: "bool \<Rightarrow> track_row \<Rightarrow> track_row \<Rightarrow> bool" where
  "track_changed preserve t x \<longleftrightarrow> tk_missing t \<or> tk_album_id t \<noteq> tk_album_id x \<or>
     \<not> preserve \<and> tk_artist_id t \<noteq> tk_artist_id x \<or> \<not> preserve \<and> tk_artist_name t \<noteq> tk_artist_name x \<or>
     \<not> preserve \<and> tk_recording_id t \<noteq> tk_recording_id x \<or> \<not> same_text (tk_title t) (tk_title x) \<or>
     \<not> preserve \<and> tk_idx t \<noteq> tk_idx x \<or> \<not> preserve \<and> tk_disc t \<noteq> tk_disc x \<or>
     \<not> same_text (tk_genre t) (tk_genre x) \<or> tk_duration_ms t \<noteq> tk_duration_ms x \<or>
     tk_container t \<noteq> tk_container x \<or> tk_codec t \<noteq> tk_codec x \<or> tk_bitrate t \<noteq> tk_bitrate x \<or>
     tk_size t \<noteq> tk_size x \<or> tk_version t \<noteq> tk_version x \<or>
     tk_art_id x \<noteq> None \<and> tk_art_id x \<noteq> tk_art_id t"

definition merge_track :: "bool \<Rightarrow> int \<Rightarrow> track_row \<Rightarrow> track_row \<Rightarrow> track_row" where
  "merge_track preserve seq x t =
     t\<lparr>tk_album_id := tk_album_id x,
       tk_artist_id := (if preserve then tk_artist_id t else tk_artist_id x),
       tk_artist_name := (if preserve then tk_artist_name t else tk_artist_name x),
       tk_recording_id := (if preserve then tk_recording_id t else tk_recording_id x),
       tk_title := tk_title x,
       tk_idx := (if preserve then tk_idx t else tk_idx x), tk_disc := (if preserve then tk_disc t else tk_disc x),
       tk_genre := tk_genre x, tk_duration_ms := tk_duration_ms x, tk_container := tk_container x,
       tk_codec := tk_codec x, tk_bitrate := tk_bitrate x, tk_size := tk_size x, tk_version := tk_version x,
       tk_art_id := coalesce (tk_art_id x) (tk_art_id t), tk_seen_seq := tk_seen_seq x, tk_missing := False,
       tk_change_seq := (if track_changed preserve t x then seq else tk_change_seq t)\<rparr>"

definition put_track :: "bool \<Rightarrow> int \<Rightarrow> track_row \<Rightarrow> catalog \<Rightarrow> catalog" where
  "put_track preserve seq x s =
     s\<lparr>ct_tracks := upsert (\<lambda>t. (tk_source_kind t, tk_native_id t)) x (merge_track preserve seq x) (ct_tracks s)\<rparr>"

definition stamp_album :: "string \<Rightarrow> int \<Rightarrow> catalog \<Rightarrow> catalog" where
  "stamp_album albumID seq = update_album albumID (\<lambda>a. a\<lparr>al_change_seq := seq\<rparr>)"

definition stamp_track :: "string \<Rightarrow> int \<Rightarrow> catalog \<Rightarrow> catalog" where
  "stamp_track trackID seq s =
     s\<lparr>ct_tracks := update_where (\<lambda>t. tk_track_id t = trackID) (\<lambda>t. t\<lparr>tk_change_seq := seq\<rparr>) (ct_tracks s)\<rparr>"

text \<open>The album of the file: found or inserted, then brought up to date.\<close>

definition upsert_album ::
  "TrackMeta \<Rightarrow> string \<Rightarrow> string \<Rightarrow> bool \<Rightarrow> seconds \<Rightarrow> int \<Rightarrow> catalog \<Rightarrow> catalog \<times> (cat_err + string)" where
  "upsert_album m artistID linkedAlbum preserve now seq =
     bindE (find_album m artistID linkedAlbum preserve seq) (\<lambda>found.
     bindE (case found of
              Some albumID \<Rightarrow> returnE albumID
            | None \<Rightarrow> bindE (draw_id ''alb'') (\<lambda>albumID.
                      bindE (exec (insert_album m albumID artistID now seq)) (\<lambda>_. returnE albumID))) (\<lambda>albumID.
     bindE (exec (update_album albumID (update_album_identity m artistID preserve seq))) (\<lambda>_.
     bindE (if preserve then returnE () else exec (update_album albumID (update_album_metadata m seq))) (\<lambda>_.
     returnE albumID))))"

definition UpsertTrack ::
  "(string \<Rightarrow> string \<Rightarrow> bool) \<Rightarrow> string \<Rightarrow> TrackMeta \<Rightarrow> string \<Rightarrow> int \<Rightarrow> seconds \<Rightarrow> catalog \<Rightarrow>
   catalog \<times> (cat_err + unit)" where
  "UpsertTrack eqf kind m artID seq now s =
     (let linked = track_by_native s kind (tm_NativeID m);
          linkedArtist = (case linked of None \<Rightarrow> '''' | Some t \<Rightarrow> tk_artist_id t);
          linkedAlbum = (case linked of None \<Rightarrow> '''' | Some t \<Rightarrow> tk_album_id t);
          preserve = preserve_resolved s m linkedAlbum;
          grouping = grouping_artist m
      in bindE (if preserve then returnE linkedArtist
                else upsertArtist eqf (af_Name grouping) (af_MBID grouping) linkedArtist now seq) (\<lambda>artistID.
         bindE (upsert_album m artistID linkedAlbum preserve now seq) (\<lambda>albumID.
         bindE (draw_id ''trk'') (\<lambda>newID.
         bindE (exec (put_track preserve seq (new_track kind m artID newID albumID artistID seq now))) (\<lambda>_ s.
           case track_by_native s kind (tm_NativeID m) of
             None \<Rightarrow> (s, Inl NoSuchRow)
           | Some t \<Rightarrow>
               bindE (if preserve then returnE False
                      else replaceCredits eqf CAlbum albumID (tm_AlbumCredits m) now seq) (\<lambda>albumChanged.
               bindE (if preserve then returnE False
                      else replaceCredits eqf CTrack (tk_track_id t) (tm_TrackCredits m) now seq) (\<lambda>trackChanged.
               bindE (if albumChanged then exec_ignoring (stamp_album albumID seq) else returnE ()) (\<lambda>_.
               if trackChanged then exec_ignoring (stamp_track (tk_track_id t) seq) else returnE ()))) s)))) s)"

section \<open>The end of a scan\<close>

definition mark_seen :: "string \<Rightarrow> string list \<Rightarrow> int \<Rightarrow> track_row \<Rightarrow> track_row" where
  "mark_seen kind natives seq t =
     (if tk_source_kind t = kind \<and> tk_native_id t \<in> set natives
      then t\<lparr>tk_seen_seq := seq, tk_change_seq := (if tk_missing t then seq else tk_change_seq t), tk_missing := False\<rparr>
      else t)"

text \<open>\<open>markTracksSeen\<close> sends the ids in statements of 400; the number is of rows affected.\<close>

function mark_chunks :: "string \<Rightarrow> string list \<Rightarrow> int \<Rightarrow> track_row table \<Rightarrow> nat \<Rightarrow> track_row table \<times> nat" where
  "mark_chunks kind natives seq t marked =
     (if natives = [] then (t, marked)
      else (let batch = take 400 natives in
            mark_chunks kind (drop 400 natives) seq (map (mark_seen kind batch seq) t)
              (marked + count_where (\<lambda>r. tk_source_kind r = kind \<and> tk_native_id r \<in> set batch) t)))"
  by auto
termination by (relation "measure (\<lambda>(_, natives, _, _, _). length natives)") auto

declare mark_chunks.simps [simp del]

definition MarkTracksSeen :: "string \<Rightarrow> string list \<Rightarrow> int \<Rightarrow> catalog \<Rightarrow> catalog \<times> nat" where
  "MarkTracksSeen kind natives seq s =
     (case mark_chunks kind natives seq (ct_tracks s) 0 of (t, marked) \<Rightarrow> (s\<lparr>ct_tracks := t\<rparr>, marked))"

definition album_gone :: "catalog \<Rightarrow> album_row \<Rightarrow> bool" where
  "album_gone s a \<longleftrightarrow> count_where (\<lambda>t. tk_album_id t = al_album_id a \<and> \<not> tk_missing t) (ct_tracks s) = 0"

definition artist_gone :: "catalog \<Rightarrow> artist_row \<Rightarrow> bool" where
  "artist_gone s r \<longleftrightarrow> \<not> list_ex (\<lambda>a. al_artist_id a = ar_artist_id r \<and> \<not> al_missing a) (ct_albums s)"

definition album_art :: "catalog \<Rightarrow> album_row \<Rightarrow> string option" where
  "album_art s a = (case first_by (\<lambda>t. (tk_disc t, tk_idx t))
       (\<lambda>t. tk_album_id t = al_album_id a \<and> tk_art_id t \<noteq> None \<and> \<not> tk_missing t) (ct_tracks s) of
     None \<Rightarrow> None | Some t \<Rightarrow> tk_art_id t)"

definition artist_art :: "catalog \<Rightarrow> artist_row \<Rightarrow> string option" where
  "artist_art s r = (case first_by al_year
       (\<lambda>a. al_artist_id a = ar_artist_id r \<and> al_art_id a \<noteq> None \<and> \<not> al_missing a) (ct_albums s) of
     None \<Rightarrow> None | Some a \<Rightarrow> al_art_id a)"

text \<open>The statements of \<open>finishScan\<close>, in order.\<close>

definition fs_tracks :: "string \<Rightarrow> int \<Rightarrow> catalog \<Rightarrow> catalog" where
  "fs_tracks kind seq s = s\<lparr>ct_tracks := update_where
     (\<lambda>t. tk_source_kind t = kind \<and> tk_seen_seq t < seq \<and> \<not> tk_missing t)
     (\<lambda>t. t\<lparr>tk_missing := True, tk_change_seq := seq\<rparr>) (ct_tracks s)\<rparr>"

definition fs_albums :: "int \<Rightarrow> catalog \<Rightarrow> catalog" where
  "fs_albums seq s = s\<lparr>ct_albums := map (\<lambda>a. a\<lparr>
     al_change_seq := (if al_missing a \<noteq> album_gone s a then seq else al_change_seq a),
     al_missing := album_gone s a\<rparr>) (ct_albums s)\<rparr>"

definition fs_artists :: "int \<Rightarrow> catalog \<Rightarrow> catalog" where
  "fs_artists seq s = s\<lparr>ct_artists := map (\<lambda>r. r\<lparr>
     ar_change_seq := (if ar_missing r \<noteq> artist_gone s r then seq else ar_change_seq r),
     ar_missing := artist_gone s r\<rparr>) (ct_artists s)\<rparr>"

definition fs_album_art :: "int \<Rightarrow> catalog \<Rightarrow> catalog" where
  "fs_album_art seq s = s\<lparr>ct_albums := update_where (\<lambda>a. al_art_id a = None) (\<lambda>a. a\<lparr>
     al_change_seq := (if album_art s a \<noteq> None then seq else al_change_seq a),
     al_art_id := album_art s a\<rparr>) (ct_albums s)\<rparr>"

definition fs_artist_art :: "int \<Rightarrow> catalog \<Rightarrow> catalog" where
  "fs_artist_art seq s = s\<lparr>ct_artists := update_where (\<lambda>r. ar_art_id r = None) (\<lambda>r. r\<lparr>
     ar_change_seq := (if artist_art s r \<noteq> None then seq else ar_change_seq r),
     ar_art_id := artist_art s r\<rparr>) (ct_artists s)\<rparr>"

text \<open>One after the other; a failure leaves the statements before it, unless they are in a transaction.\<close>

definition FinishScan :: "string \<Rightarrow> int \<Rightarrow> seconds \<Rightarrow> catalog \<Rightarrow> catalog \<times> (cat_err + unit)" where
  "FinishScan kind seq now =
     bindE (exec (fs_tracks kind seq)) (\<lambda>_.
     bindE (exec (fs_albums seq)) (\<lambda>_.
     bindE (exec (fs_artists seq)) (\<lambda>_.
     bindE (exec (fs_album_art seq)) (\<lambda>_.
     bindE (exec (fs_artist_art seq)) (\<lambda>_.
     exec (\<lambda>s. s\<lparr>ct_updated_at := Some now\<rparr>))))))"

text \<open>What they do if none fails.\<close>

definition scan_ended :: "string \<Rightarrow> int \<Rightarrow> seconds \<Rightarrow> catalog \<Rightarrow> catalog" where
  "scan_ended kind seq now s =
     (fs_artist_art seq (fs_album_art seq (fs_artists seq (fs_albums seq (fs_tracks kind seq s)))))\<lparr>
       ct_updated_at := Some now\<rparr>"

definition ScanChangeCounts :: "string \<Rightarrow> int \<Rightarrow> catalog \<Rightarrow> nat \<times> nat" where
  "ScanChangeCounts kind seq s =
     (count_where (\<lambda>t. tk_source_kind t = kind \<and> tk_change_seq t = seq \<and> \<not> tk_missing t) (ct_tracks s),
      count_where (\<lambda>t. tk_source_kind t = kind \<and> tk_change_seq t = seq \<and> tk_missing t) (ct_tracks s))"

section \<open>What every operation keeps\<close>

definition keeps :: "('s \<Rightarrow> bool) \<Rightarrow> ('s \<Rightarrow> 's \<times> ('e + 'a)) \<Rightarrow> bool" where
  "keeps P f \<longleftrightarrow> (\<forall>s. P s \<longrightarrow> P (fst (f s)))"

named_theorems keeps_rules \<open>rules for the operations that keep a property of the catalogue\<close>

lemma keeps_bindE [keeps_rules]: "keeps P f \<Longrightarrow> (\<And>x. keeps P (g x)) \<Longrightarrow> keeps P (bindE f g)"
  unfolding keeps_def bindE_def by (fastforce split: prod.split sum.split)

lemma keeps_returnE [keeps_rules]: "keeps P (returnE x)"
  by (simp add: keeps_def returnE_def)

lemma keeps_exec: "(\<And>s. P s \<Longrightarrow> constraints_ok (f s) \<Longrightarrow> P (f s)) \<Longrightarrow> keeps P (exec f)"
  by (simp add: keeps_def exec_def)

lemma keeps_exec_ignoring: "keeps P (exec f) \<Longrightarrow> keeps P (exec_ignoring f)"
  by (simp add: keeps_def exec_ignoring_def)

lemma keeps_lookup:
  "(\<And>t. keeps P (g t)) \<Longrightarrow> keeps P (\<lambda>s. case h s of None \<Rightarrow> (s, Inl e) | Some t \<Rightarrow> g t s)"
  by (simp add: keeps_def split: option.split)

lemma keeps_if [keeps_rules]: "(b \<Longrightarrow> keeps P f) \<Longrightarrow> (\<not> b \<Longrightarrow> keeps P g) \<Longrightarrow> keeps P (if b then f else g)"
  by simp

text \<open>
  A property that each statement of the code keeps, where it succeeds, is kept by the operations
  built from the statements, whether they return a result or an error.
\<close>

locale credit_property =
  fixes P :: "catalog \<Rightarrow> bool" and seq :: int
  assumes drawn: "P s \<Longrightarrow> P (s\<lparr>ct_drawn := n\<rparr>)"
    and promoted: "P s \<Longrightarrow> constraints_ok (promote_artist aid mbid seq s) \<Longrightarrow> P (promote_artist aid mbid seq s)"
    and artist_inserted: "P s \<Longrightarrow> constraints_ok (insert_artist aid name mbid now seq s) \<Longrightarrow>
      P (insert_artist aid name mbid now seq s)"
    and alias_inserted: "P s \<Longrightarrow> constraints_ok (insert_alias aid name s) \<Longrightarrow> P (insert_alias aid name s)"
    and credits_set: "P s \<Longrightarrow> constraints_ok (set_credits ct t s) \<Longrightarrow> P (set_credits ct t s)"
begin

lemma keeps_draw_id: "keeps P (draw_id pre)"
  by (simp add: keeps_def draw_id_def drawn)

lemma keeps_find_artist: "keeps P (find_artist name mbid linked seq)"
  by (auto simp: keeps_def find_artist_def exec_def intro: promoted split: option.splits)

lemma keeps_upsertArtist: "keeps P (upsertArtist eqf name mbid linked now seq)"
  unfolding upsertArtist_def
  by (auto intro!: keeps_rules keeps_find_artist keeps_draw_id keeps_exec artist_inserted alias_inserted
      split: option.split prod.split)

lemma keeps_credit_artists: "keeps P (credit_artists eqf cs existing now seq)"
  by (induction cs arbitrary: existing) (auto intro!: keeps_rules keeps_upsertArtist)

lemma keeps_insert_credits: "keeps P (insert_credits ct owner i cs)"
  by (induction cs arbitrary: i) (auto intro!: keeps_rules keeps_exec credits_set)

lemma keeps_replaceCredits: "keeps P (replaceCredits eqf ct owner credits now seq)"
proof -
  have "keeps P (bindE (credit_artists eqf credits existing now seq) (\<lambda>ids.
      if same_credits existing ids credits then returnE False
      else bindE (exec (\<lambda>s. set_credits ct (delete_where (\<lambda>c. cr_owner c = owner) (credits_of ct s)) s)) (\<lambda>_.
           bindE (insert_credits ct owner 0 (zip ids credits)) (\<lambda>_. returnE True))))" for existing
    by (intro keeps_rules keeps_credit_artists keeps_insert_credits keeps_exec credits_set)
  then show ?thesis by (simp add: keeps_def replaceCredits_def Let_def)
qed

end

locale album_property = credit_property +
  assumes released: "P s \<Longrightarrow> constraints_ok (update_album albumID (promote_album m seq) s) \<Longrightarrow>
      P (update_album albumID (promote_album m seq) s)"
    and album_inserted: "P s \<Longrightarrow> constraints_ok (insert_album m albumID artistID now seq s) \<Longrightarrow>
      P (insert_album m albumID artistID now seq s)"
    and identity_updated: "P s \<Longrightarrow> constraints_ok (update_album albumID (update_album_identity m artistID preserve seq) s) \<Longrightarrow>
      P (update_album albumID (update_album_identity m artistID preserve seq) s)"
    and metadata_updated: "P s \<Longrightarrow> constraints_ok (update_album albumID (update_album_metadata m seq) s) \<Longrightarrow>
      P (update_album albumID (update_album_metadata m seq) s)"
    and album_stamped: "P s \<Longrightarrow> constraints_ok (stamp_album albumID seq s) \<Longrightarrow> P (stamp_album albumID seq s)"
begin

lemma keeps_find_album: "keeps P (find_album m artist linked preserve seq)"
  by (auto simp: keeps_def find_album_def exec_def intro: released split: option.splits)

lemma keeps_upsert_album: "keeps P (upsert_album m artist linked preserve now seq)"
  unfolding upsert_album_def
  by (auto intro!: keeps_rules keeps_find_album keeps_draw_id keeps_exec album_inserted identity_updated
      metadata_updated split: option.split)

end

locale catalog_property = album_property +
  assumes track_put: "P s \<Longrightarrow> constraints_ok (put_track preserve seq (new_track kind m artID tid albumID artistID seq now) s) \<Longrightarrow>
      P (put_track preserve seq (new_track kind m artID tid albumID artistID seq now) s)"
    and track_stamped: "P s \<Longrightarrow> constraints_ok (stamp_track tid seq s) \<Longrightarrow> P (stamp_track tid seq s)"
begin

lemma keeps_UpsertTrack: "keeps P (UpsertTrack eqf kind m artID seq now)"
proof -
  have credits: "keeps P (bindE (if preserve then returnE False else replaceCredits eqf ct owner cs now seq) g)"
    if "\<And>b. keeps P (g b)" for preserve ct owner cs g
    using that by (auto intro!: keeps_rules keeps_replaceCredits)
  have "keeps P (bindE (if preserve then returnE linkedArtist else upsertArtist eqf name mbid linkedArtist now seq) (\<lambda>artistID.
      bindE (upsert_album m artistID linkedAlbum preserve now seq) (\<lambda>albumID.
      bindE (draw_id ''trk'') (\<lambda>newID.
      bindE (exec (put_track preserve seq (new_track kind m artID newID albumID artistID seq now))) (\<lambda>_ s.
        case track_by_native s kind (tm_NativeID m) of
          None \<Rightarrow> (s, Inl NoSuchRow)
        | Some t \<Rightarrow>
            bindE (if preserve then returnE False
                   else replaceCredits eqf CAlbum albumID (tm_AlbumCredits m) now seq) (\<lambda>albumChanged.
            bindE (if preserve then returnE False
                   else replaceCredits eqf CTrack (tk_track_id t) (tm_TrackCredits m) now seq) (\<lambda>trackChanged.
            bindE (if albumChanged then exec_ignoring (stamp_album albumID seq) else returnE ()) (\<lambda>_.
            if trackChanged then exec_ignoring (stamp_track (tk_track_id t) seq) else returnE ()))) s)))))"
    for preserve linkedArtist linkedAlbum name mbid
    by (intro keeps_rules keeps_upsertArtist keeps_upsert_album keeps_draw_id keeps_exec track_put keeps_lookup
        credits keeps_exec_ignoring album_stamped track_stamped)
  then show ?thesis unfolding keeps_def UpsertTrack_def Let_def by blast
qed

end

interpretation constraints: catalog_property constraints_ok seq
  by unfold_locales (simp_all add: constraints_ok_def)

section \<open>No change goes unstamped\<close>

text \<open>
  What a client sees of a row; letter case is folded where the columns fold it.
\<close>

definition artist_view :: "artist_row \<Rightarrow> string \<times> string option \<times> string option \<times> bool" where
  "artist_view a = (ar_name a, ar_mbid a, ar_art_id a, ar_missing a)"

definition album_view ::
  "album_row \<Rightarrow> string \<times> string \<times> string option \<times> string option \<times> int option \<times> string option \<times> bool" where
  "album_view a = (al_artist_id a, to_lower (al_title a), al_release_id a, al_group_id a, al_year a, al_art_id a,
     al_missing a)"

definition track_view :: "track_row \<Rightarrow> (string \<times> string \<times> string \<times> string option \<times> string) \<times>
    (int option \<times> int option \<times> string \<times> int) \<times> (string \<times> string \<times> int option \<times> int \<times> string option \<times> bool)" where
  "track_view t = ((tk_album_id t, tk_artist_id t, tk_artist_name t, tk_recording_id t, to_lower (tk_title t)),
     (tk_idx t, tk_disc t, to_lower (tk_genre t), tk_duration_ms t),
     (tk_container t, tk_codec t, tk_bitrate t, tk_size t, tk_art_id t, tk_missing t))"

text \<open>Of a track that is gone nothing is seen.\<close>

definition track_shown where
  "track_shown t = (if tk_missing t then None else Some (track_view t))"

lemma track_shown_cong: "track_view a = track_view b \<Longrightarrow> track_shown a = track_shown b"
  by (auto simp: track_shown_def track_view_def)

lemma track_shown_row:
  "k \<and> (new \<or> track_view a = track_view b \<and> same) \<Longrightarrow> k \<and> (new \<or> track_shown a = track_shown b \<and> same)"
  using track_shown_cong by blast

text \<open>\<open>t\<close> as a later version of \<open>t0\<close>: a row not stamped since \<open>v\<close> looks as it did, and none is gone.\<close>

definition stamped_since ::
  "int \<Rightarrow> ('r \<Rightarrow> 'k) \<Rightarrow> ('r \<Rightarrow> 'v) \<Rightarrow> ('r \<Rightarrow> int) \<Rightarrow> 'r table \<Rightarrow> 'r table \<Rightarrow> bool" where
  "stamped_since v key view stamp t0 t \<longleftrightarrow> key ` set t0 \<subseteq> key ` set t \<and>
     (\<forall>r \<in> set t. stamp r \<le> v \<longrightarrow> (\<exists>r0 \<in> set t0. key r0 = key r \<and> view r0 = view r))"

lemma stamped_since_map:
  assumes "stamped_since v key view stamp t0 t"
    and "\<And>r. r \<in> set t \<Longrightarrow> key (f r) = key r \<and> (v < stamp (f r) \<or> view (f r) = view r \<and> stamp (f r) = stamp r)"
  shows "stamped_since v key view stamp t0 (map f t)"
  unfolding stamped_since_def
proof (intro conjI ballI impI)
  have "key ` set (map f t) = key ` set t" using assms(2) by (force simp: image_image)
  then show "key ` set t0 \<subseteq> key ` set (map f t)" using assms(1) by (simp add: stamped_since_def)
next
  fix x assume "x \<in> set (map f t)" and old: "stamp x \<le> v"
  then obtain r where r: "r \<in> set t" "x = f r" by auto
  then have same: "key x = key r" "view x = view r" "stamp x = stamp r" using assms(2) [OF r(1)] old by auto
  then obtain r0 where "r0 \<in> set t0" "key r0 = key r" "view r0 = view r"
    using assms(1) r(1) old unfolding stamped_since_def by (metis (no_types))
  with same show "\<exists>r0 \<in> set t0. key r0 = key x \<and> view r0 = view x" by auto
qed

lemma stamped_since_update:
  assumes "stamped_since v key view stamp t0 t"
    and "\<And>r. key (f r) = key r \<and> (v < stamp (f r) \<or> view (f r) = view r \<and> stamp (f r) = stamp r)"
  shows "stamped_since v key view stamp t0 (update_where Q f t)"
  unfolding update_where_def using assms(2) by (intro stamped_since_map [OF assms(1)]) auto

lemma stamped_since_append:
  "stamped_since v key view stamp t0 t \<Longrightarrow> v < stamp r \<Longrightarrow> stamped_since v key view stamp t0 (t @ [r])"
  unfolding stamped_since_def by auto

lemma stamped_since_upsert:
  assumes "stamped_since v key view stamp t0 t" and "v < stamp r"
    and "\<And>r. key (f r) = key r \<and> (v < stamp (f r) \<or> view (f r) = view r \<and> stamp (f r) = stamp r)"
  shows "stamped_since v key view stamp t0 (upsert k r f t)"
  unfolding upsert_def using assms by (simp add: stamped_since_append stamped_since_update)

lemma merge_track_stamped:
  "v < seq \<Longrightarrow> tk_track_id (merge_track preserve seq x t) = tk_track_id t \<and>
     (v < tk_change_seq (merge_track preserve seq x t) \<or>
      track_view (merge_track preserve seq x t) = track_view t \<and>
      tk_change_seq (merge_track preserve seq x t) = tk_change_seq t)"
  by (cases "track_changed preserve t x")
    (auto simp: track_changed_def track_view_def merge_track_def same_text_def coalesce_def split: option.splits)

lemma merge_track_seq:
  "tk_change_seq (merge_track preserve seq x t) = seq \<or>
   tk_change_seq (merge_track preserve seq x t) = tk_change_seq t \<and> track_view (merge_track preserve seq x t) = track_view t"
  by (cases "track_changed preserve t x")
    (auto simp: track_changed_def track_view_def merge_track_def same_text_def coalesce_def split: option.splits)

definition delta_ok :: "int \<Rightarrow> catalog \<Rightarrow> catalog \<Rightarrow> bool" where
  "delta_ok v s0 s \<longleftrightarrow>
     stamped_since v ar_artist_id artist_view ar_change_seq (ct_artists s0) (ct_artists s) \<and>
     stamped_since v al_album_id album_view al_change_seq (ct_albums s0) (ct_albums s) \<and>
     stamped_since v tk_track_id track_shown tk_change_seq (ct_tracks s0) (ct_tracks s)"

lemma delta_ok_refl: "delta_ok v s s"
  by (auto simp: delta_ok_def stamped_since_def)

definition delta_kept :: "int \<Rightarrow> int \<Rightarrow> catalog \<Rightarrow> catalog \<Rightarrow> bool" where
  "delta_kept v seq s0 s \<longleftrightarrow> (v < seq \<longrightarrow> delta_ok v s0 s)"

lemmas delta_defs = delta_kept_def delta_ok_def

text \<open>Each statement keeps it: the row functions stamp whatever they change.\<close>

lemma delta_keptI: "(v < seq \<Longrightarrow> delta_ok v s0 s) \<Longrightarrow> delta_kept v seq s0 s"
  by (simp add: delta_kept_def)

lemma delta_same_tables:
  "delta_kept v seq s0 s \<Longrightarrow> ct_artists s' = ct_artists s \<Longrightarrow> ct_albums s' = ct_albums s \<Longrightarrow>
   ct_tracks s' = ct_tracks s \<Longrightarrow> delta_kept v seq s0 s'"
  by (simp add: delta_defs)

lemma delta_album:
  assumes "delta_kept v seq s0 s"
    and "\<And>a. v < seq \<Longrightarrow> al_album_id (f a) = al_album_id a \<and>
      (v < al_change_seq (f a) \<or> album_view (f a) = album_view a \<and> al_change_seq (f a) = al_change_seq a)"
  shows "delta_kept v seq s0 (update_album albumID f s)"
  using assms unfolding delta_defs update_album_def by (simp add: stamped_since_update)

lemma promote_album_stamped:
  "v < seq \<Longrightarrow> al_album_id (promote_album m seq a) = al_album_id a \<and> v < al_change_seq (promote_album m seq a)"
  by (simp add: promote_album_def)

lemma identity_stamped:
  "v < seq \<Longrightarrow> al_album_id (update_album_identity m artist preserve seq a) = al_album_id a \<and>
    (v < al_change_seq (update_album_identity m artist preserve seq a) \<or>
     album_view (update_album_identity m artist preserve seq a) = album_view a \<and>
     al_change_seq (update_album_identity m artist preserve seq a) = al_change_seq a)"
  by (simp add: update_album_identity_def album_view_def Let_def)

lemma metadata_stamped:
  "v < seq \<Longrightarrow> al_album_id (update_album_metadata m seq a) = al_album_id a \<and>
    (v < al_change_seq (update_album_metadata m seq a) \<or>
     album_view (update_album_metadata m seq a) = album_view a \<and>
     al_change_seq (update_album_metadata m seq a) = al_change_seq a)"
  by (auto simp: update_album_metadata_def album_view_def same_text_def coalesce_def Let_def split: option.splits)

lemma delta_put_track:
  assumes "delta_kept v seq s0 s" and "tk_change_seq x = seq"
  shows "delta_kept v seq s0 (put_track preserve seq x s)"
proof (rule delta_keptI)
  assume v: "v < seq"
  have "stamped_since v tk_track_id track_shown tk_change_seq (ct_tracks s0)
      (upsert (\<lambda>t. (tk_source_kind t, tk_native_id t)) x (merge_track preserve seq x) (ct_tracks s))"
    using assms v by (intro stamped_since_upsert track_shown_row merge_track_stamped) (simp_all add: delta_defs)
  then show "delta_ok v s0 (put_track preserve seq x s)" using assms v by (simp add: delta_defs put_track_def)
qed

interpretation delta: catalog_property "delta_kept v seq s0" seq
proof unfold_locales
  fix s assume d: "delta_kept v seq s0 s"
  show "delta_kept v seq s0 (s\<lparr>ct_drawn := n\<rparr>)" for n by (rule delta_same_tables [OF d]) simp_all
  show "delta_kept v seq s0 (promote_artist aid mbid seq s)" for aid mbid
    using d unfolding delta_defs promote_artist_def by (simp add: stamped_since_update)
  show "delta_kept v seq s0 (insert_artist aid name mbid now seq s)" for aid name mbid now
    using d unfolding delta_defs insert_artist_def by (simp add: stamped_since_append)
  show "delta_kept v seq s0 (insert_alias aid name s)" for aid name
    by (rule delta_same_tables [OF d]) (simp_all add: insert_alias_def)
  show "delta_kept v seq s0 (set_credits ct t s)" for ct t
    by (rule delta_same_tables [OF d]) (simp_all add: set_credits_def split: credit_table.split)
  show "delta_kept v seq s0 (update_album albumID (promote_album m seq) s)" for albumID m
    using promote_album_stamped by (intro delta_album [OF d]) blast
  show "delta_kept v seq s0 (insert_album m albumID artistID now seq s)" for m albumID artistID now
    using d unfolding delta_defs insert_album_def by (simp add: stamped_since_append)
  show "delta_kept v seq s0 (update_album albumID (update_album_identity m artistID preserve seq) s)"
    for albumID m artistID preserve
    by (intro delta_album [OF d] identity_stamped)
  show "delta_kept v seq s0 (update_album albumID (update_album_metadata m seq) s)" for albumID m
    by (intro delta_album [OF d] metadata_stamped)
  show "delta_kept v seq s0 (put_track preserve seq (new_track kind m artID tid albumID artistID seq now) s)"
    for preserve kind m artID tid albumID artistID now
    by (rule delta_put_track [OF d]) (simp add: new_track_def)
  show "delta_kept v seq s0 (stamp_album albumID seq s)" for albumID
    unfolding stamp_album_def by (rule delta_album [OF d]) simp
  show "delta_kept v seq s0 (stamp_track tid seq s)" for tid
    using d unfolding delta_defs stamp_track_def by (simp add: stamped_since_update)
qed

section \<open>An example\<close>

definition empty_catalog :: "(nat \<Rightarrow> bytes) \<Rightarrow> catalog" where
  "empty_catalog rnd = \<lparr>ct_artists = [], ct_aliases = [], ct_albums = [], ct_tracks = [], ct_album_credits = [],
     ct_track_credits = [], ct_art = [], ct_matches = [], ct_genres = [], ct_scan_seq = None, ct_updated_at = None,
     ct_rnd = rnd, ct_drawn = 0\<rparr>"

text \<open>A catalogue of two artists, one album and one track, for the examples.\<close>

definition demo_artist :: "string \<Rightarrow> string \<Rightarrow> artist_row" where
  "demo_artist i name = \<lparr>ar_artist_id = i, ar_name = name, ar_mbid = None, ar_art_id = None, ar_missing = False,
     ar_created_at = 1, ar_change_seq = 1, ar_retry = no_retry\<rparr>"

definition demo_album :: "string \<Rightarrow> string \<Rightarrow> string \<Rightarrow> album_row" where
  "demo_album i artist title = \<lparr>al_album_id = i, al_artist_id = artist, al_title = title, al_release_id = None,
     al_group_id = None, al_release_date = None, al_year = None, al_art_id = None, al_missing = False, al_created_at = 1, al_change_seq = 1,
     al_retry = no_retry\<rparr>"

definition demo_catalog :: catalog where
  "demo_catalog = (empty_catalog (\<lambda>_. [1]))\<lparr>
     ct_artists := [demo_artist ''art_a'' ''A'', demo_artist ''art_b'' ''B''],
     ct_albums := [demo_album ''alb_a'' ''art_a'' ''One''],
     ct_tracks := [new_track ''filesystem'' (sample_meta ''a.flac'' ''Song'' ''One'') '''' ''trk_a'' ''alb_a'' ''art_a'' 1 1],
     ct_album_credits := [\<lparr>cr_owner = ''alb_a'', cr_position = 0, cr_artist_id = ''art_a'', cr_name = ''A'', cr_join = ''''\<rparr>],
     ct_track_credits := [\<lparr>cr_owner = ''trk_a'', cr_position = 0, cr_artist_id = ''art_a'', cr_name = ''A'', cr_join = ''''\<rparr>],
     ct_scan_seq := Some 2\<rparr>"

lemma demo_catalog_ok: "constraints_ok demo_catalog"
  by (simp add: constraints_ok_def demo_catalog_def empty_catalog_def demo_artist_def demo_album_def new_track_def
      sample_meta_def unique_key_def unique_some_def untagged_identity_def)

section \<open>What indexing a file does\<close>

interpretation tracks_kept: album_property "\<lambda>s. ct_tracks s = t" seq
  by unfold_locales (simp_all add: promote_artist_def insert_artist_def insert_alias_def set_credits_def
      update_album_def insert_album_def stamp_album_def split: credit_table.split)

lemma bindE_Inr: "bindE f g s = (s', Inr y) \<longleftrightarrow> (\<exists>s1 x. f s = (s1, Inr x) \<and> g x s1 = (s', Inr y))"
  by (auto simp: bindE_def split: prod.splits sum.splits)

lemma keepsD: "keeps P f \<Longrightarrow> P s \<Longrightarrow> f s = (s', r) \<Longrightarrow> P s'"
  unfolding keeps_def by (metis fst_conv)

lemma exec_Inr: "exec f s = (s', Inr x) \<Longrightarrow> s' = f s"
  by (simp add: exec_def split: if_splits)

lemma track_by_native_stamp:
  "track_by_native (stamp_track tid q s) kind n =
    map_option (\<lambda>t. if tk_track_id t = tid then t\<lparr>tk_change_seq := q\<rparr> else t) (track_by_native s kind n)"
proof -
  have "select1 (\<lambda>t. tk_source_kind t = kind \<and> tk_native_id t = n)
      (update_where (\<lambda>t. tk_track_id t = tid) (\<lambda>t. t\<lparr>tk_change_seq := q\<rparr>) ts) =
    map_option (\<lambda>t. if tk_track_id t = tid then t\<lparr>tk_change_seq := q\<rparr> else t)
      (select1 (\<lambda>t. tk_source_kind t = kind \<and> tk_native_id t = n) ts)" for ts
    by (induction ts) auto
  then show ?thesis by (simp add: track_by_native_def stamp_track_def)
qed

lemma track_by_native_put:
  assumes "tk_source_kind x = kind" "tk_native_id x = n"
  shows "track_by_native (put_track preserve q x s) kind n =
    Some (case track_by_native s kind n of None \<Rightarrow> x | Some t \<Rightarrow> merge_track preserve q x t)"
proof -
  have key: "(\<lambda>t. (tk_source_kind t, tk_native_id t) = (kind, n)) = (\<lambda>t. tk_source_kind t = kind \<and> tk_native_id t = n)"
    by auto
  have "select1 (\<lambda>t. (tk_source_kind t, tk_native_id t) = (kind, n)) (ct_tracks (put_track preserve q x s)) =
      (case select1 (\<lambda>t. (tk_source_kind t, tk_native_id t) = (kind, n)) (ct_tracks s) of
         None \<Rightarrow> Some x | Some t \<Rightarrow> Some (merge_track preserve q x t))"
    using select1_upsert_same [of "\<lambda>t. (tk_source_kind t, tk_native_id t)" "merge_track preserve q x" x "ct_tracks s"] assms
    by (simp add: put_track_def merge_track_def)
  then show ?thesis by (simp add: track_by_native_def key split: option.splits)
qed

text \<open>What follows the track's row: the credits, and the stamps they cause.\<close>

abbreviation index_credits_of :: "(string \<Rightarrow> string \<Rightarrow> bool) \<Rightarrow> TrackMeta \<Rightarrow> bool \<Rightarrow> string \<Rightarrow> int \<Rightarrow> seconds \<Rightarrow>
   track_row \<Rightarrow> catalog \<Rightarrow> catalog \<times> (cat_err + unit)" where
  "index_credits_of eqf m preserve albumID seq now t \<equiv>
     bindE (if preserve then returnE False
            else replaceCredits eqf CAlbum albumID (tm_AlbumCredits m) now seq) (\<lambda>albumChanged.
     bindE (if preserve then returnE False
            else replaceCredits eqf CTrack (tk_track_id t) (tm_TrackCredits m) now seq) (\<lambda>trackChanged.
     bindE (if albumChanged then exec_ignoring (stamp_album albumID seq) else returnE ()) (\<lambda>_.
     if trackChanged then exec_ignoring (stamp_track (tk_track_id t) seq) else returnE ())))"

lemma index_credits_tracks:
  assumes "index_credits_of eqf m preserve albumID seq now t0 s = (s', Inr ())"
  shows "ct_tracks s' = ct_tracks s \<or> ct_tracks s' = ct_tracks (stamp_track (tk_track_id t0) seq s)"
proof -
  obtain s1 s2 s3 a b where
    s1: "(if preserve then returnE False else replaceCredits eqf CAlbum albumID (tm_AlbumCredits m) now seq) s = (s1, Inr a)" and
    s2: "(if preserve then returnE False else replaceCredits eqf CTrack (tk_track_id t0) (tm_TrackCredits m) now seq) s1 = (s2, Inr b)" and
    s3: "(if a then exec_ignoring (stamp_album albumID seq) else returnE ()) s2 = (s3, Inr ())" and
    s': "(if b then exec_ignoring (stamp_track (tk_track_id t0) seq) else returnE ()) s3 = (s', Inr ())"
    using assms unfolding bindE_Inr by auto
  have "ct_tracks s1 = ct_tracks s"
    using keepsD [OF tracks_kept.keeps_replaceCredits refl] s1 by (auto simp: returnE_def split: if_splits)
  moreover have "ct_tracks s2 = ct_tracks s1"
    using keepsD [OF tracks_kept.keeps_replaceCredits refl] s2 by (auto simp: returnE_def split: if_splits)
  moreover have "ct_tracks s3 = ct_tracks s2"
    using s3 by (auto simp: returnE_def exec_ignoring_def exec_def stamp_album_def update_album_def split: if_splits)
  moreover have "s' = s3 \<or> s' = stamp_track (tk_track_id t0) seq s3"
    using s' by (auto simp: returnE_def exec_ignoring_def exec_def split: if_splits)
  ultimately show ?thesis by (elim disjE) (simp_all add: stamp_track_def)
qed

lemmas demo_defs = demo_catalog_def empty_catalog_def demo_artist_def demo_album_def new_track_def sample_meta_def

lemmas run_defs = bindE_def returnE_def exec_def exec_ignoring_def draw_id_def

abbreviation demo_meta :: "string \<Rightarrow> TrackMeta" where
  "demo_meta title \<equiv> sample_meta ''a.flac'' title ''One''"
abbreviation demo_credit :: "ArtistCredit list" where
  "demo_credit \<equiv> [\<lparr>ac_Name = ''A'', ac_JoinPhrase = '''', ac_MBID = ''''\<rparr>]"

lemma demo_album_kept: "upsert_album (demo_meta title) ''art_a'' ''alb_a'' False 5 2 demo_catalog = (demo_catalog, Inr ''alb_a'')"
  using demo_catalog_ok
  by (simp add: upsert_album_def find_album_def untagged_album_def run_defs demo_defs same_text_def update_album_def
    update_album_identity_def update_album_metadata_def nullStr_def nullInt_def coalesce_def)

lemma demo_artist_kept: "upsertArtist same_text ''A'' '''' ''art_a'' 5 2 demo_catalog = (demo_catalog, Inr ''art_a'')"
  by (simp add: upsertArtist_def find_artist_def first_by_def run_defs demo_defs same_text_def to_lower_def)
text \<open>The example after a scan has seen its file with another title.\<close>

definition demo_rescanned :: "string \<Rightarrow> catalog" where
  "demo_rescanned title = put_track False 2 (new_track ''filesystem'' (demo_meta title) '''' (new_id ''trk'' [1]) ''alb_a'' ''art_a'' 2 5) (demo_catalog\<lparr>ct_drawn := Suc 0\<rparr>)"

lemma demo_rescanned_ok: "constraints_ok (demo_rescanned title)"
  by (simp add: demo_rescanned_def put_track_def upsert_def merge_track_def constraints_ok_def demo_defs unique_key_def unique_some_def untagged_identity_def)

lemma demo_rescanned_artist: "upsertArtist same_text ''A'' '''' ''art_a'' 5 2 (demo_rescanned title) = (demo_rescanned title, Inr ''art_a'')"
  by (simp add: upsertArtist_def find_artist_def first_by_def run_defs demo_rescanned_def put_track_def demo_defs same_text_def to_lower_def)

lemma demo_rescanned_credits: "replaceCredits same_text CAlbum ''alb_a'' demo_credit 5 2 (demo_rescanned title) = (demo_rescanned title, Inr False)"
 "replaceCredits same_text CTrack ''trk_a'' demo_credit 5 2 (demo_rescanned title) = (demo_rescanned title, Inr False)"
proof -
  have a: "readCredits CAlbum ''alb_a'' (demo_rescanned title) = [\<lparr>acr_ArtistID = ''art_a'', acr_Name = ''A'', acr_JoinPhrase = '''', acr_MusicBrainzID = ''''\<rparr>]"
   "readCredits CTrack ''trk_a'' (demo_rescanned title) = [\<lparr>acr_ArtistID = ''art_a'', acr_Name = ''A'', acr_JoinPhrase = '''', acr_MusicBrainzID = ''''\<rparr>]"
    by (simp_all add: readCredits_def credits_of_def demo_rescanned_def put_track_def demo_defs List.map_filter_def)
  show "replaceCredits same_text CAlbum ''alb_a'' demo_credit 5 2 (demo_rescanned title) = (demo_rescanned title, Inr False)"
 "replaceCredits same_text CTrack ''trk_a'' demo_credit 5 2 (demo_rescanned title) = (demo_rescanned title, Inr False)"
   by (simp_all add: replaceCredits_def a demo_rescanned_artist bindE_def returnE_def same_credits_def)
qed

lemma demo_upsert: "UpsertTrack same_text ''filesystem'' (demo_meta title) '''' 2 5 demo_catalog = (demo_rescanned title, Inr ())"
proof -
  have old: "track_by_native demo_catalog ''filesystem'' ''a.flac'' = Some (new_track ''filesystem'' (sample_meta ''a.flac'' ''Song'' ''One'') '''' ''trk_a'' ''alb_a'' ''art_a'' 1 1)"
    by (simp add: track_by_native_def demo_defs)
  then have put: "track_by_native (demo_rescanned title) ''filesystem'' ''a.flac'' = Some (merge_track False 2 (new_track ''filesystem'' (demo_meta title) '''' (new_id ''trk'' [1]) ''alb_a'' ''art_a'' 2 5) (new_track ''filesystem'' (sample_meta ''a.flac'' ''Song'' ''One'') '''' ''trk_a'' ''alb_a'' ''art_a'' 1 1))"
    unfolding demo_rescanned_def by (subst track_by_native_put) (simp_all add: track_by_native_def new_track_def sample_meta_def)
  have gr: "grouping_artist (demo_meta title) = \<lparr>af_Name = ''A'', af_MBID = ''''\<rparr>"
    by (simp add: grouping_artist_def sample_meta_def)
  have np: "\<not> preserve_resolved demo_catalog (demo_meta title) ''alb_a''"
    by (simp add: preserve_resolved_def demo_defs)
  have dr: "draw_id ''trk'' demo_catalog = (demo_catalog\<lparr>ct_drawn := Suc 0\<rparr>, Inr (new_id ''trk'' [1]))"
    by (simp add: draw_id_def demo_defs)
  have ex: "exec (put_track False 2 (new_track ''filesystem'' (demo_meta title) '''' (new_id ''trk'' [1]) ''alb_a'' ''art_a'' 2 5)) (demo_catalog\<lparr>ct_drawn := Suc 0\<rparr>) = (demo_rescanned title, Inr ())"
   using demo_rescanned_ok [of title] unfolding exec_def demo_rescanned_def by simp
  have mt: "tm_NativeID (demo_meta title) = ''a.flac''" 
   "tm_AlbumCredits (demo_meta title) = demo_credit"
   "tm_TrackCredits (demo_meta title) = demo_credit"
     by (simp_all add: sample_meta_def)
  show ?thesis
    unfolding UpsertTrack_def Let_def old mt
    by (simp add: bindE_def gr demo_artist_kept demo_album_kept np new_track_def [of _ _ _ "''trk_a''"] dr ex put demo_rescanned_credits merge_track_def returnE_def)
qed

lemma upsert_tracks:
  assumes "UpsertTrack eqf kind m artID seq now s = (s', Inr ())"
  obtains preserve newID albumID artistID tid where
    "ct_tracks s' = ct_tracks (put_track preserve seq (new_track kind m artID newID albumID artistID seq now) s) \<or>
     ct_tracks s' = ct_tracks (stamp_track tid seq (put_track preserve seq (new_track kind m artID newID albumID artistID seq now) s))"
proof -
  let ?old = "track_by_native s kind (tm_NativeID m)"
  let ?preserve = "preserve_resolved s m (case ?old of None \<Rightarrow> '''' | Some t \<Rightarrow> tk_album_id t)"
  obtain s1 s2 s3 artistID albumID newID where
    s1: "(if ?preserve then returnE (case ?old of None \<Rightarrow> '''' | Some t \<Rightarrow> tk_artist_id t)
          else upsertArtist eqf (af_Name (grouping_artist m)) (af_MBID (grouping_artist m))
            (case ?old of None \<Rightarrow> '''' | Some t \<Rightarrow> tk_artist_id t) now seq) s = (s1, Inr artistID)" and
    s2: "upsert_album m artistID (case ?old of None \<Rightarrow> '''' | Some t \<Rightarrow> tk_album_id t) ?preserve now seq s1 =
      (s2, Inr albumID)" and
    s3: "draw_id ''trk'' s2 = (s3, Inr newID)" and
    rest: "(case track_by_native (put_track ?preserve seq (new_track kind m artID newID albumID artistID seq now) s3) kind (tm_NativeID m) of
        None \<Rightarrow> (put_track ?preserve seq (new_track kind m artID newID albumID artistID seq now) s3, Inl NoSuchRow)
      | Some t \<Rightarrow> index_credits_of eqf m ?preserve albumID seq now t
          (put_track ?preserve seq (new_track kind m artID newID albumID artistID seq now) s3)) = (s', Inr ())"
    using assms unfolding UpsertTrack_def Let_def by (auto simp only: bindE_Inr dest!: exec_Inr)
  have "ct_tracks s1 = ct_tracks s"
    using keepsD [OF tracks_kept.keeps_upsertArtist refl] s1 by (auto simp: returnE_def split: if_splits)
  moreover have "ct_tracks s2 = ct_tracks s1" using keepsD [OF tracks_kept.keeps_upsert_album refl s2] .
  moreover have "ct_tracks s3 = ct_tracks s2" using s3 by (auto simp: draw_id_def)
  ultimately have tracks: "ct_tracks s3 = ct_tracks s" by simp
  let ?new = "new_track kind m artID newID albumID artistID seq now"
  obtain t where "index_credits_of eqf m ?preserve albumID seq now t (put_track ?preserve seq ?new s3) = (s', Inr ())"
    using rest by (cases "track_by_native (put_track ?preserve seq ?new s3) kind (tm_NativeID m)") auto
  then show ?thesis
    using index_credits_tracks tracks that by (fastforce simp: put_track_def stamp_track_def)
qed

lemma found_row:
  assumes "found = Some t \<or> found = Some (t\<lparr>tk_change_seq := seq\<rparr>)"
    and "\<not> tk_missing t \<and> tk_seen_seq t = seq \<and> tk_title t = title \<and> tk_genre t = genre \<and>
      tk_duration_ms t = dur \<and> tk_container t = cont \<and> tk_codec t = codec \<and> tk_size t = sz \<and> tk_version t = ver"
    and "case old of
       None \<Rightarrow> tk_change_seq t = seq
     | Some t0 \<Rightarrow> tk_track_id t = tk_track_id t0 \<and>
         (tk_change_seq t = seq \<or> tk_change_seq t = tk_change_seq t0 \<and> track_view t = track_view t0)"
  shows "\<exists>t. found = Some t \<and> \<not> tk_missing t \<and> tk_seen_seq t = seq \<and>
    tk_title t = title \<and> tk_genre t = genre \<and> tk_duration_ms t = dur \<and>
    tk_container t = cont \<and> tk_codec t = codec \<and> tk_size t = sz \<and> tk_version t = ver \<and>
    (case old of
       None \<Rightarrow> tk_change_seq t = seq
     | Some t0 \<Rightarrow> tk_track_id t = tk_track_id t0 \<and>
         (tk_change_seq t = seq \<or> tk_change_seq t = tk_change_seq t0 \<and> track_view t = track_view t0))"
  using assms by (elim disjE) (cases old; simp)+

lemma upsert_track_row:
  assumes "UpsertTrack eqf kind m artID seq now s = (s', Inr ())"
  shows "\<exists>t. track_by_native s' kind (tm_NativeID m) = Some t \<and> \<not> tk_missing t \<and> tk_seen_seq t = seq \<and>
    tk_title t = tm_Title m \<and> tk_genre t = tm_Genre m \<and> tk_duration_ms t = tm_DurationMs m \<and>
    tk_container t = tm_Container m \<and> tk_codec t = tm_Codec m \<and> tk_size t = tm_SizeBytes m \<and>
    tk_version t = tm_Version m \<and>
    (case track_by_native s kind (tm_NativeID m) of
       None \<Rightarrow> tk_change_seq t = seq
     | Some t0 \<Rightarrow> tk_track_id t = tk_track_id t0 \<and> 
         (tk_change_seq t = seq \<or> tk_change_seq t = tk_change_seq t0 \<and> track_view t = track_view t0))"
proof -
  let ?old = "track_by_native s kind (tm_NativeID m)"
  obtain preserve newID albumID artistID tid where
    s': "ct_tracks s' = ct_tracks (put_track preserve seq (new_track kind m artID newID albumID artistID seq now) s) \<or>
      ct_tracks s' = ct_tracks (stamp_track tid seq (put_track preserve seq (new_track kind m artID newID albumID artistID seq now) s))"
    using upsert_tracks [OF assms] .
  let ?new = "new_track kind m artID newID albumID artistID seq now"
  let ?t = "case ?old of None \<Rightarrow> ?new | Some t \<Rightarrow> merge_track preserve seq ?new t"
  have same: "track_by_native a k n = track_by_native b k n" if "ct_tracks a = ct_tracks b" for a b k n
    using that by (simp add: track_by_native_def)
  have put: "track_by_native (put_track preserve seq ?new s) kind (tm_NativeID m) = Some ?t"
    using track_by_native_put [of ?new kind "tm_NativeID m" preserve seq s] by (simp add: new_track_def)
  have "track_by_native s' kind (tm_NativeID m) = Some ?t \<or>
      track_by_native s' kind (tm_NativeID m) = Some (?t\<lparr>tk_change_seq := seq\<rparr>)"
    using s'
  proof
    assume "ct_tracks s' = ct_tracks (put_track preserve seq ?new s)"
    from same [OF this] put show ?thesis by simp
  next
    assume "ct_tracks s' = ct_tracks (stamp_track tid seq (put_track preserve seq ?new s))"
    from same [OF this] show ?thesis by (simp only: track_by_native_stamp put option.map) simp
  qed
  moreover have "\<not> tk_missing ?t \<and> tk_seen_seq ?t = seq \<and> tk_title ?t = tm_Title m \<and> tk_genre ?t = tm_Genre m \<and>
      tk_duration_ms ?t = tm_DurationMs m \<and> tk_container ?t = tm_Container m \<and> tk_codec ?t = tm_Codec m \<and>
      tk_size ?t = tm_SizeBytes m \<and> tk_version ?t = tm_Version m"
    by (cases ?old) (simp_all add: new_track_def merge_track_def)
  moreover have "case ?old of
       None \<Rightarrow> tk_change_seq ?t = seq
     | Some t0 \<Rightarrow> tk_track_id ?t = tk_track_id t0 \<and>
         (tk_change_seq ?t = seq \<or> tk_change_seq ?t = tk_change_seq t0 \<and> track_view ?t = track_view t0)"
    using merge_track_seq [of preserve seq ?new] by (cases ?old) (simp_all add: new_track_def merge_track_def)
  ultimately show ?thesis by (rule found_row)
qed



section \<open>The statements that end a scan\<close>

lemma constraints_map_artists:
  assumes "constraints_ok s" and f: "\<And>r. ar_artist_id (f r) = ar_artist_id r" "\<And>r. ar_mbid (f r) = ar_mbid r"
  shows "constraints_ok (s\<lparr>ct_artists := map f (ct_artists s)\<rparr>)"
  using assms by (simp add: constraints_ok_def unique_key_def unique_some_def comp_def image_image)

lemma constraints_map_albums:
  assumes "constraints_ok s" and f: "\<And>r. al_album_id (f r) = al_album_id r" "\<And>r. al_artist_id (f r) = al_artist_id r"
    "\<And>r. al_release_id (f r) = al_release_id r" "\<And>r. al_title (f r) = al_title r"
    "\<And>r. al_missing (f r) = al_missing r"
  shows "constraints_ok (s\<lparr>ct_albums := map f (ct_albums s)\<rparr>)"
  using assms
  by (simp add: constraints_ok_def unique_key_def unique_some_def untagged_identity_def comp_def image_image
      filter_map list_all_iff)

lemma constraints_map_tracks:
  assumes "constraints_ok s" and f: "\<And>r. tk_track_id (f r) = tk_track_id r" "\<And>r. tk_album_id (f r) = tk_album_id r"
    "\<And>r. tk_artist_id (f r) = tk_artist_id r" "\<And>r. tk_source_kind (f r) = tk_source_kind r"
    "\<And>r. tk_native_id (f r) = tk_native_id r"
  shows "constraints_ok (s\<lparr>ct_tracks := map f (ct_tracks s)\<rparr>)"
  using assms by (simp add: constraints_ok_def unique_key_def comp_def image_image list_all_iff)

lemma mark_chunks_map:
  "fst (mark_chunks kind natives seq t n) = map (mark_seen kind natives seq) t"
proof (induction kind natives seq t n rule: mark_chunks.induct)
  case (1 kind natives seq t n)
  show ?case
  proof (cases "natives = []")
    case True
    then show ?thesis by (simp add: mark_chunks.simps mark_seen_def)
  next
    case False
    have "set natives = set (take 400 natives) \<union> set (drop 400 natives)" by (metis append_take_drop_id set_append)
    then have "mark_seen kind (drop 400 natives) seq (mark_seen kind (take 400 natives) seq r) = mark_seen kind natives seq r" for r
      by (auto simp: mark_seen_def)
    then show ?thesis using 1 False by (simp add: mark_chunks.simps [of kind natives] Let_def comp_def)
  qed
qed

lemma mark_seen_stamped:
  "v < seq \<Longrightarrow> tk_track_id (mark_seen kind natives seq t) = tk_track_id t \<and>
    (v < tk_change_seq (mark_seen kind natives seq t) \<or>
     track_view (mark_seen kind natives seq t) = track_view t \<and>
     tk_change_seq (mark_seen kind natives seq t) = tk_change_seq t)"
  by (auto simp: mark_seen_def track_view_def)

lemma MarkTracksSeen_tracks: "fst (MarkTracksSeen kind natives seq s) = s\<lparr>ct_tracks := map (mark_seen kind natives seq) (ct_tracks s)\<rparr>"
  using mark_chunks_map [of kind natives seq "ct_tracks s" 0]
  by (simp add: MarkTracksSeen_def case_prod_unfold)

lemma MarkTracksSeen_keeps:
  "constraints_ok s \<Longrightarrow> constraints_ok (fst (MarkTracksSeen kind natives seq s))"
  "delta_kept v seq s0 s \<Longrightarrow> delta_kept v seq s0 (fst (MarkTracksSeen kind natives seq s))"
  unfolding MarkTracksSeen_tracks
  by (rule constraints_map_tracks; simp add: mark_seen_def)
    (auto simp: delta_defs intro!: stamped_since_map track_shown_row [OF mark_seen_stamped, simplified])

lemmas fs_defs = fs_tracks_def fs_albums_def fs_artists_def fs_album_art_def fs_artist_art_def

lemma FinishScan_Inr: "FinishScan kind seq now s = (s', Inr ()) \<Longrightarrow> s' = scan_ended kind seq now s \<and> constraints_ok s'"
  by (auto simp: FinishScan_def scan_ended_def bindE_Inr exec_def split: if_splits)

lemma FinishScan_constraints: "constraints_ok s \<Longrightarrow> constraints_ok (fst (FinishScan kind seq now s))"
  by (auto simp: FinishScan_def bindE_def exec_def)

lemma delta_fs:
  assumes "delta_kept v seq s0 s"
  shows "delta_kept v seq s0 (fs_tracks kind seq s)" "delta_kept v seq s0 (fs_albums seq s)"
    "delta_kept v seq s0 (fs_artists seq s)" "delta_kept v seq s0 (fs_album_art seq s)"
    "delta_kept v seq s0 (fs_artist_art seq s)"
proof -
  show "delta_kept v seq s0 (fs_tracks kind seq s)"
    using assms unfolding delta_defs fs_tracks_def by (simp add: stamped_since_update)
  show "delta_kept v seq s0 (fs_albums seq s)"
    using assms unfolding delta_defs fs_albums_def by (auto intro!: stamped_since_map simp: album_view_def split: if_splits)
  show "delta_kept v seq s0 (fs_artists seq s)"
    using assms unfolding delta_defs fs_artists_def by (auto intro!: stamped_since_map simp: artist_view_def split: if_splits)
  show "delta_kept v seq s0 (fs_album_art seq s)"
    using assms unfolding delta_defs fs_album_art_def update_where_def
    by (auto intro!: stamped_since_map simp: album_view_def split: if_splits)
  show "delta_kept v seq s0 (fs_artist_art seq s)"
    using assms unfolding delta_defs fs_artist_art_def update_where_def
    by (auto intro!: stamped_since_map simp: artist_view_def split: if_splits)
qed

lemma FinishScan_seq: "ct_scan_seq (fst (FinishScan kind seq now s)) = ct_scan_seq s"
  by (simp add: FinishScan_def bindE_def exec_def fs_defs)

lemma delta_FinishScan:
  assumes "delta_kept v seq s0 s"
  shows "delta_kept v seq s0 (fst (FinishScan kind seq now s))"
proof -
  have "keeps (delta_kept v seq s0) (FinishScan kind seq now)"
    unfolding FinishScan_def
    by (intro keeps_rules keeps_exec delta_fs; (assumption | (rule delta_same_tables, assumption, simp_all)))
  then show ?thesis using assms by (simp add: keeps_def)
qed

section \<open>What is there after a scan\<close>

lemma fs_missing:
  "list_all (\<lambda>a. al_missing a = album_gone (fs_albums seq s) a) (ct_albums (fs_albums seq s))"
  "list_all (\<lambda>r. ar_missing r = artist_gone (fs_artists seq s) r) (ct_artists (fs_artists seq s))"
  by (simp_all add: fs_albums_def fs_artists_def list_all_iff album_gone_def artist_gone_def)

lemma fs_art:
  "list_all (\<lambda>a. al_art_id a = None \<longrightarrow> album_art (fs_album_art seq s) a = None) (ct_albums (fs_album_art seq s))"
  "list_all (\<lambda>r. ar_art_id r = None \<longrightarrow> artist_art (fs_artist_art seq s) r = None) (ct_artists (fs_artist_art seq s))"
  by (auto simp: fs_album_art_def fs_artist_art_def list_all_iff album_art_def artist_art_def set_update_where)

lemma list_all_update_where:
  "(\<And>r. P (f r) = P r) \<Longrightarrow> list_all P (update_where Q f t) = list_all P t"
  by (induction t) auto

lemma list_ex_update_where: "(\<And>r. P (f r) = P r) \<Longrightarrow> list_ex P (update_where Q f t) = list_ex P t"
  by (induction t) auto

text \<open>The art statements leave presence alone.\<close>

lemma fs_art_presence:
  "list_all (\<lambda>a. al_missing a = album_gone (fs_album_art seq s) a) (ct_albums (fs_album_art seq s)) =
    list_all (\<lambda>a. al_missing a = album_gone s a) (ct_albums s)"
  "list_all (\<lambda>r. ar_missing r = artist_gone (fs_album_art seq s) r) (ct_artists (fs_album_art seq s)) =
    list_all (\<lambda>r. ar_missing r = artist_gone s r) (ct_artists s)"
  "list_all (\<lambda>r. ar_missing r = artist_gone (fs_artist_art seq s) r) (ct_artists (fs_artist_art seq s)) =
    list_all (\<lambda>r. ar_missing r = artist_gone s r) (ct_artists s)"
proof -
  show "list_all (\<lambda>a. al_missing a = album_gone (fs_album_art seq s) a) (ct_albums (fs_album_art seq s)) =
      list_all (\<lambda>a. al_missing a = album_gone s a) (ct_albums s)"
    by (simp add: fs_album_art_def album_gone_def list_all_update_where)
  have "list_ex (\<lambda>a. al_artist_id a = i \<and> \<not> al_missing a) (ct_albums (fs_album_art seq s)) =
      list_ex (\<lambda>a. al_artist_id a = i \<and> \<not> al_missing a) (ct_albums s)" for i
    by (simp add: fs_album_art_def list_ex_update_where)
  then show "list_all (\<lambda>r. ar_missing r = artist_gone (fs_album_art seq s) r) (ct_artists (fs_album_art seq s)) =
      list_all (\<lambda>r. ar_missing r = artist_gone s r) (ct_artists s)"
    by (simp only: artist_gone_def) (simp add: fs_album_art_def)
  show "list_all (\<lambda>r. ar_missing r = artist_gone (fs_artist_art seq s) r) (ct_artists (fs_artist_art seq s)) =
      list_all (\<lambda>r. ar_missing r = artist_gone s r) (ct_artists s)"
    by (simp add: fs_artist_art_def artist_gone_def list_all_update_where)
qed

lemma fs_tracks_flags:
  "list_all2 (\<lambda>t t'. tk_track_id t' = tk_track_id t \<and>
       (tk_missing t' \<longleftrightarrow> tk_missing t \<or> tk_source_kind t = kind \<and> tk_seen_seq t < seq))
     (ct_tracks s) (ct_tracks (fs_tracks kind seq s))"
  by (auto simp: fs_tracks_def update_where_def list_all2_conv_all_nth)

lemma scan_ended_settles:
  "list_all2 (\<lambda>t t'. tk_track_id t' = tk_track_id t \<and>
       (tk_missing t' \<longleftrightarrow> tk_missing t \<or> tk_source_kind t = kind \<and> tk_seen_seq t < seq))
     (ct_tracks s) (ct_tracks (scan_ended kind seq now s)) \<and>
   list_all (\<lambda>a. (al_missing a \<longleftrightarrow> album_gone (scan_ended kind seq now s) a) \<and>
       (al_art_id a = None \<longrightarrow> album_art (scan_ended kind seq now s) a = None))
     (ct_albums (scan_ended kind seq now s)) \<and>
   list_all (\<lambda>r. (ar_missing r \<longleftrightarrow> artist_gone (scan_ended kind seq now s) r) \<and>
       (ar_art_id r = None \<longrightarrow> artist_art (scan_ended kind seq now s) r = None))
     (ct_artists (scan_ended kind seq now s))"
proof -
  let ?s1 = "fs_tracks kind seq s" let ?s2 = "fs_albums seq ?s1" let ?s3 = "fs_artists seq ?s2"
  let ?s4 = "fs_album_art seq ?s3" let ?s5 = "fs_artist_art seq ?s4"
  have albums: "list_all (\<lambda>a. al_missing a = album_gone ?s4 a) (ct_albums ?s4)"
    using fs_missing(1) [of seq ?s1] by (simp add: fs_art_presence(1)) (simp add: fs_artists_def album_gone_def)
  have artists: "list_all (\<lambda>r. ar_missing r = artist_gone ?s5 r) (ct_artists ?s5)"
    using fs_missing(2) [of seq ?s2] by (simp add: fs_art_presence(2,3))
  have tables: "ct_tracks (scan_ended kind seq now s) = ct_tracks ?s1" "ct_albums (scan_ended kind seq now s) = ct_albums ?s4"
    "ct_artists (scan_ended kind seq now s) = ct_artists ?s5" "ct_tracks ?s4 = ct_tracks ?s1"
    "ct_albums ?s5 = ct_albums ?s4"
    by (simp_all add: scan_ended_def fs_defs)
  have same: "album_gone (scan_ended kind seq now s) = album_gone ?s4" "album_art (scan_ended kind seq now s) = album_art ?s4"
    "artist_gone (scan_ended kind seq now s) = artist_gone ?s5" "artist_art (scan_ended kind seq now s) = artist_art ?s5"
    by (simp_all add: fun_eq_iff album_gone_def album_art_def artist_gone_def artist_art_def tables)
  show ?thesis
    unfolding same tables using albums artists fs_tracks_flags [of kind seq s] fs_art(1) [of seq ?s3] fs_art(2) [of seq ?s4]
    by (simp add: list_all_iff)
qed

text \<open>C23
  After a scan has scan_ended, a track of its source is present exactly if it was present and the scan
  has seen it, an album exactly if it has a present track, and an artist exactly if it has a present
  album; an album or artist without artwork has none to inherit.
\<close>

theorem finish_scan_presence:
  assumes "FinishScan kind seq now s = (s', Inr ())"
  shows "list_all2 (\<lambda>t t'. tk_track_id t' = tk_track_id t \<and>
       (tk_missing t' \<longleftrightarrow> tk_missing t \<or> tk_source_kind t = kind \<and> tk_seen_seq t < seq))
     (ct_tracks s) (ct_tracks s') \<and>
   list_all (\<lambda>a. (al_missing a \<longleftrightarrow> album_gone s' a) \<and>
       (al_art_id a = None \<longrightarrow> album_art s' a = None))
     (ct_albums s') \<and>
   list_all (\<lambda>r. (ar_missing r \<longleftrightarrow> artist_gone s' r) \<and>
       (ar_art_id r = None \<longrightarrow> artist_art s' r = None))
     (ct_artists s')"
  using scan_ended_settles FinishScan_Inr [OF assms] by blast

text \<open>A scan that did not see the only file of the example.\<close>

lemmas finish_eval = FinishScan_def scan_ended_def bindE_def exec_def fs_defs album_gone_def artist_gone_def album_art_def
  artist_art_def first_by_def demo_defs count_where_def constraints_ok_def unique_key_def unique_some_def untagged_identity_def

lemma demo_finish: "FinishScan ''filesystem'' 2 5 demo_catalog = (scan_ended ''filesystem'' 2 5 demo_catalog, Inr ())"
  by (simp add: finish_eval)

lemma finish_scan_presence_witness:
  "map al_missing (ct_albums (scan_ended ''filesystem'' 2 5 demo_catalog)) = [True] \<and>
   list_all (\<lambda>a. al_missing a \<longleftrightarrow> album_gone (scan_ended ''filesystem'' 2 5 demo_catalog) a)
     (ct_albums (scan_ended ''filesystem'' 2 5 demo_catalog))"
proof
  show "map al_missing (ct_albums (scan_ended ''filesystem'' 2 5 demo_catalog)) = [True]"
    by (simp add: scan_ended_def fs_defs album_gone_def demo_defs count_where_def)
  show "list_all (\<lambda>a. al_missing a \<longleftrightarrow> album_gone (scan_ended ''filesystem'' 2 5 demo_catalog) a)
     (ct_albums (scan_ended ''filesystem'' 2 5 demo_catalog))"
    using finish_scan_presence [OF demo_finish] by (simp add: list_all_iff)
qed

end
