(* ===== verification/CatalogArt.thy ===== *)
theory CatalogArt
  imports Catalog
begin

text \<open>
  Artwork (\<open>internal/store/library.go\<close>, \<open>internal/store/art_attachment.go\<close>): images stored once
  under their hash, attached to tracks, albums and artists with a change stamp, and the retry tiers
  of the entities that still need one. SHA-256 (\<open>sha\<close>) is a parameter; the files are a map from
  paths, and the art directory is a clean path. Disk errors other than writing over a directory are
  not modelled.
\<close>

section \<open>Stored images\<close>

datatype disk_file = NoFile | Directory | Symlink | Regular bytes

type_synonym files = "string \<Rightarrow> disk_file"

datatype art_err = ArtStorageFailed | ArtDatabase cat_err

definition validArtBlob :: "(bytes \<Rightarrow> bytes) \<Rightarrow> files \<Rightarrow> string \<Rightarrow> string \<Rightarrow> bool" where
  "validArtBlob sha fs path hash \<longleftrightarrow> (case fs path of Regular d \<Rightarrow> hex_encode (sha d) = hash | _ \<Rightarrow> False)"

text \<open>\<open>os.WriteFile\<close>: through a symbolic link the write lands elsewhere, over a directory it fails.\<close>

definition write_file :: "files \<Rightarrow> string \<Rightarrow> bytes \<Rightarrow> files option" where
  "write_file fs path d =
     (case fs path of Directory \<Rightarrow> None | Symlink \<Rightarrow> Some fs | _ \<Rightarrow> Some (fs(path := Regular d)))"

definition art_path :: "string \<Rightarrow> string \<Rightarrow> string" where
  "art_path artDir hash = artDir @ ''/'' @ hash"

definition art_by_hash :: "catalog \<Rightarrow> string \<Rightarrow> art_row option" where
  "art_by_hash s hash = select1 (\<lambda>r. at_hash r = hash) (ct_art s)"

text \<open>The file of an image: kept if it has the hash, else written.\<close>

definition store_blob :: "(bytes \<Rightarrow> bytes) \<Rightarrow> string \<Rightarrow> bytes \<Rightarrow> string \<Rightarrow> files \<Rightarrow> files option" where
  "store_blob sha hash data path fs = (if validArtBlob sha fs path hash then Some fs else write_file fs path data)"

definition UpsertArt ::
  "(bytes \<Rightarrow> bytes) \<Rightarrow> string \<Rightarrow> string \<Rightarrow> bytes \<Rightarrow> string \<Rightarrow> catalog \<times> files \<Rightarrow>
   (catalog \<times> files) \<times> (art_err + string)" where
  "UpsertArt sha hash mime data artDir st =
     (case st of (s, fs) \<Rightarrow>
      let existing = art_by_hash s hash;
          path = art_path artDir hash
      in case existing of
           Some r \<Rightarrow>
             if validArtBlob sha fs (at_path r) hash then (st, Inr (at_art_id r))
             else (case store_blob sha hash data path fs of
                     None \<Rightarrow> (st, Inl ArtStorageFailed)
                   | Some fs' \<Rightarrow> ((s\<lparr>ct_art := update_where (\<lambda>x. at_art_id x = at_art_id r)
                         (\<lambda>x. x\<lparr>at_mime := mime, at_path := path\<rparr>) (ct_art s)\<rparr>, fs'), Inr (at_art_id r)))
         | None \<Rightarrow>
             (case store_blob sha hash data path fs of
                None \<Rightarrow> (st, Inl ArtStorageFailed)
              | Some fs' \<Rightarrow>
                  (case bindE (draw_id ''img'') (\<lambda>artID. bindE (exec (\<lambda>s. s\<lparr>ct_art := ct_art s @
                         [\<lparr>at_art_id = artID, at_hash = hash, at_mime = mime, at_path = path\<rparr>]\<rparr>)) (\<lambda>_. returnE artID)) s of
                     (s', Inl e) \<Rightarrow> ((s', fs'), Inl (ArtDatabase e))
                   | (s', Inr artID) \<Rightarrow> ((s', fs'), Inr artID))))"

definition FindArtByHash :: "(bytes \<Rightarrow> bytes) \<Rightarrow> catalog \<times> files \<Rightarrow> string \<Rightarrow> string option" where
  "FindArtByHash sha st hash =
     (case art_by_hash (fst st) hash of
        None \<Rightarrow> None
      | Some r \<Rightarrow> if validArtBlob sha (snd st) (at_path r) (at_hash r) \<and> at_hash r = hash then Some (at_art_id r) else None)"

definition GetArt :: "catalog \<Rightarrow> string \<Rightarrow> (string \<times> string) option" where
  "GetArt s artID = map_option (\<lambda>r. (at_path r, at_mime r)) (select1 (\<lambda>r. at_art_id r = artID) (ct_art s))"

section \<open>Attaching\<close>

definition AttachTrackArt :: "string \<Rightarrow> string \<Rightarrow> string \<Rightarrow> int \<Rightarrow> catalog \<Rightarrow> catalog \<times> (cat_err + bool)" where
  "AttachTrackArt kind native artID seq s =
     (let hit = (\<lambda>t. tk_source_kind t = kind \<and> tk_native_id t = native \<and> tk_art_id t \<noteq> Some artID);
          n = count_where hit (ct_tracks s);
          s' = s\<lparr>ct_tracks := update_where hit (\<lambda>t. t\<lparr>tk_art_id := Some artID, tk_change_seq := seq\<rparr>) (ct_tracks s)\<rparr>
      in if n = 1 then (s', Inr True)
         else case track_by_native s' kind native of
                None \<Rightarrow> (s', Inl NoSuchRow)
              | Some t \<Rightarrow> if tk_art_id t = Some artID then (s', Inr False) else (s', Inl NotConverged))"

text \<open>The album whose art an artist without its own is shown with.\<close>

definition shown_album :: "catalog \<Rightarrow> string \<Rightarrow> album_row option" where
  "shown_album s artistID = first_by (\<lambda>a. (case al_year a of None \<Rightarrow> 9999 | Some y \<Rightarrow> y, to_lower (al_title a), al_album_id a))
     (\<lambda>a. al_artist_id a = artistID \<and> al_art_id a \<noteq> None \<and> \<not> al_missing a) (ct_albums s)"

text \<open>The three statements: the album, then the tracks and the artist that are shown with its image.\<close>

definition put_album_art :: "string \<Rightarrow> string \<Rightarrow> int \<Rightarrow> gotime \<Rightarrow> catalog \<Rightarrow> catalog" where
  "put_album_art albumID artID seq now s =
     s\<lparr>ct_albums := update_where (\<lambda>a. al_album_id a = albumID \<and> al_art_id a = None) (\<lambda>a. a\<lparr>al_art_id := Some artID,
       al_retry := (al_retry a)\<lparr>rt_tried := 1, rt_tried_at := unix now\<rparr>, al_change_seq := seq\<rparr>) (ct_albums s)\<rparr>"

definition stamp_shown_tracks :: "string \<Rightarrow> int \<Rightarrow> catalog \<Rightarrow> catalog" where
  "stamp_shown_tracks albumID seq s =
     s\<lparr>ct_tracks := update_where (\<lambda>t. tk_album_id t = albumID \<and> \<not> tk_missing t \<and> tk_art_id t = None)
       (\<lambda>t. t\<lparr>tk_change_seq := seq\<rparr>) (ct_tracks s)\<rparr>"

definition stamp_shown_artist :: "string \<Rightarrow> int \<Rightarrow> catalog \<Rightarrow> catalog" where
  "stamp_shown_artist albumID seq s =
     (let owner = map_option al_artist_id (select1 (\<lambda>a. al_album_id a = albumID) (ct_albums s))
      in s\<lparr>ct_artists := update_where (\<lambda>r. \<not> ar_missing r \<and> ar_art_id r = None \<and> owner = Some (ar_artist_id r) \<and>
           map_option al_album_id (shown_album s (ar_artist_id r)) = Some albumID)
           (\<lambda>r. r\<lparr>ar_change_seq := seq\<rparr>) (ct_artists s)\<rparr>)"

definition setAlbumArtTx :: "string \<Rightarrow> string \<Rightarrow> int \<Rightarrow> gotime \<Rightarrow> catalog \<Rightarrow> catalog \<times> bool" where
  "setAlbumArtTx albumID artID seq now s =
     (if count_where (\<lambda>a. al_album_id a = albumID \<and> al_art_id a = None) (ct_albums s) \<noteq> 1 then (s, False)
      else (stamp_shown_artist albumID seq (stamp_shown_tracks albumID seq (put_album_art albumID artID seq now s)), True))"

definition SetAlbumArt :: "string \<Rightarrow> string \<Rightarrow> int \<Rightarrow> gotime \<Rightarrow> catalog \<Rightarrow> catalog \<times> bool" where
  "SetAlbumArt = setAlbumArtTx"

definition SetAlbumArtAtNextSequence :: "string \<Rightarrow> string \<Rightarrow> gotime \<Rightarrow> catalog \<Rightarrow> catalog \<times> bool" where
  "SetAlbumArtAtNextSequence albumID artID now s =
     (if \<not> list_ex (\<lambda>a. al_album_id a = albumID \<and> al_art_id a = None) (ct_albums s) then (s, False)
      else (case NextScanSeq s of (s1, seq) \<Rightarrow>
            (case setAlbumArtTx albumID artID seq now s1 of (s2, updated) \<Rightarrow>
               if updated then (s2, True) else (s, False))))"

definition art_or_empty :: "artist_row \<Rightarrow> string" where
  "art_or_empty r = (case ar_art_id r of None \<Rightarrow> '''' | Some a \<Rightarrow> a)"

definition SetArtistArt :: "string \<Rightarrow> string \<Rightarrow> string \<Rightarrow> int \<Rightarrow> gotime \<Rightarrow> catalog \<Rightarrow> catalog \<times> bool" where
  "SetArtistArt artistID expected artID seq now s =
     (let hit = (\<lambda>r. ar_artist_id r = artistID \<and> art_or_empty r = expected)
      in (s\<lparr>ct_artists := update_where hit (\<lambda>r. r\<lparr>ar_art_id := Some artID,
            ar_retry := (ar_retry r)\<lparr>rt_tried := 1, rt_tried_at := unix now\<rparr>, ar_change_seq := seq\<rparr>) (ct_artists s)\<rparr>,
          count_where hit (ct_artists s) = 1))"

definition SetArtistArtAtNextSequence :: "string \<Rightarrow> string \<Rightarrow> string \<Rightarrow> gotime \<Rightarrow> catalog \<Rightarrow> catalog \<times> bool" where
  "SetArtistArtAtNextSequence artistID expected artID now s =
     (if \<not> list_ex (\<lambda>r. ar_artist_id r = artistID \<and> art_or_empty r = expected) (ct_artists s) then (s, False)
      else (case NextScanSeq s of (s1, seq) \<Rightarrow>
            (case SetArtistArt artistID expected artID seq now s1 of (s2, updated) \<Rightarrow>
               if updated then (s2, True) else (s, False))))"

section \<open>Retrying\<close>

datatype ArtAttemptOutcome = ArtAttemptMiss | ArtAttemptTransient

text \<open>\<open>fallback\<close>: an artist shown with an album's image.\<close>

definition mark_attempt :: "bool \<Rightarrow> ArtAttemptOutcome \<Rightarrow> gotime \<Rightarrow> art_retry \<Rightarrow> art_retry" where
  "mark_attempt fallback outcome now rt =
     (case outcome of
        ArtAttemptTransient \<Rightarrow>
          rt\<lparr>rt_tried := 1, rt_tried_at := unix now, rt_next_attempt_at := unix (now + 24 * hour)\<rparr>
      | ArtAttemptMiss \<Rightarrow>
          (let delay = (if fallback then 30 * 24 * hour else 7 * 24 * hour);
               rt = rt\<lparr>rt_tried := 1, rt_tried_at := unix now, rt_miss_count := rt_miss_count rt + 1,
                       rt_next_attempt_at := unix (now + delay)\<rparr>
           in if delay = 7 * 24 * hour \<and> rt_miss_count rt > 1
              then rt\<lparr>rt_next_attempt_at := unix (now + 30 * 24 * hour)\<rparr> else rt))"

definition MarkAlbumArtAttempt :: "string \<Rightarrow> ArtAttemptOutcome \<Rightarrow> gotime \<Rightarrow> catalog \<Rightarrow> catalog" where
  "MarkAlbumArtAttempt albumID outcome now s = s\<lparr>ct_albums := update_where (\<lambda>a. al_album_id a = albumID)
     (\<lambda>a. a\<lparr>al_retry := mark_attempt False outcome now (al_retry a)\<rparr>) (ct_albums s)\<rparr>"

definition MarkArtistArtAttempt :: "string \<Rightarrow> ArtAttemptOutcome \<Rightarrow> gotime \<Rightarrow> catalog \<Rightarrow> catalog \<times> (cat_err + unit)" where
  "MarkArtistArtAttempt artistID outcome now s =
     (let set_retry = (\<lambda>fallback. s\<lparr>ct_artists := update_where (\<lambda>r. ar_artist_id r = artistID)
            (\<lambda>r. r\<lparr>ar_retry := mark_attempt fallback outcome now (ar_retry r)\<rparr>) (ct_artists s)\<rparr>)
      in case outcome of
           ArtAttemptTransient \<Rightarrow> (set_retry False, Inr ())
         | ArtAttemptMiss \<Rightarrow>
             (case select1 (\<lambda>r. ar_artist_id r = artistID) (ct_artists s) of
                None \<Rightarrow> (s, Inl NoSuchRow)
              | Some r \<Rightarrow> (set_retry (ar_art_id r \<noteq> None), Inr ())))"

definition ResetArtRetries :: "bool \<Rightarrow> catalog \<Rightarrow> catalog" where
  "ResetArtRetries artists s =
     (if artists then s\<lparr>ct_artists := map (\<lambda>r. r\<lparr>ar_retry := no_retry\<rparr>) (ct_artists s)\<rparr>
      else s\<lparr>ct_albums := update_where (\<lambda>a. al_art_id a = None) (\<lambda>a. a\<lparr>al_retry := no_retry\<rparr>) (ct_albums s)\<rparr>)"

record AlbumArtNeed =
  an_AlbumID :: string
  an_Title :: string
  an_ArtistName :: string
  an_ReleaseGroupID :: string

record ArtistArtNeed =
  rn_ArtistID :: string
  rn_Name :: string
  rn_ArtID :: string
  rn_MusicBrainzID :: string

definition album_due :: "gotime \<Rightarrow> album_row \<Rightarrow> bool" where
  "album_due now a \<longleftrightarrow> al_art_id a = None \<and> \<not> al_missing a \<and> rt_next_attempt_at (al_retry a) \<le> unix now"

text \<open>The rows come in no stated order; the model lists them in table order.\<close>

definition AlbumsNeedingArtAt :: "catalog \<Rightarrow> gotime \<Rightarrow> nat \<Rightarrow> AlbumArtNeed list" where
  "AlbumsNeedingArtAt s now limit = take limit (List.map_filter (\<lambda>a.
     case select1 (\<lambda>r. ar_artist_id r = al_artist_id a) (ct_artists s) of
       None \<Rightarrow> None
     | Some r \<Rightarrow> Some \<lparr>an_AlbumID = al_album_id a, an_Title = al_title a, an_ArtistName = ar_name r,
         an_ReleaseGroupID = (case al_group_id a of None \<Rightarrow> '''' | Some g \<Rightarrow> g)\<rparr>)
     (filter (album_due now) (ct_albums s)))"

definition CountAlbumsNeedingArtAt :: "catalog \<Rightarrow> gotime \<Rightarrow> nat" where
  "CountAlbumsNeedingArtAt s now = count_where (album_due now) (ct_albums s)"

definition owns_album :: "catalog \<Rightarrow> artist_row \<Rightarrow> bool" where
  "owns_album s r = list_ex (\<lambda>a. al_artist_id a = ar_artist_id r \<and> \<not> al_missing a) (ct_albums s)"

definition artist_due :: "catalog \<Rightarrow> gotime \<Rightarrow> artist_row \<Rightarrow> bool" where
  "artist_due s now r \<longleftrightarrow> \<not> ar_missing r \<and> owns_album s r \<and> rt_next_attempt_at (ar_retry r) \<le> unix now \<and>
     (ar_art_id r = None \<or>
      list_ex (\<lambda>a. al_artist_id a = ar_artist_id r \<and> al_art_id a = ar_art_id r \<and> \<not> al_missing a) (ct_albums s))"

definition ArtistsNeedingArtAt :: "catalog \<Rightarrow> gotime \<Rightarrow> nat \<Rightarrow> ArtistArtNeed list" where
  "ArtistsNeedingArtAt s now limit = take limit (map (\<lambda>r. \<lparr>rn_ArtistID = ar_artist_id r, rn_Name = ar_name r,
     rn_ArtID = art_or_empty r, rn_MusicBrainzID = (case ar_mbid r of None \<Rightarrow> '''' | Some m \<Rightarrow> m)\<rparr>)
     (filter (artist_due s now) (ct_artists s)))"

definition CountArtistsNeedingArtAt :: "catalog \<Rightarrow> gotime \<Rightarrow> nat" where
  "CountArtistsNeedingArtAt s now = count_where (artist_due s now) (ct_artists s)"

definition ArtRetryState :: "catalog \<Rightarrow> bool \<Rightarrow> string \<Rightarrow> (int \<times> seconds) option" where
  "ArtRetryState s artist i =
     map_option (\<lambda>rt. (rt_miss_count rt, rt_next_attempt_at rt))
       (if artist then map_option ar_retry (select1 (\<lambda>r. ar_artist_id r = i) (ct_artists s))
        else map_option al_retry (select1 (\<lambda>a. al_album_id a = i) (ct_albums s)))"

section \<open>Stored once, found again\<close>

lemma write_file_content: "write_file fs path d = Some fs' \<Longrightarrow> fs path \<noteq> Symlink \<Longrightarrow> fs' path = Regular d"
  by (auto simp: write_file_def split: disk_file.splits)

lemma art_by_hash_update:
  assumes "unique_key at_hash t" "r \<in> set t" "at_hash r = hash" "unique_key at_art_id t"
  shows "select1 (\<lambda>x. at_hash x = hash) (update_where (\<lambda>x. at_art_id x = at_art_id r)
    (\<lambda>x. x\<lparr>at_mime := mime, at_path := path\<rparr>) t) = Some (r\<lparr>at_mime := mime, at_path := path\<rparr>)"
proof -
  have "select1 (\<lambda>x. at_hash x = hash) t = Some r" using unique_key_select1 [OF assms(1,2)] assms(3) by simp
  then show ?thesis using assms
  proof (induction t)
    case (Cons x t)
    show ?case
    proof (cases "x = r")
      case False
      then have "at_hash x \<noteq> hash" using Cons.prems by (auto split: if_splits)
      then show ?thesis using Cons by (auto simp: unique_key_def)
    qed (use Cons in simp)
  qed simp
qed


section \<open>Backing off\<close>

lemma marked_retry:
  assumes "a \<in> set (ct_albums (MarkAlbumArtAttempt albumID outcome now s))" and "al_album_id a = albumID"
  shows "\<exists>rt. al_retry a = mark_attempt False outcome now rt"
proof -
  have "(\<exists>b. a = b\<lparr>al_retry := mark_attempt False outcome now (al_retry b)\<rparr>) \<or> al_album_id a \<noteq> albumID"
    using assms(1) by (auto simp: MarkAlbumArtAttempt_def set_update_where)
  then show ?thesis using assms(2) by auto
qed


text \<open>
  An album whose artwork lookup failed is not looked up again before its tier is over (a day for a
  transient error, a week for a miss), and it is due again after thirty days at the latest, as long
  as it is present and without artwork.
\<close>

lemma art_attempts_back_off:
  "(unix t < unix (now + (if outcome = ArtAttemptTransient then 24 * hour else 7 * 24 * hour)) \<longrightarrow>
     albumID \<notin> an_AlbumID ` set (AlbumsNeedingArtAt (MarkAlbumArtAttempt albumID outcome now s) t n)) \<and>
   (unix (now + 30 * 24 * hour) \<le> unix t \<longrightarrow>
     list_all (\<lambda>a. al_album_id a = albumID \<and> al_art_id a = None \<and> \<not> al_missing a \<longrightarrow> album_due t a)
       (ct_albums (MarkAlbumArtAttempt albumID outcome now s)))"
proof -
  have next_at: "unix (now + (if outcome = ArtAttemptTransient then 24 * hour else 7 * 24 * hour)) \<le>
      rt_next_attempt_at (mark_attempt False outcome now rt) \<and>
      rt_next_attempt_at (mark_attempt False outcome now rt) \<le> unix (now + 30 * 24 * hour)" for rt
    by (cases outcome) (auto simp: mark_attempt_def Let_def intro!: unix_mono)
  have "albumID \<notin> an_AlbumID ` set (AlbumsNeedingArtAt (MarkAlbumArtAttempt albumID outcome now s) t n)"
    if early: "unix t < unix (now + (if outcome = ArtAttemptTransient then 24 * hour else 7 * 24 * hour))"
  proof
    assume "albumID \<in> an_AlbumID ` set (AlbumsNeedingArtAt (MarkAlbumArtAttempt albumID outcome now s) t n)"
    then obtain a where a: "a \<in> set (ct_albums (MarkAlbumArtAttempt albumID outcome now s))" "album_due t a"
      "al_album_id a = albumID"
      by (auto simp: AlbumsNeedingArtAt_def List.map_filter_def dest!: in_set_takeD split: option.splits)
    then obtain rt where "al_retry a = mark_attempt False outcome now rt" using marked_retry by blast
    then show False using a(2) early next_at [of rt] by (simp add: album_due_def)
  qed
  moreover have "list_all (\<lambda>a. al_album_id a = albumID \<and> al_art_id a = None \<and> \<not> al_missing a \<longrightarrow> album_due t a)
      (ct_albums (MarkAlbumArtAttempt albumID outcome now s))" if late: "unix (now + 30 * 24 * hour) \<le> unix t"
  proof -
    have "rt_next_attempt_at (al_retry a) \<le> unix t"
      if a: "a \<in> set (ct_albums (MarkAlbumArtAttempt albumID outcome now s))" "al_album_id a = albumID" for a
    proof -
      obtain rt where "al_retry a = mark_attempt False outcome now rt" using marked_retry [OF a] by blast
      then have "rt_next_attempt_at (al_retry a) \<le> unix (now + 30 * 24 * hour)" using next_at by presburger
      then show ?thesis using late by (rule order.trans)
    qed
    then show ?thesis by (simp add: list_all_iff album_due_def)
  qed
  ultimately show ?thesis by blast
qed

lemma art_attempts_back_off_witness:
  "''alb_a'' \<notin> an_AlbumID ` set (AlbumsNeedingArtAt (MarkAlbumArtAttempt ''alb_a'' ArtAttemptMiss 0 demo_catalog) (6 * 24 * hour) 10)"
  using art_attempts_back_off [of "6 * 24 * hour" 0 ArtAttemptMiss "''alb_a''" demo_catalog 10]
  by (simp add: unix_def duration_defs)

section \<open>Artwork changes are stamped\<close>

lemma update_rows_keep:
  assumes "\<And>a. al_album_id (f a) = al_album_id a" "\<And>a. al_artist_id (f a) = al_artist_id a"
    "\<And>a. al_release_id (f a) = al_release_id a" "\<And>a. al_title (f a) = al_title a"
    "\<And>a. al_missing (f a) = al_missing a" and "constraints_ok s"
  shows "constraints_ok (s\<lparr>ct_albums := update_where P f (ct_albums s)\<rparr>)"
  unfolding update_where_def by (rule constraints_map_albums) (use assms in simp_all)

lemma update_artists_keep:
  assumes "\<And>a. ar_artist_id (f a) = ar_artist_id a" "\<And>a. ar_mbid (f a) = ar_mbid a" and "constraints_ok s"
  shows "constraints_ok (s\<lparr>ct_artists := update_where P f (ct_artists s)\<rparr>)"
  unfolding update_where_def by (rule constraints_map_artists) (use assms in simp_all)

lemma update_tracks_keep:
  assumes "\<And>r. tk_track_id (f r) = tk_track_id r" "\<And>r. tk_album_id (f r) = tk_album_id r"
    "\<And>r. tk_artist_id (f r) = tk_artist_id r" "\<And>r. tk_source_kind (f r) = tk_source_kind r"
    "\<And>r. tk_native_id (f r) = tk_native_id r" and "constraints_ok s"
  shows "constraints_ok (s\<lparr>ct_tracks := update_where P f (ct_tracks s)\<rparr>)"
  unfolding update_where_def by (rule constraints_map_tracks) (use assms in simp_all)

lemmas rows_keep = update_rows_keep update_artists_keep update_tracks_keep

lemma delta_albums_update:
  assumes "delta_kept v seq s0 s" and "\<And>a. v < seq \<Longrightarrow> al_album_id (f a) = al_album_id a \<and>
      (v < al_change_seq (f a) \<or> album_view (f a) = album_view a \<and> al_change_seq (f a) = al_change_seq a)"
  shows "delta_kept v seq s0 (s\<lparr>ct_albums := update_where P f (ct_albums s)\<rparr>)"
  using assms unfolding delta_defs by (simp add: stamped_since_update)

lemma delta_artists_update:
  assumes "delta_kept v seq s0 s" and "\<And>a. v < seq \<Longrightarrow> ar_artist_id (f a) = ar_artist_id a \<and>
      (v < ar_change_seq (f a) \<or> artist_view (f a) = artist_view a \<and> ar_change_seq (f a) = ar_change_seq a)"
  shows "delta_kept v seq s0 (s\<lparr>ct_artists := update_where P f (ct_artists s)\<rparr>)"
  using assms unfolding delta_defs by (simp add: stamped_since_update)

lemma delta_tracks_update:
  assumes "delta_kept v seq s0 s" and "\<And>a. v < seq \<Longrightarrow> tk_track_id (f a) = tk_track_id a \<and>
      (v < tk_change_seq (f a) \<or> track_view (f a) = track_view a \<and> tk_change_seq (f a) = tk_change_seq a)"
  shows "delta_kept v seq s0 (s\<lparr>ct_tracks := update_where P f (ct_tracks s)\<rparr>)"
  using assms(1) unfolding delta_defs by (auto intro!: stamped_since_update track_shown_row [OF assms(2)])

lemmas delta_updates = delta_albums_update delta_artists_update delta_tracks_update

lemma AttachTrackArt_keeps:
  "constraints_ok s \<Longrightarrow> constraints_ok (fst (AttachTrackArt kind native artID seq s))"
  "delta_kept v seq s0 s \<Longrightarrow> delta_kept v seq s0 (fst (AttachTrackArt kind native artID seq s))"
  by (auto simp: AttachTrackArt_def Let_def intro!: rows_keep delta_updates split: option.splits)

lemma art_statements_keep:
  "constraints_ok s \<Longrightarrow> constraints_ok (put_album_art albumID artID seq now s)"
  "constraints_ok s \<Longrightarrow> constraints_ok (stamp_shown_tracks albumID seq s)"
  "constraints_ok s \<Longrightarrow> constraints_ok (stamp_shown_artist albumID seq s)"
  unfolding put_album_art_def stamp_shown_tracks_def stamp_shown_artist_def Let_def
  by (simp_all add: rows_keep)

lemma art_statements_delta:
  "delta_kept v seq s0 s \<Longrightarrow> delta_kept v seq s0 (put_album_art albumID artID seq now s)"
  "delta_kept v seq s0 s \<Longrightarrow> delta_kept v seq s0 (stamp_shown_tracks albumID seq s)"
  "delta_kept v seq s0 s \<Longrightarrow> delta_kept v seq s0 (stamp_shown_artist albumID seq s)"
  unfolding put_album_art_def stamp_shown_tracks_def stamp_shown_artist_def Let_def
  by (simp_all add: delta_updates)

lemma setAlbumArtTx_keeps:
  "constraints_ok s \<Longrightarrow> constraints_ok (fst (setAlbumArtTx albumID artID seq now s))"
  "delta_kept v seq s0 s \<Longrightarrow> delta_kept v seq s0 (fst (setAlbumArtTx albumID artID seq now s))"
  by (simp_all add: setAlbumArtTx_def art_statements_keep art_statements_delta)

lemma SetArtistArt_keeps:
  "constraints_ok s \<Longrightarrow> constraints_ok (fst (SetArtistArt artistID expected artID seq now s))"
  "delta_kept v seq s0 s \<Longrightarrow> delta_kept v seq s0 (fst (SetArtistArt artistID expected artID seq now s))"
  by (auto simp: SetArtistArt_def Let_def intro!: rows_keep delta_updates)

text \<open>The variants that allocate the stamp, and the retry bookkeeping, which no client sees.\<close>

definition version :: "catalog \<Rightarrow> int" where
  "version s = (case ct_scan_seq s of None \<Rightarrow> 0 | Some v \<Rightarrow> v)"

text \<open>Storing an image touches the image table alone.\<close>

lemma UpsertArt_tables:
  "\<exists>t n. fst (fst (UpsertArt sha hash mime data artDir (s, fs))) = s\<lparr>ct_art := t, ct_drawn := n\<rparr>"
proof -
  have same: "\<exists>t n. s = s\<lparr>ct_art := t, ct_drawn := n\<rparr>"
    by (rule exI [of _ "ct_art s"], rule exI [of _ "ct_drawn s"]) simp
  have upd: "\<exists>t n. s\<lparr>ct_art := u\<rparr> = s\<lparr>ct_art := t, ct_drawn := n\<rparr>" for u
    by (rule exI [of _ u], rule exI [of _ "ct_drawn s"]) simp
  have drawn: "\<exists>t n. s\<lparr>ct_drawn := d\<rparr> = s\<lparr>ct_art := t, ct_drawn := n\<rparr>" for d
    by (rule exI [of _ "ct_art s"], rule exI [of _ d]) simp
  have both: "\<exists>t n. s\<lparr>ct_drawn := d, ct_art := u\<rparr> = s\<lparr>ct_art := t, ct_drawn := n\<rparr>" for d u
    by (rule exI [of _ u], rule exI [of _ d]) simp
  show ?thesis
    using same upd drawn both
    by (simp add: UpsertArt_def Let_def bindE_def draw_id_def exec_def returnE_def split: option.split)
qed

lemma UpsertArt_keeps:
  assumes "constraints_ok s"
  shows "constraints_ok (fst (fst (UpsertArt sha hash mime data artDir (s, fs))))"
proof -
  have "constraints_ok (s\<lparr>ct_art := update_where P (\<lambda>x. x\<lparr>at_mime := mime, at_path := path\<rparr>) (ct_art s)\<rparr>)" for P path
    using assms by (simp add: constraints_ok_def unique_key_update_where)
  moreover have "constraints_ok (s\<lparr>ct_drawn := d\<rparr>)" for d using assms by (simp add: constraints_ok_def)
  ultimately show ?thesis using assms
    by (simp add: UpsertArt_def Let_def bindE_def draw_id_def exec_def returnE_def split: option.split)
qed

lemma NextScanSeq_version: "NextScanSeq s = (s', seq) \<Longrightarrow> seq = version s + 1 \<and> version s' = seq"
  by (auto simp: NextScanSeq_def version_def Let_def split: option.splits)

lemma NextScanSeq_keeps:
  "constraints_ok s \<Longrightarrow> constraints_ok (fst (NextScanSeq s))"
  "delta_ok v s0 s \<Longrightarrow> delta_ok v s0 (fst (NextScanSeq s))"
  by (simp_all add: NextScanSeq_def Let_def constraints_ok_def delta_ok_def)

lemma retry_keeps:
  "constraints_ok s \<Longrightarrow> constraints_ok (MarkAlbumArtAttempt albumID outcome now s)"
  "constraints_ok s \<Longrightarrow> constraints_ok (fst (MarkArtistArtAttempt artistID outcome now s))"
  "constraints_ok s \<Longrightarrow> constraints_ok (ResetArtRetries b s)"
  "delta_kept v seq s0 s \<Longrightarrow> delta_kept v seq s0 (MarkAlbumArtAttempt albumID outcome now s)"
  "delta_kept v seq s0 s \<Longrightarrow> delta_kept v seq s0 (fst (MarkArtistArtAttempt artistID outcome now s))"
proof -
  show "constraints_ok s \<Longrightarrow> constraints_ok (MarkAlbumArtAttempt albumID outcome now s)"
    by (auto simp: MarkAlbumArtAttempt_def intro!: rows_keep)
  show "constraints_ok s \<Longrightarrow> constraints_ok (fst (MarkArtistArtAttempt artistID outcome now s))"
    by (auto simp: MarkArtistArtAttempt_def Let_def intro!: rows_keep split: ArtAttemptOutcome.splits option.splits)
  show "constraints_ok s \<Longrightarrow> constraints_ok (ResetArtRetries b s)"
    by (auto simp: ResetArtRetries_def intro!: rows_keep constraints_map_artists)
  show "delta_kept v seq s0 s \<Longrightarrow> delta_kept v seq s0 (MarkAlbumArtAttempt albumID outcome now s)"
    by (auto simp: MarkAlbumArtAttempt_def album_view_def intro!: delta_updates)
  show "delta_kept v seq s0 s \<Longrightarrow> delta_kept v seq s0 (fst (MarkArtistArtAttempt artistID outcome now s))"
    by (auto simp: MarkArtistArtAttempt_def Let_def artist_view_def intro!: delta_updates
        split: ArtAttemptOutcome.splits option.splits)
qed

end
