(* ===== verification/SourceCache.thy ===== *)
theory SourceCache
  imports CatalogArt
begin

text \<open>
  What the store keeps of a music source (\<open>internal/store/source_file_cache.go\<close>): the parses of its
  files with their fingerprints, the configured filesystem root with its generation, and the
  transaction that ends a scan. A parse is stored as JSON: a row holds the \<open>TrackMeta\<close> that
  \<open>json.Unmarshal\<close> gives back, or nothing where that fails. Settings are the values they hold.
\<close>

section \<open>State\<close>

record SourceFileCacheEntry =
  fe_Candidate :: TrackCandidate
  fe_Meta :: TrackMeta
  fe_CanonicalExists :: bool
  fe_ArtPending :: bool

record SourceInstance =
  si_ID :: string
  si_Root :: string
  si_Generation :: int
  si_Replaced :: bool

record cache_row =
  fc_source :: string
  fc_kind :: string
  fc_native :: string
  fc_size :: int
  fc_mtime :: int
  fc_parser :: int
  fc_meta :: "TrackMeta option"
  fc_art_pending :: bool

record source_settings =
  ss_kind :: "string option"
  ss_path :: "string option"
  ss_id :: "string option"
  ss_generation :: "int option"

record scan_store =
  sv_cat :: catalog
  sv_files :: files
  sv_cache :: "cache_row table"
  sv_settings :: source_settings

section \<open>The cache of parsed files\<close>

definition cache_key :: "cache_row \<Rightarrow> string \<times> string \<times> string" where
  "cache_key r = (fc_source r, fc_kind r, fc_native r)"

definition cache_entry :: "catalog \<Rightarrow> cache_row \<Rightarrow> SourceFileCacheEntry option" where
  "cache_entry s r =
     (case fc_meta r of
        None \<Rightarrow> None
      | Some m \<Rightarrow>
          if tm_NativeID m \<noteq> fc_native r then None
          else Some \<lparr>fe_Candidate = \<lparr>tc_NativeID = fc_native r, tc_SizeBytes = fc_size r, tc_MtimeNS = fc_mtime r\<rparr>,
                 fe_Meta = m, fe_CanonicalExists = track_by_native s (fc_kind r) (fc_native r) \<noteq> None,
                 fe_ArtPending = fc_art_pending r\<rparr>)"

definition LoadSourceFileCache :: "scan_store \<Rightarrow> string \<Rightarrow> string \<Rightarrow> int \<Rightarrow> string \<Rightarrow> SourceFileCacheEntry option" where
  "LoadSourceFileCache s sourceID kind parser native =
     (case select1 (\<lambda>r. cache_key r = (sourceID, kind, native)) (sv_cache s) of
        None \<Rightarrow> None | Some r \<Rightarrow> if fc_parser r = parser then cache_entry (sv_cat s) r else None)"

definition cache_row_of :: "string \<Rightarrow> string \<Rightarrow> int \<Rightarrow> TrackCandidate \<Rightarrow> TrackMeta \<Rightarrow> bool \<Rightarrow> cache_row" where
  "cache_row_of sourceID kind parser c m pending =
     \<lparr>fc_source = sourceID, fc_kind = kind, fc_native = tc_NativeID c, fc_size = tc_SizeBytes c,
      fc_mtime = tc_MtimeNS c, fc_parser = parser, fc_meta = Some m, fc_art_pending = pending\<rparr>"

definition put_cache_row :: "cache_row \<Rightarrow> cache_row table \<Rightarrow> cache_row table" where
  "put_cache_row x = upsert cache_key x (\<lambda>r. r\<lparr>fc_size := fc_size x, fc_mtime := fc_mtime x, fc_parser := fc_parser x,
     fc_meta := fc_meta x, fc_art_pending := fc_art_pending x\<rparr>)"

definition PutSourceFileCacheState ::
  "string \<Rightarrow> string \<Rightarrow> int \<Rightarrow> TrackCandidate \<Rightarrow> TrackMeta \<Rightarrow> bool \<Rightarrow> scan_store \<Rightarrow> scan_store" where
  "PutSourceFileCacheState sourceID kind parser c m pending s =
     s\<lparr>sv_cache := put_cache_row (cache_row_of sourceID kind parser c m pending) (sv_cache s)\<rparr>"

definition PutSourceFileCache ::
  "string \<Rightarrow> string \<Rightarrow> int \<Rightarrow> TrackCandidate \<Rightarrow> TrackMeta \<Rightarrow> scan_store \<Rightarrow> scan_store" where
  "PutSourceFileCache sourceID kind parser c m s = PutSourceFileCacheState sourceID kind parser c m False s"

text \<open>The rows of the source that the scan did not come across, deleted one by one.\<close>

definition stale_rows :: "string \<Rightarrow> string \<Rightarrow> string list \<Rightarrow> cache_row table \<Rightarrow> string list" where
  "stale_rows sourceID kind encountered t =
     filter (\<lambda>n. n \<notin> set encountered) (map fc_native (filter (\<lambda>r. fc_source r = sourceID \<and> fc_kind r = kind) t))"

fun delete_rows :: "string \<Rightarrow> string \<Rightarrow> string list \<Rightarrow> cache_row table \<Rightarrow> cache_row table" where
  "delete_rows sourceID kind [] t = t"
| "delete_rows sourceID kind (n # ns) t =
     delete_rows sourceID kind ns (delete_where (\<lambda>r. cache_key r = (sourceID, kind, n)) t)"

definition PruneSourceFileCache :: "string \<Rightarrow> string \<Rightarrow> string list \<Rightarrow> scan_store \<Rightarrow> scan_store" where
  "PruneSourceFileCache sourceID kind encountered s =
     s\<lparr>sv_cache := delete_rows sourceID kind (stale_rows sourceID kind encountered (sv_cache s)) (sv_cache s)\<rparr>"

text \<open>One transaction; \<open>encountered\<close> and \<open>seen\<close> are the keys of Go maps, in some order.\<close>

definition FinalizeSourceScan ::
  "string \<Rightarrow> int \<Rightarrow> string \<Rightarrow> string list \<Rightarrow> string list \<Rightarrow> seconds \<Rightarrow> scan_store \<Rightarrow> scan_store \<times> (cat_err + unit)" where
  "FinalizeSourceScan kind seq sourceID encountered seen now s =
     (case FinishScan kind seq now (fst (MarkTracksSeen kind seen seq (sv_cat s))) of
        (_, Inl e) \<Rightarrow> (s, Inl e)
      | (c, Inr _) \<Rightarrow> ((PruneSourceFileCache sourceID kind encountered s)\<lparr>sv_cat := c\<rparr>, Inr ()))"

lemma FinalizeSourceScan_Inr:
  assumes "FinalizeSourceScan kind seq sourceID encountered seen now s = (s', Inr ())"
  shows "s' = (PruneSourceFileCache sourceID kind encountered s)
      \<lparr>sv_cat := scan_ended kind seq now (fst (MarkTracksSeen kind seen seq (sv_cat s)))\<rparr>"
    and "constraints_ok (sv_cat s')"
    and "FinishScan kind seq now (fst (MarkTracksSeen kind seen seq (sv_cat s))) = (sv_cat s', Inr ())"
  using assms FinishScan_Inr by (auto simp: FinalizeSourceScan_def split: prod.splits sum.splits)

lemma FinalizeSourceScan_Inl:
  "FinalizeSourceScan kind seq sourceID encountered seen now s = (s', Inl e) \<Longrightarrow> s' = s"
  by (auto simp: FinalizeSourceScan_def split: prod.splits sum.splits)

section \<open>The configured source\<close>

definition text_or_empty :: "string option \<Rightarrow> string" where
  "text_or_empty v = (case v of None \<Rightarrow> '''' | Some x \<Rightarrow> x)"

definition generation_of :: "source_settings \<Rightarrow> int" where
  "generation_of ss = (case ss_generation ss of None \<Rightarrow> 0 | Some g \<Rightarrow> g)"

text \<open>\<open>normalized\<close> is the absolute, clean form of the root, or nothing if it has none.\<close>

datatype source_err = NoAbsolutePath | SourceStoreErr cat_err

definition replace_source :: "seconds \<Rightarrow> catalog \<Rightarrow> catalog \<times> (cat_err + unit)" where
  "replace_source now c = (case NextScanSeq c of (c', seq) \<Rightarrow> FinishScan ''filesystem'' seq now c')"

definition ConfigureFilesystemSource ::
  "string option \<Rightarrow> seconds \<Rightarrow> scan_store \<Rightarrow> scan_store \<times> (source_err + SourceInstance \<times> bool)" where
  "ConfigureFilesystemSource normalized now s =
     (case normalized of
        None \<Rightarrow> (s, Inl NoAbsolutePath)
      | Some dir \<Rightarrow>
          (let cfg = sv_settings s;
               currentRoot = text_or_empty (ss_path cfg); oldID = text_or_empty (ss_id cfg);
               changed = (currentRoot \<noteq> dir \<or> oldID = '''');
               replaced = (currentRoot \<noteq> '''' \<and> currentRoot \<noteq> dir);
               drawn = new_id ''src'' (ct_rnd (sv_cat s) (ct_drawn (sv_cat s)));
               sid = (if changed then drawn else oldID);
               generation = (if changed then generation_of cfg + 1 else generation_of cfg);
               s0 = (if changed then s\<lparr>sv_cat := (sv_cat s)\<lparr>ct_drawn := ct_drawn (sv_cat s) + 1\<rparr>\<rparr> else s);
               s1 = (if changed then s0\<lparr>sv_cache := delete_where (\<lambda>r. fc_kind r = ''filesystem'') (sv_cache s0)\<rparr> else s0)
           in case (if replaced then replace_source now (sv_cat s1) else returnE () (sv_cat s1)) of
                (_, Inl e) \<Rightarrow> (s0, Inl (SourceStoreErr e))
              | (c, Inr _) \<Rightarrow>
                  (s1\<lparr>sv_cat := c, sv_settings := \<lparr>ss_kind = Some ''filesystem'', ss_path = Some dir, ss_id = Some sid,
                      ss_generation = Some generation\<rparr>\<rparr>,
                   Inr (\<lparr>si_ID = sid, si_Root = dir, si_Generation = generation, si_Replaced = replaced\<rparr>, changed))))"

definition FilesystemSourceInstance :: "scan_store \<Rightarrow> SourceInstance option" where
  "FilesystemSourceInstance s =
     (case (ss_path (sv_settings s), ss_id (sv_settings s), ss_generation (sv_settings s)) of
        (Some dir, Some sid, Some g) \<Rightarrow>
          if dir = '''' then None
          else Some \<lparr>si_ID = sid, si_Root = dir, si_Generation = g, si_Replaced = False\<rparr>
      | _ \<Rightarrow> None)"

definition UnlinkFilesystemSource :: "seconds \<Rightarrow> scan_store \<Rightarrow> scan_store \<times> (cat_err + int)" where
  "UnlinkFilesystemSource now s =
     (let generation = generation_of (sv_settings s) + 1
      in case replace_source now (sv_cat s) of
           (_, Inl e) \<Rightarrow> (s, Inl e)
         | (c, Inr _) \<Rightarrow>
             (s\<lparr>sv_cache := delete_where (\<lambda>r. fc_kind r = ''filesystem'') (sv_cache s),
                sv_settings := \<lparr>ss_kind = Some '''', ss_path = Some '''', ss_id = Some '''', ss_generation = Some generation\<rparr>,
                sv_cat := c\<rparr>, Inr generation))"

section \<open>The cache as a keyed table\<close>

definition get_cache_row :: "cache_row table \<Rightarrow> string \<times> string \<times> string \<Rightarrow> (int \<times> int \<times> int \<times> TrackMeta option \<times> bool) option" where
  "get_cache_row t k = map_option (\<lambda>r. (fc_size r, fc_mtime r, fc_parser r, fc_meta r, fc_art_pending r))
     (select1 (\<lambda>r. cache_key r = k) t)"

definition keyed_row :: "string \<times> string \<times> string \<Rightarrow> int \<times> int \<times> int \<times> TrackMeta option \<times> bool \<Rightarrow> cache_row" where
  "keyed_row k v = (case (k, v) of ((s, kind, n), (sz, mtime, parser, m, pending)) \<Rightarrow>
     \<lparr>fc_source = s, fc_kind = kind, fc_native = n, fc_size = sz, fc_mtime = mtime, fc_parser = parser,
      fc_meta = m, fc_art_pending = pending\<rparr>)"

lemma put_cache_row_lookup:
  "select1 (\<lambda>r. cache_key r = k) (put_cache_row x t) =
    (if cache_key x = k then Some x else select1 (\<lambda>r. cache_key r = k) t)"
proof -
  let ?f = "\<lambda>r. r\<lparr>fc_size := fc_size x, fc_mtime := fc_mtime x, fc_parser := fc_parser x, fc_meta := fc_meta x,
    fc_art_pending := fc_art_pending x\<rparr>"
  have key: "cache_key (?f r) = cache_key r" for r by (simp add: cache_key_def)
  have "?f r = x" if "cache_key r = cache_key x" for r using that by (cases r, cases x) (simp add: cache_key_def)
  then have "select1 (\<lambda>r. cache_key r = cache_key x) (put_cache_row x t) = Some x"
    using select1_upsert_same [of cache_key ?f x t, OF key] select1_SomeD
    by (fastforce simp: put_cache_row_def split: option.splits)
  moreover have "select1 (\<lambda>r. cache_key r = k) (put_cache_row x t) = select1 (\<lambda>r. cache_key r = k) t" if "k \<noteq> cache_key x"
    using select1_upsert_other [of cache_key ?f k x t, OF key that] by (simp add: put_cache_row_def)
  ultimately show ?thesis by auto
qed

interpretation parsed_files: keyed_table get_cache_row "\<lambda>t k v. put_cache_row (keyed_row k v) t"
  "\<lambda>t k. delete_where (\<lambda>r. cache_key r = k) t"
proof unfold_locales
  fix t k v
  have key: "cache_key (keyed_row k v) = k" by (simp add: cache_key_def keyed_row_def split: prod.split)
  show "get_cache_row (put_cache_row (keyed_row k v) t) k = Some v"
    by (simp add: get_cache_row_def put_cache_row_lookup key) (simp add: keyed_row_def split: prod.split)
  show "get_cache_row (put_cache_row (keyed_row k v) t) j = get_cache_row t j" if "j \<noteq> k" for j
    using that by (simp add: get_cache_row_def put_cache_row_lookup key)
  have "select1 (\<lambda>r. cache_key r = j) (delete_where (\<lambda>r. cache_key r = k) t) = (if j = k then None else select1 (\<lambda>r. cache_key r = j) t)"
    for j by (induction t) auto
  then show "get_cache_row (delete_where (\<lambda>r. cache_key r = k) t) k = None"
    "j \<noteq> k \<Longrightarrow> get_cache_row (delete_where (\<lambda>r. cache_key r = k) t) j = get_cache_row t j" for j
    by (simp_all add: get_cache_row_def)
qed

text \<open>Deleting the stale rows keeps exactly what the scan came across, and all other sources' rows.\<close>

lemma delete_rows_filter:
  "delete_rows sourceID kind ns t = filter (\<lambda>r. \<not> (fc_source r = sourceID \<and> fc_kind r = kind \<and> fc_native r \<in> set ns)) t"
  by (induction ns arbitrary: t) (auto simp: delete_where_def cache_key_def intro: filter_cong)

lemma PruneSourceFileCache_rows:
  "sv_cache (PruneSourceFileCache sourceID kind encountered s) =
    filter (\<lambda>r. fc_source r = sourceID \<and> fc_kind r = kind \<longrightarrow> fc_native r \<in> set encountered) (sv_cache s)"
  by (auto simp: PruneSourceFileCache_def delete_rows_filter stale_rows_def intro!: filter_cong)

lemma scan_ended_tracks:
  "ct_tracks (scan_ended kind seq now c) =
    update_where (\<lambda>t. tk_source_kind t = kind \<and> tk_seen_seq t < seq \<and> \<not> tk_missing t)
      (\<lambda>t. t\<lparr>tk_missing := True, tk_change_seq := seq\<rparr>) (ct_tracks c)"
  by (simp add: scan_ended_def fs_defs)

text \<open>No row of a kind that no file was seen of is present after the scan's end.\<close>

lemma scan_ended_all_gone:
  assumes "\<forall>t \<in> set (ct_tracks c). tk_source_kind t = kind \<longrightarrow> tk_seen_seq t < seq"
  shows "\<forall>t \<in> set (ct_tracks (scan_ended kind seq now c)). tk_source_kind t = kind \<longrightarrow> tk_missing t"
proof -
  have "list_all (\<lambda>t. tk_source_kind t = kind \<longrightarrow> tk_missing t)
      (update_where (\<lambda>t. tk_source_kind t = kind \<and> tk_seen_seq t < seq \<and> \<not> tk_missing t)
        (\<lambda>t. t\<lparr>tk_missing := True, tk_change_seq := seq\<rparr>) ts)"
    if "\<forall>t \<in> set ts. tk_source_kind t = kind \<longrightarrow> tk_seen_seq t < seq" for ts
    using that by (induction ts) simp_all
  then show ?thesis using assms unfolding scan_ended_tracks list_all_iff by blast
qed

text \<open>The number of the last scan bounds what any track was seen in.\<close>

definition seen_bounded :: "catalog \<Rightarrow> bool" where
  "seen_bounded s \<longleftrightarrow> list_all (\<lambda>t. tk_seen_seq t \<le> version s) (ct_tracks s)"

lemma replace_source_gone:
  assumes "seen_bounded c" and "replace_source now c = (c', Inr ())"
  shows "list_all (\<lambda>t. tk_source_kind t = ''filesystem'' \<longrightarrow> tk_missing t) (ct_tracks c')"
proof -
  obtain d seq where step: "NextScanSeq c = (d, seq)" by fastforce
  have c': "c' = scan_ended ''filesystem'' seq now d"
    using assms(2) step FinishScan_Inr by (simp add: replace_source_def)
  have "ct_tracks d = ct_tracks c" using step by (auto simp: NextScanSeq_def Let_def)
  moreover have "version c < seq" using NextScanSeq_version [OF step] by simp
  ultimately have "\<forall>t \<in> set (ct_tracks d). tk_source_kind t = ''filesystem'' \<longrightarrow> tk_seen_seq t < seq"
    using assms(1) by (force simp: seen_bounded_def list_all_iff)
  then show ?thesis using scan_ended_all_gone c' by (simp add: list_all_iff)
qed

text \<open>C28
  Linking another root, or unlinking, leaves no present file of the old one and no cached parse, under
  a generation of its own, and the configured source is then the one that was asked for; or it fails
  on a constraint of the catalogue and leaves the tables, the cache and the settings as they were.
\<close>

theorem replaced_root_leaves_nothing:
  assumes "seen_bounded (sv_cat s)" and "text_or_empty (ss_path (sv_settings s)) \<noteq> ''''"
    and "dir \<noteq> text_or_empty (ss_path (sv_settings s))"
  shows "(case ConfigureFilesystemSource (Some dir) now s of
      (s', Inl e) \<Rightarrow> e = SourceStoreErr ConstraintFailed \<and>
        s' = s\<lparr>sv_cat := (sv_cat s)\<lparr>ct_drawn := ct_drawn (sv_cat s) + 1\<rparr>\<rparr>
    | (s', Inr (inst, changed)) \<Rightarrow> changed \<and> si_Replaced inst \<and> si_Generation inst = generation_of (sv_settings s) + 1 \<and>
        list_all (\<lambda>t. tk_source_kind t = ''filesystem'' \<longrightarrow> tk_missing t) (ct_tracks (sv_cat s')) \<and>
        list_all (\<lambda>r. fc_kind r \<noteq> ''filesystem'') (sv_cache s') \<and>
        (dir \<noteq> '''' \<longrightarrow> FilesystemSourceInstance s' = Some (inst\<lparr>si_Replaced := False\<rparr>))) \<and>
    (case UnlinkFilesystemSource now s of
      (s', Inl e) \<Rightarrow> e = ConstraintFailed \<and> s' = s
    | (s', Inr g) \<Rightarrow> g = generation_of (sv_settings s) + 1 \<and>
        list_all (\<lambda>t. tk_source_kind t = ''filesystem'' \<longrightarrow> tk_missing t) (ct_tracks (sv_cat s')) \<and>
        list_all (\<lambda>r. fc_kind r \<noteq> ''filesystem'') (sv_cache s') \<and> FilesystemSourceInstance s' = None)"
proof
  let ?c = "(sv_cat s)\<lparr>ct_drawn := ct_drawn (sv_cat s) + 1\<rparr>"
  obtain c1 o1 where r1: "replace_source now ?c = (c1, o1)" by fastforce
  obtain c2 o2 where r2: "replace_source now (sv_cat s) = (c2, o2)" by fastforce
  have b: "seen_bounded ?c" using assms(1) by (simp add: seen_bounded_def version_def)
  have err: "ou = Inl e \<Longrightarrow> replace_source now c = (c', ou) \<Longrightarrow> e = ConstraintFailed" for c c' ou e
    by (auto simp: replace_source_def FinishScan_def bindE_def exec_def split: prod.splits if_splits)
  show "case ConfigureFilesystemSource (Some dir) now s of
      (s', Inl e) \<Rightarrow> e = SourceStoreErr ConstraintFailed \<and>
        s' = s\<lparr>sv_cat := (sv_cat s)\<lparr>ct_drawn := ct_drawn (sv_cat s) + 1\<rparr>\<rparr>
    | (s', Inr (inst, changed)) \<Rightarrow> changed \<and> si_Replaced inst \<and> si_Generation inst = generation_of (sv_settings s) + 1 \<and>
        list_all (\<lambda>t. tk_source_kind t = ''filesystem'' \<longrightarrow> tk_missing t) (ct_tracks (sv_cat s')) \<and>
        list_all (\<lambda>r. fc_kind r \<noteq> ''filesystem'') (sv_cache s') \<and>
        (dir \<noteq> '''' \<longrightarrow> FilesystemSourceInstance s' = Some (inst\<lparr>si_Replaced := False\<rparr>))"
    using assms(2,3) r1 replace_source_gone [OF b, of now c1] err [of o1 _ ?c c1]
    by (cases o1) (auto simp: ConfigureFilesystemSource_def FilesystemSourceInstance_def Let_def text_or_empty_def list_all_iff)
  show "case UnlinkFilesystemSource now s of
      (s', Inl e) \<Rightarrow> e = ConstraintFailed \<and> s' = s
    | (s', Inr g) \<Rightarrow> g = generation_of (sv_settings s) + 1 \<and>
        list_all (\<lambda>t. tk_source_kind t = ''filesystem'' \<longrightarrow> tk_missing t) (ct_tracks (sv_cat s')) \<and>
        list_all (\<lambda>r. fc_kind r \<noteq> ''filesystem'') (sv_cache s') \<and> FilesystemSourceInstance s' = None"
    using r2 replace_source_gone [OF assms(1), of now c2] err [of o2 _ "sv_cat s" c2]
    by (cases o2) (auto simp: UnlinkFilesystemSource_def FilesystemSourceInstance_def Let_def list_all_iff)
qed

text \<open>The example catalogue with its file cached, linked to one root.\<close>

definition demo_store :: scan_store where
  "demo_store = \<lparr>sv_cat = demo_catalog, sv_files = (\<lambda>_. NoFile),
     sv_cache = [cache_row_of ''src_a'' ''filesystem'' 2 \<lparr>tc_NativeID = ''a.flac'', tc_SizeBytes = 10, tc_MtimeNS = 7\<rparr>
       (demo_meta ''Song'') False],
     sv_settings = \<lparr>ss_kind = Some ''filesystem'', ss_path = Some ''/music'', ss_id = Some ''src_a'', ss_generation = Some 4\<rparr>\<rparr>"

lemma demo_seen_bounded: "seen_bounded (sv_cat demo_store)"
  by (simp add: seen_bounded_def demo_store_def demo_defs version_def)

lemma demo_replace: "\<exists>c. replace_source 9 (sv_cat demo_store) = (c, Inr ())"
  by (simp add: replace_source_def NextScanSeq_def Let_def demo_store_def finish_eval)

lemma replaced_root_leaves_nothing_witness:
  "snd (UnlinkFilesystemSource 9 demo_store) = Inr 5 \<and> sv_cache demo_store \<noteq> [] \<and>
   list_all (\<lambda>t. tk_source_kind t = ''filesystem'' \<longrightarrow> tk_missing t)
     (ct_tracks (sv_cat (fst (UnlinkFilesystemSource 9 demo_store))))"
proof -
  have path: "text_or_empty (ss_path (sv_settings demo_store)) \<noteq> ''''"
    "''/other'' \<noteq> text_or_empty (ss_path (sv_settings demo_store))" "generation_of (sv_settings demo_store) = 4"
    by (simp_all add: demo_store_def text_or_empty_def generation_of_def)
  have "sv_cache demo_store \<noteq> []" by (simp add: demo_store_def)
  moreover obtain c where "replace_source 9 (sv_cat demo_store) = (c, Inr ())" using demo_replace by blast
  then have "\<exists>s'. UnlinkFilesystemSource 9 demo_store = (s', Inr 5)"
    by (simp add: UnlinkFilesystemSource_def path(3))
  ultimately show ?thesis
    using replaced_root_leaves_nothing [OF demo_seen_bounded path(1,2), of 9] by auto
qed

end
