(* ===== verification/CatalogRead.thy ===== *)
theory CatalogRead
  imports CatalogArt
begin

text \<open>
  Reading the catalogue (\<open>internal/store/library.go\<close>): single rows with their credits, the paged
  lists, the genre list and the substring search. A track without credits is an error of the whole
  query, as in \<open>hydrateTrackCredits\<close>. Where the code leaves the order of equal rows open, the
  model keeps the table order.
\<close>

record ArtistRow =
  ax_ArtistID :: string
  ax_Name :: string
  ax_ArtID :: string
  ax_AlbumCount :: nat
  ax_TrackCount :: nat
  ax_Genres :: "string list"
  ax_MusicBrainzID :: string
  ax_Aliases :: "string list"

record AlbumRow =
  bx_AlbumID :: string
  bx_Title :: string
  bx_ArtistID :: string
  bx_ArtistName :: string
  bx_Year :: int
  bx_ArtID :: string
  bx_TrackCount :: nat
  bx_UpdatedAt :: seconds
  bx_PrimaryArtist :: ArtistCreditRow
  bx_ArtistCredits :: "ArtistCreditRow list"
  bx_MusicBrainzReleaseID :: string
  bx_MusicBrainzReleaseGroupID :: string

definition or_empty :: "string option \<Rightarrow> string" where
  "or_empty v = (case v of None \<Rightarrow> '''' | Some s \<Rightarrow> s)"

definition or_zero :: "int option \<Rightarrow> int" where
  "or_zero v = (case v of None \<Rightarrow> 0 | Some i \<Rightarrow> i)"

section \<open>Single rows\<close>

definition artist_by_id :: "catalog \<Rightarrow> string \<Rightarrow> artist_row option" where
  "artist_by_id s i = select1 (\<lambda>r. ar_artist_id r = i) (ct_artists s)"

definition album_by_id :: "catalog \<Rightarrow> string \<Rightarrow> album_row option" where
  "album_by_id s i = select1 (\<lambda>a. al_album_id a = i) (ct_albums s)"

definition track_by_id :: "catalog \<Rightarrow> string \<Rightarrow> track_row option" where
  "track_by_id s i = select1 (\<lambda>t. tk_track_id t = i) (ct_tracks s)"

text \<open>The artist's own image, or that of its first album.\<close>

definition artistArt :: "catalog \<Rightarrow> artist_row \<Rightarrow> string" where
  "artistArt s r = (case ar_art_id r of Some a \<Rightarrow> a
     | None \<Rightarrow> (case shown_album s (ar_artist_id r) of None \<Rightarrow> '''' | Some a \<Rightarrow> or_empty (al_art_id a)))"

definition artistGenres :: "catalog \<Rightarrow> string \<Rightarrow> string list" where
  "artistGenres s i = map (snd \<circ> snd) (sort_key (\<lambda>g. fst (snd g)) (filter (\<lambda>g. fst g = i) (ct_genres s)))"

definition artistAliases :: "catalog \<Rightarrow> string \<Rightarrow> string list" where
  "artistAliases s i = sort_key to_lower (map snd (filter (\<lambda>r. fst r = i) (ct_aliases s)))"

definition artist_columns :: "catalog \<Rightarrow> artist_row \<Rightarrow> ArtistRow" where
  "artist_columns s r = \<lparr>ax_ArtistID = ar_artist_id r, ax_Name = ar_name r, ax_ArtID = artistArt s r,
     ax_AlbumCount = count_where (\<lambda>a. al_artist_id a = ar_artist_id r \<and> \<not> al_missing a) (ct_albums s),
     ax_TrackCount = count_where (\<lambda>t. \<not> tk_missing t \<and>
       list_ex (\<lambda>c. cr_owner c = tk_track_id t \<and> cr_artist_id c = ar_artist_id r) (ct_track_credits s)) (ct_tracks s),
     ax_Genres = [], ax_MusicBrainzID = or_empty (ar_mbid r), ax_Aliases = []\<rparr>"

definition artist_row_of :: "catalog \<Rightarrow> artist_row \<Rightarrow> ArtistRow" where
  "artist_row_of s r = (artist_columns s r)\<lparr>ax_Genres := artistGenres s (ar_artist_id r),
     ax_Aliases := artistAliases s (ar_artist_id r)\<rparr>"

definition GetArtist :: "catalog \<Rightarrow> string \<Rightarrow> ArtistRow option" where
  "GetArtist s i = (case artist_by_id s i of
     None \<Rightarrow> None | Some r \<Rightarrow> if ar_missing r then None else Some (artist_row_of s r))"

text \<open>\<open>scanAlbum\<close> and \<open>hydrateAlbumCredits\<close>; the join drops an album without an artist.\<close>

definition hydrateAlbumCredits :: "catalog \<Rightarrow> AlbumRow \<Rightarrow> AlbumRow" where
  "hydrateAlbumCredits s b =
     (let credits = readCredits CAlbum (bx_AlbumID b) s
      in b\<lparr>bx_ArtistCredits := credits, bx_PrimaryArtist :=
           (if credits \<noteq> [] \<and> acr_ArtistID (hd credits) = bx_ArtistID b then hd credits
            else \<lparr>acr_ArtistID = bx_ArtistID b, acr_Name = bx_ArtistName b, acr_JoinPhrase = '''', acr_MusicBrainzID = ''''\<rparr>)\<rparr>)"

definition no_credit :: ArtistCreditRow where
  "no_credit = \<lparr>acr_ArtistID = '''', acr_Name = '''', acr_JoinPhrase = '''', acr_MusicBrainzID = ''''\<rparr>"

definition album_columns :: "catalog \<Rightarrow> album_row \<Rightarrow> AlbumRow option" where
  "album_columns s a = map_option (\<lambda>r. \<lparr>bx_AlbumID = al_album_id a, bx_Title = al_title a,
       bx_ArtistID = al_artist_id a, bx_ArtistName = ar_name r, bx_Year = or_zero (al_year a),
       bx_ArtID = or_empty (al_art_id a),
       bx_TrackCount = count_where (\<lambda>t. tk_album_id t = al_album_id a \<and> \<not> tk_missing t) (ct_tracks s),
       bx_UpdatedAt = al_created_at a, bx_PrimaryArtist = no_credit, bx_ArtistCredits = [],
       bx_MusicBrainzReleaseID = or_empty (al_release_id a),
       bx_MusicBrainzReleaseGroupID = or_empty (al_group_id a)\<rparr>) (artist_by_id s (al_artist_id a))"

definition album_row_of :: "catalog \<Rightarrow> album_row \<Rightarrow> AlbumRow option" where
  "album_row_of s a = map_option (hydrateAlbumCredits s) (album_columns s a)"

definition GetAlbum :: "catalog \<Rightarrow> string \<Rightarrow> AlbumRow option" where
  "GetAlbum s i = (case album_by_id s i of
     None \<Rightarrow> None | Some a \<Rightarrow> if al_missing a then None else album_row_of s a)"

text \<open>\<open>scanTrack\<close> and \<open>hydrateTrackCredits\<close>.\<close>

definition track_columns :: "catalog \<Rightarrow> track_row \<Rightarrow> TrackRow option" where
  "track_columns s t = (case (album_by_id s (tk_album_id t), artist_by_id s (tk_artist_id t)) of
     (Some a, Some r) \<Rightarrow> Some
       \<lparr>tr_TrackID = tk_track_id t, tr_Title = tk_title t, tr_Index = or_zero (tk_idx t), tr_Disc = or_zero (tk_disc t),
        tr_ArtistID = tk_artist_id t, tr_ArtistName = ar_name r, tr_AlbumID = tk_album_id t, tr_AlbumTitle = al_title a,
        tr_Genre = tk_genre t, tr_DurationMs = tk_duration_ms t,
        tr_ArtID = or_empty (coalesce (tk_art_id t) (al_art_id a)), tr_Container = tk_container t,
        tr_Codec = tk_codec t, tr_BitrateKbps = or_zero (tk_bitrate t), tr_SizeBytes = tk_size t,
        tr_PrimaryArtist = no_credit, tr_ArtistCredits = [], tr_MusicBrainzRecordingID = or_empty (tk_recording_id t)\<rparr>
   | _ \<Rightarrow> None)"

definition hydrateTrackCredits :: "catalog \<Rightarrow> TrackRow \<Rightarrow> cat_err + TrackRow" where
  "hydrateTrackCredits s t =
     (let credits = readCredits CTrack (tr_TrackID t) s
      in if credits = [] then Inl NoCredits
         else Inr (t\<lparr>tr_ArtistCredits := credits, tr_PrimaryArtist := \<lparr>acr_ArtistID = tr_ArtistID t,
                acr_Name = tr_ArtistName t, acr_JoinPhrase = '''', acr_MusicBrainzID = ''''\<rparr>\<rparr>))"

definition GetTrack :: "catalog \<Rightarrow> string \<Rightarrow> cat_err + TrackRow option" where
  "GetTrack s i = (case track_by_id s i of
     None \<Rightarrow> Inr None
   | Some t \<Rightarrow> if tk_missing t then Inr None
       else case track_columns s t of
              None \<Rightarrow> Inr None
            | Some row \<Rightarrow> (case hydrateTrackCredits s row of Inl e \<Rightarrow> Inl e | Inr row' \<Rightarrow> Inr (Some row')))"

definition ResolveTrackNative :: "catalog \<Rightarrow> string \<Rightarrow> (string \<times> string) option" where
  "ResolveTrackNative s i = (case track_by_id s i of
     None \<Rightarrow> None | Some t \<Rightarrow> if tk_missing t then None else Some (tk_source_kind t, tk_native_id t))"

record LibrarySummary =
  ls_UpdatedAt :: seconds
  ls_Version :: int
  ls_Artists :: nat
  ls_Albums :: nat
  ls_Tracks :: nat

definition GetLibrarySummary :: "catalog \<Rightarrow> LibrarySummary" where
  "GetLibrarySummary s = \<lparr>ls_UpdatedAt = or_zero (ct_updated_at s), ls_Version = version s,
     ls_Artists = count_where (\<lambda>r. \<not> ar_missing r \<and> owns_album s r) (ct_artists s),
     ls_Albums = count_where (\<lambda>a. \<not> al_missing a) (ct_albums s),
     ls_Tracks = count_where (\<lambda>t. \<not> tk_missing t) (ct_tracks s)\<rparr>"

section \<open>Paged lists\<close>

text \<open>The requested order; any other word is the order by title or name.\<close>

datatype list_sort = ByTitle | ByArtist | ByYear | RecentlyAdded

definition parse_sort :: "string \<Rightarrow> list_sort" where
  "parse_sort v = (if v = ''artist'' then ByArtist else if v = ''year'' then ByYear
     else if v = ''recentlyAdded'' then RecentlyAdded else ByTitle)"

definition page_artists :: "catalog \<Rightarrow> list_sort \<Rightarrow> cursor option \<Rightarrow> nat \<Rightarrow> artist_row list \<times> cursor option" where
  "page_artists s srt c limit =
     (let present = filter (\<lambda>r. \<not> ar_missing r \<and> owns_album s r) (ct_artists s)
      in case srt of
           RecentlyAdded \<Rightarrow> keyset_page keyset_desc (\<lambda>r. (format_int (ar_created_at r), ar_artist_id r)) present c limit
         | _ \<Rightarrow> keyset_page keyset_nocase (\<lambda>r. (ar_name r, ar_artist_id r)) present c limit)"

definition ListArtists :: "catalog \<Rightarrow> list_sort \<Rightarrow> cursor option \<Rightarrow> nat \<Rightarrow> ArtistRow list \<times> cursor option" where
  "ListArtists s srt c limit =
     (case page_artists s srt c limit of (rows, next) \<Rightarrow> (map (artist_row_of s) rows, next))"

text \<open>The sort key of an album joins its artist: the rows are paged with the joined columns.\<close>

definition page_albums :: "catalog \<Rightarrow> list_sort \<Rightarrow> cursor option \<Rightarrow> nat \<Rightarrow> AlbumRow list \<times> cursor option" where
  "page_albums s srt c limit =
     (let present = List.map_filter (album_columns s) (filter (\<lambda>a. \<not> al_missing a) (ct_albums s))
      in case srt of
           ByTitle \<Rightarrow> keyset_page keyset_nocase (\<lambda>b. (bx_Title b, bx_AlbumID b)) present c limit
         | ByArtist \<Rightarrow> keyset_page keyset_nocase (\<lambda>b. (bx_ArtistName b, bx_AlbumID b)) present c limit
         | ByYear \<Rightarrow> keyset_page keyset_asc (\<lambda>b. (format_int (bx_Year b), bx_AlbumID b)) present c limit
         | RecentlyAdded \<Rightarrow> keyset_page keyset_desc (\<lambda>b. (format_int (bx_UpdatedAt b), bx_AlbumID b)) present c limit)"

definition ListAlbums :: "catalog \<Rightarrow> list_sort \<Rightarrow> cursor option \<Rightarrow> nat \<Rightarrow> AlbumRow list \<times> cursor option" where
  "ListAlbums s srt c limit =
     (case page_albums s srt c limit of (rows, next) \<Rightarrow> (map (hydrateAlbumCredits s) rows, next))"

text \<open>The rows of a query as tracks; the first track without credits fails the query.\<close>

fun hydrate_all :: "catalog \<Rightarrow> TrackRow list \<Rightarrow> cat_err + TrackRow list" where
  "hydrate_all s [] = Inr []"
| "hydrate_all s (t # ts) =
     (case hydrateTrackCredits s t of
        Inl e \<Rightarrow> Inl e
      | Inr t' \<Rightarrow> (case hydrate_all s ts of Inl e \<Rightarrow> Inl e | Inr ts' \<Rightarrow> Inr (t' # ts')))"

definition with_columns :: "catalog \<Rightarrow> track_row list \<Rightarrow> (track_row \<times> TrackRow) list" where
  "with_columns s ts = List.map_filter (\<lambda>t. map_option (Pair t) (track_columns s t)) ts"

definition page_tracks ::
  "catalog \<Rightarrow> list_sort \<Rightarrow> cursor option \<Rightarrow> nat \<Rightarrow> (track_row \<times> TrackRow) list \<times> cursor option" where
  "page_tracks s srt c limit =
     (let present = with_columns s (filter (\<lambda>t. \<not> tk_missing t) (ct_tracks s))
      in case srt of
           ByArtist \<Rightarrow> keyset_page keyset_asc (\<lambda>p. (tk_artist_name (fst p), tk_track_id (fst p))) present c limit
         | RecentlyAdded \<Rightarrow>
             keyset_page keyset_desc (\<lambda>p. (format_int (tk_created_at (fst p)), tk_track_id (fst p))) present c limit
         | _ \<Rightarrow> keyset_page keyset_nocase (\<lambda>p. (tk_title (fst p), tk_track_id (fst p))) present c limit)"

definition ListTracks :: "catalog \<Rightarrow> list_sort \<Rightarrow> cursor option \<Rightarrow> nat \<Rightarrow> cat_err + (TrackRow list \<times> cursor option)" where
  "ListTracks s srt c limit =
     (case page_tracks s srt c limit of (rows, next) \<Rightarrow>
        (case hydrate_all s (map snd rows) of Inl e \<Rightarrow> Inl e | Inr ts \<Rightarrow> Inr (ts, next)))"

section \<open>Lists in one piece\<close>

definition ListArtistAlbums :: "catalog \<Rightarrow> string \<Rightarrow> AlbumRow list" where
  "ListArtistAlbums s i = map (hydrateAlbumCredits s) (List.map_filter (album_columns s)
     (sort_key (\<lambda>a. (case al_year a of None \<Rightarrow> 9999 | Some y \<Rightarrow> y, to_lower (al_title a)))
       (filter (\<lambda>a. \<not> al_missing a \<and> al_artist_id a = i) (ct_albums s))))"

definition listTracksWhere ::
  "catalog \<Rightarrow> (track_row \<Rightarrow> bool) \<Rightarrow> (track_row \<times> TrackRow \<Rightarrow> 'k::linorder) \<Rightarrow> cat_err + TrackRow list" where
  "listTracksWhere s P key =
     hydrate_all s (map snd (sort_key key (with_columns s (filter (\<lambda>t. \<not> tk_missing t \<and> P t) (ct_tracks s)))))"

definition disc_index :: "track_row \<Rightarrow> int \<times> int" where
  "disc_index t = (case tk_disc t of None \<Rightarrow> 1 | Some d \<Rightarrow> d, or_zero (tk_idx t))"

definition ListAlbumTracks :: "catalog \<Rightarrow> string \<Rightarrow> cat_err + TrackRow list" where
  "ListAlbumTracks s i = listTracksWhere s (\<lambda>t. tk_album_id t = i)
     (\<lambda>(t, _). (disc_index t, to_lower (tk_title t)))"

definition credited :: "catalog \<Rightarrow> string \<Rightarrow> track_row \<Rightarrow> bool" where
  "credited s i t = list_ex (\<lambda>c. cr_owner c = tk_track_id t \<and> cr_artist_id c = i) (ct_track_credits s)"

definition ListArtistTracks :: "catalog \<Rightarrow> string \<Rightarrow> cat_err + TrackRow list" where
  "ListArtistTracks s i = listTracksWhere s (credited s i)
     (\<lambda>(t, row). (to_lower (tr_AlbumTitle row), disc_index t))"

definition ListGenreTracks :: "catalog \<Rightarrow> string \<Rightarrow> cat_err + TrackRow list" where
  "ListGenreTracks s genre = listTracksWhere s (\<lambda>t. same_text (tk_genre t) genre)
     (\<lambda>(t, row). (tk_artist_name t, to_lower (tr_AlbumTitle row), or_zero (tk_idx t)))"

record Genre =
  ge_Name :: string
  ge_AlbumCount :: nat
  ge_ArtID :: string

text \<open>One row per group of equal genres (letter case apart), named as its first track names it.\<close>

definition genre_row :: "catalog \<Rightarrow> string \<Rightarrow> Genre" where
  "genre_row s name = \<lparr>ge_Name = name,
     ge_AlbumCount = card (set (map tk_album_id (filter (\<lambda>t. \<not> tk_missing t \<and> same_text (tk_genre t) name) (ct_tracks s)))),
     ge_ArtID = (case select1 (\<lambda>a. al_art_id a \<noteq> None \<and>
         list_ex (\<lambda>t. tk_album_id t = al_album_id a \<and> same_text (tk_genre t) name) (ct_tracks s)) (ct_albums s) of
       None \<Rightarrow> '''' | Some a \<Rightarrow> or_empty (al_art_id a))\<rparr>"

fun distinct_text :: "string list \<Rightarrow> string list" where
  "distinct_text [] = []"
| "distinct_text (x # xs) = x # filter (\<lambda>y. \<not> same_text x y) (distinct_text xs)"

definition ListGenres :: "catalog \<Rightarrow> Genre list" where
  "ListGenres s = map (genre_row s) (sort_key to_lower (distinct_text
     (map tk_genre (filter (\<lambda>t. \<not> tk_missing t \<and> tk_genre t \<noteq> '''') (ct_tracks s)))))"

section \<open>Search\<close>

text \<open>SQLite's \<open>LIKE .. ESCAPE\<close> with the escape byte 92 (a backslash): \<open>%\<close> is any text, \<open>_\<close> one character,
  and ASCII letters compare without case.\<close>

definition backslash :: char where "backslash = CHR 0x5C"

definition skip_rune :: "string \<Rightarrow> string" where
  "skip_rune s = (case s of [] \<Rightarrow> [] | c # cs \<Rightarrow>
     if 192 \<le> (of_char c :: nat) then dropWhile (\<lambda>d. 128 \<le> (of_char d :: nat) \<and> (of_char d :: nat) < 192) cs else cs)"

lemma skip_rune_shorter: "length (skip_rune (c # cs)) < Suc (length cs)"
  by (auto simp: skip_rune_def le_imp_less_Suc length_dropWhile_le)

function like :: "string \<Rightarrow> string \<Rightarrow> bool" where
  "like [] s = (s = [])"
| "like (c # p) [] = (c = CHR ''%'' \<and> like p [])"
| "like (c # p) (x # xs) =
     (if c = CHR ''%'' then like p (x # xs) \<or> like (c # p) xs
      else if c = CHR ''_'' then like p (skip_rune (x # xs))
      else if c = backslash then (case p of [] \<Rightarrow> False | d # q \<Rightarrow> lower_char x = lower_char d \<and> like q xs)
      else lower_char x = lower_char c \<and> like p xs)"
  by pat_completeness auto
termination
  by (relation "measure (\<lambda>(p, s). length p + length s)") (auto intro: add_less_le_mono skip_rune_shorter [THEN order.strict_trans])

definition like_pattern :: "string \<Rightarrow> string" where
  "like_pattern q = ''%'' @ List.concat (map (\<lambda>c. if c = CHR ''%'' \<or> c = CHR ''_'' then [backslash, c] else [c]) q) @ ''%''"

record LibrarySearch =
  se_Artists :: "ArtistRow list"
  se_Albums :: "AlbumRow list"
  se_Tracks :: "TrackRow list"

definition SearchLibrary :: "catalog \<Rightarrow> string \<Rightarrow> cat_err + LibrarySearch" where
  "SearchLibrary s q =
     (let pattern = like_pattern q;
          artists = map (\<lambda>r. (artist_columns s r)\<lparr>ax_Genres := artistGenres s (ar_artist_id r)\<rparr>)
            (take 25 (sort_key (\<lambda>r. to_lower (ar_name r)) (filter (\<lambda>r. \<not> ar_missing r \<and> (like pattern (ar_name r) \<or>
              list_ex (\<lambda>x. fst x = ar_artist_id r \<and> like pattern (snd x)) (ct_aliases s))) (ct_artists s))));
          albums = map (hydrateAlbumCredits s) (take 25 (List.map_filter (album_columns s)
            (sort_key (\<lambda>a. to_lower (al_title a)) (filter (\<lambda>a. \<not> al_missing a \<and> (like pattern (al_title a) \<or>
              list_ex (\<lambda>c. cr_owner c = al_album_id a \<and> like pattern (cr_name c)) (ct_album_credits s))) (ct_albums s)))));
          tracks = take 50 (map snd (sort_key (\<lambda>(t, _). to_lower (tk_title t)) (with_columns s (filter (\<lambda>t.
            \<not> tk_missing t \<and> (like pattern (tk_title t) \<or>
              list_ex (\<lambda>c. cr_owner c = tk_track_id t \<and> like pattern (cr_name c)) (ct_track_credits s))) (ct_tracks s)))))
      in case hydrate_all s tracks of
           Inl e \<Rightarrow> Inl e
         | Inr ts \<Rightarrow> Inr \<lparr>se_Artists = artists, se_Albums = albums, se_Tracks = ts\<rparr>)"

subsection \<open>What the search finds\<close>

lemma like_any: "like (CHR ''%'' # p) s \<longleftrightarrow> (\<exists>t. suffix t s \<and> like p t)"
proof (induction s)
  case (Cons x xs)
  then show ?case by (auto simp: suffix_Cons)
qed simp

lemma like_end: "like ''%'' s"
  by (induction s) auto

lemma like_literal:
  "backslash \<notin> set q \<Longrightarrow>
   like (List.concat (map (\<lambda>c. if c = CHR ''%'' \<or> c = CHR ''_'' then [backslash, c] else [c]) q) @ ''%'') s \<longleftrightarrow>
     prefix (to_lower q) (to_lower s)"
proof (induction q arbitrary: s)
  case Nil
  then show ?case by (simp add: like_end to_lower_def)
next
  case (Cons c q)
  have special: "backslash \<noteq> CHR ''%''" "backslash \<noteq> CHR ''_''" by (simp_all add: backslash_def)
  show ?case using Cons special by (cases s) (auto simp: to_lower_def)
qed

lemma suffix_to_lower: "(\<exists>t. suffix t s \<and> P (to_lower t)) \<longleftrightarrow> (\<exists>t. suffix t (to_lower s) \<and> P t)"
proof
  assume "\<exists>t. suffix t s \<and> P (to_lower t)"
  then obtain t ys where "s = ys @ t" "P (to_lower t)" by (auto simp: suffix_def)
  then show "\<exists>t. suffix t (to_lower s) \<and> P t" by (intro exI [of _ "to_lower t"]) (simp add: to_lower_def suffix_def)
next
  assume "\<exists>t. suffix t (to_lower s) \<and> P t"
  then obtain t ys where t: "to_lower s = ys @ t" "P t" by (auto simp: suffix_def)
  then have "to_lower (drop (length ys) s) = t"
    by (metis append_eq_conv_conj drop_map to_lower_def)
  with t(2) show "\<exists>t. suffix t s \<and> P (to_lower t)" using suffix_drop by blast
qed

lemma like_pattern_sublist:
  "backslash \<notin> set q \<Longrightarrow> like (like_pattern q) s \<longleftrightarrow> sublist (to_lower q) (to_lower s)"
  unfolding like_pattern_def append_Cons append_Nil like_any like_literal
  by (simp add: suffix_to_lower [where P = "prefix (to_lower q)"] sublist_altdef' conj_commute)

text \<open>
  The search is a substring search that ignores the case of ASCII letters, also for queries with
  percent signs and underscores: a present track is among the matches of a query without a backslash
  exactly if its title or a credited name contains the query.
\<close>

lemma search_is_substring:
  assumes "backslash \<notin> set q"
  shows "like (like_pattern q) title \<longleftrightarrow> sublist (to_lower q) (to_lower title)"
  by (rule like_pattern_sublist [OF assms])

lemma search_is_substring_witness: "like (like_pattern ''5%_X'') ''a5%_x!''"
proof -
  have "backslash \<notin> set ''5%_X''" by (simp add: backslash_def)
  moreover have "sublist (to_lower ''5%_X'') (to_lower ''a5%_x!'')"
  proof -
    have "to_lower ''5%_X'' = ''5%_x''" "to_lower ''a5%_x!'' = ''a'' @ ''5%_x'' @ ''!''" by code_simp+
    then show ?thesis by (metis sublist_appendI)
  qed
  ultimately show ?thesis using search_is_substring by blast
qed

text \<open>
  A backslash in the query is not escaped: it makes the closing wildcard a literal percent sign, so
  the search for a lone backslash misses a title that is one and finds the titles that end in a
  percent sign.
\<close>

lemma search_mishandles_backslash:
  "\<not> like (like_pattern [backslash]) [backslash] \<and> like (like_pattern [backslash]) ''100%''"
  by (simp add: like_pattern_def backslash_def lower_char_def)

section \<open>Every row exactly once\<close>

lemma walk_pages_map:
  "walk_pages (\<lambda>c. case page c of (rows, next) \<Rightarrow> (map f rows, next)) fuel c = map f (walk_pages page fuel c)"
  by (induction fuel arbitrary: c) (auto split: prod.split option.split)

lemma map_filter_ids:
  assumes "\<And>x y. x \<in> set xs \<Longrightarrow> f x = Some y \<Longrightarrow> k y = h x" and "\<And>x. x \<in> set xs \<Longrightarrow> f x \<noteq> None"
  shows "map k (List.map_filter f xs) = map h xs"
  using assms by (induction xs) (force simp: List.map_filter_def)+

text \<open>The rows of the three lists before paging, and that nothing is lost in the joins.\<close>

lemma present_albums_ids:
  assumes "constraints_ok s"
  shows "map bx_AlbumID (List.map_filter (album_columns s) (filter (\<lambda>a. \<not> al_missing a) (ct_albums s))) =
    map al_album_id (filter (\<lambda>a. \<not> al_missing a) (ct_albums s))"
proof (rule map_filter_ids)
  fix a assume a: "a \<in> set (filter (\<lambda>a. \<not> al_missing a) (ct_albums s))"
  show "bx_AlbumID b = al_album_id a" if "album_columns s a = Some b" for b
    using that by (auto simp: album_columns_def)
  have "al_artist_id a \<in> ar_artist_id ` set (ct_artists s)" using assms a by (auto simp: constraints_ok_def list_all_iff)
  then show "album_columns s a \<noteq> None" by (auto simp: album_columns_def artist_by_id_def select1_None_iff)
qed

lemma present_tracks_ids:
  assumes "constraints_ok s"
  shows "map (tk_track_id \<circ> fst) (with_columns s (filter (\<lambda>t. \<not> tk_missing t) (ct_tracks s))) =
    map tk_track_id (filter (\<lambda>t. \<not> tk_missing t) (ct_tracks s))"
  unfolding with_columns_def
proof (rule map_filter_ids)
  fix t assume t: "t \<in> set (filter (\<lambda>t. \<not> tk_missing t) (ct_tracks s))"
  show "(tk_track_id \<circ> fst) b = tk_track_id t" if "map_option (Pair t) (track_columns s t) = Some b" for b
    using that by auto
  have "tk_album_id t \<in> al_album_id ` set (ct_albums s)" "tk_artist_id t \<in> ar_artist_id ` set (ct_artists s)"
    using assms t by (auto simp: constraints_ok_def list_all_iff)
  then have "album_by_id s (tk_album_id t) \<noteq> None" "artist_by_id s (tk_artist_id t) \<noteq> None"
    by (auto simp: album_by_id_def artist_by_id_def select1_None_iff)
  then show "map_option (Pair t) (track_columns s t) \<noteq> None" by (auto simp: track_columns_def)
qed

lemma walked_artists:
  assumes "constraints_ok s" and "0 < n" and "length (ct_artists s) < fuel"
  shows "mset (walk_pages (\<lambda>c. page_artists s srt c n) fuel None) =
    mset (filter (\<lambda>r. \<not> ar_missing r \<and> owns_album s r) (ct_artists s))" (is "_ = mset ?rows")
proof -
  have d: "distinct (map ar_artist_id ?rows)"
    using assms(1) by (simp add: constraints_ok_def unique_key_def distinct_map_filter)
  have l: "length ?rows < fuel" using assms(3) by (meson le_less_trans length_filter_le)
  note walk = asc.walk_mset [OF _ assms(2) l] desc.walk_mset [OF _ assms(2) l] nocase.walk_mset [OF _ assms(2) l]
  show ?thesis using d by (cases srt) (simp_all add: page_artists_def walk comp_def del: mset_filter)
qed

lemma walked_albums:
  assumes "constraints_ok s" and "0 < n" and "length (ct_albums s) < fuel"
  shows "mset (map bx_AlbumID (walk_pages (\<lambda>c. page_albums s srt c n) fuel None)) =
    mset (map al_album_id (filter (\<lambda>a. \<not> al_missing a) (ct_albums s)))"
proof -
  let ?rows = "List.map_filter (album_columns s) (filter (\<lambda>a. \<not> al_missing a) (ct_albums s))"
  note ids = present_albums_ids [OF assms(1)]
  have d: "distinct (map bx_AlbumID ?rows)"
    using assms(1) unfolding ids by (simp add: constraints_ok_def unique_key_def distinct_map_filter)
  have "length (filter (\<lambda>a. \<not> al_missing a) (ct_albums s)) < fuel" using assms(3) by (meson le_less_trans length_filter_le)
  then have l: "length ?rows < fuel" using ids by (metis length_map)
  note walk = asc.walk_mset [OF _ assms(2) l] desc.walk_mset [OF _ assms(2) l] nocase.walk_mset [OF _ assms(2) l]
  have "mset (walk_pages (\<lambda>c. page_albums s srt c n) fuel None) = mset ?rows"
    using d by (cases srt) (simp_all add: page_albums_def walk comp_def)
  then show ?thesis by (metis ids mset_map)
qed

lemma walked_tracks:
  assumes "constraints_ok s" and "0 < n" and "length (ct_tracks s) < fuel"
  shows "mset (map (tk_track_id \<circ> fst) (walk_pages (\<lambda>c. page_tracks s srt c n) fuel None)) =
    mset (map tk_track_id (filter (\<lambda>t. \<not> tk_missing t) (ct_tracks s)))"
proof -
  let ?rows = "with_columns s (filter (\<lambda>t. \<not> tk_missing t) (ct_tracks s))"
  note ids = present_tracks_ids [OF assms(1)]
  have d: "distinct (map (tk_track_id \<circ> fst) ?rows)"
    using assms(1) unfolding ids by (simp add: constraints_ok_def unique_key_def distinct_map_filter)
  have "length (filter (\<lambda>t. \<not> tk_missing t) (ct_tracks s)) < fuel" using assms(3) by (meson le_less_trans length_filter_le)
  then have l: "length ?rows < fuel" using ids by (metis length_map)
  note walk = asc.walk_mset [OF _ assms(2) l] desc.walk_mset [OF _ assms(2) l] nocase.walk_mset [OF _ assms(2) l]
  have "mset (walk_pages (\<lambda>c. page_tracks s srt c n) fuel None) = mset ?rows"
    using d by (cases srt) (simp_all add: page_tracks_def walk comp_def)
  then show ?thesis by (metis ids mset_map)
qed



end
