(* ===== verification/ChangeFeed.thy ===== *)
theory ChangeFeed
  imports CatalogRead
begin

text \<open>
  How clients follow the catalogue: the change feed (\<open>changesSinceQuery\<close> and \<open>ChangesSnapshot\<close> in
  \<open>internal/store/library_changes_snapshot.go\<close>, \<open>ChangesSince\<close> in \<open>library.go\<close>), the handler that
  answers it (\<open>ListChanges\<close>, \<open>stableChangesVersion\<close> in \<open>internal/server/library_changes.go\<close>) and the
  protocol of \<open>api/openapi.yaml\<close>: follow the cursor, upsert what is listed, drop what is removed,
  remember the version.
\<close>

section \<open>The feed\<close>

record LibraryChange =
  lc_ChangeSeq :: int
  lc_Kind :: string
  lc_ID :: string
  lc_Missing :: bool

type_synonym change_cursor = "int \<times> string \<times> string"

definition change_key :: "LibraryChange \<Rightarrow> change_cursor" where
  "change_key ch = (lc_ChangeSeq ch, lc_Kind ch, lc_ID ch)"

definition change_before :: "change_cursor \<Rightarrow> change_cursor \<Rightarrow> bool" where
  "change_before c d \<longleftrightarrow> (case (c, d) of ((cs, ck, ci), (ds, dk, di)) \<Rightarrow>
     ds > cs \<or> ds = cs \<and> (dk > ck \<or> dk = ck \<and> di > ci))"

interpretation changes: keyset_order change_before snd
  by unfold_locales (auto simp: change_before_def)

definition artist_change :: "artist_row \<Rightarrow> LibraryChange" where
  "artist_change r = \<lparr>lc_ChangeSeq = ar_change_seq r, lc_Kind = ''artist'', lc_ID = ar_artist_id r, lc_Missing = ar_missing r\<rparr>"

definition album_change :: "album_row \<Rightarrow> LibraryChange" where
  "album_change a = \<lparr>lc_ChangeSeq = al_change_seq a, lc_Kind = ''album'', lc_ID = al_album_id a, lc_Missing = al_missing a\<rparr>"

definition track_change :: "track_row \<Rightarrow> LibraryChange" where
  "track_change t = \<lparr>lc_ChangeSeq = tk_change_seq t, lc_Kind = ''track'', lc_ID = tk_track_id t, lc_Missing = tk_missing t\<rparr>"

definition feed :: "catalog \<Rightarrow> LibraryChange list" where
  "feed s = map artist_change (ct_artists s) @ map album_change (ct_albums s) @ map track_change (ct_tracks s)"

lemmas change_defs = artist_change_def album_change_def track_change_def

definition ChangesSince ::
  "catalog \<Rightarrow> int \<Rightarrow> change_cursor option \<Rightarrow> nat \<Rightarrow> LibraryChange list \<times> change_cursor option" where
  "ChangesSince s since c limit =
     keyset_page change_before change_key (filter (\<lambda>ch. lc_ChangeSeq ch > since) (feed s)) c limit"

definition ChangesSnapshot ::
  "catalog \<Rightarrow> int \<Rightarrow> change_cursor option \<Rightarrow> nat \<Rightarrow> LibraryChange list \<times> change_cursor option \<times> int" where
  "ChangesSnapshot s since c limit = (case ChangesSince s since c limit of (rows, next) \<Rightarrow> (rows, next, version s))"

section \<open>The handler\<close>

definition stableChangesVersion :: "int \<Rightarrow> int \<Rightarrow> bool \<Rightarrow> int" where
  "stableChangesVersion since current scanning = (if scanning then since else current)"

record LibraryChanges =
  lr_Version :: int
  lr_NextCursor :: "change_cursor option"
  lr_Artists :: "ArtistRow list"
  lr_Albums :: "AlbumRow list"
  lr_Tracks :: "TrackRow list"
  lr_RemovedArtistIds :: "string list"
  lr_RemovedAlbumIds :: "string list"
  lr_RemovedTrackIds :: "string list"

definition add_removed :: "LibraryChange \<Rightarrow> LibraryChanges \<Rightarrow> LibraryChanges" where
  "add_removed ch r =
     (if lc_Kind ch = ''artist'' then r\<lparr>lr_RemovedArtistIds := lr_RemovedArtistIds r @ [lc_ID ch]\<rparr>
      else if lc_Kind ch = ''album'' then r\<lparr>lr_RemovedAlbumIds := lr_RemovedAlbumIds r @ [lc_ID ch]\<rparr>
      else if lc_Kind ch = ''track'' then r\<lparr>lr_RemovedTrackIds := lr_RemovedTrackIds r @ [lc_ID ch]\<rparr>
      else r)"

definition add_changed :: "catalog \<Rightarrow> LibraryChange \<Rightarrow> LibraryChanges \<Rightarrow> cat_err + LibraryChanges" where
  "add_changed s ch r =
     (if lc_Kind ch = ''artist'' then Inr (case GetArtist s (lc_ID ch) of None \<Rightarrow> r | Some a \<Rightarrow> r\<lparr>lr_Artists := lr_Artists r @ [a]\<rparr>)
      else if lc_Kind ch = ''album'' then Inr (case GetAlbum s (lc_ID ch) of None \<Rightarrow> r | Some a \<Rightarrow> r\<lparr>lr_Albums := lr_Albums r @ [a]\<rparr>)
      else if lc_Kind ch = ''track'' then
        (case GetTrack s (lc_ID ch) of
           Inl e \<Rightarrow> Inl e | Inr None \<Rightarrow> Inr r | Inr (Some t) \<Rightarrow> Inr (r\<lparr>lr_Tracks := lr_Tracks r @ [t]\<rparr>))
      else Inr r)"

fun add_changes :: "catalog \<Rightarrow> LibraryChange list \<Rightarrow> LibraryChanges \<Rightarrow> cat_err + LibraryChanges" where
  "add_changes s [] r = Inr r"
| "add_changes s (ch # chs) r =
     (if lc_Missing ch then add_changes s chs (add_removed ch r)
      else case add_changed s ch r of Inl e \<Rightarrow> Inl e | Inr r' \<Rightarrow> add_changes s chs r')"

text \<open>The snapshot is taken from \<open>s\<close>, the rows are read from \<open>s'\<close>, the catalogue a moment later;
  \<open>scanning\<close> tells whether a scan ran before or after the snapshot.\<close>

definition ListChanges ::
  "catalog \<Rightarrow> catalog \<Rightarrow> bool \<Rightarrow> int option \<Rightarrow> change_cursor option \<Rightarrow> int option \<Rightarrow> cat_err + LibraryChanges" where
  "ListChanges s s' scanning since c limit =
     (let since = or_zero since in
      case ChangesSnapshot s since c (page_limit limit) of (rows, next, current) \<Rightarrow>
        add_changes s' rows \<lparr>lr_Version = stableChangesVersion since current scanning, lr_NextCursor = next,
          lr_Artists = [], lr_Albums = [], lr_Tracks = [], lr_RemovedArtistIds = [], lr_RemovedAlbumIds = [],
          lr_RemovedTrackIds = []\<rparr>)"

section \<open>What writes the catalogue\<close>

text \<open>
  The writes, each with the sequence number it stamps: a scan's writes use the number it took at its
  start, attaching external artwork takes the next one. A scan and the other writers exclude each
  other by the \<open>libraryIdentity\<close> lock.
\<close>

datatype cat_op =
    ONextSeq
  | OUpsert int string TrackMeta string seconds
  | OMark int string "string list"
  | OFinish int string seconds
  | OAttach int string string string
  | OAlbumArt string string gotime
  | OArtistArt string string string gotime
  | OAlbumAttempt string ArtAttemptOutcome gotime
  | OArtistAttempt string ArtAttemptOutcome gotime
  | OResetRetries bool
  | OStoreArt "bytes \<Rightarrow> bytes" string string bytes string files

fun cat_step :: "(string \<Rightarrow> string \<Rightarrow> bool) \<Rightarrow> catalog \<Rightarrow> cat_op \<Rightarrow> catalog" where
  "cat_step eqf s ONextSeq = fst (NextScanSeq s)"
| "cat_step eqf s (OUpsert seq kind m art now) = fst (UpsertTrack eqf kind m art seq now s)"
| "cat_step eqf s (OMark seq kind natives) = fst (MarkTracksSeen kind natives seq s)"
| "cat_step eqf s (OFinish seq kind now) = fst (FinishScan kind seq now s)"
| "cat_step eqf s (OAttach seq kind native art) = fst (AttachTrackArt kind native art seq s)"
| "cat_step eqf s (OAlbumArt i art now) = fst (SetAlbumArtAtNextSequence i art now s)"
| "cat_step eqf s (OArtistArt i expected art now) = fst (SetArtistArtAtNextSequence i expected art now s)"
| "cat_step eqf s (OAlbumAttempt i outcome now) = MarkAlbumArtAttempt i outcome now s"
| "cat_step eqf s (OArtistAttempt i outcome now) = fst (MarkArtistArtAttempt i outcome now s)"
| "cat_step eqf s (OResetRetries b) = ResetArtRetries b s"
| "cat_step eqf s (OStoreArt sha hash mime data dir fs) = fst (fst (UpsertArt sha hash mime data dir (s, fs)))"

fun op_seq :: "cat_op \<Rightarrow> int option" where
  "op_seq (OUpsert seq _ _ _ _) = Some seq"
| "op_seq (OMark seq _ _) = Some seq"
| "op_seq (OFinish seq _ _) = Some seq"
| "op_seq (OAttach seq _ _ _) = Some seq"
| "op_seq _ = None"

definition stamps_after :: "int \<Rightarrow> cat_op \<Rightarrow> bool" where
  "stamps_after v x \<longleftrightarrow> (case op_seq x of None \<Rightarrow> True | Some q \<Rightarrow> v < q)"

lemma at_next_sequence_keeps:
  "constraints_ok s \<Longrightarrow> constraints_ok (fst (SetAlbumArtAtNextSequence i art now s))"
  "constraints_ok s \<Longrightarrow> constraints_ok (fst (SetArtistArtAtNextSequence i expected art now s))"
proof -
  assume ok: "constraints_ok s"
  obtain s1 q where s1: "NextScanSeq s = (s1, q)" by fastforce
  then have ok1: "constraints_ok s1" using NextScanSeq_keeps(1) [OF ok] by simp
  show "constraints_ok (fst (SetAlbumArtAtNextSequence i art now s))"
    using ok s1 setAlbumArtTx_keeps(1) [OF ok1, of i art q now]
    by (auto simp: SetAlbumArtAtNextSequence_def split: prod.splits)
  show "constraints_ok (fst (SetArtistArtAtNextSequence i expected art now s))"
    using ok s1 SetArtistArt_keeps(1) [OF ok1, of i expected art q now]
    by (auto simp: SetArtistArtAtNextSequence_def split: prod.splits)
qed

lemma cat_step_constraints: "constraints_ok s \<Longrightarrow> constraints_ok (cat_step eqf s x)"
proof (cases x)
  case (OUpsert seq kind m art now)
  then show "constraints_ok s \<Longrightarrow> constraints_ok (cat_step eqf s x)"
    using constraints.keeps_UpsertTrack [of eqf kind m art seq now] by (simp add: keeps_def)
qed (simp_all add: NextScanSeq_keeps MarkTracksSeen_keeps FinishScan_constraints AttachTrackArt_keeps retry_keeps
    at_next_sequence_keeps UpsertArt_keeps)

lemma empty_catalog_ok: "constraints_ok (empty_catalog rnd)"
  by (simp add: constraints_ok_def empty_catalog_def unique_some_def untagged_identity_def)

interpretation catalogs: component "empty_catalog rnd" "cat_step eqf" constraints_ok
  by unfold_locales (simp_all add: cat_step_constraints empty_catalog_ok)

text \<open>The version: only taking a sequence number moves it, and forward.\<close>

interpretation scan_seq: catalog_property "\<lambda>s. ct_scan_seq s = q" seq
  by unfold_locales (simp_all add: promote_artist_def insert_artist_def insert_alias_def set_credits_def update_album_def
      insert_album_def put_track_def stamp_album_def stamp_track_def split: credit_table.split)

lemma setAlbumArtTx_seq: "ct_scan_seq (fst (setAlbumArtTx i art seq now s)) = ct_scan_seq s"
  by (simp add: setAlbumArtTx_def stamp_shown_artist_def stamp_shown_tracks_def put_album_art_def Let_def)

lemma SetArtistArt_seq: "ct_scan_seq (fst (SetArtistArt i expected art seq now s)) = ct_scan_seq s"
  by (simp add: SetArtistArt_def Let_def)

definition followed :: "int \<Rightarrow> catalog \<Rightarrow> catalog \<Rightarrow> bool" where
  "followed v s0 s \<longleftrightarrow> v \<le> version s \<and> delta_ok v s0 s"

lemma followed_same_seq:
  "followed v s0 s \<Longrightarrow> ct_scan_seq s' = ct_scan_seq s \<Longrightarrow> (\<And>q. v < q \<Longrightarrow> delta_kept v q s0 s') \<Longrightarrow> followed v s0 s'"
  using delta_kept_def [of v "v + 1" s0 s'] by (simp add: followed_def version_def)

lemma delta_keptD: "followed v s0 s \<Longrightarrow> delta_kept v q s0 s"
  by (simp add: followed_def delta_kept_def)

lemma followed_at_next:
  assumes "followed v s0 s"
  shows "followed v s0 (fst (SetAlbumArtAtNextSequence i art now s))"
    "followed v s0 (fst (SetArtistArtAtNextSequence i expected art now s))"
proof -
  obtain s1 q where s1: "NextScanSeq s = (s1, q)" by fastforce
  have q: "v < q" "version s1 = q" using NextScanSeq_version [OF s1] assms by (simp_all add: followed_def)
  have "delta_ok v s0 s1" using NextScanSeq_keeps(2) [of v s0 s] assms s1 by (simp add: followed_def)
  then have d: "delta_kept v q s0 s1" by (simp add: delta_kept_def)
  have "followed v s0 (fst (setAlbumArtTx i art q now s1))"
    using setAlbumArtTx_keeps(2) [OF d, of i art now] q
    by (simp add: followed_def delta_kept_def version_def setAlbumArtTx_seq)
  then show "followed v s0 (fst (SetAlbumArtAtNextSequence i art now s))"
    using assms s1 by (auto simp: SetAlbumArtAtNextSequence_def split: prod.splits)
  have "followed v s0 (fst (SetArtistArt i expected art q now s1))"
    using SetArtistArt_keeps(2) [OF d, of i expected art now] q
    by (simp add: followed_def delta_kept_def version_def SetArtistArt_seq)
  then show "followed v s0 (fst (SetArtistArtAtNextSequence i expected art now s))"
    using assms s1 by (auto simp: SetArtistArtAtNextSequence_def split: prod.splits)
qed

lemma ResetArtRetries_delta: "delta_kept v q s0 s \<Longrightarrow> delta_kept v q s0 (ResetArtRetries b s)"
  unfolding ResetArtRetries_def delta_defs
  by (auto intro!: stamped_since_map stamped_since_update simp: artist_view_def album_view_def)

lemma cat_step_followed:
  assumes "followed v s0 s" and "stamps_after v x"
  shows "followed v s0 (cat_step eqf s x)"
proof (cases x)
  case ONextSeq
  obtain s1 q where s1: "NextScanSeq s = (s1, q)" by fastforce
  then show ?thesis using ONextSeq assms(1) NextScanSeq_keeps(2) [of v s0 s] NextScanSeq_version [OF s1]
    by (simp add: followed_def)
next
  case (OUpsert seq kind m art now)
  have seq: "v < seq" using assms(2) OUpsert by (simp add: stamps_after_def)
  have "delta_kept v seq s0 (fst (UpsertTrack eqf kind m art seq now s))"
    using delta.keeps_UpsertTrack [of v seq s0 eqf kind m art now] delta_keptD [OF assms(1)] by (simp add: keeps_def)
  moreover have "ct_scan_seq (fst (UpsertTrack eqf kind m art seq now s)) = ct_scan_seq s"
    using scan_seq.keeps_UpsertTrack [of "ct_scan_seq s" eqf kind m art seq now] by (simp add: keeps_def)
  ultimately show ?thesis using assms(1) seq OUpsert by (simp add: followed_def delta_kept_def version_def)
next
  case (OMark seq kind natives)
  then show ?thesis using MarkTracksSeen_keeps(2) [OF delta_keptD [OF assms(1)], of seq kind natives] assms
    by (simp add: followed_def delta_kept_def version_def stamps_after_def MarkTracksSeen_tracks)
next
  case (OFinish seq kind now)
  then show ?thesis using delta_FinishScan [OF delta_keptD [OF assms(1)], of seq kind now] assms
    by (simp add: followed_def delta_kept_def version_def stamps_after_def FinishScan_seq)
next
  case (OAttach seq kind native art)
  then show ?thesis using AttachTrackArt_keeps(2) [OF delta_keptD [OF assms(1)], of seq kind native art] assms
    by (auto simp: followed_def delta_kept_def version_def stamps_after_def AttachTrackArt_def Let_def split: option.splits)
next
  case (OAlbumAttempt i outcome now)
  then show ?thesis
    using assms(1) retry_keeps(4) [OF delta_keptD [OF assms(1)]]
    by (intro followed_same_seq [OF assms(1)]) (simp_all add: MarkAlbumArtAttempt_def)
next
  case (OArtistAttempt i outcome now)
  then show ?thesis
    using assms(1) retry_keeps(5) [OF delta_keptD [OF assms(1)]]
    by (intro followed_same_seq [OF assms(1)])
      (auto simp: MarkArtistArtAttempt_def Let_def split: ArtAttemptOutcome.splits option.splits)
next
  case (OResetRetries b)
  then show ?thesis
    using ResetArtRetries_delta [OF delta_keptD [OF assms(1)]]
    by (intro followed_same_seq [OF assms(1)]) (simp_all add: ResetArtRetries_def)
next
  case (OStoreArt sha hash mime data dir fs)
  obtain t n where s': "cat_step eqf s x = s\<lparr>ct_art := t, ct_drawn := n\<rparr>" using UpsertArt_tables OStoreArt by fastforce
  have "delta_ok v s0 (s\<lparr>ct_art := t, ct_drawn := n\<rparr>)"
    using assms(1) by (simp add: followed_def delta_ok_def)
  then show ?thesis using assms(1) unfolding s' by (simp add: followed_def version_def)
qed (use followed_at_next [OF assms(1)] in simp_all)

lemma run_followed:
  "followed v s0 s \<Longrightarrow> list_all (stamps_after v) ops \<Longrightarrow> followed v s0 (run_ops (cat_step eqf) s ops)"
  by (induction ops arbitrary: s) (auto intro: cat_step_followed)

lemma cat_step_version: "version s \<le> version (cat_step eqf s x)"
proof (cases x)
  case ONextSeq
  obtain s1 q where s1: "NextScanSeq s = (s1, q)" by fastforce
  then show ?thesis using ONextSeq NextScanSeq_version [OF s1] by simp
next
  case (OUpsert seq kind m art now)
  then show ?thesis
    using scan_seq.keeps_UpsertTrack [of "ct_scan_seq s" eqf kind m art seq now] by (simp add: keeps_def version_def)
next
  case (OAlbumArt i art now)
  obtain s1 q where s1: "NextScanSeq s = (s1, q)" by fastforce
  have "version (fst (setAlbumArtTx i art q now s1)) = version s1" by (simp add: version_def setAlbumArtTx_seq)
  then show ?thesis using OAlbumArt NextScanSeq_version [OF s1] s1
    by (auto simp: SetAlbumArtAtNextSequence_def split: prod.splits)
next
  case (OArtistArt i expected art now)
  obtain s1 q where s1: "NextScanSeq s = (s1, q)" by fastforce
  have "version (fst (SetArtistArt i expected art q now s1)) = version s1" by (simp add: version_def SetArtistArt_seq)
  then show ?thesis using OArtistArt NextScanSeq_version [OF s1] s1
    by (auto simp: SetArtistArtAtNextSequence_def split: prod.splits)
next
  case (OStoreArt sha hash mime data dir fs)
  obtain t n where "cat_step eqf s x = s\<lparr>ct_art := t, ct_drawn := n\<rparr>" using UpsertArt_tables OStoreArt by fastforce
  then show ?thesis by (simp add: version_def)
qed (auto simp: version_def MarkTracksSeen_tracks FinishScan_seq AttachTrackArt_def MarkAlbumArtAttempt_def
  MarkArtistArtAttempt_def ResetArtRetries_def Let_def split: option.splits ArtAttemptOutcome.splits)

lemma run_version: "version s \<le> version (run_ops (cat_step eqf) s ops)"
proof (induction ops arbitrary: s)
  case (Cons x ops)
  show ?case using cat_step_version [of s eqf x] Cons [of "cat_step eqf s x"] by simp
qed simp

section \<open>A client's copy\<close>

text \<open>
  What a client keeps: the visible content of every present entity, by kind and id. Letter case of
  titles and genres is folded here; the second theorem below says why.
\<close>

datatype entity =
    EArtist "string \<times> string option \<times> string option \<times> bool"
  | EAlbum "string \<times> string \<times> string option \<times> string option \<times> int option \<times> string option \<times> bool"
  | ETrack "(string \<times> string \<times> string \<times> string option \<times> string) \<times> (int option \<times> int option \<times> string \<times> int) \<times>
      (string \<times> string \<times> int option \<times> int \<times> string option \<times> bool)"

definition live :: "catalog \<Rightarrow> string \<times> string \<Rightarrow> entity option" where
  "live s k =
     (case k of (kind, i) \<Rightarrow>
        if kind = ''artist'' then
          (case map_option artist_view (artist_by_id s i) of
             None \<Rightarrow> None | Some w \<Rightarrow> if snd (snd (snd w)) then None else Some (EArtist w))
        else if kind = ''album'' then
          (case map_option album_view (album_by_id s i) of
             None \<Rightarrow> None | Some w \<Rightarrow> if snd (snd (snd (snd (snd (snd w))))) then None else Some (EAlbum w))
        else if kind = ''track'' then
          (case map_option track_view (track_by_id s i) of
             None \<Rightarrow> None | Some w \<Rightarrow> if snd (snd (snd (snd (snd (snd (snd w)))))) then None else Some (ETrack w))
        else None)"

definition apply_change :: "catalog \<Rightarrow> LibraryChange \<Rightarrow> (string \<times> string \<Rightarrow> entity option) \<Rightarrow> string \<times> string \<Rightarrow> entity option" where
  "apply_change s ch cache =
     cache((lc_Kind ch, lc_ID ch) := (if lc_Missing ch then None else live s (lc_Kind ch, lc_ID ch)))"

definition sync :: "catalog \<Rightarrow> LibraryChange list \<Rightarrow> (string \<times> string \<Rightarrow> entity option) \<Rightarrow> string \<times> string \<Rightarrow> entity option" where
  "sync s chs cache = foldl (\<lambda>c ch. apply_change s ch c) cache chs"

definition change_id :: "LibraryChange \<Rightarrow> string \<times> string" where
  "change_id ch = (lc_Kind ch, lc_ID ch)"

lemma change_of_row [simp]:
  "lc_ChangeSeq (artist_change r) = ar_change_seq r" "change_id (artist_change r) = (''artist'', ar_artist_id r)"
  "lc_ChangeSeq (album_change a) = al_change_seq a" "change_id (album_change a) = (''album'', al_album_id a)"
  "lc_ChangeSeq (track_change t) = tk_change_seq t" "change_id (track_change t) = (''track'', tk_track_id t)"
  by (simp_all add: change_defs change_id_def)

lemma select1_unique: "unique_key key t \<Longrightarrow> r \<in> set t \<Longrightarrow> key r = i \<Longrightarrow> select1 (\<lambda>x. key x = i) t = Some r"
  using unique_key_select1 by metis

lemma feed_missing:
  assumes ok: "constraints_ok s" and ch: "ch \<in> set (feed s)" "lc_Missing ch"
  shows "live s (change_id ch) = None"
proof -
  have u: "unique_key ar_artist_id (ct_artists s)" "unique_key al_album_id (ct_albums s)" "unique_key tk_track_id (ct_tracks s)"
    using ok by (simp_all add: constraints_ok_def)
  show ?thesis using ch
    by (auto simp: feed_def change_defs change_id_def live_def artist_by_id_def album_by_id_def track_by_id_def
        artist_view_def album_view_def track_view_def select1_unique [OF u(1)] select1_unique [OF u(2)] select1_unique [OF u(3)])
qed

lemma sync_result:
  assumes "constraints_ok s" and "set chs \<subseteq> set (feed s)"
  shows "sync s chs cache k = (if k \<in> change_id ` set chs then live s k else cache k)"
  using assms(2)
proof (induction chs rule: rev_induct)
  case (snoc ch chs)
  have "live s (change_id ch) = None" if "lc_Missing ch" using feed_missing [OF assms(1) _ that] snoc.prems by simp
  with snoc show ?case by (auto simp: sync_def apply_change_def change_id_def)
qed (simp add: sync_def)

lemma feed_ids_distinct: "constraints_ok s \<Longrightarrow> distinct (map change_id (feed s))"
  by (auto simp: feed_def change_defs change_id_def constraints_ok_def unique_key_def distinct_map inj_on_def comp_def)

lemma stamped_lookup:
  assumes "stamped_since v key view stamp t0 t" and "unique_key key t0"
    and "\<And>r. r \<in> set t \<Longrightarrow> key r = i \<Longrightarrow> stamp r \<le> v"
  shows "map_option view (select1 (\<lambda>r. key r = i) t) = map_option view (select1 (\<lambda>r. key r = i) t0)"
proof (cases "select1 (\<lambda>r. key r = i) t")
  case None
  then have "i \<notin> key ` set t" by (auto simp: select1_None_iff)
  then have "i \<notin> key ` set t0" using assms(1) by (auto simp: stamped_since_def)
  then have "select1 (\<lambda>r. key r = i) t0 = None" by (auto simp: select1_None_iff)
  then show ?thesis using None by simp
next
  case (Some r)
  then have r: "r \<in> set t" "key r = i" using select1_SomeD by fastforce+
  then obtain r0 where "r0 \<in> set t0" "key r0 = i" "view r0 = view r"
    using assms(1,3) by (fastforce simp: stamped_since_def)
  then show ?thesis using Some select1_unique [OF assms(2)] by simp
qed

lemma unlisted_unchanged:
  assumes "constraints_ok s0" and "delta_ok v s0 s"
    and k: "k \<notin> change_id ` set (filter (\<lambda>ch. lc_ChangeSeq ch > v) (feed s))"
  shows "live s k = live s0 k"
proof -
  obtain kind i where ki: "k = (kind, i)" by fastforce
  have old: "lc_ChangeSeq ch \<le> v" if "ch \<in> set (feed s)" "change_id ch = (kind, i)" for ch
    using k that ki by (force simp: image_iff)
  have st: "stamped_since v ar_artist_id artist_view ar_change_seq (ct_artists s0) (ct_artists s)"
    "stamped_since v al_album_id album_view al_change_seq (ct_albums s0) (ct_albums s)"
    "stamped_since v tk_track_id track_shown tk_change_seq (ct_tracks s0) (ct_tracks s)"
    using assms(2) by (simp_all add: delta_ok_def)
  have u: "unique_key ar_artist_id (ct_artists s0)" "unique_key al_album_id (ct_albums s0)" "unique_key tk_track_id (ct_tracks s0)"
    using assms(1) by (simp_all add: constraints_ok_def)
  have a: "map_option artist_view (artist_by_id s i) = map_option artist_view (artist_by_id s0 i)" if "kind = ''artist''"
    unfolding artist_by_id_def
  proof (rule stamped_lookup [OF st(1) u(1)])
    fix r assume "r \<in> set (ct_artists s)" "ar_artist_id r = i"
    then show "ar_change_seq r \<le> v" using old [of "artist_change r"] that by (simp add: feed_def)
  qed
  have b: "map_option album_view (album_by_id s i) = map_option album_view (album_by_id s0 i)" if "kind = ''album''"
    unfolding album_by_id_def
  proof (rule stamped_lookup [OF st(2) u(2)])
    fix r assume "r \<in> set (ct_albums s)" "al_album_id r = i"
    then show "al_change_seq r \<le> v" using old [of "album_change r"] that by (simp add: feed_def)
  qed
  have c: "map_option track_shown (track_by_id s i) = map_option track_shown (track_by_id s0 i)" if "kind = ''track''"
    unfolding track_by_id_def
  proof (rule stamped_lookup [OF st(3) u(3)])
    fix r assume "r \<in> set (ct_tracks s)" "tk_track_id r = i"
    then show "tk_change_seq r \<le> v" using old [of "track_change r"] that by (simp add: feed_def)
  qed
  have "live s (''track'', i) = live s0 (''track'', i)" if "kind = ''track''"
    using c [OF that]
    by (cases "track_by_id s i"; cases "track_by_id s0 i") (auto simp: live_def track_shown_def track_view_def split: if_splits)
  then show ?thesis using a b by (cases "kind = ''track''") (simp_all add: live_def ki)
qed

lemma sync_delta:
  assumes "constraints_ok s0" and ok: "constraints_ok s" and d: "delta_ok v s0 s" and "0 < n" and "length (feed s) < fuel"
  shows "sync s (walk_pages (\<lambda>c. ChangesSince s v c n) fuel None) (live s0) = live s"
proof -
  let ?rows = "filter (\<lambda>ch. lc_ChangeSeq ch > v) (feed s)"
  have walk: "set (walk_pages (\<lambda>c. ChangesSince s v c n) fuel None) = set ?rows"
  proof -
    have "distinct (map (snd \<circ> change_key) ?rows)"
    proof -
      have "snd \<circ> change_key = change_id" by (simp add: fun_eq_iff change_key_def change_id_def)
      then show ?thesis using distinct_map_filter [OF feed_ids_distinct [OF ok]] by simp
    qed
    moreover have "length ?rows < fuel" using assms(5) by (meson le_less_trans length_filter_le)
    ultimately have "mset (walk_pages (\<lambda>c. ChangesSince s v c n) fuel None) = mset ?rows"
      unfolding ChangesSince_def by (intro changes.walk_mset [OF _ assms(4)])
    then show ?thesis by (rule mset_eq_setD)
  qed
  then have "set (walk_pages (\<lambda>c. ChangesSince s v c n) fuel None) \<subseteq> set (feed s)" by auto
  then show ?thesis
    using unlisted_unchanged [OF assms(1) d] walk by (auto simp: fun_eq_iff sync_result [OF ok])
qed

lemma sync_after_writes:
  assumes "constraints_ok s0" and "v \<le> version s0" and "list_all (stamps_after v) ops"
    and "0 < n" and "length (feed (run_ops (cat_step eqf) s0 ops)) < fuel"
  shows "sync (run_ops (cat_step eqf) s0 ops)
      (walk_pages (\<lambda>c. ChangesSince (run_ops (cat_step eqf) s0 ops) v c n) fuel None) (live s0) =
    live (run_ops (cat_step eqf) s0 ops)"
proof (rule sync_delta [OF assms(1) catalogs.inv_run [OF assms(1)] _ assms(4,5)])
  show "delta_ok v s0 (run_ops (cat_step eqf) s0 ops)"
    using run_followed [of v s0 s0 ops eqf] assms(2,3) by (simp add: followed_def delta_ok_refl)
qed


definition demo_scan :: "cat_op list" where
  "demo_scan = [ONextSeq, OMark 3 ''filesystem'' [], OFinish 3 ''filesystem'' 5]"


section \<open>What the feed misses\<close>

text \<open>
  A retag that changes only the case of a title is stored but never announced: the title column
  compares without case, so the row keeps its old stamp and no client that is up to date is told.
\<close>

lemma case_only_retag_is_silent:
  "case track_by_native (fst (UpsertTrack same_text ''filesystem'' (sample_meta ''a.flac'' ''SONG'' ''One'') '''' 2 5 demo_catalog))
     ''filesystem'' ''a.flac'' of
     None \<Rightarrow> False
   | Some t \<Rightarrow> tk_title t = ''SONG'' \<and> tk_change_seq t = 1 \<and> tk_seen_seq t = 2"
proof -
  have "same_text ''Song'' ''SONG''" by code_simp
  then show ?thesis unfolding demo_upsert fst_conv demo_rescanned_def
    by (simp add: put_track_def upsert_def track_by_native_def merge_track_def track_changed_def demo_defs
        same_text_def nullStr_def)
qed



end
