(* ===== verification/ScanRun.thy ===== *)
theory ScanRun
  imports SourceCache ChangeFeed Activity
begin

text \<open>
  One run of a filesystem scan (\<open>runScan\<close> and \<open>retryPendingArt\<close> in \<open>internal/library/scan.go\<close>): the
  source is enumerated, files with a fresh cached parse are reused, the others are parsed and
  indexed, and the scan's end marks what was not seen. The source is a parameter: what it lists and
  whether the enumeration ends in an error, what parsing and reading artwork of a file return. The
  outcome of each check of the context and of \<open>withCurrentSource\<close>, which the manager's model
  explains, is an argument, as is the clock.
\<close>

section \<open>The source and the moments of a scan\<close>

record music_source =
  ms_Kind :: string
  ms_ParserVersion :: int
  ms_Parse :: "TrackCandidate \<Rightarrow> TrackMeta option"
  ms_Art :: "TrackCandidate \<Rightarrow> string \<Rightarrow> (bytes \<times> string) option"

text \<open>What a file's turn finds: whether the context is done at its start and after a failed parse,
  whether the job is current at its start and when it writes, and the time.\<close>

record moment =
  mo_done :: bool
  mo_current :: bool
  mo_done_parsing :: bool
  mo_writable :: bool
  mo_now :: seconds

datatype scan_err = ScanCanceledErr | SourceGenerationChanged | EnumerationFailed | MismatchedNativeID
  | ScanStoreErr cat_err | ScanArtErr art_err

text \<open>What a scan works with throughout: the source and its instance, the scan's number, the loaded
  cache, the art directory, and the parameters of the store's model.\<close>

record scan_job =
  sj_src :: music_source
  sj_sourceID :: string
  sj_seq :: int
  sj_cache :: "string \<Rightarrow> SourceFileCacheEntry option"
  sj_artDir :: string
  sj_sha :: "bytes \<Rightarrow> bytes"
  sj_eqf :: "string \<Rightarrow> string \<Rightarrow> bool"

record scan_run =
  sr_store :: scan_store
  sr_stats :: Counts
  sr_mutated :: bool
  sr_artIDs :: "string \<Rightarrow> string option"
  sr_encountered :: "string list"
  sr_seen :: "string list"

definition with_cat :: "(catalog \<Rightarrow> catalog) \<Rightarrow> scan_run \<Rightarrow> scan_run" where
  "with_cat f r = r\<lparr>sr_store := (sr_store r)\<lparr>sv_cat := f (sv_cat (sr_store r))\<rparr>\<rparr>"

definition count_failed :: "scan_run \<Rightarrow> scan_run" where
  "count_failed r = r\<lparr>sr_stats := (sr_stats r)\<lparr>cn_Failed := cn_Failed (sr_stats r) + 1\<rparr>\<rparr>"

definition put_cache :: "scan_job \<Rightarrow> TrackCandidate \<Rightarrow> TrackMeta \<Rightarrow> bool \<Rightarrow> scan_run \<Rightarrow> scan_run" where
  "put_cache j c m pending r = r\<lparr>sr_store := PutSourceFileCacheState (sj_sourceID j) (ms_Kind (sj_src j))
     (ms_ParserVersion (sj_src j)) c m pending (sr_store r)\<rparr>"

text \<open>\<open>AttachTrackArt\<close> and, if it succeeds, the cache row without pending artwork.\<close>

definition attach_art :: "scan_job \<Rightarrow> TrackCandidate \<Rightarrow> TrackMeta \<Rightarrow> string \<Rightarrow> scan_run \<Rightarrow> scan_run \<times> scan_err option" where
  "attach_art j c m artID r =
     (case AttachTrackArt (ms_Kind (sj_src j)) (tc_NativeID c) artID (sj_seq j) (sv_cat (sr_store r)) of
        (s', Inl e) \<Rightarrow> (with_cat (\<lambda>_. s') r, Some (ScanStoreErr e))
      | (s', Inr _) \<Rightarrow> (put_cache j c m False (with_cat (\<lambda>_. s') r), None))"

definition store_art ::
  "scan_job \<Rightarrow> string \<Rightarrow> string \<Rightarrow> bytes \<Rightarrow> scan_run \<Rightarrow> scan_run \<times> (art_err + string)" where
  "store_art j hash mime data r =
     (case UpsertArt (sj_sha j) hash mime data (sj_artDir j) (sv_cat (sr_store r), sv_files (sr_store r)) of
        ((s', fs'), Inl e) \<Rightarrow> (r\<lparr>sr_store := (sr_store r)\<lparr>sv_cat := s', sv_files := fs'\<rparr>\<rparr>, Inl e)
      | ((s', fs'), Inr artID) \<Rightarrow>
          (r\<lparr>sr_store := (sr_store r)\<lparr>sv_cat := s', sv_files := fs'\<rparr>,
             sr_artIDs := (sr_artIDs r)(hash \<mapsto> artID)\<rparr>, Inr artID))"

definition found_art :: "scan_job \<Rightarrow> string \<Rightarrow> scan_run \<Rightarrow> string option" where
  "found_art j hash r = FindArtByHash (sj_sha j) (sv_cat (sr_store r), sv_files (sr_store r)) hash"

section \<open>A file whose artwork is pending\<close>

text \<open>The first flag: whether something was attempted; the second: whether reading the artwork failed.\<close>

definition retryPendingArt ::
  "scan_job \<Rightarrow> TrackCandidate \<Rightarrow> SourceFileCacheEntry \<Rightarrow> bool \<Rightarrow> scan_run \<Rightarrow> scan_run \<times> bool \<times> bool \<times> scan_err option" where
  "retryPendingArt j c entry writable r =
     (let hash = tm_ArtHash (fe_Meta entry); m = fe_Meta entry in
      if hash = '''' then
        (if writable then (put_cache j c m False r, False, False, None)
         else (r, False, False, Some SourceGenerationChanged))
      else
        (case (case sr_artIDs r hash of Some artID \<Rightarrow> Some artID | None \<Rightarrow> found_art j hash r) of
           Some artID \<Rightarrow>
             if \<not> writable then (r, True, False, Some SourceGenerationChanged)
             else (case attach_art j c m artID r of (r', e) \<Rightarrow> (r', True, False, e))
         | None \<Rightarrow>
             (case ms_Art (sj_src j) c hash of
                None \<Rightarrow> (r, False, True, None)
              | Some (data, mime) \<Rightarrow>
                  if data = [] then (r, False, True, None)
                  else if \<not> writable then (r, True, False, Some SourceGenerationChanged)
                  else (case store_art j hash mime data r of
                          (r', Inl e) \<Rightarrow> (r', True, False, Some (ScanArtErr e))
                        | (r', Inr artID) \<Rightarrow> (case attach_art j c m artID r' of (r'', e) \<Rightarrow> (r'', True, False, e))))))"

section \<open>A file that is parsed\<close>

text \<open>The artwork of a parsed file: known or found by its hash, or read from the file.\<close>

datatype art_state = ArtKnown | ArtRead bytes string | ArtFailed

definition prepare_art :: "scan_job \<Rightarrow> TrackCandidate \<Rightarrow> TrackMeta \<Rightarrow> scan_run \<Rightarrow> scan_run \<times> art_state" where
  "prepare_art j c m r =
     (let hash = tm_ArtHash m in
      if hash = '''' \<or> sr_artIDs r hash \<noteq> None then (r, ArtKnown)
      else (case found_art j hash r of
              Some artID \<Rightarrow> (r\<lparr>sr_artIDs := (sr_artIDs r)(hash \<mapsto> artID)\<rparr>, ArtKnown)
            | None \<Rightarrow>
                (case ms_Art (sj_src j) c hash of
                   None \<Rightarrow> (count_failed r, ArtFailed)
                 | Some (data, mime) \<Rightarrow> if data = [] then (count_failed r, ArtFailed) else (r, ArtRead data mime))))"

text \<open>The writes for a parsed file, inside \<open>withCurrentSource\<close>.\<close>

definition index_file ::
  "scan_job \<Rightarrow> TrackCandidate \<Rightarrow> TrackMeta \<Rightarrow> art_state \<Rightarrow> seconds \<Rightarrow> scan_run \<Rightarrow> scan_run \<times> scan_err option" where
  "index_file j c m art now r =
     (case UpsertTrack (sj_eqf j) (ms_Kind (sj_src j)) m '''' (sj_seq j) now (sv_cat (sr_store r)) of
        (s', Inl e) \<Rightarrow> (count_failed ((with_cat (\<lambda>_. s') r)\<lparr>sr_mutated := True\<rparr>), Some (ScanStoreErr e))
      | (s', Inr _) \<Rightarrow>
          (let r1 = (with_cat (\<lambda>_. s') r)\<lparr>sr_mutated := True,
                 sr_stats := (sr_stats r)\<lparr>cn_Indexed := cn_Indexed (sr_stats r) + 1\<rparr>,
                 sr_seen := List.insert (tc_NativeID c) (sr_seen r)\<rparr>
           in case art of
                ArtFailed \<Rightarrow> (put_cache j c m True r1, None)
              | ArtRead data mime \<Rightarrow>
                  (case store_art j (tm_ArtHash m) mime data r1 of
                     (r2, Inl e) \<Rightarrow> (put_cache j c m True (count_failed r2), Some (ScanArtErr e))
                   | (r2, Inr artID) \<Rightarrow>
                       (case attach_art j c m artID r2 of
                          (r3, Some e) \<Rightarrow> (count_failed r3, Some e) | (r3, None) \<Rightarrow> (r3, None)))
              | ArtKnown \<Rightarrow>
                  (case (if tm_ArtHash m = '''' then None else sr_artIDs r1 (tm_ArtHash m)) of
                     None \<Rightarrow> (put_cache j c m False r1, None)
                   | Some artID \<Rightarrow>
                       (case attach_art j c m artID r1 of
                          (r3, Some e) \<Rightarrow> (count_failed r3, Some e) | (r3, None) \<Rightarrow> (r3, None)))))"

section \<open>A file's turn\<close>

definition reusable :: "scan_job \<Rightarrow> TrackCandidate \<Rightarrow> SourceFileCacheEntry option" where
  "reusable j c =
     (case sj_cache j (tc_NativeID c) of
        None \<Rightarrow> None
      | Some e \<Rightarrow> if fe_CanonicalExists e \<and> fe_Candidate e = c then Some e else None)"

definition scan_file :: "scan_job \<Rightarrow> TrackCandidate \<Rightarrow> moment \<Rightarrow> scan_run \<Rightarrow> scan_run \<times> scan_err option" where
  "scan_file j c mo r0 =
     (let r = r0\<lparr>sr_stats := (sr_stats r0)\<lparr>cn_Discovered := cn_Discovered (sr_stats r0) + 1\<rparr>\<rparr> in
      if mo_done mo then (r, Some ScanCanceledErr)
      else if \<not> mo_current mo then (r, Some SourceGenerationChanged)
      else
        (let r1 = r\<lparr>sr_encountered := List.insert (tc_NativeID c) (sr_encountered r)\<rparr> in
         case reusable j c of
           Some entry \<Rightarrow>
             (let r2 = r1\<lparr>sr_stats := (sr_stats r1)\<lparr>cn_Reused := cn_Reused (sr_stats r1) + 1\<rparr>,
                    sr_seen := List.insert (tc_NativeID c) (sr_seen r1)\<rparr>
              in if \<not> fe_ArtPending entry then (r2, None)
                 else (case retryPendingArt j c entry (mo_writable mo) r2 of
                         (r3, attempted, failed, e) \<Rightarrow>
                           (let r4 = r3\<lparr>sr_mutated := sr_mutated r3 \<or> attempted\<rparr>;
                                r5 = (if failed then count_failed r4 else r4)
                            in if e \<noteq> None then (count_failed r5, e) else (r5, None))))
         | None \<Rightarrow>
             (let r2 = r1\<lparr>sr_stats := (sr_stats r1)\<lparr>cn_Probed := cn_Probed (sr_stats r1) + 1\<rparr>\<rparr> in
              case ms_Parse (sj_src j) c of
                None \<Rightarrow> (count_failed r2, if mo_done_parsing mo then Some ScanCanceledErr else None)
              | Some m \<Rightarrow>
                  if tm_NativeID m \<noteq> tc_NativeID c then (r2, Some MismatchedNativeID)
                  else (case prepare_art j c m r2 of
                          (r3, art) \<Rightarrow>
                            if \<not> mo_writable mo then (r3, Some SourceGenerationChanged)
                            else index_file j c m art (mo_now mo) r3))))"

fun scan_files ::
  "scan_job \<Rightarrow> (TrackCandidate \<times> moment) list \<Rightarrow> scan_run \<Rightarrow> scan_run \<times> scan_err option" where
  "scan_files j [] r = (r, None)"
| "scan_files j ((c, mo) # cs) r =
     (case scan_file j c mo r of (r', Some e) \<Rightarrow> (r', Some e) | (r', None) \<Rightarrow> scan_files j cs r')"

section \<open>The whole run\<close>

text \<open>\<open>listing\<close> is what the source enumerates, \<open>broken\<close> whether the enumeration then fails,
  \<open>still\<close> whether the job is current at the end.\<close>

definition start_scan ::
  "music_source \<Rightarrow> string \<Rightarrow> string \<Rightarrow> (bytes \<Rightarrow> bytes) \<Rightarrow> (string \<Rightarrow> string \<Rightarrow> bool) \<Rightarrow> scan_store \<Rightarrow> scan_job \<times> scan_run" where
  "start_scan src sourceID artDir sha eqf s =
     (case NextScanSeq (sv_cat s) of (cat, seq) \<Rightarrow>
        (\<lparr>sj_src = src, sj_sourceID = sourceID, sj_seq = seq,
          sj_cache = LoadSourceFileCache (s\<lparr>sv_cat := cat\<rparr>) sourceID (ms_Kind src) (ms_ParserVersion src),
          sj_artDir = artDir, sj_sha = sha, sj_eqf = eqf\<rparr>,
         \<lparr>sr_store = s\<lparr>sv_cat := cat\<rparr>, sr_stats = no_counts, sr_mutated = False, sr_artIDs = (\<lambda>_. None),
          sr_encountered = [], sr_seen = []\<rparr>))"

definition finish_run :: "scan_job \<Rightarrow> bool \<Rightarrow> bool \<Rightarrow> seconds \<Rightarrow> scan_run \<times> scan_err option \<Rightarrow> scan_run \<times> scan_err option" where
  "finish_run j broken still now out =
     (case out of
        (r, Some e) \<Rightarrow> (r, Some e)
      | (r, None) \<Rightarrow>
          if broken then (r, Some EnumerationFailed)
          else if \<not> still then (r, Some SourceGenerationChanged)
          else
            (let kind = ms_Kind (sj_src j)
             in case FinalizeSourceScan kind (sj_seq j) (sj_sourceID j) (sr_encountered r) (sr_seen r) now (sr_store r) of
                  (s, Inl e) \<Rightarrow> (r\<lparr>sr_store := s\<rparr>, Some (ScanStoreErr e))
                | (s, Inr _) \<Rightarrow>
                    (let counts = ScanChangeCounts kind (sj_seq j) (sv_cat s)
                     in (r\<lparr>sr_store := s,
                           sr_stats := (sr_stats r)\<lparr>cn_Changed := int (fst counts), cn_Removed := int (snd counts)\<rparr>\<rparr>, None))))"

definition runScan ::
  "music_source \<Rightarrow> string \<Rightarrow> string \<Rightarrow> (bytes \<Rightarrow> bytes) \<Rightarrow> (string \<Rightarrow> string \<Rightarrow> bool) \<Rightarrow>
   (TrackCandidate \<times> moment) list \<Rightarrow> bool \<Rightarrow> bool \<Rightarrow> seconds \<Rightarrow> scan_store \<Rightarrow> scan_run \<times> scan_err option" where
  "runScan src sourceID artDir sha eqf listing broken still now s =
     (case start_scan src sourceID artDir sha eqf s of (j, r) \<Rightarrow>
        finish_run j broken still now (scan_files j listing r))"

section \<open>What a step does to the rows and the cache\<close>

definition seen_rows :: "catalog \<Rightarrow> (string \<times> string \<times> int) set" where
  "seen_rows s = (\<lambda>t. (tk_source_kind t, tk_native_id t, tk_seen_seq t)) ` set (ct_tracks s)"

definition run_rows :: "scan_run \<Rightarrow> (string \<times> string \<times> int) set" where
  "run_rows r = seen_rows (sv_cat (sr_store r))"

definition run_cache :: "scan_run \<Rightarrow> cache_row table" where
  "run_cache r = sv_cache (sr_store r)"

definition parsed_row :: "scan_job \<Rightarrow> TrackCandidate \<Rightarrow> TrackMeta \<Rightarrow> bool \<Rightarrow> cache_row" where
  "parsed_row j c m pending = cache_row_of (sj_sourceID j) (ms_Kind (sj_src j)) (ms_ParserVersion (sj_src j)) c m pending"

definition mark_row :: "string \<Rightarrow> string \<Rightarrow> int \<Rightarrow> (string \<times> string \<times> int) set \<Rightarrow> (string \<times> string \<times> int) set" where
  "mark_row kind n seq rows = {(k, i, q) \<in> rows. (k, i) \<noteq> (kind, n)} \<union> {(kind, n, seq)}"

lemma seen_rows_update:
  "(\<And>t. tk_source_kind (f t) = tk_source_kind t \<and> tk_native_id (f t) = tk_native_id t \<and> tk_seen_seq (f t) = tk_seen_seq t) \<Longrightarrow>
   seen_rows (s\<lparr>ct_tracks := update_where P f (ct_tracks s)\<rparr>) = seen_rows s"
proof -
  assume f: "\<And>t. tk_source_kind (f t) = tk_source_kind t \<and> tk_native_id (f t) = tk_native_id t \<and> tk_seen_seq (f t) = tk_seen_seq t"
  have "(\<lambda>t. (tk_source_kind t, tk_native_id t, tk_seen_seq t)) (if P t then f t else t) =
      (tk_source_kind t, tk_native_id t, tk_seen_seq t)" for t
    using f by simp
  then show ?thesis by (simp add: seen_rows_def update_where_def image_image del: if_image_distrib)
qed

lemma seen_rows_cong: "ct_tracks a = ct_tracks b \<Longrightarrow> seen_rows a = seen_rows b"
  by (simp add: seen_rows_def)

lemma seen_rows_put:
  assumes "tk_source_kind x = kind" "tk_native_id x = n" "tk_seen_seq x = seq"
  shows "seen_rows (put_track preserve seq x s) = mark_row kind n seq (seen_rows s)"
proof -
  let ?row = "\<lambda>t. (tk_source_kind t, tk_native_id t, tk_seen_seq t)"
  have "?row ` set (update_where (\<lambda>t. (tk_source_kind t, tk_native_id t) = (kind, n)) (merge_track preserve seq x) ts) =
      {(k, i, q) \<in> ?row ` set ts. (k, i) \<noteq> (kind, n)} \<union>
      (if list_ex (\<lambda>t. (tk_source_kind t, tk_native_id t) = (kind, n)) ts then {(kind, n, seq)} else {})" for ts
    by (induction ts) (use assms in \<open>auto simp: merge_track_def\<close>)
  then show ?thesis using assms by (auto simp: put_track_def upsert_def seen_rows_def mark_row_def list_ex_iff)
qed

lemma upsert_seen_rows:
  assumes "UpsertTrack eqf kind m art seq now s = (s', Inr x)"
  shows "seen_rows s' = mark_row kind (tm_NativeID m) seq (seen_rows s)"
proof -
  from assms have "UpsertTrack eqf kind m art seq now s = (s', Inr ())" by simp
  then obtain preserve newID albumID artistID tid where
    s': "ct_tracks s' = ct_tracks (put_track preserve seq (new_track kind m art newID albumID artistID seq now) s) \<or>
      ct_tracks s' = ct_tracks (stamp_track tid seq (put_track preserve seq (new_track kind m art newID albumID artistID seq now) s))"
    by (rule upsert_tracks)
  let ?put = "put_track preserve seq (new_track kind m art newID albumID artistID seq now) s"
  have "seen_rows (stamp_track tid seq ?put) = seen_rows ?put"
    unfolding stamp_track_def by (rule seen_rows_update) simp
  then have "seen_rows s' = seen_rows ?put" using s' seen_rows_cong by metis
  then show ?thesis by (simp add: seen_rows_put new_track_def)
qed

lemma attach_seen_rows: "AttachTrackArt kind n artID seq s = (s', x) \<Longrightarrow> seen_rows s' = seen_rows s"
  using seen_rows_update [of "\<lambda>t. t\<lparr>tk_art_id := Some artID, tk_change_seq := seq\<rparr>"]
  by (auto simp: AttachTrackArt_def Let_def split: if_splits option.splits)

lemma UpsertArt_seen_rows: "UpsertArt sha hash mime data dir (s, fs) = ((s', fs'), x) \<Longrightarrow> seen_rows s' = seen_rows s"
  using UpsertArt_tables [of sha hash mime data dir s fs] by (auto simp: seen_rows_def)

text \<open>What the loop's bookkeeping of two runs has in common.\<close>

definition same_progress :: "scan_run \<Rightarrow> scan_run \<Rightarrow> bool" where
  "same_progress r r' \<longleftrightarrow> run_rows r' = run_rows r \<and> sr_seen r' = sr_seen r \<and> sr_encountered r' = sr_encountered r \<and>
     sr_stats r' = sr_stats r"

lemmas run_defs' = run_rows_def run_cache_def same_progress_def with_cat_def put_cache_def count_failed_def parsed_row_def
  PutSourceFileCacheState_def

lemma attach_art_effect:
  assumes "attach_art j c m artID r = (r', e)"
  shows "same_progress r r' \<and> (e = None \<longrightarrow> run_cache r' = put_cache_row (parsed_row j c m False) (run_cache r))"
  using assms attach_seen_rows by (fastforce simp: attach_art_def run_defs' split: prod.splits sum.splits)

lemma store_art_effect:
  assumes "store_art j hash mime data r = (r', x)"
  shows "same_progress r r' \<and> run_cache r' = run_cache r"
  using assms UpsertArt_seen_rows by (fastforce simp: store_art_def run_defs' split: prod.splits sum.splits)

lemma same_progress_trans: "same_progress r r1 \<Longrightarrow> same_progress r1 r2 \<Longrightarrow> same_progress r r2"
  by (simp add: same_progress_def)

lemma put_cache_effect:
  "same_progress r (put_cache j c m b r) \<and> run_cache (put_cache j c m b r) = put_cache_row (parsed_row j c m b) (run_cache r)"
  by (simp add: run_defs')

lemma retry_effect:
  assumes "retryPendingArt j c entry w r = (r', attempted, failed, None)"
  shows "same_progress r r' \<and>
    (if failed then run_cache r' = run_cache r
     else run_cache r' = put_cache_row (parsed_row j c (fe_Meta entry) False) (run_cache r))"
proof (cases "tm_ArtHash (fe_Meta entry) = ''''")
  case True
  then show ?thesis using assms put_cache_effect by (auto simp: retryPendingArt_def split: if_splits)
next
  case False
  note hash = False
  let ?known = "case sr_artIDs r (tm_ArtHash (fe_Meta entry)) of
      Some artID \<Rightarrow> Some artID | None \<Rightarrow> found_art j (tm_ArtHash (fe_Meta entry)) r"
  show ?thesis
  proof (cases ?known)
    case (Some artID)
    then have "attach_art j c (fe_Meta entry) artID r = (r', None) \<and> \<not> failed"
      using assms hash unfolding retryPendingArt_def Let_def by (simp split: if_splits prod.splits)
    then show ?thesis using attach_art_effect [of j c "fe_Meta entry" artID r r' None] by simp
  next
    case None
    show ?thesis
    proof (cases failed)
      case True
      have "r' = r"
        using assms hash None True unfolding retryPendingArt_def Let_def
        by (simp split: if_splits option.splits prod.splits sum.splits)
      then show ?thesis using True by (simp add: same_progress_def)
    next
      case False
      then obtain data mime r1 artID where st: "store_art j (tm_ArtHash (fe_Meta entry)) mime data r = (r1, Inr artID)"
        and at: "attach_art j c (fe_Meta entry) artID r1 = (r', None)"
        using assms hash None unfolding retryPendingArt_def Let_def
        by (simp split: if_splits option.splits prod.splits sum.splits)
      show ?thesis using False store_art_effect [OF st] attach_art_effect [OF at] by (auto intro: same_progress_trans)
    qed
  qed
qed

lemma prepare_art_effect:
  assumes "prepare_art j c m r = (r', art)"
  shows "run_rows r' = run_rows r \<and> run_cache r' = run_cache r \<and> sr_seen r' = sr_seen r \<and>
    sr_encountered r' = sr_encountered r \<and>
    cn_Failed (sr_stats r') = cn_Failed (sr_stats r) + (if art = ArtFailed then 1 else 0)"
  using assms
  by (auto simp: prepare_art_def Let_def run_defs' split: if_splits option.splits prod.splits)

text \<open>A file that is indexed: its row is marked as seen by this scan, and its parse is cached,
  pending if its artwork could not be read.\<close>

lemma index_file_effect:
  assumes "index_file j c m art now r = (r', None)" and "tm_NativeID m = tc_NativeID c"
  shows "run_rows r' = mark_row (ms_Kind (sj_src j)) (tc_NativeID c) (sj_seq j) (run_rows r) \<and>
    sr_seen r' = List.insert (tc_NativeID c) (sr_seen r) \<and> sr_encountered r' = sr_encountered r \<and>
    cn_Failed (sr_stats r') = cn_Failed (sr_stats r) \<and>
    run_cache r' = put_cache_row (parsed_row j c m (art = ArtFailed)) (run_cache r)"
proof -
  obtain s' where up: "UpsertTrack (sj_eqf j) (ms_Kind (sj_src j)) m '''' (sj_seq j) now (sv_cat (sr_store r)) = (s', Inr ())"
    using assms(1) unfolding index_file_def by (auto split: prod.splits sum.splits)
  let ?r1 = "(with_cat (\<lambda>_. s') r)\<lparr>sr_mutated := True,
                 sr_stats := (sr_stats r)\<lparr>cn_Indexed := cn_Indexed (sr_stats r) + 1\<rparr>,
                 sr_seen := List.insert (tc_NativeID c) (sr_seen r)\<rparr>"
  have r1: "run_rows ?r1 = mark_row (ms_Kind (sj_src j)) (tc_NativeID c) (sj_seq j) (run_rows r)"
      "sr_seen ?r1 = List.insert (tc_NativeID c) (sr_seen r)" "sr_encountered ?r1 = sr_encountered r"
      "cn_Failed (sr_stats ?r1) = cn_Failed (sr_stats r)" "run_cache ?r1 = run_cache r"
    using upsert_seen_rows [OF up] assms(2) by (simp_all add: run_defs')
  have step: "same_progress ?r1 r' \<and> run_cache r' = put_cache_row (parsed_row j c m (art = ArtFailed)) (run_cache ?r1)"
  proof (cases art)
    case ArtKnown
    then show ?thesis using assms(1) up put_cache_effect [of ?r1 j c m False] attach_art_effect [of j c m _ ?r1]
      unfolding index_file_def by (auto simp: Let_def split: option.splits prod.splits if_splits)
  next
    case (ArtRead data mime)
    then obtain r2 artID where st: "store_art j (tm_ArtHash m) mime data ?r1 = (r2, Inr artID)"
      and at: "attach_art j c m artID r2 = (r', None)"
      using assms(1) up unfolding index_file_def by (auto simp: Let_def split: option.splits prod.splits sum.splits)
    show ?thesis using ArtRead store_art_effect [OF st] attach_art_effect [OF at] by (auto intro: same_progress_trans)
  next
    case ArtFailed
    then show ?thesis using assms(1) up put_cache_effect [of ?r1 j c m True]
      unfolding index_file_def by (auto simp: Let_def)
  qed
  show ?thesis using step r1 unfolding same_progress_def by simp
qed

section \<open>A file's turn and the loop\<close>

lemma scan_file_effect:
  assumes "scan_file j c mo r = (r', None)"
  shows "sr_encountered r' = List.insert (tc_NativeID c) (sr_encountered r) \<and>
   ((\<exists>e. reusable j c = Some e \<and> sr_seen r' = List.insert (tc_NativeID c) (sr_seen r) \<and> run_rows r' = run_rows r \<and>
       (cn_Failed (sr_stats r') = cn_Failed (sr_stats r) \<and>
          run_cache r' = (if fe_ArtPending e then put_cache_row (parsed_row j c (fe_Meta e) False) (run_cache r) else run_cache r) \<or>
        cn_Failed (sr_stats r') = cn_Failed (sr_stats r) + 1 \<and> run_cache r' = run_cache r)) \<or>
    (reusable j c = None \<and> ms_Parse (sj_src j) c = None \<and> sr_seen r' = sr_seen r \<and> run_rows r' = run_rows r \<and>
       run_cache r' = run_cache r \<and> cn_Failed (sr_stats r') = cn_Failed (sr_stats r) + 1) \<or>
    (\<exists>m b. reusable j c = None \<and> ms_Parse (sj_src j) c = Some m \<and> tm_NativeID m = tc_NativeID c \<and>
       sr_seen r' = List.insert (tc_NativeID c) (sr_seen r) \<and>
       run_rows r' = mark_row (ms_Kind (sj_src j)) (tc_NativeID c) (sj_seq j) (run_rows r) \<and>
       run_cache r' = put_cache_row (parsed_row j c m b) (run_cache r) \<and>
       cn_Failed (sr_stats r') = cn_Failed (sr_stats r) + (if b then 1 else 0)))"
proof -
  let ?r1 = "r\<lparr>sr_stats := (sr_stats r)\<lparr>cn_Discovered := cn_Discovered (sr_stats r) + 1\<rparr>,
    sr_encountered := List.insert (tc_NativeID c) (sr_encountered r)\<rparr>"
  have start: "\<not> mo_done mo" "mo_current mo" using assms by (auto simp: scan_file_def Let_def split: if_splits)
  show ?thesis
  proof (cases "reusable j c")
    case (Some e)
    let ?r2 = "?r1\<lparr>sr_stats := (sr_stats ?r1)\<lparr>cn_Reused := cn_Reused (sr_stats ?r1) + 1\<rparr>,
      sr_seen := List.insert (tc_NativeID c) (sr_seen r)\<rparr>"
    show ?thesis
    proof (cases "fe_ArtPending e")
      case False
      then have "r' = ?r2" using assms start Some by (simp add: scan_file_def Let_def)
      then show ?thesis using Some False by (simp add: run_rows_def run_cache_def)
    next
      case True
      obtain r3 attempted failed where retry: "retryPendingArt j c e (mo_writable mo) ?r2 = (r3, attempted, failed, None)"
        and r': "r' = (if failed then count_failed (r3\<lparr>sr_mutated := sr_mutated r3 \<or> attempted\<rparr>)
          else r3\<lparr>sr_mutated := sr_mutated r3 \<or> attempted\<rparr>)"
        using assms start Some True unfolding scan_file_def Let_def by (simp split: prod.splits if_splits)
      show ?thesis using retry_effect [OF retry] Some True unfolding r'
        by (auto simp: same_progress_def run_rows_def run_cache_def count_failed_def)
    qed
  next
    case None
    let ?r2 = "?r1\<lparr>sr_stats := (sr_stats ?r1)\<lparr>cn_Probed := cn_Probed (sr_stats ?r1) + 1\<rparr>\<rparr>"
    show ?thesis
    proof (cases "ms_Parse (sj_src j) c")
      case (None)
      then have "r' = count_failed ?r2" using assms start \<open>reusable j c = None\<close> by (simp add: scan_file_def Let_def)
      then show ?thesis using None \<open>reusable j c = None\<close> by (simp add: run_rows_def run_cache_def count_failed_def)
    next
      case (Some m)
      have n: "tm_NativeID m = tc_NativeID c"
        using assms start None Some unfolding scan_file_def Let_def by (simp split: if_splits)
      obtain r3 art where p: "prepare_art j c m ?r2 = (r3, art)" by fastforce
      then have ix: "index_file j c m art (mo_now mo) r3 = (r', None)"
        using assms start None Some n unfolding scan_file_def Let_def by (simp split: if_splits)
      have "run_rows ?r2 = run_rows r" "run_cache ?r2 = run_cache r" "sr_seen ?r2 = sr_seen r"
        "sr_encountered ?r2 = List.insert (tc_NativeID c) (sr_encountered r)" "cn_Failed (sr_stats ?r2) = cn_Failed (sr_stats r)"
        by (simp_all add: run_rows_def run_cache_def)
      then show ?thesis using prepare_art_effect [OF p] index_file_effect [OF ix n] n None Some by auto
    qed
  qed
qed

definition natives :: "TrackCandidate list \<Rightarrow> string set" where
  "natives cs = tc_NativeID ` set cs"

text \<open>What the rows say of the files that had their turn; \<open>rows0\<close> are those at the start.\<close>

definition scan_inv :: "scan_job \<Rightarrow> (string \<times> string \<times> int) set \<Rightarrow> TrackCandidate list \<Rightarrow> scan_run \<Rightarrow> bool" where
  "scan_inv j rows0 cs r \<longleftrightarrow>
     (\<forall>n q. (ms_Kind (sj_src j), n, q) \<in> run_rows r \<and> sj_seq j \<le> q \<longrightarrow> n \<in> set (sr_seen r)) \<and>
     (\<forall>n \<in> set (sr_seen r). \<exists>q. (ms_Kind (sj_src j), n, q) \<in> run_rows r) \<and>
     (\<forall>k n q. (k, n, q) \<in> rows0 \<longrightarrow> (\<exists>q'. (k, n, q') \<in> run_rows r)) \<and>
     set (sr_seen r) \<subseteq> natives cs \<and> set (sr_encountered r) = natives cs \<and>
     (\<forall>c \<in> set cs. tc_NativeID c \<in> set (sr_seen r) \<or> ms_Parse (sj_src j) c = None)"

definition job_rows :: "scan_job \<Rightarrow> (string \<times> string \<times> int) set \<Rightarrow> bool" where
  "job_rows j rows0 \<longleftrightarrow> (\<forall>c. reusable j c \<noteq> None \<longrightarrow> (\<exists>q. (ms_Kind (sj_src j), tc_NativeID c, q) \<in> rows0))"

lemma mark_row_iff:
  "(k, i, q) \<in> mark_row kind n seq rows \<longleftrightarrow> (k, i, q) \<in> rows \<and> (k, i) \<noteq> (kind, n) \<or> k = kind \<and> i = n \<and> q = seq"
  by (auto simp: mark_row_def)

lemma scan_inv_mark:
  assumes "scan_inv j rows0 cs r" and "sr_seen r' = List.insert (tc_NativeID c) (sr_seen r)"
    and rows: "run_rows r' = mark_row (ms_Kind (sj_src j)) (tc_NativeID c) (sj_seq j) (run_rows r)"
    and "sr_encountered r' = List.insert (tc_NativeID c) (sr_encountered r)"
  shows "scan_inv j rows0 (cs @ [c]) r'"
  unfolding scan_inv_def
proof (intro conjI allI impI ballI)
  note i = assms(1) [unfolded scan_inv_def]
  show "n \<in> set (sr_seen r')" if "(ms_Kind (sj_src j), n, q) \<in> run_rows r' \<and> sj_seq j \<le> q" for n q
    using that i assms(2) unfolding rows mark_row_iff by auto
  show "\<exists>q. (ms_Kind (sj_src j), n, q) \<in> run_rows r'" if "n \<in> set (sr_seen r')" for n
    using that i assms(2) unfolding rows mark_row_iff by (cases "n = tc_NativeID c") auto
  show "\<exists>q'. (k, n, q') \<in> run_rows r'" if "(k, n, q) \<in> rows0" for k n q
    using that i unfolding rows mark_row_iff by blast
  show "set (sr_seen r') \<subseteq> natives (cs @ [c])" "set (sr_encountered r') = natives (cs @ [c])"
    using i assms(2,4) by (auto simp: natives_def)
  show "tc_NativeID x \<in> set (sr_seen r') \<or> ms_Parse (sj_src j) x = None" if "x \<in> set (cs @ [c])" for x
    using that i assms(2) by auto
qed

lemma scan_file_inv:
  assumes "scan_inv j rows0 cs r" and "scan_file j c mo r = (r', None)" and "job_rows j rows0"
  shows "scan_inv j rows0 (cs @ [c]) r'"
proof -
  note eff = scan_file_effect [OF assms(2)]
  show ?thesis
  proof (cases "reusable j c")
    case (Some e)
    then obtain q where "(ms_Kind (sj_src j), tc_NativeID c, q) \<in> rows0" using assms(3) by (auto simp: job_rows_def)
    moreover have "sr_seen r' = List.insert (tc_NativeID c) (sr_seen r)" "run_rows r' = run_rows r"
      "sr_encountered r' = List.insert (tc_NativeID c) (sr_encountered r)"
      using eff Some by auto
    ultimately show ?thesis using assms(1) unfolding scan_inv_def natives_def by simp blast
  next
    case None
    show ?thesis
    proof (cases "ms_Parse (sj_src j) c")
      case None
      then show ?thesis using eff \<open>reusable j c = None\<close> assms(1) unfolding scan_inv_def natives_def by auto
    next
      case (Some m)
      then have "sr_seen r' = List.insert (tc_NativeID c) (sr_seen r)"
        "run_rows r' = mark_row (ms_Kind (sj_src j)) (tc_NativeID c) (sj_seq j) (run_rows r)"
        "sr_encountered r' = List.insert (tc_NativeID c) (sr_encountered r)"
        using eff None by auto
      then show ?thesis using scan_inv_mark [OF assms(1)] by simp
    qed
  qed
qed

lemma scan_files_inv:
  assumes "scan_inv j rows0 cs r" and "scan_files j listing r = (r', None)" and "job_rows j rows0"
  shows "scan_inv j rows0 (cs @ map fst listing) r'"
  using assms(1,2)
proof (induction listing arbitrary: cs r)
  case (Cons x listing)
  obtain c mo where x: "x = (c, mo)" by fastforce
  obtain r1 where r1: "scan_file j c mo r = (r1, None)" "scan_files j listing r1 = (r', None)"
    using Cons.prems(2) x by (auto split: prod.splits option.splits)
  show ?case using Cons.IH [OF scan_file_inv [OF Cons.prems(1) r1(1) assms(3)] r1(2)] x by simp
qed simp

section \<open>A scan is a sequence of catalogue operations\<close>

definition by_ops :: "scan_job \<Rightarrow> scan_run \<Rightarrow> scan_run \<Rightarrow> bool" where
  "by_ops j r r' \<longleftrightarrow> (\<exists>ops. sv_cat (sr_store r') = run_ops (cat_step (sj_eqf j)) (sv_cat (sr_store r)) ops \<and>
     list_all (\<lambda>x. op_seq x = None \<or> op_seq x = Some (sj_seq j)) ops)"

lemma by_ops_same: "sv_cat (sr_store r') = sv_cat (sr_store r) \<Longrightarrow> by_ops j r r'"
  unfolding by_ops_def by (rule exI [of _ "[]"]) simp

lemma by_ops_trans: "by_ops j r r1 \<Longrightarrow> by_ops j r1 r2 \<Longrightarrow> by_ops j r r2"
  unfolding by_ops_def
proof (elim exE conjE)
  fix ops1 ops2
  assume "sv_cat (sr_store r1) = run_ops (cat_step (sj_eqf j)) (sv_cat (sr_store r)) ops1"
    "sv_cat (sr_store r2) = run_ops (cat_step (sj_eqf j)) (sv_cat (sr_store r1)) ops2"
    "list_all (\<lambda>x. op_seq x = None \<or> op_seq x = Some (sj_seq j)) ops1"
    "list_all (\<lambda>x. op_seq x = None \<or> op_seq x = Some (sj_seq j)) ops2"
  then show "\<exists>ops. sv_cat (sr_store r2) = run_ops (cat_step (sj_eqf j)) (sv_cat (sr_store r)) ops \<and>
      list_all (\<lambda>x. op_seq x = None \<or> op_seq x = Some (sj_seq j)) ops"
    by (intro exI [of _ "ops1 @ ops2"]) (simp add: run_ops_append)
qed

lemma by_ops_single:
  "sv_cat (sr_store r') = cat_step (sj_eqf j) (sv_cat (sr_store r)) x \<Longrightarrow> op_seq x = None \<or> op_seq x = Some (sj_seq j) \<Longrightarrow>
   by_ops j r r'"
  unfolding by_ops_def by (rule exI [of _ "[x]"]) simp

lemma by_ops_attach:
  assumes "attach_art j c m artID r = (r', e)"
  shows "by_ops j r r'"
  by (rule by_ops_single [of _ _ _ "OAttach (sj_seq j) (ms_Kind (sj_src j)) (tc_NativeID c) artID"])
    (use assms in \<open>auto simp: attach_art_def with_cat_def put_cache_def PutSourceFileCacheState_def split: prod.splits sum.splits\<close>)

lemma by_ops_store:
  assumes "store_art j hash mime data r = (r', x)"
  shows "by_ops j r r'"
  by (rule by_ops_single [of _ _ _ "OStoreArt (sj_sha j) hash mime data (sj_artDir j) (sv_files (sr_store r))"])
    (use assms in \<open>auto simp: store_art_def split: prod.splits sum.splits\<close>)

lemma by_ops_simps [simp]:
  "by_ops j r (put_cache j c m b r') = by_ops j r r'"
  "by_ops j r (count_failed r') = by_ops j r r'"
  "by_ops j r (r'\<lparr>sr_mutated := mu\<rparr>) = by_ops j r r'"
  "by_ops j (r\<lparr>sr_encountered := en\<rparr>) r' = by_ops j r r'"
  "by_ops j (r\<lparr>sr_seen := se\<rparr>) r' = by_ops j r r'"
  "by_ops j (r\<lparr>sr_stats := st\<rparr>) r' = by_ops j r r'"
  by (simp_all add: by_ops_def put_cache_def PutSourceFileCacheState_def count_failed_def)

lemma by_ops_retry:
  assumes "retryPendingArt j c entry w r = (r', attempted, failed, e)"
  shows "by_ops j r r'"
proof -
  have refl: "by_ops j r r" by (rule by_ops_same) simp
  have via: "by_ops j r r2" if "store_art j hash mime data r = (r1, x)" "attach_art j c m artID r1 = (r2, e)"
    for hash mime data r1 r2 x m artID e
    using by_ops_store [OF that(1)] by_ops_attach [OF that(2)] by (rule by_ops_trans)
  show ?thesis
    using assms refl unfolding retryPendingArt_def Let_def
    by (auto split: if_splits option.splits prod.splits sum.splits intro: by_ops_attach by_ops_store via)
qed

lemma by_ops_index:
  assumes "index_file j c m art now r = (r', e)"
  shows "by_ops j r r'"
proof -
  obtain s' x where up: "UpsertTrack (sj_eqf j) (ms_Kind (sj_src j)) m '''' (sj_seq j) now (sv_cat (sr_store r)) = (s', x)"
    by fastforce
  let ?r0 = "with_cat (\<lambda>_. s') r"
  let ?r1 = "(with_cat (\<lambda>_. s') r)\<lparr>sr_mutated := True,
                 sr_stats := (sr_stats r)\<lparr>cn_Indexed := cn_Indexed (sr_stats r) + 1\<rparr>,
                 sr_seen := List.insert (tc_NativeID c) (sr_seen r)\<rparr>"
  have up_ops: "by_ops j r ?r0" "by_ops j r ?r1"
    by (rule by_ops_single [of _ _ _ "OUpsert (sj_seq j) (ms_Kind (sj_src j)) m '''' now"]; simp add: up with_cat_def)+
  note via = by_ops_trans [OF up_ops(2)]
  have attached: "by_ops j r r2" if "attach_art j c m artID ?r1 = (r2, f)" for artID r2 f
    using via [OF by_ops_attach [OF that]] .
  have stored: "by_ops j r r2" if "store_art j hash mime data ?r1 = (r2, y)" for hash mime data r2 y
    using via [OF by_ops_store [OF that]] .
  have both: "by_ops j r r3" if "store_art j hash mime data ?r1 = (r2, y)" "attach_art j c m artID r2 = (r3, f)"
    for hash mime data r2 y artID r3 f
    using by_ops_trans [OF stored [OF that(1)] by_ops_attach [OF that(2)]] .
  show ?thesis
  proof (cases x)
    case (Inl er)
    then show ?thesis using assms up up_ops(1) unfolding index_file_def by auto
  next
    case (Inr u)
    then show ?thesis
      using assms up up_ops(2) attached stored both unfolding index_file_def Let_def
      by (cases art) (auto split: option.splits prod.splits sum.splits if_splits)
  qed
qed

lemma by_ops_file: "scan_file j c mo r = (r', e) \<Longrightarrow> by_ops j r r'"
proof -
  assume turn: "scan_file j c mo r = (r', e)"
  let ?r1 = "r\<lparr>sr_stats := (sr_stats r)\<lparr>cn_Discovered := cn_Discovered (sr_stats r) + 1\<rparr>,
    sr_encountered := List.insert (tc_NativeID c) (sr_encountered r)\<rparr>"
  have same: "by_ops j r r''" if "sr_store r'' = sr_store r" for r'' using that by (intro by_ops_same) simp
  show ?thesis
  proof (cases "mo_done mo \<or> \<not> mo_current mo")
    case True
    then show ?thesis using turn by (auto simp: scan_file_def Let_def intro!: same split: if_splits)
  next
    case False
    show ?thesis
    proof (cases "reusable j c")
      case (Some entry)
      let ?r2 = "?r1\<lparr>sr_stats := (sr_stats ?r1)\<lparr>cn_Reused := cn_Reused (sr_stats ?r1) + 1\<rparr>,
        sr_seen := List.insert (tc_NativeID c) (sr_seen r)\<rparr>"
      show ?thesis
      proof (cases "fe_ArtPending entry")
        case True
        obtain r3 attempted failed f where retry: "retryPendingArt j c entry (mo_writable mo) ?r2 = (r3, attempted, failed, f)"
          by (metis prod_cases4)
        have "by_ops j r r3" using by_ops_trans [OF same by_ops_retry [OF retry]] by simp
        then show ?thesis using turn False Some True retry by (auto simp: scan_file_def Let_def split: if_splits)
      qed (use turn False Some in \<open>auto simp: scan_file_def Let_def intro!: same\<close>)
    next
      case None
      let ?r2 = "?r1\<lparr>sr_stats := (sr_stats ?r1)\<lparr>cn_Probed := cn_Probed (sr_stats ?r1) + 1\<rparr>\<rparr>"
      show ?thesis
      proof (cases "ms_Parse (sj_src j) c")
        case (Some m)
        obtain r3 art where p: "prepare_art j c m ?r2 = (r3, art)" by fastforce
        have "sr_store r3 = sr_store ?r2"
          using p by (auto simp: prepare_art_def Let_def count_failed_def split: if_splits option.splits prod.splits)
        then have r3: "by_ops j r r3" by (intro same) simp
        show ?thesis
        proof (cases "tm_NativeID m = tc_NativeID c \<and> mo_writable mo")
          case True
          then have "index_file j c m art (mo_now mo) r3 = (r', e)"
            using turn False None Some p by (simp add: scan_file_def Let_def)
          then show ?thesis using by_ops_trans [OF r3 by_ops_index] by simp
        qed (use turn False None Some p r3 in \<open>auto simp: scan_file_def Let_def intro!: same split: if_splits\<close>)
      qed (use turn False None in \<open>auto simp: scan_file_def Let_def count_failed_def intro!: same split: if_splits\<close>)
    qed
  qed
qed

lemma by_ops_files: "scan_files j listing r = (r', e) \<Longrightarrow> by_ops j r r'"
proof (induction listing arbitrary: r)
  case (Cons x listing)
  obtain c mo where x: "x = (c, mo)" by fastforce
  obtain r1 f where r1: "scan_file j c mo r = (r1, f)" by fastforce
  show ?case
    using by_ops_file [OF r1] Cons r1 x by (auto split: option.splits intro: by_ops_trans)
qed (auto intro: by_ops_same)

lemma by_ops_finish: "finish_run j broken still now (r, e) = (r', e') \<Longrightarrow> by_ops j r r'"
proof -
  assume fin: "finish_run j broken still now (r, e) = (r', e')"
  let ?c = "sv_cat (sr_store r)" and ?kind = "ms_Kind (sj_src j)"
  have ops: "by_ops j r r''" if "FinishScan ?kind (sj_seq j) now (fst (MarkTracksSeen ?kind (sr_seen r) (sj_seq j) ?c)) =
      (sv_cat (sr_store r''), Inr ())" for r''
    unfolding by_ops_def
    by (rule exI [of _ "[OMark (sj_seq j) ?kind (sr_seen r), OFinish (sj_seq j) ?kind now]"]) (simp add: that)
  obtain s' u where out: "FinalizeSourceScan ?kind (sj_seq j) (sj_sourceID j) (sr_encountered r) (sr_seen r) now (sr_store r) = (s', u)"
    by fastforce
  show ?thesis
  proof (cases u)
    case (Inl x)
    have "s' = sr_store r" using out Inl FinalizeSourceScan_Inl by blast
    then show ?thesis using fin out Inl by (auto simp: finish_run_def Let_def intro: by_ops_same split: option.splits if_splits)
  next
    case (Inr x)
    have "FinishScan ?kind (sj_seq j) now (fst (MarkTracksSeen ?kind (sr_seen r) (sj_seq j) ?c)) = (sv_cat s', Inr ())"
      using FinalizeSourceScan_Inr(3) out Inr by simp
    then show ?thesis
      using fin out Inr ops by (auto simp: finish_run_def Let_def intro: by_ops_same split: option.splits if_splits)
  qed
qed

text \<open>The whole run: it takes the next number and stamps with it.\<close>

lemma runScan_ops:
  assumes "runScan src sourceID artDir sha eqf listing broken still now s = (r, e)"
  obtains ops where "sv_cat (sr_store r) = run_ops (cat_step eqf) (sv_cat s) (ONextSeq # ops)"
    and "list_all (\<lambda>x. op_seq x = None \<or> op_seq x = Some (version (sv_cat s) + 1)) ops"
proof -
  obtain j r0 where start: "start_scan src sourceID artDir sha eqf s = (j, r0)" by fastforce
  obtain cat seq where step: "NextScanSeq (sv_cat s) = (cat, seq)" by fastforce
  have j: "sj_eqf j = eqf" "sj_seq j = version (sv_cat s) + 1" "sv_cat (sr_store r0) = cat"
    using start step NextScanSeq_version [OF step] by (auto simp: start_scan_def)
  obtain r1 f where files: "scan_files j listing r0 = (r1, f)" by fastforce
  then have "finish_run j broken still now (r1, f) = (r, e)" using assms start by (simp add: runScan_def)
  then have "by_ops j r0 r" using by_ops_trans [OF by_ops_files [OF files] by_ops_finish] by blast
  then show ?thesis using that j step unfolding by_ops_def by auto
qed


section \<open>The library mirrors what the source lists\<close>

definition present_files :: "string \<Rightarrow> catalog \<Rightarrow> string set" where
  "present_files kind s = {tk_native_id t | t. t \<in> set (ct_tracks s) \<and> tk_source_kind t = kind \<and> \<not> tk_missing t}"

text \<open>A complete run, in its three parts.\<close>

lemma completed_run:
  assumes "runScan src sourceID artDir sha eqf listing broken still now s = (r, None)"
  obtains j r0 r1 where "start_scan src sourceID artDir sha eqf s = (j, r0)" and "scan_files j listing r0 = (r1, None)"
    and "FinalizeSourceScan (ms_Kind src) (sj_seq j) sourceID (sr_encountered r1) (sr_seen r1) now (sr_store r1) = (sr_store r, Inr ())"
    and "cn_Failed (sr_stats r) = cn_Failed (sr_stats r1)"
proof -
  obtain j r0 where start: "start_scan src sourceID artDir sha eqf s = (j, r0)" by fastforce
  have j: "sj_src j = src" "sj_sourceID j = sourceID" using start by (auto simp: start_scan_def split: prod.splits)
  obtain r1 where "scan_files j listing r0 = (r1, None)" "finish_run j broken still now (r1, None) = (r, None)"
    using assms start by (cases "scan_files j listing r0"; cases "snd (scan_files j listing r0)") (auto simp: runScan_def finish_run_def)
  then show ?thesis using that start j by (auto simp: finish_run_def Let_def split: if_splits prod.splits sum.splits)
qed

lemma start_scan_facts:
  assumes "start_scan src sourceID artDir sha eqf s = (j, r0)"
  shows "sj_src j = src" "sj_sourceID j = sourceID" "sj_seq j = version (sv_cat s) + 1" "run_rows r0 = seen_rows (sv_cat s)"
    "sr_seen r0 = []" "sr_encountered r0 = []" "run_cache r0 = sv_cache s" "cn_Failed (sr_stats r0) = 0"
    "ct_tracks (sv_cat (sr_store r0)) = ct_tracks (sv_cat s)"
    "sj_cache j = LoadSourceFileCache (s\<lparr>sv_cat := fst (NextScanSeq (sv_cat s))\<rparr>) sourceID (ms_Kind src) (ms_ParserVersion src)"
proof -
  obtain cat seq where step: "NextScanSeq (sv_cat s) = (cat, seq)" by fastforce
  have "ct_tracks cat = ct_tracks (sv_cat s)" using step by (auto simp: NextScanSeq_def Let_def)
  then show "sj_src j = src" "sj_sourceID j = sourceID" "sj_seq j = version (sv_cat s) + 1" "run_rows r0 = seen_rows (sv_cat s)"
    "sr_seen r0 = []" "sr_encountered r0 = []" "run_cache r0 = sv_cache s" "cn_Failed (sr_stats r0) = 0"
    "ct_tracks (sv_cat (sr_store r0)) = ct_tracks (sv_cat s)"
    "sj_cache j = LoadSourceFileCache (s\<lparr>sv_cat := fst (NextScanSeq (sv_cat s))\<rparr>) sourceID (ms_Kind src) (ms_ParserVersion src)"
    using assms step NextScanSeq_version [OF step]
    by (auto simp: start_scan_def run_rows_def run_cache_def seen_rows_def no_counts_def)
qed

lemma reusable_entry:
  assumes "start_scan src sourceID artDir sha eqf s = (j, r0)" and "reusable j c = Some e"
  shows "fe_Candidate e = c" "tm_NativeID (fe_Meta e) = tc_NativeID c"
    "\<exists>q. (ms_Kind src, tc_NativeID c, q) \<in> seen_rows (sv_cat s)"
    "get_cache_row (sv_cache s) (sourceID, ms_Kind src, tc_NativeID c) =
      Some (tc_SizeBytes c, tc_MtimeNS c, ms_ParserVersion src, Some (fe_Meta e), fe_ArtPending e)"
proof -
  let ?s = "s\<lparr>sv_cat := fst (NextScanSeq (sv_cat s))\<rparr>"
  have load: "LoadSourceFileCache ?s sourceID (ms_Kind src) (ms_ParserVersion src) (tc_NativeID c) = Some e"
    and e: "fe_CanonicalExists e" "fe_Candidate e = c"
    using assms(2) start_scan_facts(10) [OF assms(1)] by (auto simp: reusable_def split: option.splits if_splits)
  obtain x m where x: "select1 (\<lambda>r. cache_key r = (sourceID, ms_Kind src, tc_NativeID c)) (sv_cache s) = Some x"
    and ver: "fc_parser x = ms_ParserVersion src" and m: "fc_meta x = Some m" "tm_NativeID m = fc_native x"
    and ex: "e = \<lparr>fe_Candidate = \<lparr>tc_NativeID = fc_native x, tc_SizeBytes = fc_size x, tc_MtimeNS = fc_mtime x\<rparr>,
       fe_Meta = m, fe_CanonicalExists = track_by_native (sv_cat ?s) (fc_kind x) (fc_native x) \<noteq> None,
       fe_ArtPending = fc_art_pending x\<rparr>"
    using load by (auto simp: LoadSourceFileCache_def cache_entry_def split: option.splits if_splits)
  have key: "fc_kind x = ms_Kind src" "fc_native x = tc_NativeID c" using select1_SomeD [OF x] by (simp_all add: cache_key_def)
  show "fe_Candidate e = c" "tm_NativeID (fe_Meta e) = tc_NativeID c" using e m ex key by simp_all
  have c: "c = \<lparr>tc_NativeID = fc_native x, tc_SizeBytes = fc_size x, tc_MtimeNS = fc_mtime x\<rparr>" using e(2) ex by simp
  show "get_cache_row (sv_cache s) (sourceID, ms_Kind src, tc_NativeID c) =
      Some (tc_SizeBytes c, tc_MtimeNS c, ms_ParserVersion src, Some (fe_Meta e), fe_ArtPending e)"
    using x ver m(1) ex by (simp add: get_cache_row_def) (simp add: c)
  obtain t where "track_by_native (sv_cat ?s) (ms_Kind src) (tc_NativeID c) = Some t" using e(1) ex key by auto
  then have "t \<in> set (ct_tracks (sv_cat s))" "tk_source_kind t = ms_Kind src" "tk_native_id t = tc_NativeID c"
    using select1_SomeD by (force simp: track_by_native_def NextScanSeq_def Let_def)+
  then show "\<exists>q. (ms_Kind src, tc_NativeID c, q) \<in> seen_rows (sv_cat s)" by (force simp: seen_rows_def)
qed

lemma completed_run_inv:
  assumes "start_scan src sourceID artDir sha eqf s = (j, r0)" and "scan_files j listing r0 = (r1, None)"
    and "seen_bounded (sv_cat s)"
  shows "scan_inv j (seen_rows (sv_cat s)) (map fst listing) r1"
proof -
  note start = start_scan_facts [OF assms(1)]
  have "q \<le> version (sv_cat s)" if "(k, n, q) \<in> seen_rows (sv_cat s)" for k n q
    using that assms(3) by (auto simp: seen_rows_def seen_bounded_def list_all_iff)
  then have "scan_inv j (seen_rows (sv_cat s)) [] r0"
    unfolding scan_inv_def using start by (fastforce simp: natives_def)
  moreover have "job_rows j (seen_rows (sv_cat s))"
    using reusable_entry(3) [OF assms(1)] start(1) by (auto simp: job_rows_def)
  ultimately show ?thesis using scan_files_inv [OF _ assms(2), of "seen_rows (sv_cat s)" "[]"] by simp
qed

text \<open>Marking and finishing: a file is present exactly if the scan saw it.\<close>

lemma finalized_track:
  assumes "t \<in> set (ct_tracks c)" and "tk_source_kind t = kind" and "tk_seen_seq t < seq \<or> tk_native_id t \<in> set seen"
  shows "\<not> tk_missing (let u = mark_seen kind seen seq t in
      if tk_source_kind u = kind \<and> tk_seen_seq u < seq \<and> \<not> tk_missing u then u\<lparr>tk_missing := True, tk_change_seq := seq\<rparr> else u)
    \<longleftrightarrow> tk_native_id t \<in> set seen"
  using assms by (auto simp: mark_seen_def Let_def)

lemma present_map:
  assumes "\<And>t. tk_source_kind (g t) = tk_source_kind t" and "\<And>t. tk_native_id (g t) = tk_native_id t"
    and "\<And>t. t \<in> set ts \<Longrightarrow> tk_source_kind t = kind \<Longrightarrow> \<not> tk_missing (g t) \<longleftrightarrow> tk_native_id t \<in> X"
  shows "{tk_native_id u | u. u \<in> set (map g ts) \<and> tk_source_kind u = kind \<and> \<not> tk_missing u} =
    {tk_native_id t | t. t \<in> set ts \<and> tk_source_kind t = kind \<and> tk_native_id t \<in> X}"
proof (intro set_eqI iffI)
  fix n assume "n \<in> {tk_native_id u | u. u \<in> set (map g ts) \<and> tk_source_kind u = kind \<and> \<not> tk_missing u}"
  then obtain t where "t \<in> set ts" "tk_source_kind (g t) = kind" "\<not> tk_missing (g t)" "n = tk_native_id (g t)" by auto
  then show "n \<in> {tk_native_id t | t. t \<in> set ts \<and> tk_source_kind t = kind \<and> tk_native_id t \<in> X}" using assms by auto
next
  fix n assume "n \<in> {tk_native_id t | t. t \<in> set ts \<and> tk_source_kind t = kind \<and> tk_native_id t \<in> X}"
  then obtain t where t: "t \<in> set ts" "tk_source_kind t = kind" "tk_native_id t \<in> X" "n = tk_native_id t" by auto
  then have "g t \<in> set (map g ts)" "tk_source_kind (g t) = kind" "\<not> tk_missing (g t)" "n = tk_native_id (g t)"
    using assms by auto
  then show "n \<in> {tk_native_id u | u. u \<in> set (map g ts) \<and> tk_source_kind u = kind \<and> \<not> tk_missing u}" by blast
qed

lemma finalized_present:
  assumes "\<forall>n q. (kind, n, q) \<in> seen_rows c \<and> seq \<le> q \<longrightarrow> n \<in> set seen"
  shows "present_files kind (scan_ended kind seq now (fst (MarkTracksSeen kind seen seq c))) =
    {n \<in> set seen. \<exists>q. (kind, n, q) \<in> seen_rows c}"
proof -
  let ?g = "\<lambda>t. let u = mark_seen kind seen seq t in
    if tk_source_kind u = kind \<and> tk_seen_seq u < seq \<and> \<not> tk_missing u then u\<lparr>tk_missing := True, tk_change_seq := seq\<rparr> else u"
  have tracks: "ct_tracks (scan_ended kind seq now (fst (MarkTracksSeen kind seen seq c))) = map ?g (ct_tracks c)"
    by (simp add: scan_ended_tracks MarkTracksSeen_tracks update_where_def Let_def)
  have keys: "tk_source_kind (?g t) = tk_source_kind t" "tk_native_id (?g t) = tk_native_id t" for t
    by (simp_all add: mark_seen_def Let_def)
  have flag: "\<not> tk_missing (?g t) \<longleftrightarrow> tk_native_id t \<in> set seen" if "t \<in> set (ct_tracks c)" "tk_source_kind t = kind" for t
  proof (rule finalized_track [OF that])
    have "(kind, tk_native_id t, tk_seen_seq t) \<in> seen_rows c" using that by (auto simp: seen_rows_def)
    then show "tk_seen_seq t < seq \<or> tk_native_id t \<in> set seen" using assms by (meson not_le)
  qed
  have "present_files kind (scan_ended kind seq now (fst (MarkTracksSeen kind seen seq c))) =
      {tk_native_id t | t. t \<in> set (ct_tracks c) \<and> tk_source_kind t = kind \<and> tk_native_id t \<in> set seen}"
    unfolding present_files_def tracks by (rule present_map [OF keys flag])
  also have "\<dots> = {n \<in> set seen. \<exists>q. (kind, n, q) \<in> seen_rows c}"
    by (auto simp: seen_rows_def)
  finally show ?thesis .
qed

lemma completed_present:
  assumes "start_scan src sourceID artDir sha eqf s = (j, r0)" and "scan_files j listing r0 = (r1, None)"
    and "seen_bounded (sv_cat s)"
    and fin: "FinalizeSourceScan (ms_Kind src) (sj_seq j) sourceID (sr_encountered r1) (sr_seen r1) now (sr_store r1) = (sr_store r, Inr ())"
  shows "present_files (ms_Kind src) (sv_cat (sr_store r)) = set (sr_seen r1)"
proof -
  note i = completed_run_inv [OF assms(1-3), unfolded scan_inv_def start_scan_facts(1) [OF assms(1)]]
  have "present_files (ms_Kind src) (sv_cat (sr_store r)) =
      {n \<in> set (sr_seen r1). \<exists>q. (ms_Kind src, n, q) \<in> seen_rows (sv_cat (sr_store r1))}"
    unfolding FinalizeSourceScan_Inr(1) [OF fin] using i by (simp add: run_rows_def finalized_present)
  then show ?thesis using i by (auto simp: run_rows_def)
qed

text \<open>C2
  A completed scan makes the library mirror the source: every present file of the source was listed by
  it, and every listed file is present, unless parsing it failed.
\<close>

theorem completed_scan_mirrors_source:
  assumes "runScan src sourceID artDir sha eqf listing broken still now s = (r, None)" and "seen_bounded (sv_cat s)"
  shows "present_files (ms_Kind src) (sv_cat (sr_store r)) \<subseteq> natives (map fst listing) \<and>
    (\<forall>c \<in> set (map fst listing). tc_NativeID c \<in> present_files (ms_Kind src) (sv_cat (sr_store r)) \<or> ms_Parse src c = None)"
proof -
  obtain j r0 r1 where run: "start_scan src sourceID artDir sha eqf s = (j, r0)" "scan_files j listing r0 = (r1, None)"
    and fin: "FinalizeSourceScan (ms_Kind src) (sj_seq j) sourceID (sr_encountered r1) (sr_seen r1) now (sr_store r1) = (sr_store r, Inr ())"
    using completed_run [OF assms(1)] by metis
  show ?thesis
    using completed_run_inv [OF run assms(2)] completed_present [OF run assms(2) fin] start_scan_facts(1) [OF run(1)]
    unfolding scan_inv_def by simp
qed

section \<open>Scanning an unchanged source again\<close>

definition file_key :: "scan_job \<Rightarrow> string \<Rightarrow> string \<times> string \<times> string" where
  "file_key j n = (sj_sourceID j, ms_Kind (sj_src j), n)"

definition fresh_row :: "scan_job \<Rightarrow> TrackCandidate \<Rightarrow> cache_row table \<Rightarrow> bool" where
  "fresh_row j c t \<longleftrightarrow> (\<exists>m. tm_NativeID m = tc_NativeID c \<and> get_cache_row t (file_key j (tc_NativeID c)) =
     Some (tc_SizeBytes c, tc_MtimeNS c, ms_ParserVersion (sj_src j), Some m, False))"

lemma parsed_row_lookup:
  "get_cache_row (put_cache_row (parsed_row j c m b) t) k =
    (if k = file_key j (tc_NativeID c) then Some (tc_SizeBytes c, tc_MtimeNS c, ms_ParserVersion (sj_src j), Some m, b)
     else get_cache_row t k)"
proof -
  have "parsed_row j c m b = keyed_row (file_key j (tc_NativeID c)) (tc_SizeBytes c, tc_MtimeNS c, ms_ParserVersion (sj_src j), Some m, b)"
    by (simp add: parsed_row_def cache_row_of_def keyed_row_def file_key_def)
  then show ?thesis by (simp add: parsed_files.get_put)
qed

definition cache_inv :: "scan_job \<Rightarrow> cache_row table \<Rightarrow> TrackCandidate list \<Rightarrow> scan_run \<Rightarrow> bool" where
  "cache_inv j t0 cs r \<longleftrightarrow>
     (\<forall>n. n \<notin> natives cs \<longrightarrow> get_cache_row (run_cache r) (file_key j n) = get_cache_row t0 (file_key j n)) \<and>
     0 \<le> cn_Failed (sr_stats r) \<and> (cn_Failed (sr_stats r) = 0 \<longrightarrow>
       (\<forall>c \<in> set cs. fresh_row j c (run_cache r) \<and> tc_NativeID c \<in> set (sr_seen r)))"

definition job_cache :: "scan_job \<Rightarrow> cache_row table \<Rightarrow> bool" where
  "job_cache j t0 \<longleftrightarrow> (\<forall>c e. reusable j c = Some e \<longrightarrow> tm_NativeID (fe_Meta e) = tc_NativeID c \<and>
     get_cache_row t0 (file_key j (tc_NativeID c)) =
       Some (tc_SizeBytes c, tc_MtimeNS c, ms_ParserVersion (sj_src j), Some (fe_Meta e), fe_ArtPending e))"

lemma cache_inv_step:
  assumes "cache_inv j t0 cs r" and new: "tc_NativeID c \<notin> natives cs"
    and other: "\<And>n. n \<noteq> tc_NativeID c \<Longrightarrow> get_cache_row (run_cache r') (file_key j n) = get_cache_row (run_cache r) (file_key j n)"
    and failed: "cn_Failed (sr_stats r) \<le> cn_Failed (sr_stats r')"
    and seen: "set (sr_seen r) \<subseteq> set (sr_seen r')"
    and fresh: "cn_Failed (sr_stats r') = cn_Failed (sr_stats r) \<Longrightarrow>
      fresh_row j c (run_cache r') \<and> tc_NativeID c \<in> set (sr_seen r')"
  shows "cache_inv j t0 (cs @ [c]) r'"
proof -
  note i = assms(1) [unfolded cache_inv_def]
  have "fresh_row j x (run_cache r') \<and> tc_NativeID x \<in> set (sr_seen r')" if "cn_Failed (sr_stats r') = 0" "x \<in> set cs" for x
  proof -
    have "fresh_row j x (run_cache r)" "tc_NativeID x \<in> set (sr_seen r')" using i that failed seen by auto
    moreover have "tc_NativeID x \<noteq> tc_NativeID c" using new that(2) unfolding natives_def by (metis imageI)
    ultimately show ?thesis using other by (simp add: fresh_row_def)
  qed
  moreover have "fresh_row j c (run_cache r') \<and> tc_NativeID c \<in> set (sr_seen r')" if "cn_Failed (sr_stats r') = 0"
    using that i failed fresh by auto
  moreover have "get_cache_row (run_cache r') (file_key j n) = get_cache_row t0 (file_key j n)" if "n \<notin> natives (cs @ [c])" for n
    using that i other by (auto simp: natives_def)
  ultimately show ?thesis using i failed by (auto simp: cache_inv_def)
qed

lemma scan_file_cache_inv:
  assumes "cache_inv j t0 cs r" and "scan_file j c mo r = (r', None)" and "job_cache j t0" and "tc_NativeID c \<notin> natives cs"
  shows "cache_inv j t0 (cs @ [c]) r'"
proof (rule cache_inv_step [OF assms(1,4)])
  note eff = scan_file_effect [OF assms(2)]
  have key: "file_key j n = file_key j k \<longleftrightarrow> n = k" for n k by (simp add: file_key_def)
  show "get_cache_row (run_cache r') (file_key j n) = get_cache_row (run_cache r) (file_key j n)" if "n \<noteq> tc_NativeID c" for n
    using eff that by (auto simp: parsed_row_lookup key)
  show "cn_Failed (sr_stats r) \<le> cn_Failed (sr_stats r')" using eff by auto
  show "set (sr_seen r) \<subseteq> set (sr_seen r')" using eff by auto
  assume same: "cn_Failed (sr_stats r') = cn_Failed (sr_stats r)"
  show "fresh_row j c (run_cache r') \<and> tc_NativeID c \<in> set (sr_seen r')"
  proof (cases "reusable j c")
    case (Some e)
    have e: "tm_NativeID (fe_Meta e) = tc_NativeID c"
      "get_cache_row (run_cache r) (file_key j (tc_NativeID c)) =
        Some (tc_SizeBytes c, tc_MtimeNS c, ms_ParserVersion (sj_src j), Some (fe_Meta e), fe_ArtPending e)"
      using assms(1,3,4) Some by (auto simp: job_cache_def cache_inv_def)
    have "run_cache r' = (if fe_ArtPending e then put_cache_row (parsed_row j c (fe_Meta e) False) (run_cache r) else run_cache r)"
      "sr_seen r' = List.insert (tc_NativeID c) (sr_seen r)"
      using eff Some same by auto
    then show ?thesis using e by (auto simp: fresh_row_def parsed_row_lookup)
  next
    case None
    then obtain m where "tm_NativeID m = tc_NativeID c" "run_cache r' = put_cache_row (parsed_row j c m False) (run_cache r)"
      "sr_seen r' = List.insert (tc_NativeID c) (sr_seen r)"
      using eff same by (auto split: if_splits)
    then show ?thesis by (auto simp: fresh_row_def parsed_row_lookup)
  qed
qed

lemma scan_files_cache_inv:
  assumes "cache_inv j t0 cs r" and "scan_files j listing r = (r', None)" and "job_cache j t0"
    and "distinct (map tc_NativeID (cs @ map fst listing))"
  shows "cache_inv j t0 (cs @ map fst listing) r'"
  using assms(1,2,4)
proof (induction listing arbitrary: cs r)
  case (Cons x listing)
  obtain c mo where x: "x = (c, mo)" by fastforce
  obtain r1 where r1: "scan_file j c mo r = (r1, None)" "scan_files j listing r1 = (r', None)"
    using Cons.prems(2) x by (auto split: prod.splits option.splits)
  have "tc_NativeID c \<notin> natives cs" using Cons.prems(3) x by (auto simp: natives_def)
  from Cons.IH [OF scan_file_cache_inv [OF Cons.prems(1) r1(1) assms(3) this] r1(2)] Cons.prems(3) x show ?case by simp
qed simp

text \<open>A scan that finds a fresh parse of every file writes nothing in its loop.\<close>

lemma quiet_files:
  assumes "\<And>c mo. (c, mo) \<in> set listing \<Longrightarrow> \<not> mo_done mo \<and> mo_current mo \<and> (\<exists>e. reusable j c = Some e \<and> \<not> fe_ArtPending e)"
  shows "\<exists>r'. scan_files j listing r = (r', None) \<and> sr_store r' = sr_store r \<and> sr_mutated r' = sr_mutated r \<and>
    set (sr_seen r') = set (sr_seen r) \<union> natives (map fst listing) \<and>
    set (sr_encountered r') = set (sr_encountered r) \<union> natives (map fst listing) \<and>
    cn_Reused (sr_stats r') = cn_Reused (sr_stats r) + int (length listing) \<and>
    cn_Probed (sr_stats r') = cn_Probed (sr_stats r) \<and> cn_Indexed (sr_stats r') = cn_Indexed (sr_stats r) \<and>
    cn_Failed (sr_stats r') = cn_Failed (sr_stats r)"
  using assms
proof (induction listing arbitrary: r)
  case Nil
  then show ?case by (simp add: natives_def)
next
  case (Cons x listing)
  obtain c mo where x: "x = (c, mo)" by fastforce
  obtain e where e: "reusable j c = Some e" "\<not> fe_ArtPending e" and mo: "\<not> mo_done mo" "mo_current mo"
    using Cons.prems x by auto
  let ?r1 = "r\<lparr>sr_stats := (sr_stats r)\<lparr>cn_Discovered := cn_Discovered (sr_stats r) + 1, cn_Reused := cn_Reused (sr_stats r) + 1\<rparr>,
    sr_encountered := List.insert (tc_NativeID c) (sr_encountered r), sr_seen := List.insert (tc_NativeID c) (sr_seen r)\<rparr>"
  have step: "scan_file j c mo r = (?r1, None)" using e mo by (simp add: scan_file_def Let_def)
  have tail: "\<And>c mo. (c, mo) \<in> set listing \<Longrightarrow> \<not> mo_done mo \<and> mo_current mo \<and> (\<exists>e. reusable j c = Some e \<and> \<not> fe_ArtPending e)"
    using Cons.prems by (meson list.set_intros(2))
  obtain r' where "scan_files j listing ?r1 = (r', None)" "sr_store r' = sr_store ?r1" "sr_mutated r' = sr_mutated ?r1"
    "set (sr_seen r') = set (sr_seen ?r1) \<union> natives (map fst listing)"
    "set (sr_encountered r') = set (sr_encountered ?r1) \<union> natives (map fst listing)"
    "cn_Reused (sr_stats r') = cn_Reused (sr_stats ?r1) + int (length listing)"
    "cn_Probed (sr_stats r') = cn_Probed (sr_stats ?r1)" "cn_Indexed (sr_stats r') = cn_Indexed (sr_stats ?r1)"
    "cn_Failed (sr_stats r') = cn_Failed (sr_stats ?r1)"
    using Cons.IH [OF tail, of ?r1] by blast
  then show ?case using x step by (intro exI [of _ r']) (auto simp: natives_def)
qed

subsection \<open>The end of such a scan\<close>

definition settled :: "catalog \<Rightarrow> bool" where
  "settled s \<longleftrightarrow>
     list_all (\<lambda>a. (al_missing a \<longleftrightarrow> album_gone s a) \<and> (al_art_id a = None \<longrightarrow> album_art s a = None)) (ct_albums s) \<and>
     list_all (\<lambda>r. (ar_missing r \<longleftrightarrow> artist_gone s r) \<and> (ar_art_id r = None \<longrightarrow> artist_art s r = None)) (ct_artists s)"

lemma settled_finish: "settled (scan_ended kind seq now s)"
  using scan_ended_settles [where s = s and kind = kind and seq = seq and now = now] by (simp add: settled_def)

lemma map_same: "(\<And>x. x \<in> set xs \<Longrightarrow> f x = x) \<Longrightarrow> map f xs = xs"
  by (induction xs) auto

lemma update_where_same: "(\<And>x. x \<in> set xs \<Longrightarrow> P x \<Longrightarrow> f x = x) \<Longrightarrow> update_where P f xs = xs"
  unfolding update_where_def by (rule map_same) simp

lemma FinishScan_settled:
  assumes "settled s" and "\<And>t. t \<in> set (ct_tracks s) \<Longrightarrow> tk_source_kind t = kind \<Longrightarrow> tk_seen_seq t < seq \<Longrightarrow> tk_missing t"
    and "constraints_ok s"
  shows "FinishScan kind seq now s = (s\<lparr>ct_updated_at := Some now\<rparr>, Inr ())"
proof -
  have "fs_tracks kind seq s = s" unfolding fs_tracks_def by (subst update_where_same) (use assms(2) in auto)
  moreover have "fs_albums seq s = s"
    unfolding fs_albums_def by (subst map_same) (use assms(1) in \<open>auto simp: settled_def list_all_iff\<close>)
  moreover have "fs_artists seq s = s"
    unfolding fs_artists_def by (subst map_same) (use assms(1) in \<open>auto simp: settled_def list_all_iff\<close>)
  moreover have "fs_album_art seq s = s"
    unfolding fs_album_art_def by (subst update_where_same) (use assms(1) in \<open>auto simp: settled_def list_all_iff\<close>)
  moreover have "fs_artist_art seq s = s"
    unfolding fs_artist_art_def by (subst update_where_same) (use assms(1) in \<open>auto simp: settled_def list_all_iff\<close>)
  moreover have "constraints_ok (s\<lparr>ct_updated_at := Some now\<rparr>)" using assms(3) by (simp add: constraints_ok_def)
  ultimately show ?thesis using assms(3) by (simp add: FinishScan_def bindE_def exec_def)
qed

text \<open>Only the number a track was last seen in changes: nothing the flags depend on.\<close>

lemma sort_key_map: "sort_key f (map g xs) = map g (sort_key (\<lambda>x. f (g x)) xs)"
proof (induction xs)
  case (Cons x xs)
  have "insort_key f (g x) (map g ys) = map g (insort_key (\<lambda>x. f (g x)) x ys)" for ys
    by (induction ys) auto
  then show ?case using Cons by simp
qed simp

lemma settled_seen:
  assumes "settled s" and h: "\<And>t. \<exists>q. h t = t\<lparr>tk_seen_seq := q\<rparr>"
  shows "settled (s\<lparr>ct_tracks := map h (ct_tracks s)\<rparr>)"
proof -
  have fields: "tk_album_id (h t) = tk_album_id t" "tk_missing (h t) = tk_missing t" "tk_art_id (h t) = tk_art_id t"
    "tk_disc (h t) = tk_disc t" "tk_idx (h t) = tk_idx t" for t
    using h [of t] by auto
  have gone: "album_gone (s\<lparr>ct_tracks := map h (ct_tracks s)\<rparr>) = album_gone s"
    by (simp add: fun_eq_iff album_gone_def count_where_def filter_map comp_def fields)
  have art: "album_art (s\<lparr>ct_tracks := map h (ct_tracks s)\<rparr>) = album_art s"
    by (simp add: fun_eq_iff album_art_def first_by_def filter_map comp_def fields sort_key_map split: list.split)
  show ?thesis
    using assms(1) gone art by (simp add: settled_def artist_gone_def artist_art_def)
qed

lemma prune_lookup:
  assumes "n \<in> set encountered"
  shows "get_cache_row (sv_cache (PruneSourceFileCache sourceID kind encountered s)) (sourceID, kind, n) =
    get_cache_row (sv_cache s) (sourceID, kind, n)"
proof -
  have "select1 (\<lambda>r. cache_key r = (sourceID, kind, n))
      (filter (\<lambda>r. fc_source r = sourceID \<and> fc_kind r = kind \<longrightarrow> fc_native r \<in> set encountered) t) =
    select1 (\<lambda>r. cache_key r = (sourceID, kind, n)) t" for t
    using assms by (induction t) (auto simp: cache_key_def)
  then show ?thesis by (simp add: get_cache_row_def PruneSourceFileCache_rows)
qed

lemma finalized_flags:
  assumes "\<forall>n q. (kind, n, q) \<in> seen_rows c \<and> seq \<le> q \<longrightarrow> n \<in> set seen"
    and t: "t \<in> set (ct_tracks (scan_ended kind seq now (fst (MarkTracksSeen kind seen seq c))))" "tk_source_kind t = kind"
  shows "\<not> tk_missing t \<longleftrightarrow> tk_native_id t \<in> set seen"
proof -
  let ?g = "\<lambda>t. let u = mark_seen kind seen seq t in
    if tk_source_kind u = kind \<and> tk_seen_seq u < seq \<and> \<not> tk_missing u then u\<lparr>tk_missing := True, tk_change_seq := seq\<rparr> else u"
  have "ct_tracks (scan_ended kind seq now (fst (MarkTracksSeen kind seen seq c))) = map ?g (ct_tracks c)"
    by (simp add: scan_ended_tracks MarkTracksSeen_tracks update_where_def Let_def)
  then obtain x where x: "x \<in> set (ct_tracks c)" "t = ?g x" using t(1) by auto
  have keys: "tk_source_kind (?g x) = tk_source_kind x" "tk_native_id (?g x) = tk_native_id x"
    by (simp_all add: mark_seen_def Let_def)
  then have kind: "tk_source_kind x = kind" using x(2) t(2) by simp
  then have "(kind, tk_native_id x, tk_seen_seq x) \<in> seen_rows c" using x(1) by (auto simp: seen_rows_def)
  then have "tk_seen_seq x < seq \<or> tk_native_id x \<in> set seen" using assms(1) by (meson not_le)
  then show ?thesis using finalized_track [OF x(1) kind] x(2) keys by simp
qed

subsection \<open>The second scan\<close>

lemma completed_fresh:
  assumes "start_scan src sourceID artDir sha eqf s = (j, r0)" and "scan_files j listing r0 = (r1, None)"
    and "cn_Failed (sr_stats r1) = 0" and "distinct (map tc_NativeID (map fst listing))" and "c \<in> set (map fst listing)"
  shows "fresh_row j c (run_cache r1)" "tc_NativeID c \<in> set (sr_seen r1)"
proof -
  note start = start_scan_facts [OF assms(1)]
  have "cache_inv j (sv_cache s) [] r0" using start by (simp add: cache_inv_def)
  moreover have "job_cache j (sv_cache s)"
    using reusable_entry(2,4) [OF assms(1)] start(1,2) by (simp add: job_cache_def file_key_def)
  ultimately have "cache_inv j (sv_cache s) (map fst listing) r1"
    using scan_files_cache_inv [OF _ assms(2), of "sv_cache s" "[]"] assms(4) by simp
  then show "fresh_row j c (run_cache r1)" "tc_NativeID c \<in> set (sr_seen r1)" using assms(3,5) by (auto simp: cache_inv_def)
qed

text \<open>A fresh parse of a present file is reused by the next scan.\<close>

lemma fresh_reusable:
  assumes start: "start_scan src sourceID artDir sha eqf s = (j, r0)"
    and m: "tm_NativeID m = tc_NativeID c"
    and row: "get_cache_row (sv_cache s) (sourceID, ms_Kind src, tc_NativeID c) =
      Some (tc_SizeBytes c, tc_MtimeNS c, ms_ParserVersion src, Some m, False)"
    and there: "track_by_native (sv_cat s) (ms_Kind src) (tc_NativeID c) \<noteq> None"
  shows "\<exists>e. reusable j c = Some e \<and> \<not> fe_ArtPending e"
proof -
  obtain x where x: "select1 (\<lambda>r. cache_key r = (sourceID, ms_Kind src, tc_NativeID c)) (sv_cache s) = Some x"
    "fc_size x = tc_SizeBytes c" "fc_mtime x = tc_MtimeNS c" "fc_parser x = ms_ParserVersion src" "fc_meta x = Some m"
    "\<not> fc_art_pending x"
    using row by (auto simp: get_cache_row_def)
  have key: "fc_kind x = ms_Kind src" "fc_native x = tc_NativeID c" using select1_SomeD [OF x(1)] by (simp_all add: cache_key_def)
  have "track_by_native (fst (NextScanSeq (sv_cat s))) (ms_Kind src) (tc_NativeID c) \<noteq> None"
    using there by (simp add: track_by_native_def NextScanSeq_def Let_def)
  then show ?thesis
    using x key m by (simp add: reusable_def start_scan_facts(10) [OF start] LoadSourceFileCache_def cache_entry_def)
qed

lemma quiet_finalize:
  assumes "settled c" and flags: "\<And>t. t \<in> set (ct_tracks c) \<Longrightarrow> tk_source_kind t = kind \<Longrightarrow> \<not> tk_missing t \<longleftrightarrow> tk_native_id t \<in> set seen"
    and ok: "constraints_ok c"
  shows "\<exists>h. FinishScan kind seq now (fst (MarkTracksSeen kind seen seq c)) =
      (c\<lparr>ct_tracks := map h (ct_tracks c), ct_updated_at := Some now\<rparr>, Inr ()) \<and> (\<forall>t \<in> set (ct_tracks c). \<exists>q. h t = t\<lparr>tk_seen_seq := q\<rparr>)"
proof -
  let ?h = "\<lambda>t. if tk_source_kind t = kind \<and> tk_native_id t \<in> set seen then t\<lparr>tk_seen_seq := seq\<rparr> else t"
  have h: "\<exists>q. ?h t = t\<lparr>tk_seen_seq := q\<rparr>" for t
  proof (cases "tk_source_kind t = kind \<and> tk_native_id t \<in> set seen")
    case True
    then show ?thesis by (intro exI [of _ seq]) simp
  next
    case False
    then have "?h t = t\<lparr>tk_seen_seq := tk_seen_seq t\<rparr>" by (simp only: if_False) simp
    then show ?thesis by blast
  qed
  have "mark_seen kind seen seq t = ?h t" if "t \<in> set (ct_tracks c)" for t
  proof (cases "tk_source_kind t = kind \<and> tk_native_id t \<in> set seen")
    case True
    then have "\<not> tk_missing t" using flags [OF that] by simp
    then have "mark_seen kind seen seq t = t\<lparr>tk_seen_seq := seq, tk_change_seq := tk_change_seq t, tk_missing := tk_missing t\<rparr>"
      using True by (simp add: mark_seen_def)
    also have "\<dots> = t\<lparr>tk_seen_seq := seq\<rparr>" by simp
    finally show ?thesis using True by (simp only: simp_thms if_True)
  next
    case False
    show ?thesis unfolding mark_seen_def if_not_P [OF False] ..
  qed
  then have marked: "fst (MarkTracksSeen kind seen seq c) = c\<lparr>ct_tracks := map ?h (ct_tracks c)\<rparr>"
    by (simp add: MarkTracksSeen_tracks)
  have "settled (c\<lparr>ct_tracks := map ?h (ct_tracks c)\<rparr>)" by (rule settled_seen [OF assms(1) h])
  moreover have "tk_missing t" if "t \<in> set (map ?h (ct_tracks c))" "tk_source_kind t = kind" "tk_seen_seq t < seq" for t
  proof -
    have "t \<in> ?h ` set (ct_tracks c)" using that(1) unfolding set_map .
    then obtain u where u: "t = ?h u" "u \<in> set (ct_tracks c)" by (rule imageE)
    have "tk_source_kind u = kind" "tk_missing t = tk_missing u"
      using that(2) u(1) by (cases "tk_source_kind u = kind \<and> tk_native_id u \<in> set seen"; simp)+
    moreover have "tk_native_id u \<notin> set seen"
    proof
      assume "tk_native_id u \<in> set seen"
      then have "t = u\<lparr>tk_seen_seq := seq\<rparr>" using u(1) \<open>tk_source_kind u = kind\<close> by simp
      then show False using that(3) by simp
    qed
    ultimately show ?thesis using flags [OF u(2)] by blast
  qed
  moreover have "constraints_ok (c\<lparr>ct_tracks := map ?h (ct_tracks c)\<rparr>)"
    by (rule constraints_map_tracks [OF ok]) simp_all
  ultimately have "FinishScan kind seq now (fst (MarkTracksSeen kind seen seq c)) =
      (c\<lparr>ct_tracks := map ?h (ct_tracks c), ct_updated_at := Some now\<rparr>, Inr ())"
    unfolding marked by (subst FinishScan_settled) simp_all
  then show ?thesis using h by blast
qed


section \<open>An example\<close>

definition demo_source :: music_source where
  "demo_source = \<lparr>ms_Kind = ''filesystem'', ms_ParserVersion = 2, ms_Parse = (\<lambda>_. None), ms_Art = (\<lambda>_ _. None)\<rparr>"

definition demo_file :: TrackCandidate where
  "demo_file = \<lparr>tc_NativeID = ''a.flac'', tc_SizeBytes = 10, tc_MtimeNS = 7\<rparr>"

definition demo_moment :: moment where
  "demo_moment = \<lparr>mo_done = False, mo_current = True, mo_done_parsing = False, mo_writable = True, mo_now = 9\<rparr>"

definition demo_run :: "(TrackCandidate \<times> moment) list \<Rightarrow> scan_run \<times> scan_err option" where
  "demo_run listing = runScan demo_source ''src_a'' ''/art'' (\<lambda>b. b) same_text listing False True 9 demo_store"

lemma demo_start:
  "\<exists>j r. start_scan demo_source ''src_a'' ''/art'' (\<lambda>b. b) same_text demo_store = (j, r) \<and> sr_stats r = no_counts \<and>
    (\<exists>e. reusable j demo_file = Some e \<and> \<not> fe_ArtPending e)"
proof -
  obtain j r where start: "start_scan demo_source ''src_a'' ''/art'' (\<lambda>b. b) same_text demo_store = (j, r)" by fastforce
  have stats: "sr_stats r = no_counts" using start by (auto simp: start_scan_def split: prod.splits)
  have "get_cache_row (sv_cache demo_store) (''src_a'', ms_Kind demo_source, tc_NativeID demo_file) =
      Some (tc_SizeBytes demo_file, tc_MtimeNS demo_file, ms_ParserVersion demo_source, Some (demo_meta ''Song''), False)"
    by (simp add: get_cache_row_def demo_store_def demo_source_def demo_file_def cache_row_of_def cache_key_def)
  moreover have "track_by_native (sv_cat demo_store) (ms_Kind demo_source) (tc_NativeID demo_file) \<noteq> None"
    by (simp add: demo_store_def demo_source_def demo_file_def track_by_native_def demo_defs)
  moreover have "tm_NativeID (demo_meta ''Song'') = tc_NativeID demo_file" by (simp add: demo_file_def sample_meta_def)
  ultimately have "\<exists>e. reusable j demo_file = Some e \<and> \<not> fe_ArtPending e" using fresh_reusable [OF start] by blast
  with start stats show ?thesis by blast
qed

lemma demo_scan_ends:
  "\<exists>c. FinishScan kind seq now (fst (MarkTracksSeen kind seen seq (fst (NextScanSeq demo_catalog)))) = (c, Inr ())"
  by (simp add: NextScanSeq_def MarkTracksSeen_tracks Let_def mark_seen_def finish_eval)

lemma demo_run_completes:
  "\<exists>r. demo_run [(demo_file, demo_moment)] = (r, None) \<and> cn_Failed (sr_stats r) = 0"
proof -
  obtain j r where start: "start_scan demo_source ''src_a'' ''/art'' (\<lambda>b. b) same_text demo_store = (j, r)" "sr_stats r = no_counts"
    and reuse: "\<exists>e. reusable j demo_file = Some e \<and> \<not> fe_ArtPending e"
    using demo_start by blast
  have turns: "\<not> mo_done mo \<and> mo_current mo \<and> (\<exists>e. reusable j c = Some e \<and> \<not> fe_ArtPending e)"
    if "(c, mo) \<in> set [(demo_file, demo_moment)]" for c mo
    using that reuse by (auto simp: demo_moment_def)
  obtain r' where r': "scan_files j [(demo_file, demo_moment)] r = (r', None)" "cn_Failed (sr_stats r') = cn_Failed (sr_stats r)"
    "sr_store r' = sr_store r"
    using quiet_files [of "[(demo_file, demo_moment)]" j r, OF turns] by blast
  have "sv_cat (sr_store r) = fst (NextScanSeq demo_catalog)"
    using start(1) by (auto simp: start_scan_def demo_store_def split: prod.splits)
  then have "\<exists>c. FinishScan kind seq now (fst (MarkTracksSeen kind seen seq (sv_cat (sr_store r)))) = (c, Inr ())" for kind seen seq now
    using demo_scan_ends by simp
  then have over: "\<exists>s. FinalizeSourceScan kind seq sid enc seen now (sr_store r') = (s, Inr ())" for kind seq sid enc seen now
    unfolding r'(3) FinalizeSourceScan_def by (metis (no_types, lifting) case_prod_conv sum.case(2))
  then have f: "cn_Failed (sr_stats r') = 0" using start(2) r'(2) by (simp add: no_counts_def)
  obtain s where "FinalizeSourceScan (ms_Kind (sj_src j)) (sj_seq j) (sj_sourceID j) (sr_encountered r') (sr_seen r') 9 (sr_store r') = (s, Inr ())"
    using over by blast
  then show ?thesis using start(1) r'(1) f by (simp add: demo_run_def runScan_def finish_run_def Let_def)
qed

lemma completed_scan_mirrors_source_witness:
  "present_files ''filesystem'' (sv_cat (sr_store (fst (demo_run [(demo_file, demo_moment)])))) \<subseteq> {''a.flac''}"
proof -
  obtain r where r: "demo_run [(demo_file, demo_moment)] = (r, None)" using demo_run_completes by blast
  have "present_files (ms_Kind demo_source) (sv_cat (sr_store r)) \<subseteq> natives (map fst [(demo_file, demo_moment)])"
    using completed_scan_mirrors_source [OF r [unfolded demo_run_def] demo_seen_bounded] by blast
  then show ?thesis using r by (simp add: natives_def demo_file_def demo_source_def)
qed



end
