(* ===== verification/ProfileStore.thy ===== *)
theory ProfileStore
  imports CatalogRead Identity Complex_Main
begin

text \<open>
  What the store keeps for the profiles (\<open>internal/store/profile_data.go\<close>): playlists, loves,
  ratings, playback events with presence, and recommendations, with the tables they hang on. A
  timestamp stored as text (RFC 3339 in UTC, whole seconds) is the second it names: such texts order
  like the times. \<open>float64\<close> positions are rational numbers. The operations are not transactions,
  except for the ingestion of playback events.
\<close>

section \<open>Tables\<close>

record playlist_row =
  pl_id :: string
  pl_owner :: "string option"
  pl_title :: string
  pl_visibility :: string
  pl_origin :: string
  pl_created_at :: seconds
  pl_updated_at :: seconds

record playlist_item =
  pi_item_id :: string
  pi_playlist_id :: string
  pi_track_id :: string
  pi_position :: int
  pi_added_at :: seconds

record love_row =
  lv_id :: string
  lv_profile :: string
  lv_ref :: string
  lv_kind :: string
  lv_state :: string
  lv_updated_at :: seconds

record rating_row =
  rg_profile :: string
  rg_item :: string
  rg_type :: string
  rg_rating10 :: int

record playback_row =
  pb_event_id :: string
  pb_profile :: string
  pb_device :: string
  pb_type :: string
  pb_track :: string
  pb_position :: "rat option"
  pb_at :: seconds
  pb_received_at :: seconds
  pb_session :: "string option"

record presence_row =
  pn_profile :: string
  pn_track :: string
  pn_playing :: bool
  pn_at :: seconds

record recommendation_row =
  rc_id :: string
  rc_from :: string
  rc_to :: string
  rc_ref :: string
  rc_kind :: string
  rc_note :: "string option"
  rc_seen :: bool
  rc_created_at :: seconds

record play_session =
  se_id :: string
  se_profile :: string
  se_device :: string
  se_track :: string
  se_started_at :: seconds
  se_position :: rat
  se_relay_state :: string
  se_now_playing_state :: string
  se_now_playing_outcome :: "string option"
  se_claim_id :: "string option"
  se_claimed_at :: "seconds option"
  se_terminal_reason :: "string option"
  se_attempt_count :: nat
  se_next_attempt_at :: "seconds option"
  se_updated_at :: seconds

record lastfm_row =
  lf_profile :: string
  lf_payload :: bytes
  lf_connected_at :: seconds

record lastfm_attempt =
  la_state :: string
  la_profile :: string
  la_expires_at :: seconds
  la_claim_id :: "string option"
  la_claimed_at :: "seconds option"

record profile_db =
  pd_cat :: catalog
  pd_ids :: idstore
  pd_playlists :: "playlist_row table"
  pd_items :: "playlist_item table"
  pd_loves :: "love_row table"
  pd_ratings :: "rating_row table"
  pd_events :: "playback_row table"
  pd_presence :: "presence_row table"
  pd_recs :: "recommendation_row table"
  pd_external :: "(string \<times> string) table"
  pd_lastfm :: "lastfm_row table"
  pd_attempts :: "lastfm_attempt table"
  pd_sessions :: "play_session table"

text \<open>\<open>PConstraint\<close>: the row violates a key of the schema; \<open>PNoRows\<close>: a row just written is not there.\<close>

datatype pd_err = PNotFound | PGone | PConstraint | PNoRows | PCatalog cat_err

definition has_profile :: "profile_db \<Rightarrow> string \<Rightarrow> bool" where
  "has_profile d p = list_ex (\<lambda>r. pf_profile_id r = p) (db_profiles (pd_ids d))"

definition draw_pd :: "string \<Rightarrow> profile_db \<Rightarrow> profile_db \<times> (pd_err + string)" where
  "draw_pd pre d = (case draw_id pre (pd_cat d) of
     (s, Inl e) \<Rightarrow> (d\<lparr>pd_cat := s\<rparr>, Inl (PCatalog e)) | (s, Inr i) \<Rightarrow> (d\<lparr>pd_cat := s\<rparr>, Inr i))"

text \<open>\<open>exec1\<close>: a statement that must affect a row.\<close>

definition exec1_pd :: "('r \<Rightarrow> bool) \<Rightarrow> 'r table \<Rightarrow> (profile_db \<Rightarrow> profile_db) \<Rightarrow> profile_db \<Rightarrow> profile_db \<times> (pd_err + unit)" where
  "exec1_pd P t f d = (if count_where P t = 0 then (d, Inl PNotFound) else (f d, Inr ()))"

section \<open>Playlists\<close>

record PlaylistRow =
  pll_PlaylistID :: string
  pll_Title :: string
  pll_Visibility :: string
  pll_Origin :: string
  pll_OwnerProfileID :: string
  pll_OwnerName :: string
  pll_TrackCount :: nat
  pll_DurationMs :: int
  pll_ArtID :: string
  pll_UpdatedAt :: seconds

record PlaylistItem =
  px_ItemID :: string
  px_Track :: TrackRow

definition items_of :: "profile_db \<Rightarrow> string \<Rightarrow> playlist_item list" where
  "items_of d p = filter (\<lambda>i. pi_playlist_id i = p) (pd_items d)"

definition item_art :: "catalog \<Rightarrow> playlist_item \<Rightarrow> string option" where
  "item_art s i = (case track_by_id s (pi_track_id i) of
     None \<Rightarrow> None
   | Some t \<Rightarrow> (case album_by_id s (tk_album_id t) of None \<Rightarrow> None | Some a \<Rightarrow> coalesce (tk_art_id t) (al_art_id a)))"

definition profile_name :: "profile_db \<Rightarrow> string option \<Rightarrow> string" where
  "profile_name d p = (case select1 (\<lambda>r. Some (pf_profile_id r) = p) (db_profiles (pd_ids d)) of
     None \<Rightarrow> '''' | Some r \<Rightarrow> pf_name r)"

text \<open>\<open>playlistSelect\<close>.\<close>

definition playlist_columns :: "profile_db \<Rightarrow> playlist_row \<Rightarrow> PlaylistRow" where
  "playlist_columns d p =
     \<lparr>pll_PlaylistID = pl_id p, pll_Title = pl_title p, pll_Visibility = pl_visibility p, pll_Origin = pl_origin p,
      pll_OwnerProfileID = or_empty (pl_owner p), pll_OwnerName = profile_name d (pl_owner p),
      pll_TrackCount = length (items_of d (pl_id p)),
      pll_DurationMs = sum_list (map tk_duration_ms
        (List.map_filter (\<lambda>i. track_by_id (pd_cat d) (pi_track_id i)) (items_of d (pl_id p)))),
      pll_ArtID = (case select1 (\<lambda>i. item_art (pd_cat d) i \<noteq> None) (sort_key pi_position (items_of d (pl_id p))) of
         None \<Rightarrow> '''' | Some i \<Rightarrow> or_empty (item_art (pd_cat d) i)),
      pll_UpdatedAt = pl_updated_at p\<rparr>"

definition no_playlist :: PlaylistRow where
  "no_playlist = \<lparr>pll_PlaylistID = '''', pll_Title = '''', pll_Visibility = '''', pll_Origin = '''', pll_OwnerProfileID = '''',
     pll_OwnerName = '''', pll_TrackCount = 0, pll_DurationMs = 0, pll_ArtID = '''', pll_UpdatedAt = 0\<rparr>"

definition GetPlaylist :: "profile_db \<Rightarrow> string \<Rightarrow> PlaylistRow option" where
  "GetPlaylist d p = map_option (playlist_columns d) (select1 (\<lambda>r. pl_id r = p) (pd_playlists d))"

definition ListPlaylists :: "profile_db \<Rightarrow> string \<Rightarrow> PlaylistRow list" where
  "ListPlaylists d profileID = map (playlist_columns d) (sort_key pl_title (filter (\<lambda>p. pl_owner p = Some profileID \<or>
     pl_visibility p = ''shared'' \<or> pl_visibility p = ''collaborative'' \<or> pl_origin p = ''source'') (pd_playlists d)))"

definition touch_playlist :: "string \<Rightarrow> seconds \<Rightarrow> profile_db \<Rightarrow> profile_db" where
  "touch_playlist p now d = d\<lparr>pd_playlists := update_where (\<lambda>r. pl_id r = p) (\<lambda>r. r\<lparr>pl_updated_at := now\<rparr>) (pd_playlists d)\<rparr>"

definition next_position :: "profile_db \<Rightarrow> string \<Rightarrow> int" where
  "next_position d p = (case items_of d p of [] \<Rightarrow> 0 | is \<Rightarrow> Max (set (map pi_position is))) + 1"

definition insert_item :: "string \<Rightarrow> string \<Rightarrow> string \<Rightarrow> seconds \<Rightarrow> profile_db \<Rightarrow> profile_db \<times> (pd_err + unit)" where
  "insert_item itemID p trackID now d =
     (if list_ex (\<lambda>i. pi_item_id i = itemID) (pd_items d) then (d, Inl PConstraint)
      else (d\<lparr>pd_items := pd_items d @ [\<lparr>pi_item_id = itemID, pi_playlist_id = p, pi_track_id = trackID,
              pi_position = next_position d p, pi_added_at = now\<rparr>]\<rparr>, Inr ()))"

text \<open>Track by track: those before an unknown one stay.\<close>

fun append_tracks :: "string \<Rightarrow> string list \<Rightarrow> seconds \<Rightarrow> profile_db \<Rightarrow> profile_db \<times> (pd_err + unit)" where
  "append_tracks p [] now d = (d, Inr ())"
| "append_tracks p (t # ts) now d =
     (case GetTrack (pd_cat d) t of
        Inl e \<Rightarrow> (d, Inl (PCatalog e))
      | Inr None \<Rightarrow> (d, Inl PNotFound)
      | Inr (Some _) \<Rightarrow>
          bindE (draw_pd ''pli'') (\<lambda>itemID. bindE (insert_item itemID p t now) (\<lambda>_. append_tracks p ts now)) d)"

definition AppendPlaylistTracks :: "string \<Rightarrow> string list \<Rightarrow> seconds \<Rightarrow> profile_db \<Rightarrow> profile_db \<times> (pd_err + unit)" where
  "AppendPlaylistTracks p ts now d =
     (if GetPlaylist d p = None then (d, Inl PNotFound)
      else bindE (append_tracks p ts now) (\<lambda>_ d. (touch_playlist p now d, Inr ())) d)"

definition insert_playlist ::
  "string \<Rightarrow> string \<Rightarrow> string \<Rightarrow> string \<Rightarrow> seconds \<Rightarrow> profile_db \<Rightarrow> profile_db \<times> (pd_err + unit)" where
  "insert_playlist p owner title visibility now d =
     (if \<not> has_profile d owner \<or> list_ex (\<lambda>r. pl_id r = p) (pd_playlists d) then (d, Inl PConstraint)
      else (d\<lparr>pd_playlists := pd_playlists d @ [\<lparr>pl_id = p, pl_owner = Some owner, pl_title = title,
              pl_visibility = visibility, pl_origin = ''blitterserver'', pl_created_at = now, pl_updated_at = now\<rparr>]\<rparr>, Inr ()))"

definition CreatePlaylist ::
  "string \<Rightarrow> string \<Rightarrow> string \<Rightarrow> string list \<Rightarrow> seconds \<Rightarrow> profile_db \<Rightarrow> profile_db \<times> (pd_err + PlaylistRow)" where
  "CreatePlaylist owner title visibility tracks now =
     bindE (draw_pd ''pl'') (\<lambda>p.
     bindE (insert_playlist p owner title (if visibility = '''' then ''private'' else visibility) now) (\<lambda>_.
     bindE (if tracks = [] then returnE () else AppendPlaylistTracks p tracks now) (\<lambda>_ d.
       (case GetPlaylist d p of None \<Rightarrow> (d, Inr no_playlist) | Some row \<Rightarrow> (d, Inr row)))))"

definition set_playlist :: "string \<Rightarrow> (playlist_row \<Rightarrow> playlist_row) \<Rightarrow> profile_db \<Rightarrow> profile_db \<times> (pd_err + unit)" where
  "set_playlist p f d = exec1_pd (\<lambda>r. pl_id r = p) (pd_playlists d)
     (\<lambda>d. d\<lparr>pd_playlists := update_where (\<lambda>r. pl_id r = p) f (pd_playlists d)\<rparr>) d"

definition UpdatePlaylist ::
  "string \<Rightarrow> string option \<Rightarrow> string option \<Rightarrow> seconds \<Rightarrow> profile_db \<Rightarrow> profile_db \<times> (pd_err + PlaylistRow)" where
  "UpdatePlaylist p title visibility now =
     bindE (case title of None \<Rightarrow> returnE () | Some t \<Rightarrow> set_playlist p (\<lambda>r. r\<lparr>pl_title := t, pl_updated_at := now\<rparr>)) (\<lambda>_.
     bindE (case visibility of None \<Rightarrow> returnE () | Some v \<Rightarrow> set_playlist p (\<lambda>r. r\<lparr>pl_visibility := v, pl_updated_at := now\<rparr>)) (\<lambda>_ d.
       (case GetPlaylist d p of None \<Rightarrow> (d, Inl PNotFound) | Some row \<Rightarrow> (d, Inr row))))"

text \<open>The items go with the playlist (\<open>ON DELETE CASCADE\<close>).\<close>

definition DeletePlaylist :: "string \<Rightarrow> profile_db \<Rightarrow> profile_db \<times> (pd_err + unit)" where
  "DeletePlaylist p d = exec1_pd (\<lambda>r. pl_id r = p) (pd_playlists d)
     (\<lambda>d. d\<lparr>pd_playlists := delete_where (\<lambda>r. pl_id r = p) (pd_playlists d),
            pd_items := delete_where (\<lambda>i. pi_playlist_id i = p) (pd_items d)\<rparr>) d"

definition RemovePlaylistItem :: "string \<Rightarrow> string \<Rightarrow> seconds \<Rightarrow> profile_db \<Rightarrow> profile_db \<times> (pd_err + unit)" where
  "RemovePlaylistItem p item now =
     bindE (\<lambda>d. exec1_pd (\<lambda>i. pi_playlist_id i = p \<and> pi_item_id i = item) (pd_items d)
       (\<lambda>d. d\<lparr>pd_items := delete_where (\<lambda>i. pi_playlist_id i = p \<and> pi_item_id i = item) (pd_items d)\<rparr>) d) (\<lambda>_ d.
     (touch_playlist p now d, Inr ()))"

text \<open>The page is ordered by the position as a number; the cursor compares it as text.\<close>

definition playlist_rows :: "profile_db \<Rightarrow> string \<Rightarrow> (playlist_item \<times> TrackRow) list" where
  "playlist_rows d p = List.map_filter (\<lambda>i.
     case track_by_id (pd_cat d) (pi_track_id i) of
       None \<Rightarrow> None
     | Some t \<Rightarrow> if tk_missing t then None else map_option (Pair i) (track_columns (pd_cat d) t)) (items_of d p)"

definition page_items :: "profile_db \<Rightarrow> string \<Rightarrow> cursor option \<Rightarrow> nat \<Rightarrow> (playlist_item \<times> TrackRow) list \<times> cursor option" where
  "page_items d p c limit =
     (let pos = (\<lambda>x. format_int (pi_position (fst x)));
          sel = (case c of None \<Rightarrow> playlist_rows d p
                 | Some (k, i) \<Rightarrow> filter (\<lambda>x. k < pos x \<or> pos x = k \<and> i < pi_item_id (fst x)) (playlist_rows d p));
          out = take (limit + 1) (sort_key (\<lambda>x. (pi_position (fst x), pi_item_id (fst x))) sel)
      in if limit < length out
         then (take limit out, Some (pos (out ! (limit - 1)), pi_item_id (fst (out ! (limit - 1)))))
         else (out, None))"

definition ListPlaylistItems ::
  "profile_db \<Rightarrow> string \<Rightarrow> cursor option \<Rightarrow> nat \<Rightarrow> cat_err + (PlaylistItem list \<times> cursor option)" where
  "ListPlaylistItems d p c limit =
     (case page_items d p c limit of (rows, next) \<Rightarrow>
        (case hydrate_all (pd_cat d) (map snd rows) of
           Inl e \<Rightarrow> Inl e
         | Inr ts \<Rightarrow> Inr (map (\<lambda>(i, t). \<lparr>px_ItemID = pi_item_id i, px_Track = t\<rparr>) (zip (map fst rows) ts), next)))"

section \<open>Loves\<close>

record LoveRow =
  lo_LoveID :: string
  lo_Ref :: string
  lo_Kind :: string
  lo_State :: string
  lo_Name :: string
  lo_ArtistName :: string
  lo_Owned :: bool
  lo_UpdatedAt :: seconds

text \<open>The kind, name, artist name and ownership of what a reference names.\<close>

definition resolveRef :: "profile_db \<Rightarrow> string \<Rightarrow> pd_err + (string \<times> string \<times> string \<times> bool)" where
  "resolveRef d ref =
     (let s = pd_cat d in
      if has_prefix ref ''art_'' then
        (case GetArtist s ref of
           Some a \<Rightarrow> Inr (''artist'', ax_Name a, '''', True)
         | None \<Rightarrow> (case select1 (\<lambda>x. fst x = ref) (pd_external d) of
             None \<Rightarrow> Inl PNotFound | Some x \<Rightarrow> Inr (''artist'', snd x, '''', False)))
      else if has_prefix ref ''alb_'' then
        (case GetAlbum s ref of None \<Rightarrow> Inl PNotFound | Some a \<Rightarrow> Inr (''album'', bx_Title a, bx_ArtistName a, True))
      else if has_prefix ref ''trk_'' then
        (case GetTrack s ref of
           Inl e \<Rightarrow> Inl (PCatalog e) | Inr None \<Rightarrow> Inl PNotFound
         | Inr (Some t) \<Rightarrow> Inr (''track'', tr_Title t, tr_ArtistName t, True))
      else if has_prefix ref ''genre:'' then
        (case select1 (\<lambda>g. same_text (snd (snd g)) (trim_space (trim_prefix ref ''genre:''))) (ct_genres s) of
           None \<Rightarrow> Inl PNotFound | Some g \<Rightarrow> Inr (''genre'', snd (snd g), '''', True))
      else Inl PNotFound)"

definition love_key :: "love_row \<Rightarrow> string \<times> string" where
  "love_key l = (lv_profile l, lv_ref l)"

definition put_love :: "love_row \<Rightarrow> profile_db \<Rightarrow> profile_db \<times> (pd_err + unit)" where
  "put_love l d =
     (if \<not> has_profile d (lv_profile l) \<or> list_ex (\<lambda>x. lv_id x = lv_id l \<and> love_key x \<noteq> love_key l) (pd_loves d) then (d, Inl PConstraint)
      else (d\<lparr>pd_loves := upsert love_key l (\<lambda>x. x\<lparr>lv_state := lv_state l, lv_updated_at := lv_updated_at l\<rparr>) (pd_loves d)\<rparr>, Inr ()))"

definition SetLove :: "string \<Rightarrow> string \<Rightarrow> string \<Rightarrow> seconds \<Rightarrow> profile_db \<Rightarrow> profile_db \<times> (pd_err + LoveRow)" where
  "SetLove profileID ref state now d =
     (case resolveRef d ref of
        Inl e \<Rightarrow> (d, Inl e)
      | Inr (kind, name, artistName, owned) \<Rightarrow>
          (let rec = \<lparr>lo_LoveID = '''', lo_Ref = ref, lo_Kind = kind, lo_State = state, lo_Name = name,
                      lo_ArtistName = artistName, lo_Owned = owned, lo_UpdatedAt = now\<rparr> in
           if state = ''neutral'' then
             (d\<lparr>pd_loves := delete_where (\<lambda>l. love_key l = (profileID, ref)) (pd_loves d)\<rparr>, Inr rec)
           else if state = ''loved'' \<or> state = ''not_for_me'' then
             bindE (draw_pd ''lov'') (\<lambda>i.
             bindE (put_love \<lparr>lv_id = i, lv_profile = profileID, lv_ref = ref, lv_kind = kind, lv_state = state, lv_updated_at = now\<rparr>)
               (\<lambda>_ d. (case select1 (\<lambda>l. love_key l = (profileID, ref)) (pd_loves d) of
                  None \<Rightarrow> (d, Inl PNoRows) | Some l \<Rightarrow> (d, Inr (rec\<lparr>lo_LoveID := lv_id l\<rparr>))))) d
           else (d, Inl PNotFound)))"

text \<open>Newest first; a reference that no longer resolves is named by itself.\<close>

definition love_row_of :: "profile_db \<Rightarrow> love_row \<Rightarrow> LoveRow" where
  "love_row_of d l =
     (let base = \<lparr>lo_LoveID = lv_id l, lo_Ref = lv_ref l, lo_Kind = lv_kind l, lo_State = lv_state l, lo_Name = '''',
                  lo_ArtistName = '''', lo_Owned = False, lo_UpdatedAt = lv_updated_at l\<rparr>
      in case resolveRef d (lv_ref l) of
           Inr (_, name, artistName, owned) \<Rightarrow> base\<lparr>lo_Name := name, lo_ArtistName := artistName, lo_Owned := owned\<rparr>
         | Inl _ \<Rightarrow> base\<lparr>lo_Name := lv_ref l\<rparr>)"

type_synonym time_cursor = "seconds \<times> string"

definition newest_first :: "time_cursor \<Rightarrow> time_cursor \<Rightarrow> bool" where
  "newest_first a b \<longleftrightarrow> fst b < fst a \<or> fst b = fst a \<and> snd a < snd b"

interpretation newest: keyset_order newest_first snd
  by unfold_locales (auto simp: newest_first_def)

definition ListLoves ::
  "profile_db \<Rightarrow> string \<Rightarrow> string \<Rightarrow> string \<Rightarrow> time_cursor option \<Rightarrow> nat \<Rightarrow> LoveRow list \<times> time_cursor option" where
  "ListLoves d profileID kind state c limit =
     (case keyset_page newest_first (\<lambda>l. (lv_updated_at l, lv_id l))
        (filter (\<lambda>l. lv_profile l = profileID \<and> (kind = '''' \<or> lv_kind l = kind) \<and> (state = '''' \<or> lv_state l = state)) (pd_loves d))
        c limit of (rows, next) \<Rightarrow> (map (love_row_of d) rows, next))"

definition GetLoveStates :: "profile_db \<Rightarrow> string \<Rightarrow> string list \<Rightarrow> string \<Rightarrow> string option" where
  "GetLoveStates d profileID refs ref =
     (if ref \<in> set refs then map_option lv_state (select1 (\<lambda>l. love_key l = (profileID, ref)) (pd_loves d)) else None)"

section \<open>Ratings\<close>

definition rating_key :: "rating_row \<Rightarrow> string \<times> string" where
  "rating_key r = (rg_profile r, rg_item r)"

definition SetRating :: "string \<Rightarrow> string \<Rightarrow> string \<Rightarrow> int \<Rightarrow> profile_db \<Rightarrow> profile_db \<times> (pd_err + unit)" where
  "SetRating profileID itemType itemID rating10 d =
     (case resolveRef d itemID of
        Inl e \<Rightarrow> (d, Inl e)
      | Inr _ \<Rightarrow>
          if \<not> has_profile d profileID then (d, Inl PConstraint)
          else (d\<lparr>pd_ratings := upsert rating_key \<lparr>rg_profile = profileID, rg_item = itemID, rg_type = itemType, rg_rating10 = rating10\<rparr>
                  (\<lambda>r. r\<lparr>rg_rating10 := rating10\<rparr>) (pd_ratings d)\<rparr>, Inr ()))"

definition ClearRating :: "string \<Rightarrow> string \<Rightarrow> profile_db \<Rightarrow> profile_db" where
  "ClearRating profileID itemID d = d\<lparr>pd_ratings := delete_where (\<lambda>r. rating_key r = (profileID, itemID)) (pd_ratings d)\<rparr>"

definition GetRatings :: "profile_db \<Rightarrow> string \<Rightarrow> string list \<Rightarrow> string \<Rightarrow> int option" where
  "GetRatings d profileID items i =
     (if i \<in> set items then map_option rg_rating10 (select1 (\<lambda>r. rating_key r = (profileID, i)) (pd_ratings d)) else None)"

section \<open>Playback events and presence\<close>

record PlaybackEventRecord =
  ev_EventID :: string
  ev_PlaySessionID :: string
  ev_Type :: string
  ev_TrackID :: string
  ev_PositionSec :: "rat option"
  ev_At :: seconds

definition positionValue :: "rat option \<Rightarrow> rat" where
  "positionValue v = (case v of None \<Rightarrow> 0 | Some x \<Rightarrow> x)"

text \<open>The session of an event of a profile relay to last.fm: a start names it (or its event id
  does), any other event without one belongs to the latest start of the track on the device.\<close>

definition event_session :: "profile_db \<Rightarrow> bool \<Rightarrow> string \<Rightarrow> string \<Rightarrow> PlaybackEventRecord \<Rightarrow> string" where
  "event_session d relay profileID deviceID e =
     (if \<not> relay then ''''
      else if ev_PlaySessionID e \<noteq> '''' then ev_PlaySessionID e
      else if ev_Type e = ''started'' then ev_EventID e
      else (case sort_key (\<lambda>x. - se_started_at x) (filter (\<lambda>x. se_profile x = profileID \<and> se_device x = deviceID \<and>
              se_track x = ev_TrackID e \<and> se_started_at x \<le> ev_At e) (pd_sessions d)) of
              [] \<Rightarrow> '''' | x # _ \<Rightarrow> se_id x))"

definition session_update :: "bool \<Rightarrow> string \<Rightarrow> string \<Rightarrow> string \<Rightarrow> seconds \<Rightarrow> PlaybackEventRecord \<Rightarrow> play_session table \<Rightarrow> play_session table" where
  "session_update relay sid profileID deviceID now e t =
     (if relay \<and> ev_Type e = ''started'' then
        (if list_ex (\<lambda>x. se_id x = sid) t then t
         else t @ [\<lparr>se_id = sid, se_profile = profileID, se_device = deviceID, se_track = ev_TrackID e,
           se_started_at = ev_At e, se_position = positionValue (ev_PositionSec e), se_relay_state = ''pending'',
           se_now_playing_state = ''pending'', se_now_playing_outcome = None, se_claim_id = None, se_claimed_at = None,
           se_terminal_reason = None, se_attempt_count = 0, se_next_attempt_at = None, se_updated_at = now\<rparr>])
      else if relay \<and> sid \<noteq> '''' \<and> ev_PositionSec e \<noteq> None then
        update_where (\<lambda>x. se_id x = sid \<and> se_profile x = profileID)
          (\<lambda>x. x\<lparr>se_position := max (se_position x) (positionValue (ev_PositionSec e)), se_updated_at := now\<rparr>) t
      else t)"

definition playing_types :: "string list" where
  "playing_types = [''started'', ''progress'', ''resumed'']"

text \<open>One event of the batch: unknown tracks and known event ids are skipped.\<close>

definition ingest_event ::
  "bool \<Rightarrow> string \<Rightarrow> string \<Rightarrow> seconds \<Rightarrow> PlaybackEventRecord \<Rightarrow> profile_db \<Rightarrow> profile_db \<times> bool" where
  "ingest_event relay profileID deviceID now e d =
     (if track_by_id (pd_cat d) (ev_TrackID e) = None then (d, False)
      else
        (let sid = event_session d relay profileID deviceID e in
         if list_ex (\<lambda>x. pb_event_id x = ev_EventID e) (pd_events d) then (d, False)
         else
           (d\<lparr>pd_events := pd_events d @ [\<lparr>pb_event_id = ev_EventID e, pb_profile = profileID, pb_device = deviceID,
                pb_type = ev_Type e, pb_track = ev_TrackID e, pb_position = ev_PositionSec e, pb_at = ev_At e,
                pb_received_at = now, pb_session = nullStr sid\<rparr>],
              pd_sessions := session_update relay sid profileID deviceID now e (pd_sessions d),
              pd_presence := upsert pn_profile \<lparr>pn_profile = profileID, pn_track = ev_TrackID e,
                pn_playing = (ev_Type e \<in> set playing_types), pn_at = ev_At e\<rparr>
                (\<lambda>r. r\<lparr>pn_track := ev_TrackID e, pn_playing := (ev_Type e \<in> set playing_types), pn_at := ev_At e\<rparr>)
                (pd_presence d)\<rparr>, True)))"

fun ingest_events ::
  "bool \<Rightarrow> string \<Rightarrow> string \<Rightarrow> seconds \<Rightarrow> PlaybackEventRecord list \<Rightarrow> profile_db \<Rightarrow> profile_db \<times> string list" where
  "ingest_events relay profileID deviceID now [] d = (d, [])"
| "ingest_events relay profileID deviceID now (e # es) d =
     (case ingest_event relay profileID deviceID now e d of (d', accepted) \<Rightarrow>
      (case ingest_events relay profileID deviceID now es d' of (d'', ids) \<Rightarrow>
         (d'', if accepted then ev_EventID e # ids else ids)))"

text \<open>One transaction: an event of an unknown profile violates a key and undoes the batch.
  (\<open>INSERT OR IGNORE\<close> does not ignore foreign keys.)\<close>

definition IngestPlaybackEventsDetailed ::
  "string \<Rightarrow> string \<Rightarrow> PlaybackEventRecord list \<Rightarrow> seconds \<Rightarrow> profile_db \<Rightarrow> profile_db \<times> (pd_err + nat \<times> string list)" where
  "IngestPlaybackEventsDetailed profileID deviceID events now d =
     (case ingest_events (list_ex (\<lambda>x. lf_profile x = profileID) (pd_lastfm d)) profileID deviceID now events d of
        (d', ids) \<Rightarrow> if ids \<noteq> [] \<and> \<not> has_profile d profileID then (d, Inl PConstraint)
          else (d', Inr (length ids, ids)))"

definition IngestPlaybackEvents ::
  "string \<Rightarrow> string \<Rightarrow> PlaybackEventRecord list \<Rightarrow> seconds \<Rightarrow> profile_db \<Rightarrow> profile_db \<times> (pd_err + nat)" where
  "IngestPlaybackEvents profileID deviceID events now d =
     (case IngestPlaybackEventsDetailed profileID deviceID events now d of
        (d', Inl e) \<Rightarrow> (d', Inl e) | (d', Inr (n, _)) \<Rightarrow> (d', Inr n))"

record PresenceRow =
  pw_ProfileID :: string
  pw_ProfileName :: string
  pw_AvatarColor :: string
  pw_Track :: TrackRow
  pw_At :: seconds

definition presence_columns :: "profile_db \<Rightarrow> presence_row \<Rightarrow> PresenceRow option" where
  "presence_columns d p =
     (case (track_by_id (pd_cat d) (pn_track p), select1 (\<lambda>r. pf_profile_id r = pn_profile p) (db_profiles (pd_ids d))) of
        (Some t, Some r) \<Rightarrow>
          if pn_playing p \<and> pf_share_listening r \<and> \<not> tk_missing t then
            map_option (\<lambda>row. \<lparr>pw_ProfileID = pf_profile_id r, pw_ProfileName = pf_name r,
              pw_AvatarColor = or_empty (pf_avatar_color r), pw_Track = row, pw_At = pn_at p\<rparr>) (track_columns (pd_cat d) t)
          else None
      | _ \<Rightarrow> None)"

definition ListPresence :: "profile_db \<Rightarrow> cat_err + PresenceRow list" where
  "ListPresence d =
     (let rows = List.map_filter (presence_columns d) (pd_presence d)
      in case hydrate_all (pd_cat d) (map pw_Track rows) of
           Inl e \<Rightarrow> Inl e
         | Inr ts \<Rightarrow> Inr (map (\<lambda>(p, t). p\<lparr>pw_Track := t\<rparr>) (zip rows ts)))"

section \<open>Taste\<close>

record TasteArtist =
  ta_Name :: string
  ta_Affinity :: rat

record TasteTrack =
  tt_Key :: string
  tt_Plays :: nat
  tt_Skips :: nat
  tt_LastPlayedAt :: "seconds option"

text \<open>The playback events of a profile of the given types, with their tracks.\<close>

definition history :: "profile_db \<Rightarrow> string \<Rightarrow> string list \<Rightarrow> (playback_row \<times> track_row) list" where
  "history d profileID types = List.map_filter (\<lambda>e.
     if pb_profile e = profileID \<and> pb_type e \<in> set types
     then map_option (Pair e) (track_by_id (pd_cat d) (pb_track e)) else None) (pd_events d)"

text \<open>\<open>GROUP BY\<close>: the groups in the order of their keys.\<close>

definition groups_by :: "('a \<Rightarrow> string) \<Rightarrow> 'a list \<Rightarrow> 'a list list" where
  "groups_by key xs = map (\<lambda>k. filter (\<lambda>x. key x = k) xs) (sort (remdups (map key xs)))"

definition key_mark :: string where
  "key_mark = [CHR 0xE2, CHR 0x90, CHR 0x9F]"

definition taste_track :: "(playback_row \<times> track_row) list \<Rightarrow> TasteTrack" where
  "taste_track g =
     (let ended = filter (\<lambda>x. pb_type (fst x) = ''ended'') g; t = snd (hd g) in
      \<lparr>tt_Key = to_lower (tk_artist_name t) @ key_mark @ to_lower (tk_title t),
       tt_Plays = length ended, tt_Skips = length (filter (\<lambda>x. pb_type (fst x) = ''skipped'') g),
       tt_LastPlayedAt = (if ended = [] then None else Some (Max (set (map (pb_at \<circ> fst) ended))))\<rparr>)"

definition taste_tracks :: "profile_db \<Rightarrow> string \<Rightarrow> TasteTrack list" where
  "taste_tracks d profileID = take 500 (sort_key (\<lambda>t. - int (tt_Plays t))
     (map taste_track (groups_by (tk_track_id \<circ> snd) (history d profileID [''ended'', ''skipped'']))))"

definition artist_plays :: "profile_db \<Rightarrow> string \<Rightarrow> (string \<times> nat) list" where
  "artist_plays d profileID = take 100 (sort_key (\<lambda>a. - int (snd a))
     (map (\<lambda>g. (tk_artist_name (snd (hd g)), length g)) (groups_by (tk_artist_name \<circ> snd) (history d profileID [''ended'']))))"

definition TasteSnapshot :: "profile_db \<Rightarrow> string \<Rightarrow> TasteArtist list \<times> TasteTrack list" where
  "TasteSnapshot d profileID =
     (let plays = artist_plays d profileID; maxPlays = foldl (\<lambda>m a. max m (snd a)) 0 plays in
      (map (\<lambda>a. \<lparr>ta_Name = fst a, ta_Affinity = of_nat (snd a) / of_nat maxPlays\<rparr>) plays, taste_tracks d profileID))"

section \<open>Recommendations\<close>

record RecommendationRow =
  rr_RecommendationID :: string
  rr_FromProfileID :: string
  rr_FromProfileName :: string
  rr_ToProfileID :: string
  rr_Ref :: string
  rr_Kind :: string
  rr_Name :: string
  rr_ArtistName :: string
  rr_ArtID :: string
  rr_Note :: string
  rr_Seen :: bool
  rr_CreatedAt :: seconds

definition profile_row_of :: "profile_db \<Rightarrow> string \<Rightarrow> profile_row option" where
  "profile_row_of d p = select1 (\<lambda>r. pf_profile_id r = p) (db_profiles (pd_ids d))"

definition insert_recommendation :: "recommendation_row \<Rightarrow> profile_db \<Rightarrow> profile_db \<times> (pd_err + unit)" where
  "insert_recommendation r d =
     (if list_ex (\<lambda>x. rc_id x = rc_id r) (pd_recs d) then (d, Inl PConstraint)
      else (d\<lparr>pd_recs := pd_recs d @ [r]\<rparr>, Inr ()))"

definition CreateRecommendation ::
  "string \<Rightarrow> string \<Rightarrow> string \<Rightarrow> string \<Rightarrow> seconds \<Rightarrow> profile_db \<Rightarrow> profile_db \<times> (pd_err + RecommendationRow)" where
  "CreateRecommendation from to ref note now d =
     (if profile_row_of d to = None then (d, Inl PNotFound)
      else (case resolveRef d ref of
        Inl e \<Rightarrow> (d, Inl e)
      | Inr (kind, name, artistName, _) \<Rightarrow> (case profile_row_of d from of
          None \<Rightarrow> (d, Inl PNotFound)
        | Some sender \<Rightarrow>
            bindE (draw_pd ''rec'') (\<lambda>i.
            bindE (insert_recommendation \<lparr>rc_id = i, rc_from = from, rc_to = to, rc_ref = ref, rc_kind = kind,
                     rc_note = nullStr note, rc_seen = False, rc_created_at = now\<rparr>)
              (\<lambda>_. returnE \<lparr>rr_RecommendationID = i, rr_FromProfileID = from, rr_FromProfileName = pf_name sender,
                 rr_ToProfileID = to, rr_Ref = ref, rr_Kind = kind, rr_Name = name, rr_ArtistName = artistName, rr_ArtID = '''',
                 rr_Note = note, rr_Seen = False, rr_CreatedAt = now\<rparr>)) d)))"

text \<open>A recommendation whose sender is gone is not listed (the tables are joined).\<close>

definition recommendation_columns :: "profile_db \<Rightarrow> recommendation_row \<Rightarrow> RecommendationRow option" where
  "recommendation_columns d r = map_option (\<lambda>sender.
     \<lparr>rr_RecommendationID = rc_id r, rr_FromProfileID = rc_from r, rr_FromProfileName = pf_name sender,
      rr_ToProfileID = rc_to r, rr_Ref = rc_ref r, rr_Kind = rc_kind r, rr_Name = '''', rr_ArtistName = '''', rr_ArtID = '''',
      rr_Note = or_empty (rc_note r), rr_Seen = rc_seen r, rr_CreatedAt = rc_created_at r\<rparr>) (profile_row_of d (rc_from r))"

definition decorate_recommendation :: "profile_db \<Rightarrow> RecommendationRow \<Rightarrow> RecommendationRow" where
  "decorate_recommendation d r = (case resolveRef d (rr_Ref r) of
     Inr (_, name, artistName, _) \<Rightarrow> r\<lparr>rr_Name := name, rr_ArtistName := artistName\<rparr>
   | Inl _ \<Rightarrow> r\<lparr>rr_Name := rr_Ref r\<rparr>)"

definition ListRecommendations ::
  "profile_db \<Rightarrow> string \<Rightarrow> bool \<Rightarrow> time_cursor option \<Rightarrow> nat \<Rightarrow> RecommendationRow list \<times> time_cursor option" where
  "ListRecommendations d profileID unseenOnly c limit =
     (case keyset_page newest_first (\<lambda>r. (rr_CreatedAt r, rr_RecommendationID r))
        (List.map_filter (recommendation_columns d)
          (filter (\<lambda>r. rc_to r = profileID \<and> (unseenOnly \<longrightarrow> \<not> rc_seen r)) (pd_recs d))) c limit of
        (rows, next) \<Rightarrow> (map (decorate_recommendation d) rows, next))"

definition MarkRecommendationSeen :: "string \<Rightarrow> string \<Rightarrow> profile_db \<Rightarrow> profile_db \<times> (pd_err + unit)" where
  "MarkRecommendationSeen profileID i d =
     exec1_pd (\<lambda>r. rc_id r = i \<and> rc_to r = profileID) (pd_recs d)
       (\<lambda>d. d\<lparr>pd_recs := update_where (\<lambda>r. rc_id r = i \<and> rc_to r = profileID) (\<lambda>r. r\<lparr>rc_seen := True\<rparr>) (pd_recs d)\<rparr>) d"

section \<open>Event ids are the boundary of replays\<close>

abbreviation known_events :: "profile_db \<Rightarrow> string list" where
  "known_events d \<equiv> map pb_event_id (pd_events d)"

lemma ingest_event_known: "ev_EventID e \<in> set (known_events d) \<Longrightarrow> ingest_event r p dev now e d = (d, False)"
  by (auto simp: ingest_event_def Let_def list_ex_iff)

lemma ingest_event_ids:
  assumes "ingest_event r p dev now e d = (d', accepted)"
  shows "known_events d' = known_events d @ (if accepted then [ev_EventID e] else [])"
    and "accepted \<Longrightarrow> ev_EventID e \<notin> set (known_events d)"
  using assms by (auto simp: ingest_event_def Let_def list_ex_iff split: if_splits)

lemma ingest_events_known:
  "\<forall>e \<in> set es. ev_EventID e \<in> set (known_events d) \<Longrightarrow> ingest_events r p dev now es d = (d, [])"
  by (induction es) (simp_all add: ingest_event_known)

lemma ingest_events_ids:
  "ingest_events r p dev now es d = (d', ids) \<Longrightarrow>
     known_events d' = known_events d @ ids \<and> distinct ids \<and> set ids \<inter> set (known_events d) = {}"
proof (induction es arbitrary: d d' ids)
  case (Cons e es)
  obtain d1 acc where e: "ingest_event r p dev now e d = (d1, acc)" by fastforce
  obtain d2 ids' where es: "ingest_events r p dev now es d1 = (d2, ids')" by fastforce
  note one = ingest_event_ids [OF e] and rest = Cons.IH [OF es]
  have "d' = d2" "ids = (if acc then ev_EventID e # ids' else ids')" using Cons.prems e es by auto
  then show ?case using one rest by (cases acc) auto
qed simp

lemma ingest_replay:
  assumes "IngestPlaybackEventsDetailed p dev es now d = (d1, Inr (n, ids))"
    and "ev_EventID ` set es' \<subseteq> set ids"
  shows "n = length ids \<and> distinct ids \<and> set ids \<inter> set (known_events d) = {} \<and>
    known_events d1 = known_events d @ ids \<and>
    IngestPlaybackEventsDetailed p' dev' es' now' d1 = (d1, Inr (0, []))"
proof -
  have "ingest_events (list_ex (\<lambda>x. lf_profile x = p) (pd_lastfm d)) p dev now es d = (d1, ids)" and n: "n = length ids"
    using assms(1) by (auto simp: IngestPlaybackEventsDetailed_def split: prod.splits if_splits)
  note ids = ingest_events_ids [OF this(1)]
  then have "\<forall>e \<in> set es'. ev_EventID e \<in> set (known_events d1)" using assms(2) by auto
  note ingest_events_known [OF this]
  then show ?thesis using ids n by (simp add: IngestPlaybackEventsDetailed_def)
qed


section \<open>An example\<close>

definition demo_profile :: "string \<Rightarrow> string \<Rightarrow> profile_row" where
  "demo_profile i name = \<lparr>pf_profile_id = i, pf_name = name, pf_pin_hash = None, pf_avatar_color = None,
     pf_share_listening = True, pf_created_at = 1\<rparr>"

definition demo_db :: profile_db where
  "demo_db = \<lparr>pd_cat = demo_catalog\<lparr>ct_rnd := \<lambda>n. [of_nat n]\<rparr>,
     pd_ids = empty_idstore\<lparr>db_profiles := [demo_profile ''prf_a'' ''Ann'', demo_profile ''prf_b'' ''Bob'']\<rparr>,
     pd_playlists = [], pd_items = [], pd_loves = [], pd_ratings = [], pd_events = [], pd_presence = [], pd_recs = [],
     pd_external = [], pd_lastfm = [\<lparr>lf_profile = ''prf_a'', lf_payload = [], lf_connected_at = 1\<rparr>],
     pd_attempts = [], pd_sessions = []\<rparr>"

definition demo_event :: "string \<Rightarrow> string \<Rightarrow> rat \<Rightarrow> PlaybackEventRecord" where
  "demo_event i ty pos = \<lparr>ev_EventID = i, ev_PlaySessionID = '''', ev_Type = ty, ev_TrackID = ''trk_a'',
     ev_PositionSec = Some pos, ev_At = 100\<rparr>"

lemmas demo_db_defs = demo_db_def demo_profile_def demo_event_def empty_idstore_def demo_defs

definition demo_played :: profile_db where
  "demo_played = fst (IngestPlaybackEventsDetailed ''prf_a'' ''dev_a''
     [demo_event ''e1'' ''started'' 0, demo_event ''e1'' ''started'' 5, demo_event ''e2'' ''progress'' 150] 200 demo_db)"

lemma demo_played_ingested:
  "IngestPlaybackEventsDetailed ''prf_a'' ''dev_a''
     [demo_event ''e1'' ''started'' 0, demo_event ''e1'' ''started'' 5, demo_event ''e2'' ''progress'' 150] 200 demo_db =
   (demo_played, Inr (2, [''e1'', ''e2'']))"
  by (simp add: demo_played_def IngestPlaybackEventsDetailed_def ingest_event_def Let_def demo_db_defs track_by_id_def
    has_profile_def)


section \<open>Pages of a playlist\<close>

definition long_playlist :: profile_db where
  "long_playlist = demo_db\<lparr>pd_items := map (\<lambda>n. \<lparr>pi_item_id = ''pli_'' @ format_int n, pi_playlist_id = ''pl_x'',
     pi_track_id = ''trk_a'', pi_position = n, pi_added_at = 1\<rparr>) [1..12]\<rparr>"

lemma two_digits_before_9: "\<forall>k \<in> {10..89::int}. \<not> ''9'' < format_int k \<and> format_int k \<noteq> ''9''"
proof -
  have "\<forall>k \<in> set [10..89]. \<not> ''9'' < format_int k \<and> format_int k \<noteq> ''9''" by code_simp
  then show ?thesis by (simp only: set_upto)
qed

lemma small_before_9: "\<forall>k \<in> {1..8::int}. \<not> ''9'' < format_int k \<and> format_int k \<noteq> ''9''"
proof -
  have "\<forall>k \<in> set [1..8]. \<not> ''9'' < format_int k \<and> format_int k \<noteq> ''9''" by code_simp
  then show ?thesis by (simp only: set_upto)
qed

lemma page_9: "format_int 9 = ''9''"
  by code_simp

lemma playlist_tail:
  assumes rows: "map (pi_position \<circ> fst) (playlist_rows d p) = [1..n]" and n: "9 < n" "n < 90"
  shows "fst (page_items d p None 9) = take 9 (playlist_rows d p) \<and>
    (\<exists>c. snd (page_items d p None 9) = Some c \<and> fst (page_items d p (Some c) 9) = [])"
proof -
  let ?rs = "playlist_rows d p" and ?key = "\<lambda>x. (pi_position (fst x), pi_item_id (fst x))"
  have len: "length ?rs = nat n" using arg_cong [OF rows, of length] by simp
  have pos: "pi_position (fst (?rs ! i)) = int i + 1" if "i < length ?rs" for i
    using arg_cong [OF rows, of "\<lambda>l. l ! i"] that len by (simp add: nth_upto)
  have "sorted (map ?key ?rs)"
    by (auto simp: sorted_iff_nth_mono_less pos less_eq_prod_def)
  then have sort: "sort_key ?key ?rs = ?rs" by (simp add: sort_key_id_if_sorted)
  have at9: "pi_position (fst (?rs ! 8)) = 9" using pos [of 8] len n by simp
  let ?c = "(''9'', pi_item_id (fst (?rs ! 8)))"
  have first: "page_items d p None 9 = (take 9 ?rs, Some ?c)"
    using len n at9 by (simp add: page_items_def sort page_9 Let_def del: upto.simps)
  have none: "\<not> (''9'' < format_int (pi_position (fst x)) \<or>
      format_int (pi_position (fst x)) = ''9'' \<and> pi_item_id (fst (?rs ! 8)) < pi_item_id (fst x))" if x: "x \<in> set ?rs" for x
  proof -
    obtain i where i: "i < length ?rs" "x = ?rs ! i" using x by (auto simp: in_set_conv_nth)
    have "pi_position (fst x) \<in> {1..8} \<or> i = 8 \<or> pi_position (fst x) \<in> {10..89}"
      using pos [OF i(1)] i len n by auto
    then show ?thesis using small_before_9 two_digits_before_9 i(2) at9 page_9 by auto
  qed
  have "fst (page_items d p (Some ?c) 9) = []"
    using none by (simp add: page_items_def Let_def)
  then show ?thesis using first by auto
qed


lemma long_playlist_positions: "map (pi_position \<circ> fst) (playlist_rows long_playlist ''pl_x'') = [1..12]"
  by (simp add: playlist_rows_def items_of_def long_playlist_def track_by_id_def demo_db_defs track_columns_def
      album_by_id_def artist_by_id_def List.map_filter_def filter_map comp_def del: upto.simps)


end
