(* ===== verification/Lastfm.thy ===== *)
theory Lastfm
  imports ProfileStore
begin

text \<open>
  The Last.fm side of a profile (\<open>internal/store/lastfm.go\<close>) and the worker that relays plays
  (\<open>internal/server/lastfm_worker.go\<close>): connections and the attempts to make one, play sessions with
  their claims, and one round of the worker. The cipher of the store is a pair of functions, which
  take and give a connection where the code marshals it to JSON; its nonces have 12 bytes. The
  Last.fm service is a parameter: what it answers for a session key and a play.
\<close>

section \<open>Connections\<close>

record LastfmConnection =
  lc_Username :: string
  lc_SessionKey :: string

type_synonym sealer = "bytes \<Rightarrow> LastfmConnection \<Rightarrow> string \<Rightarrow> bytes"
type_synonym opener = "bytes \<Rightarrow> bytes \<Rightarrow> string \<Rightarrow> LastfmConnection option"

definition nonce_size :: nat where "nonce_size = 12"

definition sealLastfm :: "sealer \<Rightarrow> bytes \<Rightarrow> string \<Rightarrow> LastfmConnection \<Rightarrow> bytes" where
  "sealLastfm seal nonce profileID conn = nonce @ seal nonce conn profileID"

definition openLastfm :: "opener \<Rightarrow> string \<Rightarrow> bytes \<Rightarrow> LastfmConnection option" where
  "openLastfm opn profileID sealed =
     (if length sealed < nonce_size then None
      else (case opn (take nonce_size sealed) (drop nonce_size sealed) profileID of
        None \<Rightarrow> None
      | Some c \<Rightarrow> if lc_Username c = '''' \<or> lc_SessionKey c = '''' then None else Some c))"

definition CreateLastfmAttempt :: "string \<Rightarrow> string \<Rightarrow> seconds \<Rightarrow> seconds \<Rightarrow> profile_db \<Rightarrow> profile_db \<times> (pd_err + unit)" where
  "CreateLastfmAttempt profileID state expires now d =
     (let d = d\<lparr>pd_attempts := delete_where (\<lambda>a. la_expires_at a \<le> now) (pd_attempts d)\<rparr> in
      if \<not> has_profile d profileID \<or> list_ex (\<lambda>a. la_state a = state) (pd_attempts d) then (d, Inl PConstraint)
      else (d\<lparr>pd_attempts := pd_attempts d @ [\<lparr>la_state = state, la_profile = profileID, la_expires_at = expires,
              la_claim_id = None, la_claimed_at = None\<rparr>]\<rparr>, Inr ()))"

definition attempt_free :: "string \<Rightarrow> seconds \<Rightarrow> lastfm_attempt \<Rightarrow> bool" where
  "attempt_free state now a \<longleftrightarrow> la_state a = state \<and> now < la_expires_at a \<and>
     (la_claim_id a = None \<or> (case la_claimed_at a of None \<Rightarrow> False | Some t \<Rightarrow> t < now - 60))"

definition ClaimLastfmAttempt :: "string \<Rightarrow> string \<Rightarrow> seconds \<Rightarrow> profile_db \<Rightarrow> profile_db \<times> (pd_err + string)" where
  "ClaimLastfmAttempt state claimID now d =
     (let d' = d\<lparr>pd_attempts := update_where (attempt_free state now)
                  (\<lambda>a. a\<lparr>la_claim_id := Some claimID, la_claimed_at := Some now\<rparr>) (pd_attempts d)\<rparr> in
      if count_where (attempt_free state now) (pd_attempts d) \<noteq> 1 then (d', Inl PGone)
      else (case select1 (\<lambda>a. la_state a = state \<and> la_claim_id a = Some claimID) (pd_attempts d') of
              None \<Rightarrow> (d', Inl PNoRows) | Some a \<Rightarrow> (d', Inr (la_profile a))))"

definition ReleaseLastfmAttempt :: "string \<Rightarrow> string \<Rightarrow> profile_db \<Rightarrow> profile_db" where
  "ReleaseLastfmAttempt state claimID d =
     d\<lparr>pd_attempts := update_where (\<lambda>a. la_state a = state \<and> la_claim_id a = Some claimID)
        (\<lambda>a. a\<lparr>la_claim_id := None, la_claimed_at := None\<rparr>) (pd_attempts d)\<rparr>"

definition put_connection :: "string \<Rightarrow> bytes \<Rightarrow> seconds \<Rightarrow> profile_db \<Rightarrow> profile_db \<times> (pd_err + unit)" where
  "put_connection profileID sealed now d =
     (if \<not> has_profile d profileID then (d, Inl PConstraint)
      else (d\<lparr>pd_lastfm := upsert lf_profile \<lparr>lf_profile = profileID, lf_payload = sealed, lf_connected_at = now\<rparr>
              (\<lambda>r. r\<lparr>lf_payload := sealed, lf_connected_at := now\<rparr>) (pd_lastfm d)\<rparr>, Inr ()))"

text \<open>One transaction: an error leaves the store as it was.\<close>

definition CompleteLastfmAttempt ::
  "sealer \<Rightarrow> bytes \<Rightarrow> string \<Rightarrow> string \<Rightarrow> string \<Rightarrow> LastfmConnection \<Rightarrow> seconds \<Rightarrow> profile_db \<Rightarrow> profile_db \<times> (pd_err + unit)" where
  "CompleteLastfmAttempt seal nonce state claimID profileID conn now d =
     (let mine = (\<lambda>a. la_state a = state \<and> la_profile a = profileID \<and> la_claim_id a = Some claimID) in
      if count_where mine (pd_attempts d) \<noteq> 1 then (d, Inl PGone)
      else (case put_connection profileID (sealLastfm seal nonce profileID conn) now
                   (d\<lparr>pd_attempts := delete_where mine (pd_attempts d)\<rparr>) of
              (_, Inl e) \<Rightarrow> (d, Inl e) | (d', Inr _) \<Rightarrow> (d', Inr ())))"

definition SetLastfmConnection ::
  "sealer \<Rightarrow> bytes \<Rightarrow> string \<Rightarrow> string \<Rightarrow> string \<Rightarrow> seconds \<Rightarrow> profile_db \<Rightarrow> profile_db \<times> (pd_err + unit)" where
  "SetLastfmConnection seal nonce profileID username sessionKey now d =
     put_connection profileID (sealLastfm seal nonce profileID \<lparr>lc_Username = username, lc_SessionKey = sessionKey\<rparr>) now d"

definition GetLastfmConnection :: "opener \<Rightarrow> profile_db \<Rightarrow> string \<Rightarrow> LastfmConnection lookup" where
  "GetLastfmConnection opn d profileID =
     (case select1 (\<lambda>r. lf_profile r = profileID) (pd_lastfm d) of
        None \<Rightarrow> NoRows
      | Some r \<Rightarrow> (case openLastfm opn profileID (lf_payload r) of None \<Rightarrow> DbFailed | Some c \<Rightarrow> Found c))"

definition LastfmDataCategories :: "profile_db \<Rightarrow> string \<Rightarrow> string list" where
  "LastfmDataCategories d p =
     (if list_ex (\<lambda>r. lf_profile r = p) (pd_lastfm d) then [''lastfm_username'', ''lastfm_session''] else []) @
     (if list_ex (\<lambda>a. la_profile a = p) (pd_attempts d) then [''lastfm_auth_attempts''] else []) @
     (if list_ex (\<lambda>x. se_profile x = p) (pd_sessions d) \<or> list_ex (\<lambda>e. pb_profile e = p \<and> pb_session e \<noteq> None) (pd_events d)
      then [''lastfm_playback''] else [])"

definition DeleteLastfmData :: "string \<Rightarrow> profile_db \<Rightarrow> profile_db \<times> string list" where
  "DeleteLastfmData p d =
     (d\<lparr>pd_attempts := delete_where (\<lambda>a. la_profile a = p) (pd_attempts d),
        pd_lastfm := delete_where (\<lambda>r. lf_profile r = p) (pd_lastfm d),
        pd_events := update_where (\<lambda>e. pb_profile e = p \<and> pb_session e \<noteq> None) (\<lambda>e. e\<lparr>pb_session := None\<rparr>) (pd_events d),
        pd_sessions := delete_where (\<lambda>x. se_profile x = p) (pd_sessions d)\<rparr>, LastfmDataCategories d p)"

definition CountLastfmProfiles :: "profile_db \<Rightarrow> nat" where
  "CountLastfmProfiles d = length (pd_lastfm d)"

definition DeleteAllLastfmData :: "profile_db \<Rightarrow> profile_db" where
  "DeleteAllLastfmData d =
     d\<lparr>pd_attempts := [], pd_lastfm := [],
       pd_events := update_where (\<lambda>e. pb_session e \<noteq> None) (\<lambda>e. e\<lparr>pb_session := None\<rparr>) (pd_events d), pd_sessions := []\<rparr>"

section \<open>Play sessions\<close>

record LastfmPlayback =
  lp_SessionID :: string
  lp_ProfileID :: string
  lp_Artist :: string
  lp_Title :: string
  lp_Album :: string
  lp_PositionSec :: rat
  lp_StartedAt :: seconds
  lp_DurationMs :: int

definition lastfmPlayback :: "profile_db \<Rightarrow> string \<Rightarrow> LastfmPlayback option" where
  "lastfmPlayback d sid =
     (case select1 (\<lambda>x. se_id x = sid) (pd_sessions d) of
        None \<Rightarrow> None
      | Some x \<Rightarrow> (case track_by_id (pd_cat d) (se_track x) of
          None \<Rightarrow> None
        | Some t \<Rightarrow> (case album_by_id (pd_cat d) (tk_album_id t) of
            None \<Rightarrow> None
          | Some a \<Rightarrow> Some \<lparr>lp_SessionID = sid, lp_ProfileID = se_profile x, lp_Artist = tk_artist_name t,
              lp_Title = tk_title t, lp_Album = al_title a, lp_PositionSec = se_position x,
              lp_StartedAt = se_started_at x, lp_DurationMs = tk_duration_ms t\<rparr>)))"

text \<open>A retry waits \<open>2^n\<close> minutes after the \<open>n\<close>th attempt, at most 64.\<close>

definition retry_delay :: "nat \<Rightarrow> seconds" where
  "retry_delay attempts = 60 * 2 ^ min attempts 6"

definition FinishLastfmPlay :: "string \<Rightarrow> string \<Rightarrow> string \<Rightarrow> string \<Rightarrow> seconds \<Rightarrow> profile_db \<Rightarrow> profile_db" where
  "FinishLastfmPlay sid claimID state reason now d =
     (let attempts = (case select1 (\<lambda>x. se_id x = sid) (pd_sessions d) of None \<Rightarrow> 0 | Some x \<Rightarrow> se_attempt_count x);
          next = (if state = ''pending'' then Some (now + retry_delay attempts) else None)
      in d\<lparr>pd_sessions := update_where (\<lambda>x. se_id x = sid \<and> se_claim_id x = Some claimID)
           (\<lambda>x. x\<lparr>se_relay_state := state, se_terminal_reason := Some reason, se_claim_id := None, se_claimed_at := None,
              se_attempt_count := se_attempt_count x + 1, se_next_attempt_at := next, se_updated_at := now\<rparr>) (pd_sessions d)\<rparr>)"

definition play_free :: "seconds \<Rightarrow> play_session \<Rightarrow> bool" where
  "play_free now x \<longleftrightarrow>
     se_relay_state x = ''pending'' \<and> (case se_next_attempt_at x of None \<Rightarrow> True | Some t \<Rightarrow> t \<le> now) \<or>
     se_relay_state x = ''claimed'' \<and> (case se_claimed_at x of None \<Rightarrow> False | Some t \<Rightarrow> t < now - 300)"

text \<open>A track of more than 30 seconds, played for half of it or four minutes.\<close>

definition played_enough :: "track_row \<Rightarrow> rat \<Rightarrow> bool" where
  "played_enough t position \<longleftrightarrow> 30000 < tk_duration_ms t \<and> min 240 (of_int (tk_duration_ms t) / 2000) \<le> position"

definition play_due :: "profile_db \<Rightarrow> seconds \<Rightarrow> play_session \<Rightarrow> bool" where
  "play_due d now x \<longleftrightarrow> play_free now x \<and> list_ex (\<lambda>r. lf_profile r = se_profile x) (pd_lastfm d) \<and>
     (case track_by_id (pd_cat d) (se_track x) of None \<Rightarrow> False | Some t \<Rightarrow> played_enough t (se_position x))"

text \<open>The claim of one session: whether the update changed a row.\<close>

definition claim_play :: "seconds \<Rightarrow> string \<Rightarrow> string \<Rightarrow> profile_db \<Rightarrow> profile_db \<times> bool" where
  "claim_play now claimID sid d =
     (let free = (\<lambda>x. se_id x = sid \<and> play_free now x) in
      (d\<lparr>pd_sessions := update_where free (\<lambda>x. x\<lparr>se_relay_state := ''claimed'', se_claim_id := Some claimID,
           se_claimed_at := Some now, se_updated_at := now\<rparr>) (pd_sessions d)\<rparr>,
       count_where free (pd_sessions d) = 1))"

fun claim_each :: "(string \<Rightarrow> profile_db \<Rightarrow> profile_db \<times> bool) \<Rightarrow> string list \<Rightarrow> profile_db \<Rightarrow>
    profile_db \<times> (pd_err + LastfmPlayback list)" where
  "claim_each claim [] d = (d, Inr [])"
| "claim_each claim (sid # sids) d =
     (case claim sid d of
        (d', False) \<Rightarrow> claim_each claim sids d'
      | (d', True) \<Rightarrow> (case lastfmPlayback d' sid of
          None \<Rightarrow> (d', Inl PNoRows)
        | Some p \<Rightarrow> bindE (claim_each claim sids) (\<lambda>ps. returnE (p # ps)) d'))"

definition ClaimPendingLastfmPlays ::
  "seconds \<Rightarrow> string \<Rightarrow> nat \<Rightarrow> profile_db \<Rightarrow> profile_db \<times> (pd_err + LastfmPlayback list)" where
  "ClaimPendingLastfmPlays now claimID limit d =
     claim_each (claim_play now claimID)
       (map se_id (take limit (sort_key se_started_at (filter (play_due d now) (pd_sessions d))))) d"

definition claim_now_playing :: "seconds \<Rightarrow> string \<Rightarrow> profile_db \<Rightarrow> profile_db \<times> bool" where
  "claim_now_playing now sid d =
     (let free = (\<lambda>x. se_id x = sid \<and> se_now_playing_state x = ''pending'') in
      (d\<lparr>pd_sessions := update_where free (\<lambda>x. x\<lparr>se_now_playing_state := ''attempted'', se_updated_at := now\<rparr>) (pd_sessions d)\<rparr>,
       count_where free (pd_sessions d) = 1))"

definition ClaimPendingNowPlaying :: "(string \<Rightarrow> seconds) \<Rightarrow> nat \<Rightarrow> profile_db \<Rightarrow> profile_db \<times> (pd_err + LastfmPlayback list)" where
  "ClaimPendingNowPlaying clock limit d =
     claim_each (\<lambda>sid. claim_now_playing (clock sid) sid)
       (map se_id (take limit (sort_key se_started_at (filter (\<lambda>x. se_now_playing_state x = ''pending'' \<and>
          list_ex (\<lambda>r. lf_profile r = se_profile x) (pd_lastfm d)) (pd_sessions d))))) d"

definition LastfmTerminalRetention :: seconds where "LastfmTerminalRetention = 30 * 24 * 3600"
definition LastfmPendingRetention :: seconds where "LastfmPendingRetention = 7 * 24 * 3600"

definition CleanupLastfmPlaySessions :: "seconds \<Rightarrow> profile_db \<Rightarrow> profile_db \<times> nat" where
  "CleanupLastfmPlaySessions now d =
     (let old = (\<lambda>x. se_relay_state x = ''terminal'' \<and> se_updated_at x < now - LastfmTerminalRetention \<or>
                     se_relay_state x \<in> {''pending'', ''claimed''} \<and> se_started_at x < now - LastfmPendingRetention)
      in (d\<lparr>pd_sessions := delete_where old (pd_sessions d)\<rparr>, count_where old (pd_sessions d)))"

definition FinishNowPlaying :: "string \<Rightarrow> bool \<Rightarrow> profile_db \<Rightarrow> profile_db" where
  "FinishNowPlaying sid delivered d =
     d\<lparr>pd_sessions := update_where (\<lambda>x. se_id x = sid \<and> se_now_playing_state x = ''attempted'')
        (\<lambda>x. x\<lparr>se_now_playing_outcome := Some (if delivered then ''delivered'' else ''failed'')\<rparr>) (pd_sessions d)\<rparr>"

definition LastfmNowPlayingStatus :: "profile_db \<Rightarrow> string \<Rightarrow> (string \<times> string) option" where
  "LastfmNowPlayingStatus d sid = map_option (\<lambda>x. (se_now_playing_state x, or_empty (se_now_playing_outcome x)))
     (select1 (\<lambda>x. se_id x = sid) (pd_sessions d))"

text \<open>An owned artist of the name, or the external one, which is added if it is new.\<close>

definition ResolveArtistName :: "string \<Rightarrow> profile_db \<Rightarrow> profile_db \<times> (pd_err + string \<times> bool)" where
  "ResolveArtistName name d =
     (case select1 (\<lambda>r. same_text (ar_name r) name \<and> \<not> ar_missing r) (ct_artists (pd_cat d)) of
        Some r \<Rightarrow> (d, Inr (ar_artist_id r, True))
      | None \<Rightarrow> bindE (draw_pd ''art'') (\<lambda>candidate d.
          (let known = list_ex (\<lambda>x. same_text (snd x) name) (pd_external d) in
           if \<not> known \<and> list_ex (\<lambda>x. fst x = candidate) (pd_external d) then (d, Inl PConstraint)
           else (let d' = (if known then d else d\<lparr>pd_external := pd_external d @ [(candidate, name)]\<rparr>) in
             (case select1 (\<lambda>x. same_text (snd x) name) (pd_external d') of
                None \<Rightarrow> (d', Inl PNoRows) | Some x \<Rightarrow> (d', Inr (fst x, False)))))) d)"

section \<open>A round of the worker\<close>

datatype error_kind = ErrorTemporary | ErrorInvalidSession | ErrorPermanent | ErrorNotFound
datatype scrobble_reply = Accepted | Ignored string | ScrobbleError error_kind

record lastfm_service =
  ls_NowPlaying :: "string \<Rightarrow> LastfmPlayback \<Rightarrow> error_kind option"
  ls_Scrobble :: "string \<Rightarrow> LastfmPlayback \<Rightarrow> scrobble_reply"

definition lastfmWorkerBatch :: nat where "lastfmWorkerBatch = 20"

definition relay_now_playing :: "lastfm_service \<Rightarrow> opener \<Rightarrow> LastfmPlayback \<Rightarrow> profile_db \<Rightarrow> profile_db" where
  "relay_now_playing client opn p d =
     (case GetLastfmConnection opn d (lp_ProfileID p) of
        Found conn \<Rightarrow>
          (let e = ls_NowPlaying client (lc_SessionKey conn) p;
               d = FinishNowPlaying (lp_SessionID p) (e = None) d
           in if e = Some ErrorInvalidSession then fst (DeleteLastfmData (lp_ProfileID p) d) else d)
      | _ \<Rightarrow> d)"

text \<open>\<open>clock\<close> is the time at which the statements on a session run. What a reply makes of the session; an invalid session deletes the profile's data first.\<close>

fun scrobble_outcome :: "scrobble_reply \<Rightarrow> string \<times> string" where
  "scrobble_outcome Accepted = (''terminal'', ''accepted'')"
| "scrobble_outcome (Ignored code) = (''terminal'', ''ignored:'' @ code)"
| "scrobble_outcome (ScrobbleError ErrorTemporary) = (''pending'', ''temporary'')"
| "scrobble_outcome (ScrobbleError ErrorInvalidSession) = (''terminal'', ''invalid_session'')"
| "scrobble_outcome (ScrobbleError _) = (''terminal'', ''permanent'')"

definition relay_play :: "lastfm_service \<Rightarrow> opener \<Rightarrow> string \<Rightarrow> (string \<Rightarrow> seconds) \<Rightarrow> LastfmPlayback \<Rightarrow> profile_db \<Rightarrow> profile_db" where
  "relay_play client opn claimID clock p d =
     (case GetLastfmConnection opn d (lp_ProfileID p) of
        Found conn \<Rightarrow>
          (let reply = ls_Scrobble client (lc_SessionKey conn) p;
               d = (if reply = ScrobbleError ErrorInvalidSession then fst (DeleteLastfmData (lp_ProfileID p) d) else d)
           in FinishLastfmPlay (lp_SessionID p) claimID (fst (scrobble_outcome reply)) (snd (scrobble_outcome reply))
                (clock (lp_SessionID p)) d)
      | _ \<Rightarrow> d)"

definition runOnce ::
  "lastfm_service option \<Rightarrow> opener \<Rightarrow> string \<Rightarrow> (string \<Rightarrow> seconds) \<Rightarrow> seconds \<Rightarrow> profile_db \<Rightarrow> profile_db \<times> (pd_err + unit)" where
  "runOnce client opn claimID clock now d =
     (let d = fst (CleanupLastfmPlaySessions now d) in
      case client of
        None \<Rightarrow> (d, Inr ())
      | Some client \<Rightarrow>
          bindE (ClaimPendingNowPlaying clock lastfmWorkerBatch) (\<lambda>nowPlaying.
          bindE (\<lambda>d. (fold (relay_now_playing client opn) nowPlaying d, Inr ())) (\<lambda>_.
          bindE (ClaimPendingLastfmPlays now claimID lastfmWorkerBatch) (\<lambda>pending d.
            (fold (relay_play client opn claimID clock) pending d, Inr ())))) d)"

section \<open>Claims\<close>

text \<open>
  What happens to the play sessions, by several workers and the clients, in any order. (The cleanup
  and the deletion of a profile's data only remove sessions.)
\<close>

datatype play_op =
  PlayEvents string string "PlaybackEventRecord list" seconds
| PlayClaim seconds string string
| PlayFinish string string string string seconds
| PlayNowPlaying seconds string
| PlayDelivered string bool

fun play_step :: "play_op \<Rightarrow> profile_db \<Rightarrow> profile_db" where
  "play_step (PlayEvents p dev es now) d = fst (IngestPlaybackEvents p dev es now d)"
| "play_step (PlayClaim now c sid) d = fst (claim_play now c sid d)"
| "play_step (PlayFinish sid c state reason now) d = FinishLastfmPlay sid c state reason now d"
| "play_step (PlayNowPlaying now sid) d = fst (claim_now_playing now sid d)"
| "play_step (PlayDelivered sid ok) d = FinishNowPlaying sid ok d"

text \<open>The relay of a session: its state, claim, the claim's time and the reason given last.\<close>

type_synonym relay = "string \<times> string option \<times> seconds option \<times> string option"

definition relay_of :: "play_session \<Rightarrow> relay" where
  "relay_of x = (se_relay_state x, se_claim_id x, se_claimed_at x, se_terminal_reason x)"

definition has_relay :: "relay \<Rightarrow> string \<Rightarrow> profile_db \<Rightarrow> bool" where
  "has_relay v sid d \<longleftrightarrow> sid \<in> se_id ` set (pd_sessions d) \<and> (\<forall>x \<in> set (pd_sessions d). se_id x = sid \<longrightarrow> relay_of x = v)"

definition relay_fixed :: "relay \<Rightarrow> play_op \<Rightarrow> bool" where
  "relay_fixed v x = (case v of (state, claim, since, _) \<Rightarrow> (case x of
     PlayClaim now _ _ \<Rightarrow> state = ''terminal'' \<or> state = ''claimed'' \<and> (\<exists>t. since = Some t \<and> now \<le> t + 300)
   | PlayFinish _ c _ _ _ \<Rightarrow> claim \<noteq> Some c
   | _ \<Rightarrow> True))"

lemma in_update_where: "y \<in> set (update_where P f t) \<Longrightarrow> \<exists>x \<in> set t. (P x \<longrightarrow> y = f x) \<and> (\<not> P x \<longrightarrow> y = x)"
  by (auto simp: update_where_def)

lemma has_relay_update:
  assumes "has_relay v sid d" and "pd_sessions d' = update_where Q f (pd_sessions d)"
    and "\<And>x. se_id (f x) = se_id x" and "\<And>x. Q x \<Longrightarrow> se_id x = sid \<Longrightarrow> relay_of x = v \<Longrightarrow> relay_of (f x) = v"
  shows "has_relay v sid d'"
  unfolding has_relay_def
proof (intro conjI ballI impI)
  show "sid \<in> se_id ` set (pd_sessions d')"
    using assms(1) by (simp add: has_relay_def assms(2,3) image_update_where)
  fix y assume y: "y \<in> set (pd_sessions d')" "se_id y = sid"
  then obtain x where x: "x \<in> set (pd_sessions d)" "y = (if Q x then f x else x)"
    using assms(2) by (auto simp: update_where_def)
  then have "se_id x = sid" using y(2) assms(3) by (auto split: if_splits)
  then have "relay_of x = v" using x(1) assms(1) by (simp add: has_relay_def)
  then show "relay_of y = v" using x(2) \<open>se_id x = sid\<close> assms(4) by (cases "Q x") simp_all
qed

lemma has_relay_set:
  assumes "has_relay v sid d" and "\<And>x. se_id (f x) = se_id x"
    and "\<And>x. Q x \<Longrightarrow> se_id x = sid \<Longrightarrow> relay_of x = v \<Longrightarrow> relay_of (f x) = v"
  shows "has_relay v sid (d\<lparr>pd_sessions := update_where Q f (pd_sessions d)\<rparr>)"
  by (rule has_relay_update [OF assms(1) _ assms(2,3)]) auto

lemma has_relay_session_update:
  assumes "has_relay v sid d" and "pd_sessions d' = session_update r s p dev now e (pd_sessions d)"
  shows "has_relay v sid d'"
proof (cases "r \<and> ev_Type e = ''started''")
  case True
  show ?thesis
  proof (cases "list_ex (\<lambda>x. se_id x = s) (pd_sessions d)")
    case True
    then show ?thesis using \<open>r \<and> ev_Type e = ''started''\<close> assms by (simp add: session_update_def has_relay_def)
  next
    case False
    moreover from this have "s \<noteq> sid" using assms(1) by (auto simp: has_relay_def list_ex_iff)
    ultimately show ?thesis using \<open>r \<and> ev_Type e = ''started''\<close> assms by (auto simp: session_update_def has_relay_def)
  qed
next
  case False
  show ?thesis
  proof (cases "r \<and> s \<noteq> '''' \<and> ev_PositionSec e \<noteq> None")
    case True
    then have "pd_sessions d' = update_where (\<lambda>x. se_id x = s \<and> se_profile x = p)
        (\<lambda>x. x\<lparr>se_position := max (se_position x) (positionValue (ev_PositionSec e)), se_updated_at := now\<rparr>) (pd_sessions d)"
      using False assms(2) by (auto simp: session_update_def)
    from has_relay_update [OF assms(1) this] show ?thesis by (simp add: relay_of_def)
  next
    case f: False
    then have "pd_sessions d' = pd_sessions d" using assms(2) False by (auto simp: session_update_def)
    then show ?thesis using assms(1) by (simp add: has_relay_def)
  qed
qed

lemma has_relay_ingest_event: "has_relay v sid d \<Longrightarrow> has_relay v sid (fst (ingest_event r p dev now e d))"
  by (auto simp: ingest_event_def Let_def intro: has_relay_session_update)

lemma has_relay_ingest: "has_relay v sid d \<Longrightarrow> has_relay v sid (fst (ingest_events r p dev now es d))"
proof (induction es arbitrary: d)
  case (Cons e es)
  then have "has_relay v sid (fst (ingest_event r p dev now e d))" by (simp add: has_relay_ingest_event)
  then show ?case using Cons.IH by (auto split: prod.splits) (metis fst_conv)+
qed simp

lemma has_relay_step: "has_relay v sid d \<Longrightarrow> relay_fixed v x \<Longrightarrow> has_relay v sid (play_step x d)"
proof (induction x)
  case (PlayEvents p dev es now)
  then show ?case using has_relay_ingest [of v sid d _ p dev now es]
    by (auto simp: IngestPlaybackEvents_def IngestPlaybackEventsDetailed_def split: prod.splits sum.splits if_splits)
       (metis fst_conv)+
next
  case (PlayClaim now c s)
  show ?case unfolding play_step.simps claim_play_def Let_def fst_conv
    by (rule has_relay_set [OF PlayClaim(1)])
      (use PlayClaim(2) in \<open>auto simp: play_free_def relay_of_def relay_fixed_def\<close>)
next
  case (PlayFinish s c state reason now)
  show ?case unfolding play_step.simps FinishLastfmPlay_def Let_def
    by (rule has_relay_set [OF PlayFinish(1)]) (use PlayFinish(2) in \<open>auto simp: relay_of_def relay_fixed_def\<close>)
next
  case (PlayNowPlaying now s)
  show ?case unfolding play_step.simps claim_now_playing_def Let_def fst_conv
    by (rule has_relay_set [OF PlayNowPlaying(1)]) (auto simp: relay_of_def)
next
  case (PlayDelivered s ok)
  show ?case unfolding play_step.simps FinishNowPlaying_def
    by (rule has_relay_set [OF PlayDelivered(1)]) (auto simp: relay_of_def)
qed

lemma has_relay_run: "has_relay v sid d \<Longrightarrow> \<forall>x \<in> set xs. relay_fixed v x \<Longrightarrow> has_relay v sid (fold play_step xs d)"
  by (induction xs arbitrary: d) (auto simp: has_relay_step)

lemma has_relay_no_claim:
  assumes "has_relay v sid d" and "relay_fixed v (PlayClaim now c sid)"
  shows "\<not> snd (claim_play now c sid d)"
proof -
  have "filter (\<lambda>x. se_id x = sid \<and> play_free now x) (pd_sessions d) = []"
    using assms by (auto simp: has_relay_def relay_fixed_def relay_of_def play_free_def filter_empty_conv)
  then show ?thesis by (simp add: claim_play_def Let_def count_where_def)
qed

lemma claim_play_relay:
  assumes "claim_play now c sid d = (d1, True)" and u: "unique_key se_id (pd_sessions d)"
  shows "\<exists>reason. has_relay (''claimed'', Some c, Some now, reason) sid d1"
proof -
  let ?free = "\<lambda>x. se_id x = sid \<and> play_free now x"
  let ?f = "\<lambda>x. x\<lparr>se_relay_state := ''claimed'', se_claim_id := Some c, se_claimed_at := Some now, se_updated_at := now\<rparr>"
  have d1: "pd_sessions d1 = update_where ?free ?f (pd_sessions d)" and n: "length (filter ?free (pd_sessions d)) = 1"
    using assms(1) by (auto simp: claim_play_def Let_def count_where_def)
  obtain x where x: "x \<in> set (pd_sessions d)" "se_id x = sid" "play_free now x"
  proof -
    have "filter ?free (pd_sessions d) \<noteq> []" using n by auto
    then show ?thesis using that by (metis (mono_tags, lifting) filter_empty_conv)
  qed
  have only: "y = x" if "y \<in> set (pd_sessions d)" "se_id y = sid" for y
    using u that x by (auto simp: unique_key_def distinct_map inj_on_def)
  have "has_relay (''claimed'', Some c, Some now, se_terminal_reason x) sid d1"
    unfolding has_relay_def
  proof (intro conjI ballI impI)
    show "sid \<in> se_id ` set (pd_sessions d1)" using x by (auto simp: d1 image_update_where)
    fix y assume "y \<in> set (pd_sessions d1)" "se_id y = sid"
    then obtain z where z: "z \<in> set (pd_sessions d)" "?free z \<Longrightarrow> y = ?f z" "\<not> ?free z \<Longrightarrow> y = z"
      using in_update_where [of y ?free ?f "pd_sessions d"] unfolding d1 by blast
    have "se_id z = sid" using z(2,3) \<open>se_id y = sid\<close> by (cases "?free z") simp_all
    then have "z = x" using only z by simp
    then have "y = ?f x" using z x by blast
    then show "relay_of y = (''claimed'', Some c, Some now, se_terminal_reason x)" by (simp add: relay_of_def)
  qed
  then show ?thesis by blast
qed

lemma finish_relay:
  assumes "has_relay (state, Some c, since, r) sid d"
  shows "has_relay (state', None, None, Some reason) sid (FinishLastfmPlay sid c state' reason now d)"
  unfolding has_relay_def
proof (intro conjI ballI impI)
  show "sid \<in> se_id ` set (pd_sessions (FinishLastfmPlay sid c state' reason now d))"
    using assms by (simp add: has_relay_def FinishLastfmPlay_def Let_def image_update_where)
  fix y assume y: "y \<in> set (pd_sessions (FinishLastfmPlay sid c state' reason now d))" "se_id y = sid"
  let ?Q = "\<lambda>x. se_id x = sid \<and> se_claim_id x = Some c"
  obtain f where f: "pd_sessions (FinishLastfmPlay sid c state' reason now d) = update_where ?Q f (pd_sessions d)"
      "\<And>x. se_id (f x) = se_id x" "\<And>x. relay_of (f x) = (state', None, None, Some reason)"
    by (simp add: FinishLastfmPlay_def Let_def relay_of_def)
  then obtain x where x: "x \<in> set (pd_sessions d)" "?Q x \<Longrightarrow> y = f x" "\<not> ?Q x \<Longrightarrow> y = x"
    using in_update_where [of y ?Q f "pd_sessions d"] y(1) by metis
  have "se_id x = sid" using x(2,3) y(2) f(2) by (cases "?Q x") simp_all
  then have "?Q x" using x(1) assms by (simp add: has_relay_def relay_of_def)
  then show "relay_of y = (state', None, None, Some reason)" using x(2) f(3) by simp
qed


lemma demo_sessions:
  "pd_sessions demo_played = [\<lparr>se_id = ''e1'', se_profile = ''prf_a'', se_device = ''dev_a'', se_track = ''trk_a'',
     se_started_at = 100, se_position = 150, se_relay_state = ''pending'', se_now_playing_state = ''pending'',
     se_now_playing_outcome = None, se_claim_id = None, se_claimed_at = None, se_terminal_reason = None,
     se_attempt_count = 0, se_next_attempt_at = None, se_updated_at = 200\<rparr>]"
  by (simp add: demo_played_def IngestPlaybackEventsDetailed_def ingest_event_def Let_def demo_db_defs track_by_id_def
    has_profile_def event_session_def session_update_def positionValue_def update_where_def)


end
