(* ===== verification/ProfileApi.thy ===== *)
theory ProfileApi
  imports Lastfm
begin

text \<open>
  The requests about a profile's own data (\<open>internal/server/profile_data.go\<close>): who may see and
  change a playlist, the automatic playlist of loved tracks, ratings, playback reports with their
  notices, recommendations. A handler takes the identity the middleware put into the request's
  context and gives the new store, what it publishes on the event bus (a failure to publish is only
  logged) and the reply. The conversion of rows to the JSON types of the API only renames fields and
  is left out.
\<close>

datatype 'a reply = Reply nat 'a | Problem nat string | Failed pd_err

text \<open>The events the handlers publish; the scope is the profile that gets it, empty for all.\<close>

datatype notice =
  PlaylistChanged string string
| LoveUpdated string LoveRow
| PresenceUpdated PresenceRow
| TasteUpdated string
| RecommendationReceived string RecommendationRow

type_synonym 'a handled = "profile_db \<times> notice list \<times> 'a reply"

definition not_found :: "'a reply" where "not_found = Problem 404 ''not_found''"
definition badRequest :: "string \<Rightarrow> 'a reply" where "badRequest code = Problem 400 code"
definition forbidden :: "string \<Rightarrow> 'a reply" where "forbidden code = Problem 403 code"

section \<open>The caller\<close>

definition identity :: "Identity option \<Rightarrow> (nat \<times> string) + Identity" where
  "identity ctx = (case ctx of None \<Rightarrow> Inl (401, ''missing_identity'') | Some i \<Rightarrow> Inr i)"

definition profileID :: "Identity option \<Rightarrow> (nat \<times> string) + string" where
  "profileID ctx = (case identity ctx of
     Inl e \<Rightarrow> Inl e
   | Inr i \<Rightarrow> if idn_ProfileID i = '''' then Inl (403, ''profile_token_required'') else Inr (idn_ProfileID i))"

definition as_profile :: "Identity option \<Rightarrow> profile_db \<Rightarrow> (string \<Rightarrow> 'a handled) \<Rightarrow> 'a handled" where
  "as_profile ctx d f = (case profileID ctx of Inl (status, code) \<Rightarrow> (d, [], Problem status code) | Inr prf \<Rightarrow> f prf)"

section \<open>Playlists\<close>

definition canSeePlaylist :: "PlaylistRow \<Rightarrow> string \<Rightarrow> bool" where
  "canSeePlaylist p prf \<longleftrightarrow> pll_OwnerProfileID p = prf \<or> pll_Visibility p = ''shared'' \<or>
     pll_Visibility p = ''collaborative'' \<or> pll_Origin p = ''source''"

definition publishPlaylistChanged :: "PlaylistRow \<Rightarrow> notice" where
  "publishPlaylistChanged p = PlaylistChanged
     (if pll_Visibility p = ''shared'' \<or> pll_Visibility p = ''collaborative'' then '''' else pll_OwnerProfileID p)
     (pll_PlaylistID p)"

definition srv_ListPlaylists :: "Identity option \<Rightarrow> profile_db \<Rightarrow> PlaylistRow list handled" where
  "srv_ListPlaylists ctx d = as_profile ctx d (\<lambda>prf. (d, [], Reply 200 (ListPlaylists d prf)))"

definition srv_CreatePlaylist ::
  "Identity option \<Rightarrow> string \<Rightarrow> string option \<Rightarrow> string list option \<Rightarrow> seconds \<Rightarrow> profile_db \<Rightarrow> PlaylistRow handled" where
  "srv_CreatePlaylist ctx title visibility trackIDs now d = as_profile ctx d (\<lambda>prf.
     if title = '''' then (d, [], badRequest ''title_required'')
     else (case CreatePlaylist prf title (case visibility of None \<Rightarrow> ''private'' | Some v \<Rightarrow> v)
                  (case trackIDs of None \<Rightarrow> [] | Some ts \<Rightarrow> ts) now d of
             (d', Inl PNotFound) \<Rightarrow> (d', [], badRequest ''unknown_track'')
           | (d', Inl e) \<Rightarrow> (d', [], Failed e)
           | (d', Inr p) \<Rightarrow> (d', [publishPlaylistChanged p], Reply 201 p)))"

definition loadPlaylistFor :: "profile_db \<Rightarrow> string \<Rightarrow> string \<Rightarrow> PlaylistRow option" where
  "loadPlaylistFor d prf playlistID = (case GetPlaylist d playlistID of
     None \<Rightarrow> None | Some p \<Rightarrow> if canSeePlaylist p prf then Some p else None)"

definition on_playlist ::
  "Identity option \<Rightarrow> string \<Rightarrow> profile_db \<Rightarrow> (string \<Rightarrow> PlaylistRow \<Rightarrow> 'a handled) \<Rightarrow> 'a handled" where
  "on_playlist ctx playlistID d f = as_profile ctx d (\<lambda>prf.
     case loadPlaylistFor d prf playlistID of None \<Rightarrow> (d, [], not_found) | Some p \<Rightarrow> f prf p)"

definition srv_GetPlaylist :: "Identity option \<Rightarrow> string \<Rightarrow> profile_db \<Rightarrow> PlaylistRow handled" where
  "srv_GetPlaylist ctx playlistID d = on_playlist ctx playlistID d (\<lambda>prf p. (d, [], Reply 200 p))"

definition srv_UpdatePlaylist ::
  "Identity option \<Rightarrow> string \<Rightarrow> string option \<Rightarrow> string option \<Rightarrow> seconds \<Rightarrow> profile_db \<Rightarrow> PlaylistRow handled" where
  "srv_UpdatePlaylist ctx playlistID title visibility now d = on_playlist ctx playlistID d (\<lambda>prf p.
     if pll_OwnerProfileID p \<noteq> prf then (d, [], forbidden ''owner_only'')
     else (case UpdatePlaylist playlistID title visibility now d of
             (d', Inl e) \<Rightarrow> (d', [], Failed e)
           | (d', Inr updated) \<Rightarrow> (d', [publishPlaylistChanged updated], Reply 200 updated)))"

definition srv_DeletePlaylist :: "Identity option \<Rightarrow> string \<Rightarrow> profile_db \<Rightarrow> unit handled" where
  "srv_DeletePlaylist ctx playlistID d = on_playlist ctx playlistID d (\<lambda>prf p.
     if pll_OwnerProfileID p \<noteq> prf then (d, [], forbidden ''owner_only'')
     else (case DeletePlaylist playlistID d of
             (d', Inl e) \<Rightarrow> (d', [], Failed e)
           | (d', Inr _) \<Rightarrow> (d', [publishPlaylistChanged p], Reply 204 ())))"

text \<open>The caller's love state and rating of a track, as they decorate it.\<close>

definition decorateTrack :: "profile_db \<Rightarrow> string \<Rightarrow> string list \<Rightarrow> string \<Rightarrow> string option \<times> int option" where
  "decorateTrack d prf refs trackID =
     ((case GetLoveStates d prf refs trackID of None \<Rightarrow> None | Some st \<Rightarrow> nullStr st),
      (case GetRatings d prf refs trackID of None \<Rightarrow> None | Some r \<Rightarrow> if 0 < r then Some r else None))"

definition decorateTracks :: "profile_db \<Rightarrow> string \<Rightarrow> string list \<Rightarrow> (string option \<times> int option) list" where
  "decorateTracks d prf trackIDs =
     (if prf = '''' \<or> trackIDs = [] then map (\<lambda>_. (None, None)) trackIDs else map (decorateTrack d prf trackIDs) trackIDs)"

definition srv_ListPlaylistTracks :: "Identity option \<Rightarrow> string \<Rightarrow> cursor option \<Rightarrow> int option \<Rightarrow> profile_db \<Rightarrow>
    ((PlaylistItem \<times> string option \<times> int option) list \<times> cursor option) handled" where
  "srv_ListPlaylistTracks ctx playlistID cur limit d = on_playlist ctx playlistID d (\<lambda>prf p.
     case ListPlaylistItems d playlistID cur (page_limit limit) of
       Inl e \<Rightarrow> (d, [], Failed (PCatalog e))
     | Inr (items, next) \<Rightarrow>
         (d, [], Reply 200 (zip items (decorateTracks d prf (map (\<lambda>i. tr_TrackID (px_Track i)) items)), next)))"

definition srv_AppendPlaylistTracks :: "Identity option \<Rightarrow> string \<Rightarrow> string list \<Rightarrow> seconds \<Rightarrow> profile_db \<Rightarrow> unit handled" where
  "srv_AppendPlaylistTracks ctx playlistID trackIDs now d = on_playlist ctx playlistID d (\<lambda>prf p.
     if pll_OwnerProfileID p \<noteq> prf \<and> pll_Visibility p \<noteq> ''collaborative'' then (d, [], forbidden ''not_collaborative'')
     else (case AppendPlaylistTracks playlistID trackIDs now d of
             (d', Inl PNotFound) \<Rightarrow> (d', [], badRequest ''unknown_track'')
           | (d', Inl e) \<Rightarrow> (d', [], Failed e)
           | (d', Inr _) \<Rightarrow> (d', [publishPlaylistChanged p], Reply 204 ())))"

definition srv_RemovePlaylistTrack :: "Identity option \<Rightarrow> string \<Rightarrow> string \<Rightarrow> seconds \<Rightarrow> profile_db \<Rightarrow> unit handled" where
  "srv_RemovePlaylistTrack ctx playlistID itemID now d = on_playlist ctx playlistID d (\<lambda>prf p.
     if pll_OwnerProfileID p \<noteq> prf \<and> pll_Visibility p \<noteq> ''collaborative'' then (d, [], forbidden ''not_collaborative'')
     else (case RemovePlaylistItem playlistID itemID now d of
             (d', Inl PNotFound) \<Rightarrow> (d', [], not_found)
           | (d', Inl e) \<Rightarrow> (d', [], Failed e)
           | (d', Inr _) \<Rightarrow> (d', [publishPlaylistChanged p], Reply 204 ())))"

section \<open>Loves\<close>

definition lovedTracksTitle :: string where "lovedTracksTitle = ''Loved Tracks''"

definition loved_playlist :: "profile_db \<Rightarrow> string \<Rightarrow> PlaylistRow option" where
  "loved_playlist d prf = find (\<lambda>p. pll_OwnerProfileID p = prf \<and> pll_Title p = lovedTracksTitle) (ListPlaylists d prf)"

text \<open>The items of the playlist, as far as the code looks.\<close>

definition first_items :: "profile_db \<Rightarrow> string \<Rightarrow> pd_err + PlaylistItem list" where
  "first_items d playlistID = (case ListPlaylistItems d playlistID None 10000 of
     Inl e \<Rightarrow> Inl (PCatalog e) | Inr (items, _) \<Rightarrow> Inr items)"

definition add_loved :: "PlaylistRow \<Rightarrow> string \<Rightarrow> seconds \<Rightarrow> profile_db \<Rightarrow> profile_db \<times> notice list \<times> pd_err option" where
  "add_loved loved trackID now d =
     (case first_items d (pll_PlaylistID loved) of
        Inl e \<Rightarrow> (d, [], Some e)
      | Inr items \<Rightarrow>
          if list_ex (\<lambda>i. tr_TrackID (px_Track i) = trackID) items then (d, [], None)
          else (case AppendPlaylistTracks (pll_PlaylistID loved) [trackID] now d of
                  (d', Inl e) \<Rightarrow> (d', [], Some e)
                | (d', Inr _) \<Rightarrow> (d', [publishPlaylistChanged loved], None)))"

fun remove_items :: "string \<Rightarrow> string list \<Rightarrow> seconds \<Rightarrow> profile_db \<Rightarrow> profile_db \<times> (pd_err + unit)" where
  "remove_items p [] now d = (d, Inr ())"
| "remove_items p (i # is) now d = bindE (RemovePlaylistItem p i now) (\<lambda>_. remove_items p is now) d"

definition remove_loved :: "PlaylistRow \<Rightarrow> string \<Rightarrow> seconds \<Rightarrow> profile_db \<Rightarrow> profile_db \<times> notice list \<times> pd_err option" where
  "remove_loved loved trackID now d =
     (case first_items d (pll_PlaylistID loved) of
        Inl e \<Rightarrow> (d, [], Some e)
      | Inr items \<Rightarrow>
          (let gone = map px_ItemID (filter (\<lambda>i. tr_TrackID (px_Track i) = trackID) items) in
           case remove_items (pll_PlaylistID loved) gone now d of
             (d', Inl e) \<Rightarrow> (d', [], Some e)
           | (d', Inr _) \<Rightarrow> (d', if gone = [] then [] else [publishPlaylistChanged loved], None)))"

definition syncLovedTracksPlaylist ::
  "string \<Rightarrow> string \<Rightarrow> string \<Rightarrow> seconds \<Rightarrow> profile_db \<Rightarrow> profile_db \<times> notice list \<times> pd_err option" where
  "syncLovedTracksPlaylist prf trackID state now d =
     (if state = ''loved'' then
        (case loved_playlist d prf of
           Some loved \<Rightarrow> add_loved loved trackID now d
         | None \<Rightarrow> (case CreatePlaylist prf lovedTracksTitle ''private'' [] now d of
             (d', Inl e) \<Rightarrow> (d', [], Some e)
           | (d', Inr loved) \<Rightarrow> add_loved loved trackID now d'))
      else
        (case loved_playlist d prf of None \<Rightarrow> (d, [], None) | Some loved \<Rightarrow> remove_loved loved trackID now d))"

text \<open>The love is passed on to Last.fm; only an answer that the session is invalid changes the store.\<close>

type_synonym love_relay = "string \<Rightarrow> TrackRow \<Rightarrow> bool \<Rightarrow> error_kind option"

definition relay_love :: "love_relay option \<Rightarrow> opener \<Rightarrow> string \<Rightarrow> string \<Rightarrow> string \<Rightarrow> profile_db \<Rightarrow> profile_db" where
  "relay_love client opn prf ref state d =
     (case (GetLastfmConnection opn d prf, GetTrack (pd_cat d) ref, client) of
        (Found conn, Inr (Some tr), Some love) \<Rightarrow>
          if love (lc_SessionKey conn) tr (state = ''loved'') = Some ErrorInvalidSession
          then fst (DeleteLastfmData prf d) else d
      | _ \<Rightarrow> d)"

definition srv_SetLove ::
  "love_relay option \<Rightarrow> opener \<Rightarrow> Identity option \<Rightarrow> string \<Rightarrow> string \<Rightarrow> seconds \<Rightarrow> profile_db \<Rightarrow> LoveRow handled" where
  "srv_SetLove client opn ctx ref state now d = as_profile ctx d (\<lambda>prf.
     case SetLove prf ref state now d of
       (d', Inl PNotFound) \<Rightarrow> (d', [], not_found)
     | (d', Inl e) \<Rightarrow> (d', [], Failed e)
     | (d', Inr rec) \<Rightarrow>
         if lo_Kind rec = ''track'' then
           (case syncLovedTracksPlaylist prf ref (lo_State rec) now d' of
              (d'', notes, Some e) \<Rightarrow> (d'', notes, Failed e)
            | (d'', notes, None) \<Rightarrow>
                (relay_love client opn prf ref (lo_State rec) d'', notes @ [LoveUpdated prf rec], Reply 200 rec))
         else (d', [LoveUpdated prf rec], Reply 200 rec))"

definition srv_ListLoves :: "Identity option \<Rightarrow> string option \<Rightarrow> string option \<Rightarrow> time_cursor option \<Rightarrow> int option \<Rightarrow>
    profile_db \<Rightarrow> (LoveRow list \<times> time_cursor option) handled" where
  "srv_ListLoves ctx kind state cur limit d = as_profile ctx d (\<lambda>prf.
     (d, [], Reply 200 (ListLoves d prf (or_empty kind) (or_empty state) cur (page_limit limit))))"

section \<open>Ratings\<close>

definition srv_SetRating :: "Identity option \<Rightarrow> string \<Rightarrow> string \<Rightarrow> int option \<Rightarrow> profile_db \<Rightarrow> unit handled" where
  "srv_SetRating ctx itemType itemID rating d = as_profile ctx d (\<lambda>prf.
     case rating of
       None \<Rightarrow> (ClearRating prf itemID d, [], Reply 204 ())
     | Some r \<Rightarrow>
         if r < 0 \<or> 10 < r then (d, [], badRequest ''rating_out_of_range'')
         else (case SetRating prf itemType itemID r d of
                 (d', Inl PNotFound) \<Rightarrow> (d', [], not_found)
               | (d', Inl e) \<Rightarrow> (d', [], Failed e)
               | (d', Inr _) \<Rightarrow> (d', [], Reply 204 ())))"

section \<open>Playback, presence, recommendations\<close>

definition presenceEntries :: "profile_db \<Rightarrow> PresenceRow list" where
  "presenceEntries d = (case ListPresence d of Inl _ \<Rightarrow> [] | Inr rows \<Rightarrow> rows)"

text \<open>The notices of an accepted report; waking the Last.fm worker is not modelled.\<close>

definition report_notices :: "profile_db \<Rightarrow> string \<Rightarrow> notice list" where
  "report_notices d prf =
     (case GetProfileRecord (pd_ids d) prf of
        Found p \<Rightarrow> if pr_ShareListening p
          then map PresenceUpdated (filter (\<lambda>e. pw_ProfileID e = prf) (presenceEntries d)) else []
      | _ \<Rightarrow> []) @ [TasteUpdated prf]"

definition srv_ReportPlaybackEvents ::
  "Identity option \<Rightarrow> PlaybackEventRecord list option \<Rightarrow> seconds \<Rightarrow> profile_db \<Rightarrow> unit handled" where
  "srv_ReportPlaybackEvents ctx body now d =
     (case identity ctx of
        Inl (status, code) \<Rightarrow> (d, [], Problem status code)
      | Inr i \<Rightarrow>
          if idn_ProfileID i = '''' then (d, [], Problem 403 ''profile_token_required'')
          else (case body of
                  None \<Rightarrow> (d, [], badRequest ''playback_batch_too_large'')
                | Some events \<Rightarrow>
                    if 500 < length events then (d, [], badRequest ''playback_batch_too_large'')
                    else (case IngestPlaybackEventsDetailed (idn_ProfileID i) (idn_DeviceID i) events now d of
                            (d', Inl e) \<Rightarrow> (d', [], Failed e)
                          | (d', Inr (accepted, _)) \<Rightarrow>
                              (d', if 0 < accepted then report_notices d' (idn_ProfileID i) else [], Reply 202 ()))))"

definition srv_GetPresence :: "Identity option \<Rightarrow> profile_db \<Rightarrow> PresenceRow list handled" where
  "srv_GetPresence ctx d = as_profile ctx d (\<lambda>_. (d, [], Reply 200 (presenceEntries d)))"

definition srv_GetTasteSnapshot :: "Identity option \<Rightarrow> profile_db \<Rightarrow> (TasteArtist list \<times> TasteTrack list) handled" where
  "srv_GetTasteSnapshot ctx d = as_profile ctx d (\<lambda>prf. (d, [], Reply 200 (TasteSnapshot d prf)))"

definition srv_CreateRecommendation ::
  "Identity option \<Rightarrow> string \<Rightarrow> string \<Rightarrow> string option \<Rightarrow> seconds \<Rightarrow> profile_db \<Rightarrow> RecommendationRow handled" where
  "srv_CreateRecommendation ctx to ref note now d = as_profile ctx d (\<lambda>prf.
     case CreateRecommendation prf to ref (or_empty note) now d of
       (d', Inl PNotFound) \<Rightarrow> (d', [], not_found)
     | (d', Inl e) \<Rightarrow> (d', [], Failed e)
     | (d', Inr rec) \<Rightarrow> (d', [RecommendationReceived (rr_ToProfileID rec) rec], Reply 201 rec))"

definition srv_ListRecommendations :: "Identity option \<Rightarrow> bool option \<Rightarrow> time_cursor option \<Rightarrow> int option \<Rightarrow>
    profile_db \<Rightarrow> (RecommendationRow list \<times> time_cursor option) handled" where
  "srv_ListRecommendations ctx unseen cur limit d = as_profile ctx d (\<lambda>prf.
     (d, [], Reply 200 (ListRecommendations d prf (unseen = Some True) cur (page_limit limit))))"

definition srv_MarkRecommendationSeen :: "Identity option \<Rightarrow> string \<Rightarrow> profile_db \<Rightarrow> unit handled" where
  "srv_MarkRecommendationSeen ctx recommendationID d = as_profile ctx d (\<lambda>prf.
     case MarkRecommendationSeen prf recommendationID d of
       (d', Inl PNotFound) \<Rightarrow> (d', [], not_found)
     | (d', Inl e) \<Rightarrow> (d', [], Failed e)
     | (d', Inr _) \<Rightarrow> (d', [], Reply 204 ()))"

section \<open>Who may touch a playlist\<close>

definition status_of :: "'a reply \<Rightarrow> nat" where
  "status_of r = (case r of Reply n _ \<Rightarrow> n | Problem n _ \<Rightarrow> n | Failed _ \<Rightarrow> 500)"

definition answered :: "'a handled \<Rightarrow> profile_db \<times> notice list \<times> nat" where
  "answered h = (case h of (d, notes, r) \<Rightarrow> (d, notes, status_of r))"

datatype playlist_request =
  PlCreate string "string option" "string list option"
| PlGet string
| PlUpdate string "string option" "string option"
| PlDelete string
| PlTracks string "cursor option" "int option"
| PlAppend string "string list"
| PlRemove string string
| PlLove string string

fun serve_playlists :: "love_relay option \<Rightarrow> opener \<Rightarrow> Identity option \<Rightarrow> seconds \<Rightarrow> playlist_request \<Rightarrow> profile_db \<Rightarrow>
    profile_db \<times> notice list \<times> nat" where
  "serve_playlists client opn ctx now (PlCreate t v ts) d = answered (srv_CreatePlaylist ctx t v ts now d)"
| "serve_playlists client opn ctx now (PlGet p) d = answered (srv_GetPlaylist ctx p d)"
| "serve_playlists client opn ctx now (PlUpdate p t v) d = answered (srv_UpdatePlaylist ctx p t v now d)"
| "serve_playlists client opn ctx now (PlDelete p) d = answered (srv_DeletePlaylist ctx p d)"
| "serve_playlists client opn ctx now (PlTracks p c l) d = answered (srv_ListPlaylistTracks ctx p c l d)"
| "serve_playlists client opn ctx now (PlAppend p ts) d = answered (srv_AppendPlaylistTracks ctx p ts now d)"
| "serve_playlists client opn ctx now (PlRemove p i) d = answered (srv_RemovePlaylistTrack ctx p i now d)"
| "serve_playlists client opn ctx now (PlLove ref st) d = answered (srv_SetLove client opn ctx ref st now d)"

fun names_playlist :: "string \<Rightarrow> playlist_request \<Rightarrow> bool" where
  "names_playlist q (PlGet p) = (p = q)"
| "names_playlist q (PlUpdate p _ _) = (p = q)"
| "names_playlist q (PlDelete p) = (p = q)"
| "names_playlist q (PlTracks p _ _) = (p = q)"
| "names_playlist q (PlAppend p _) = (p = q)"
| "names_playlist q (PlRemove p _) = (p = q)"
| "names_playlist q _ = False"

text \<open>The row of a playlist (but for its time of update) and its items.\<close>

definition row_of :: "string \<Rightarrow> profile_db \<Rightarrow> playlist_row list" where
  "row_of q d = map (\<lambda>r. r\<lparr>pl_updated_at := 0\<rparr>) (filter (\<lambda>r. pl_id r = q) (pd_playlists d))"

definition kept :: "string \<Rightarrow> profile_db \<Rightarrow> profile_db \<Rightarrow> bool" where
  "kept q d d' \<longleftrightarrow> filter (\<lambda>r. pl_id r = q) (pd_playlists d') = filter (\<lambda>r. pl_id r = q) (pd_playlists d) \<and>
     items_of d' q = items_of d q"

lemma kept_refl [simp]: "kept q d d"
  by (simp add: kept_def)

lemma kept_trans: "kept q d d' \<Longrightarrow> kept q d' d'' \<Longrightarrow> kept q d d''"
  by (simp add: kept_def)

lemma kept_row: "kept q d d' \<Longrightarrow> row_of q d' = row_of q d"
  by (simp add: kept_def row_of_def)

lemma kept_tables: "pd_playlists d' = pd_playlists d \<Longrightarrow> pd_items d' = pd_items d \<Longrightarrow> kept q d d'"
  by (simp add: kept_def items_of_def)

lemma filter_update_other:
  "(\<And>r. P r \<Longrightarrow> \<not> Q r \<and> \<not> Q (f r)) \<Longrightarrow> filter Q (update_where P f t) = filter Q t"
  by (induction t) (auto simp: update_where_def)

lemma kept_bindE:
  assumes "kept q d (fst (f d))" and "\<And>d1 x. f d = (d1, Inr x) \<Longrightarrow> kept q d1 (fst (g x d1))"
  shows "kept q d (fst (bindE f g d))"
proof -
  obtain d1 r where f: "f d = (d1, r)" by fastforce
  show ?thesis
  proof (cases r)
    case (Inr x)
    then show ?thesis using assms(1) assms(2) [of d1 x] f by (auto simp: bindE_def intro: kept_trans)
  qed (use assms(1) f in \<open>simp add: bindE_def\<close>)
qed

lemma kept_draw: "kept q d (fst (draw_pd pre d))"
  by (auto simp: draw_pd_def kept_def items_of_def split: prod.splits sum.splits)

lemma kept_touch: "p \<noteq> q \<Longrightarrow> kept q d (touch_playlist p now d)"
  by (simp add: kept_def touch_playlist_def items_of_def filter_update_other)

lemma kept_insert_item: "p \<noteq> q \<Longrightarrow> kept q d (fst (insert_item i p t now d))"
  by (simp add: kept_def insert_item_def items_of_def)

lemma kept_append_tracks: "p \<noteq> q \<Longrightarrow> kept q d (fst (append_tracks p ts now d))"
proof (induction ts arbitrary: d)
  case (Cons t ts)
  then show ?case
    by (auto split: sum.splits option.splits intro!: kept_bindE kept_draw kept_insert_item)
qed simp

lemma kept_append: "p \<noteq> q \<Longrightarrow> kept q d (fst (AppendPlaylistTracks p ts now d))"
  by (auto simp: AppendPlaylistTracks_def intro!: kept_bindE kept_append_tracks kept_touch)

lemma kept_exec1: "(\<And>d. kept q d (f d)) \<Longrightarrow> kept q d (fst (exec1_pd P t f d))"
  by (simp add: exec1_pd_def)

lemma kept_set_playlist: "p \<noteq> q \<Longrightarrow> (\<And>r. pl_id (f r) = pl_id r) \<Longrightarrow> kept q d (fst (set_playlist p f d))"
  by (simp add: set_playlist_def exec1_pd_def kept_def items_of_def filter_update_other)

lemma kept_update: "p \<noteq> q \<Longrightarrow> kept q d (fst (UpdatePlaylist p t v now d))"
  unfolding UpdatePlaylist_def
  by (intro kept_bindE) (auto simp: returnE_def kept_set_playlist split: option.splits)

lemma filter_delete_other: "(\<And>x. P x \<Longrightarrow> \<not> Q x) \<Longrightarrow> filter Q (delete_where P t) = filter Q t"
  by (induction t) (auto simp: delete_where_def)

lemma kept_delete: "p \<noteq> q \<Longrightarrow> kept q d (fst (DeletePlaylist p d))"
  by (simp add: DeletePlaylist_def exec1_pd_def kept_def items_of_def filter_delete_other)

lemma kept_remove: "p \<noteq> q \<Longrightarrow> kept q d (fst (RemovePlaylistItem p i now d))"
  unfolding RemovePlaylistItem_def
  by (intro kept_bindE)
    (auto simp: exec1_pd_def kept_def items_of_def touch_playlist_def filter_update_other intro!: filter_delete_other)

lemma kept_remove_items: "p \<noteq> q \<Longrightarrow> kept q d (fst (remove_items p is now d))"
  by (induction "is" arbitrary: d) (auto intro!: kept_bindE kept_remove)

lemma kept_create:
  assumes "q \<in> pl_id ` set (pd_playlists d)"
  shows "kept q d (fst (CreatePlaylist prf t v ts now d))"
proof -
  obtain d1 r where draw: "draw_pd ''pl'' d = (d1, r)" by fastforce
  have same: "pd_playlists d1 = pd_playlists d" using draw by (auto simp: draw_pd_def split: prod.splits sum.splits)
  have 1: "kept q d d1" using kept_draw [of q d "''pl''"] draw by simp
  have 2: "kept q d1 (fst (insert_playlist p prf t vis now d1))" for p vis
    using assms same by (auto simp: insert_playlist_def kept_def items_of_def list_ex_iff image_iff)
  have 3: "p \<noteq> q" if "insert_playlist p prf t vis now d1 = (d2, Inr x)" for p vis d2 x
    using that assms same by (auto simp: insert_playlist_def list_ex_iff split: if_splits)
  show ?thesis unfolding CreatePlaylist_def
  proof (intro kept_bindE; (unfold draw fst_conv)?)
    show "kept q d d1" by (rule 1)
  qed (auto simp: draw returnE_def split: option.splits intro!: kept_bindE 2 kept_append dest: 3)
qed

lemma row_of_touch: "row_of q (touch_playlist p now d) = row_of q d"
proof -
  have "map (\<lambda>r. r\<lparr>pl_updated_at := 0\<rparr>) (filter (\<lambda>r. pl_id r = q) (update_where (\<lambda>r. pl_id r = p) (\<lambda>r. r\<lparr>pl_updated_at := now\<rparr>) t)) =
    map (\<lambda>r. r\<lparr>pl_updated_at := 0\<rparr>) (filter (\<lambda>r. pl_id r = q) t)" for t
    by (induction t) (auto simp: update_where_def)
  then show ?thesis by (simp add: row_of_def touch_playlist_def)
qed

lemma append_tracks_playlists: "pd_playlists (fst (append_tracks p ts now d)) = pd_playlists d"
proof (induction ts arbitrary: d)
  case (Cons t ts)
  have "pd_playlists (fst (draw_pd ''pli'' d)) = pd_playlists d"
    by (auto simp: draw_pd_def split: prod.splits sum.splits)
  moreover have "pd_playlists (fst (insert_item i p t now d)) = pd_playlists d" for i d
    by (simp add: insert_item_def)
  ultimately show ?case using Cons by (auto simp: bindE_def split: sum.splits option.splits prod.splits) (metis fst_conv)+
qed simp

lemma row_of_append: "row_of q (fst (AppendPlaylistTracks p ts now d)) = row_of q d"
proof -
  have "row_of q (fst (append_tracks p ts now d)) = row_of q d"
    by (simp add: row_of_def append_tracks_playlists)
  then show ?thesis
    by (auto simp: AppendPlaylistTracks_def bindE_def row_of_touch split: prod.splits sum.splits)
qed

lemma row_of_remove: "row_of q (fst (RemovePlaylistItem p i now d)) = row_of q d"
proof -
  have "row_of q (d\<lparr>pd_items := xs\<rparr>) = row_of q d" for xs by (simp add: row_of_def)
  then show ?thesis by (simp add: RemovePlaylistItem_def bindE_def exec1_pd_def row_of_touch)
qed

lemma fst_answered [simp]: "fst (answered h) = fst h"
  by (simp add: answered_def split: prod.splits)

lemma select1_key: "unique_key key t \<Longrightarrow> r \<in> set t \<Longrightarrow> select1 (\<lambda>x. key x = key r) t = Some r"
  by (induction t) (auto simp: unique_key_def select1_def)

text \<open>A playlist of somebody else, as the caller \<open>prf\<close> meets it.\<close>

definition foreign :: "string \<Rightarrow> playlist_row \<Rightarrow> profile_db \<Rightarrow> bool" where
  "foreign prf r d \<longleftrightarrow> prf \<noteq> '''' \<and> unique_key pl_id (pd_playlists d) \<and> r \<in> set (pd_playlists d) \<and> pl_owner r \<noteq> Some prf"

lemma foreign_columns:
  assumes "foreign prf r d"
  shows "GetPlaylist d (pl_id r) = Some (playlist_columns d r)" and "pll_OwnerProfileID (playlist_columns d r) \<noteq> prf"
proof -
  have "select1 (\<lambda>x. pl_id x = pl_id r) (pd_playlists d) = Some r"
    using assms by (simp add: foreign_def select1_key)
  then show "GetPlaylist d (pl_id r) = Some (playlist_columns d r)" by (simp add: GetPlaylist_def)
  show "pll_OwnerProfileID (playlist_columns d r) \<noteq> prf"
    using assms by (auto simp: foreign_def playlist_columns_def or_empty_def split: option.splits)
qed

lemma foreign_not_own:
  assumes "foreign prf r d" and "row \<in> set (ListPlaylists d p)" and "pll_OwnerProfileID row = prf"
  shows "pll_PlaylistID row \<noteq> pl_id r"
proof
  assume same: "pll_PlaylistID row = pl_id r"
  obtain x where x: "x \<in> set (pd_playlists d)" "row = playlist_columns d x"
    using assms(2) by (auto simp: ListPlaylists_def)
  then have "x = r" using same assms(1) by (auto simp: foreign_def playlist_columns_def unique_key_def distinct_map inj_on_def)
  then show False using foreign_columns(2) [OF assms(1)] x(2) assms(3) by simp
qed

lemma foreign_load:
  assumes "foreign prf r d" and "loadPlaylistFor d prf p = Some row"
  shows "p = pl_id r \<Longrightarrow> row = playlist_columns d r" and "pll_OwnerProfileID row = prf \<Longrightarrow> p \<noteq> pl_id r"
  using foreign_columns [OF assms(1)] assms(2) by (auto simp: loadPlaylistFor_def split: if_splits option.splits)

lemma kept_add_loved: "pll_PlaylistID loved \<noteq> q \<Longrightarrow> kept q d (fst (add_loved loved t now d))"
  using kept_append [of "pll_PlaylistID loved" q d "[t]" now]
  by (auto simp: add_loved_def split: sum.splits prod.splits)

lemma kept_remove_loved: "pll_PlaylistID loved \<noteq> q \<Longrightarrow> kept q d (fst (remove_loved loved t now d))"
  using kept_remove_items [of "pll_PlaylistID loved" q d _ now]
  by (auto simp: remove_loved_def Let_def split: sum.splits prod.splits) (metis fst_conv)+

lemma GetPlaylist_id: "GetPlaylist d p = Some row \<Longrightarrow> pll_PlaylistID row = p"
  by (auto simp: GetPlaylist_def playlist_columns_def select1_def find_Some_iff)

lemma select1_snoc: "(\<forall>r \<in> set t. \<not> P r) \<Longrightarrow> P x \<Longrightarrow> select1 P (t @ [x]) = Some x"
  by (induction t) (auto simp: select1_def)

lemma find_SomeD: "find P xs = Some x \<Longrightarrow> x \<in> set xs \<and> P x"
  by (induction xs) (auto split: if_splits)

lemma create_fresh:
  assumes "CreatePlaylist prf t v [] now d = (d', Inr row)"
  shows "pll_PlaylistID row \<notin> pl_id ` set (pd_playlists d)"
proof -
  obtain d1 p where draw: "draw_pd ''pl'' d = (d1, Inr p)"
    using assms by (cases "draw_pd ''pl'' d"; cases "snd (draw_pd ''pl'' d)") (auto simp: CreatePlaylist_def bindE_def)
  then have same: "pd_playlists d1 = pd_playlists d" by (auto simp: draw_pd_def split: prod.splits sum.splits)
  obtain d2 where ins: "insert_playlist p prf t (if v = '''' then ''private'' else v) now d1 = (d2, Inr ())"
    using assms draw by (auto simp: CreatePlaylist_def bindE_def split: prod.splits sum.splits)
  then have new: "p \<notin> pl_id ` set (pd_playlists d)" and "\<exists>x. pl_id x = p \<and> pd_playlists d2 = pd_playlists d @ [x]"
    using same by (auto simp: insert_playlist_def list_ex_iff split: if_splits)
  then obtain x where x: "pl_id x = p" "pd_playlists d2 = pd_playlists d @ [x]" by blast
  have "select1 (\<lambda>r. pl_id r = p) (pd_playlists d2) = Some x"
    unfolding x(2) using new x(1) by (intro select1_snoc) (metis image_eqI)+
  then have "GetPlaylist d2 p = Some (playlist_columns d2 x)" by (simp add: GetPlaylist_def)
  then have "row = playlist_columns d2 x"
    using assms draw ins by (auto simp: CreatePlaylist_def bindE_def returnE_def)
  then show ?thesis using new x(1) by (simp add: playlist_columns_def)
qed

lemma kept_sync:
  assumes f: "foreign prf r d"
  shows "kept (pl_id r) d (fst (syncLovedTracksPlaylist prf t st now d))"
proof (cases "loved_playlist d prf")
  case (Some loved)
  then have "pll_PlaylistID loved \<noteq> pl_id r"
    using foreign_not_own [OF f] by (auto simp: loved_playlist_def dest!: find_SomeD)
  then show ?thesis using Some by (simp add: syncLovedTracksPlaylist_def kept_add_loved kept_remove_loved)
next
  case None
  have q: "pl_id r \<in> pl_id ` set (pd_playlists d)" using f by (simp add: foreign_def)
  show ?thesis
  proof (cases "CreatePlaylist prf lovedTracksTitle ''private'' [] now d")
    case (Pair d' res)
    have k: "kept (pl_id r) d d'" using kept_create [OF q, of "prf" lovedTracksTitle "''private''" "[]" now] Pair by simp
    show ?thesis
    proof (cases res)
      case (Inr loved)
      then have "pll_PlaylistID loved \<noteq> pl_id r" using create_fresh Pair q by metis
      then show ?thesis
        using k None Pair Inr by (auto simp: syncLovedTracksPlaylist_def intro: kept_trans kept_add_loved)
    qed (use k None Pair in \<open>simp add: syncLovedTracksPlaylist_def\<close>)
  qed
qed

lemma SetLove_tables:
  "pd_playlists (fst (SetLove p ref st now d)) = pd_playlists d \<and> pd_items (fst (SetLove p ref st now d)) = pd_items d"
  by (auto simp: SetLove_def Let_def bindE_def draw_pd_def put_love_def split: sum.splits prod.splits option.splits)

lemma relay_love_tables:
  "pd_playlists (relay_love client opn p ref st d) = pd_playlists d \<and> pd_items (relay_love client opn p ref st d) = pd_items d"
  by (auto simp: relay_love_def DeleteLastfmData_def split: lookup.splits sum.splits option.splits)

lemma kept_love:
  assumes f: "foreign prf r d" and c: "profileID ctx = Inr prf"
  shows "kept (pl_id r) d (fst (srv_SetLove client opn ctx ref st now d))"
proof -
  obtain d1 res where s: "SetLove prf ref st now d = (d1, res)" by fastforce
  have t: "pd_playlists d1 = pd_playlists d" "pd_items d1 = pd_items d" using SetLove_tables [of "prf" ref st now d] s by auto
  then have k: "kept (pl_id r) d d1" and f1: "foreign prf r d1" using f by (auto simp: kept_tables foreign_def)
  show ?thesis
  proof (cases res)
    case (Inl e)
    then show ?thesis using k s c by (cases e) (simp_all add: srv_SetLove_def as_profile_def)
  next
    case (Inr rec)
    have k2: "kept (pl_id r) d (fst (syncLovedTracksPlaylist prf ref (lo_State rec) now d1))"
      by (rule kept_trans [OF k kept_sync [OF f1]])
    have "kept (pl_id r) x (relay_love client opn prf ref (lo_State rec) x)" for x
      by (simp add: kept_tables relay_love_tables)
    then show ?thesis using k k2 s c Inr
      by (auto simp: srv_SetLove_def as_profile_def split: prod.splits option.splits intro: kept_trans)
  qed
qed

lemma others_kept:
  assumes f: "foreign prf r d" and c: "profileID ctx = Inr prf" and v: "pl_visibility r \<noteq> ''collaborative''"
  shows "kept (pl_id r) d (fst (serve_playlists client opn ctx now req d))"
proof -
  have own: "pll_OwnerProfileID row = prf \<or> pll_Visibility row = ''collaborative'' \<Longrightarrow> p \<noteq> pl_id r"
    if "loadPlaylistFor d prf p = Some row" for p row
    using foreign_load [OF f that] v by (auto simp: playlist_columns_def)
  have q: "pl_id r \<in> pl_id ` set (pd_playlists d)" using f by (simp add: foreign_def)
  show ?thesis
  proof (cases req)
    case (PlCreate t vis ts)
    then show ?thesis using kept_create [OF q, of "prf" t _ _ now] c
      by (auto simp: srv_CreatePlaylist_def as_profile_def split: prod.splits sum.splits pd_err.splits) (metis fst_conv)+
  next
    case (PlUpdate p t vis)
    then show ?thesis using kept_update [of p "pl_id r" d t vis now] own [of p] c
      by (auto simp: srv_UpdatePlaylist_def on_playlist_def as_profile_def split: prod.splits sum.splits option.splits)
  next
    case (PlDelete p)
    then show ?thesis using kept_delete [of p "pl_id r" d] own [of p] c
      by (auto simp: srv_DeletePlaylist_def on_playlist_def as_profile_def split: prod.splits sum.splits option.splits)
  next
    case (PlAppend p ts)
    then show ?thesis using kept_append [of p "pl_id r" d ts now] own [of p] c
      by (auto simp: srv_AppendPlaylistTracks_def on_playlist_def as_profile_def split: prod.splits sum.splits option.splits pd_err.splits)
  next
    case (PlRemove p i)
    then show ?thesis using kept_remove [of p "pl_id r" d i now] own [of p] c
      by (auto simp: srv_RemovePlaylistTrack_def on_playlist_def as_profile_def split: prod.splits sum.splits option.splits pd_err.splits)
  next
    case (PlLove ref st)
    then show ?thesis using kept_love [OF f c] by simp
  qed (use c in \<open>auto simp: srv_GetPlaylist_def srv_ListPlaylistTracks_def on_playlist_def as_profile_def split: option.splits sum.splits\<close>)
qed

lemma others_row_kept:
  assumes f: "foreign prf r d" and c: "profileID ctx = Inr prf"
  shows "row_of (pl_id r) (fst (serve_playlists client opn ctx now req d)) = row_of (pl_id r) d"
proof (cases req)
  case (PlAppend p ts)
  have "row_of (pl_id r) (fst (AppendPlaylistTracks p ts now d)) = row_of (pl_id r) d" by (rule row_of_append)
  then show ?thesis using PlAppend c
    by (auto simp: srv_AppendPlaylistTracks_def on_playlist_def as_profile_def split: prod.splits sum.splits option.splits pd_err.splits)
next
  case (PlRemove p i)
  have "row_of (pl_id r) (fst (RemovePlaylistItem p i now d)) = row_of (pl_id r) d" by (rule row_of_remove)
  then show ?thesis using PlRemove c
    by (auto simp: srv_RemovePlaylistTrack_def on_playlist_def as_profile_def split: prod.splits sum.splits option.splits pd_err.splits)
next
  case (PlLove ref st)
  then show ?thesis using kept_row [OF kept_love [OF f c]] by simp
next
  case (PlCreate t v ts)
  have "pl_id r \<in> pl_id ` set (pd_playlists d)" using f by (simp add: foreign_def)
  note kept_row [OF kept_create [OF this, of "prf" t _ _ now]]
  then show ?thesis using PlCreate c
    by (auto simp: srv_CreatePlaylist_def as_profile_def split: prod.splits sum.splits pd_err.splits) (metis fst_conv)+
next
  case (PlUpdate p t v)
  have "p \<noteq> pl_id r \<Longrightarrow> row_of (pl_id r) (fst (UpdatePlaylist p t v now d)) = row_of (pl_id r) d"
    by (rule kept_row [OF kept_update])
  then show ?thesis using PlUpdate foreign_load(2) [OF f, of p] c
    by (auto simp: srv_UpdatePlaylist_def on_playlist_def as_profile_def split: prod.splits sum.splits option.splits)
next
  case (PlDelete p)
  have "p \<noteq> pl_id r \<Longrightarrow> row_of (pl_id r) (fst (DeletePlaylist p d)) = row_of (pl_id r) d"
    by (rule kept_row [OF kept_delete])
  then show ?thesis using PlDelete foreign_load(2) [OF f, of p] c
    by (auto simp: srv_DeletePlaylist_def on_playlist_def as_profile_def split: prod.splits sum.splits option.splits)
qed (use c in \<open>auto simp: srv_GetPlaylist_def srv_ListPlaylistTracks_def on_playlist_def as_profile_def split: option.splits sum.splits\<close>)

text \<open>A private playlist does not exist for anybody else.\<close>

lemma private_hidden:
  assumes f: "foreign prf r d" and c: "profileID ctx = Inr prf"
    and v: "pl_visibility r \<notin> {''shared'', ''collaborative''}" and o: "pl_origin r \<noteq> ''source''"
  shows "pl_id r \<notin> pll_PlaylistID ` set (ListPlaylists d prf)"
    and "names_playlist (pl_id r) req \<Longrightarrow> serve_playlists client opn ctx now req d = (d, [], 404)"
proof -
  have "\<not> canSeePlaylist (playlist_columns d r) prf"
    using foreign_columns(2) [OF f] v o by (simp add: canSeePlaylist_def playlist_columns_def)
  then have "loadPlaylistFor d prf (pl_id r) = None" using foreign_columns(1) [OF f] by (simp add: loadPlaylistFor_def)
  then show "names_playlist (pl_id r) req \<Longrightarrow> serve_playlists client opn ctx now req d = (d, [], 404)"
    using c by (cases req) (simp_all add: srv_GetPlaylist_def srv_UpdatePlaylist_def srv_DeletePlaylist_def
      srv_ListPlaylistTracks_def srv_AppendPlaylistTracks_def srv_RemovePlaylistTrack_def on_playlist_def as_profile_def
      not_found_def answered_def status_of_def)
  have only: "x = r" if "x \<in> set (pd_playlists d)" "pl_id x = pl_id r" for x
    using that f by (auto simp: foreign_def unique_key_def distinct_map inj_on_def)
  show "pl_id r \<notin> pll_PlaylistID ` set (ListPlaylists d prf)"
  proof -
    have "\<not> (pl_owner r = Some prf \<or> pl_visibility r = ''shared'' \<or> pl_visibility r = ''collaborative'' \<or> pl_origin r = ''source'')"
      using v o f by (simp add: foreign_def)
    then show ?thesis using only by (force simp: ListPlaylists_def playlist_columns_def)
  qed
qed

text \<open>C19
  A playlist is its owner's. Whatever another profile asks for, loves included, the row of a playlist
  keeps its id, owner, title, visibility and origin, and unless it is collaborative its items stay as
  they are and even its time of update does. A playlist that is neither shared, collaborative nor
  from the source does not exist for anybody else: it is not listed, and every request that names it
  is answered 404 without a change or a notice.\<close>

theorem playlists_belong_to_their_owner:
  assumes "profileID ctx = Inr prf" and "prf \<noteq> ''''" and "unique_key pl_id (pd_playlists d)"
    and "r \<in> set (pd_playlists d)" and "pl_owner r \<noteq> Some prf"
  shows "row_of (pl_id r) (fst (serve_playlists client opn ctx now req d)) = row_of (pl_id r) d \<and>
    (pl_visibility r \<noteq> ''collaborative'' \<longrightarrow> kept (pl_id r) d (fst (serve_playlists client opn ctx now req d))) \<and>
    (pl_visibility r \<notin> {''shared'', ''collaborative''} \<and> pl_origin r \<noteq> ''source'' \<longrightarrow>
       pl_id r \<notin> pll_PlaylistID ` set (ListPlaylists d prf) \<and>
       (names_playlist (pl_id r) req \<longrightarrow> serve_playlists client opn ctx now req d = (d, [], 404)))"
proof -
  have f: "foreign prf r d" using assms(2-) by (simp add: foreign_def)
  show ?thesis using others_row_kept [OF f assms(1)] others_kept [OF f assms(1)] private_hidden [OF f assms(1)] by simp
qed

definition demo_private :: playlist_row where
  "demo_private = \<lparr>pl_id = ''pl_b'', pl_owner = Some ''prf_b'', pl_title = ''Mine'', pl_visibility = ''private'',
     pl_origin = ''blitterserver'', pl_created_at = 1, pl_updated_at = 1\<rparr>"

lemma playlists_belong_to_their_owner_witness:
  "serve_playlists None (\<lambda>_ _ _. None) (Some \<lparr>idn_DeviceID = ''dev_a'', idn_ProfileID = ''prf_a''\<rparr>) 5
     (PlDelete ''pl_b'') (demo_db\<lparr>pd_playlists := [demo_private]\<rparr>) = (demo_db\<lparr>pd_playlists := [demo_private]\<rparr>, [], 404)"
  using playlists_belong_to_their_owner [of "Some \<lparr>idn_DeviceID = ''dev_a'', idn_ProfileID = ''prf_a''\<rparr>" "''prf_a''"
      "demo_db\<lparr>pd_playlists := [demo_private]\<rparr>" demo_private None "\<lambda>_ _ _. None" 5 "PlDelete ''pl_b''"]
  by (simp add: demo_private_def unique_key_def profileID_def identity_def)

text \<open>
  A playlist that is made private is announced to its owner alone: the scope of the notice is taken
  from the new row, and the others, who could see it, are not told that it is gone.
\<close>

lemma unsharing_is_not_announced:
  assumes "srv_UpdatePlaylist ctx p t (Some ''private'') now d = (d', notes, Reply 200 row)"
  shows "notes = [PlaylistChanged (pll_OwnerProfileID row) (pll_PlaylistID row)]"
proof -
  obtain d1 where u: "UpdatePlaylist p t (Some ''private'') now d = (d', Inr row)" and n: "notes = [publishPlaylistChanged row]"
    using assms by (auto simp: srv_UpdatePlaylist_def on_playlist_def as_profile_def not_found_def forbidden_def
      split: sum.splits option.splits prod.splits if_splits)
  obtain d2 where "set_playlist p (\<lambda>r. r\<lparr>pl_visibility := ''private'', pl_updated_at := now\<rparr>) d2 = (d', Inr ())"
      and g: "GetPlaylist d' p = Some row"
    using u by (auto simp: UpdatePlaylist_def bindE_def split: prod.splits sum.splits option.splits)
  then have "d' = d2\<lparr>pd_playlists := update_where (\<lambda>r. pl_id r = p)
      (\<lambda>r. r\<lparr>pl_visibility := ''private'', pl_updated_at := now\<rparr>) (pd_playlists d2)\<rparr>"
    by (auto simp: set_playlist_def exec1_pd_def split: if_splits)
  moreover have "pl_visibility r = ''private''"
    if "select1 (\<lambda>r. pl_id r = p) (update_where (\<lambda>r. pl_id r = p)
      (\<lambda>r. r\<lparr>pl_visibility := ''private'', pl_updated_at := now\<rparr>) ts) = Some r" (is "select1 ?Q (update_where _ ?f _) = _") for ts r
  proof -
    have "r \<in> set (update_where ?Q ?f ts)" "?Q r" using find_SomeD that unfolding select1_def by fast+
    then obtain x where x: "?Q x \<Longrightarrow> r = ?f x" "\<not> ?Q x \<Longrightarrow> r = x" using in_update_where [of r ?Q ?f ts] by blast
    have "?Q x" by (rule ccontr) (use x(2) \<open>?Q r\<close> in simp)
    with x(1) show ?thesis by simp
  qed
  ultimately have "pll_Visibility row = ''private''"
    using g by (auto simp: GetPlaylist_def playlist_columns_def)
  then show ?thesis using n by (simp add: publishPlaylistChanged_def)
qed

text \<open>A playlist one of whose tracks is unknown is refused, but it stays, with the tracks before that one.\<close>

lemma refused_playlist_stays:
  "case srv_CreatePlaylist (Some \<lparr>idn_DeviceID = ''dev_a'', idn_ProfileID = ''prf_a''\<rparr>) ''New'' None
     (Some [''trk_a'', ''trk_none'']) 5 demo_db of
   (d', notes, reply) \<Rightarrow> reply = badRequest ''unknown_track'' \<and> notes = [] \<and>
     map pl_title (pd_playlists d') = [''New''] \<and> map pi_track_id (pd_items d') = [''trk_a'']"
  by (simp add: srv_CreatePlaylist_def as_profile_def profileID_def identity_def CreatePlaylist_def bindE_def returnE_def
    draw_pd_def draw_id_def insert_playlist_def has_profile_def AppendPlaylistTracks_def GetPlaylist_def insert_item_def
    demo_db_defs GetTrack_def track_by_id_def track_columns_def album_by_id_def artist_by_id_def hydrateTrackCredits_def
    readCredits_def credits_of_def List.map_filter_def Let_def badRequest_def)

end
