(* ===== verification/ArtistIdentity.thy ===== *)
theory ArtistIdentity
  imports ChangeFeed
begin

text \<open>
  The canonical identity of artists (\<open>internal/store/artist_identity.go\<close>,
  \<open>internal/store/artist_consolidation.go\<close>): which artists still want their MusicBrainz metadata,
  storing the metadata, and merging the artists a source names into the canonical ones.

  The state is the catalogue with the columns and the setting only this code uses: when an artist's
  aliases and genres were fetched (0: not yet, -1: never will be) and the sequence of the last
  evaluation. The Unicode functions \<open>strings.ToLower\<close> (\<open>lower\<close>) and \<open>strings.EqualFold\<close> (\<open>eqf\<close>)
  are parameters; so is the order in which Go visits the map of the evidence (\<open>ord\<close>). The
  identity lock makes each operation atomic.
\<close>

record artist_db =
  ai_cat :: catalog
  ai_aliases_at :: "string \<Rightarrow> seconds"
  ai_genres_at :: "string \<Rightarrow> seconds"
  ai_evaluated :: "int option"

datatype identity_err = LimitNotPositive | NotPending | IdentityRequired | NoCanonicalArtist | WrongMBID
  | AlbumCollision | IdentityStore cat_err

definition on_cat :: "(catalog \<Rightarrow> catalog \<times> (cat_err + 'a)) \<Rightarrow> artist_db \<Rightarrow> artist_db \<times> (identity_err + 'a)" where
  "on_cat f d = (case f (ai_cat d) of
       (c, Inl e) \<Rightarrow> (d\<lparr>ai_cat := c\<rparr>, Inl (IdentityStore e))
     | (c, Inr x) \<Rightarrow> (d\<lparr>ai_cat := c\<rparr>, Inr x))"

abbreviation stmt :: "(catalog \<Rightarrow> catalog) \<Rightarrow> artist_db \<Rightarrow> artist_db \<times> (identity_err + unit)" where
  "stmt f \<equiv> on_cat (exec f)"

text \<open>\<open>BeginTx\<close>, \<open>defer tx.Rollback()\<close>, \<open>Commit\<close>.\<close>

definition in_tx :: "('s \<Rightarrow> 's \<times> ('e + 'a)) \<Rightarrow> 's \<Rightarrow> 's \<times> ('e + 'a)" where
  "in_tx f d = (case f d of (_, Inl e) \<Rightarrow> (d, Inl e) | (d', Inr x) \<Rightarrow> (d', Inr x))"

section \<open>Artists without metadata\<close>

record PendingMusicBrainzArtist =
  pa_ArtistID :: string
  pa_Name :: string
  pa_MusicBrainzID :: string

definition metadata_pending :: "artist_db \<Rightarrow> artist_row \<Rightarrow> bool" where
  "metadata_pending d a \<longleftrightarrow> ar_mbid a \<noteq> None \<and> (ai_aliases_at d (ar_artist_id a) = 0 \<or> ai_genres_at d (ar_artist_id a) = 0)"

definition pending_artist :: "artist_row \<Rightarrow> PendingMusicBrainzArtist" where
  "pending_artist a = \<lparr>pa_ArtistID = ar_artist_id a, pa_Name = ar_name a,
     pa_MusicBrainzID = (case ar_mbid a of None \<Rightarrow> '''' | Some m \<Rightarrow> m)\<rparr>"

definition PendingMusicBrainzArtists ::
  "string \<Rightarrow> int \<Rightarrow> artist_db \<Rightarrow> identity_err + (PendingMusicBrainzArtist list \<times> string)" where
  "PendingMusicBrainzArtists cursor limit d =
     (if limit \<le> 0 then Inl LimitNotPositive
      else
        (let artists = map pending_artist (take (nat (limit + 1)) (sort_key ar_artist_id
               (filter (\<lambda>a. cursor < ar_artist_id a \<and> metadata_pending d a) (ct_artists (ai_cat d)))))
         in if int (length artists) \<le> limit then Inr (artists, '''')
            else Inr (take (nat limit) artists, pa_ArtistID (artists ! nat (limit - 1)))))"

definition CountPendingMusicBrainzArtists :: "artist_db \<Rightarrow> nat" where
  "CountPendingMusicBrainzArtists d = count_where (metadata_pending d) (ct_artists (ai_cat d))"

text \<open>The update is committed before its rows are counted.\<close>

definition MarkMusicBrainzArtistMetadataTerminal :: "string \<Rightarrow> string \<Rightarrow> artist_db \<Rightarrow> artist_db \<times> (identity_err + unit)" where
  "MarkMusicBrainzArtistMetadataTerminal artistID mbid d =
     (let hit = (\<lambda>a. ar_artist_id a = artistID \<and> ar_mbid a = Some mbid \<and> metadata_pending d a);
          terminal = (\<lambda>stamps. if stamps artistID = 0 then stamps(artistID := -1) else stamps);
          n = count_where hit (ct_artists (ai_cat d));
          d' = (if n = 0 then d
                else d\<lparr>ai_aliases_at := terminal (ai_aliases_at d), ai_genres_at := terminal (ai_genres_at d)\<rparr>)
      in if n \<noteq> 1 then (d', Inl NotPending) else (d', Inr ()))"

section \<open>Storing the metadata\<close>

fun uniqueArtistGenres_from :: "(string \<Rightarrow> string) \<Rightarrow> string list \<Rightarrow> string list \<Rightarrow> string list" where
  "uniqueArtistGenres_from lower [] seen = []"
| "uniqueArtistGenres_from lower (genre # genres) seen =
     (let g = trim_space genre; key = lower g
      in if g = '''' then uniqueArtistGenres_from lower genres seen
         else if key \<in> set seen then uniqueArtistGenres_from lower genres seen
         else g # uniqueArtistGenres_from lower genres (key # seen))"

definition uniqueArtistGenres :: "(string \<Rightarrow> string) \<Rightarrow> string list \<Rightarrow> string list" where
  "uniqueArtistGenres lower genres = uniqueArtistGenres_from lower genres []"

fun uniqueArtistNames_from :: "(string \<Rightarrow> string \<Rightarrow> bool) \<Rightarrow> string list \<Rightarrow> string list \<Rightarrow> string list" where
  "uniqueArtistNames_from eqf unique [] = unique"
| "uniqueArtistNames_from eqf unique (name # names) =
     (let n = trim_space name
      in if n = '''' then uniqueArtistNames_from eqf unique names
         else if list_ex (\<lambda>x. eqf x n) unique then uniqueArtistNames_from eqf unique names
         else uniqueArtistNames_from eqf (unique @ [n]) names)"

definition uniqueArtistNames :: "(string \<Rightarrow> string \<Rightarrow> bool) \<Rightarrow> string list \<Rightarrow> string list" where
  "uniqueArtistNames eqf names = uniqueArtistNames_from eqf [] names"

definition insertArtistAliasTx :: "string \<Rightarrow> string \<Rightarrow> artist_db \<Rightarrow> artist_db \<times> (identity_err + bool)" where
  "insertArtistAliasTx artistID name d =
     (let n = trim_space name
      in if n = '''' then (d, Inr False)
         else (d\<lparr>ai_cat := insert_alias artistID n (ai_cat d)\<rparr>,
               Inr (\<not> list_ex (\<lambda>r. fst r = artistID \<and> same_text (snd r) n) (ct_aliases (ai_cat d)))))"

fun store_aliases :: "string \<Rightarrow> string \<Rightarrow> bool \<Rightarrow> string list \<Rightarrow> artist_db \<Rightarrow> artist_db \<times> (identity_err + bool)" where
  "store_aliases artistID canonicalName changed [] = returnE changed"
| "store_aliases artistID canonicalName changed (x # xs) =
     (if x = canonicalName then store_aliases artistID canonicalName changed xs
      else bindE (insertArtistAliasTx artistID x) (\<lambda>inserted.
             store_aliases artistID canonicalName (changed \<or> inserted) xs))"

definition stored_genres :: "catalog \<Rightarrow> string \<Rightarrow> string list" where
  "stored_genres s artistID = map (snd \<circ> snd) (sort_key (fst \<circ> snd) (filter (\<lambda>g. fst g = artistID) (ct_genres s)))"

text \<open>An artist has a genre, whatever its case, and a position once.\<close>

definition insert_genre :: "string \<Rightarrow> nat \<Rightarrow> string \<Rightarrow> artist_db \<Rightarrow> artist_db \<times> (identity_err + unit)" where
  "insert_genre artistID position genre d =
     (if list_ex (\<lambda>(i, p, n). i = artistID \<and> (p = position \<or> same_text n genre)) (ct_genres (ai_cat d))
      then (d, Inl (IdentityStore ConstraintFailed))
      else (d\<lparr>ai_cat := (ai_cat d)\<lparr>ct_genres := ct_genres (ai_cat d) @ [(artistID, position, genre)]\<rparr>\<rparr>, Inr ()))"

fun insert_genres :: "string \<Rightarrow> nat \<Rightarrow> string list \<Rightarrow> artist_db \<Rightarrow> artist_db \<times> (identity_err + unit)" where
  "insert_genres artistID position [] = returnE ()"
| "insert_genres artistID position (g # gs) =
     bindE (insert_genre artistID position g) (\<lambda>_. insert_genres artistID (position + 1) gs)"

definition replace_genres :: "string \<Rightarrow> string list \<Rightarrow> artist_db \<Rightarrow> artist_db \<times> (identity_err + bool)" where
  "replace_genres artistID genres d =
     (if stored_genres (ai_cat d) artistID = genres then (d, Inr False)
      else bindE (insert_genres artistID 0 genres) (\<lambda>_. returnE True)
        (d\<lparr>ai_cat := (ai_cat d)\<lparr>ct_genres := delete_where (\<lambda>g. fst g = artistID) (ct_genres (ai_cat d))\<rparr>\<rparr>))"

definition stamp_artist_albums :: "string \<Rightarrow> int \<Rightarrow> catalog \<Rightarrow> catalog" where
  "stamp_artist_albums artistID seq s =
     s\<lparr>ct_albums := update_where (\<lambda>a. al_artist_id a = artistID \<and> \<not> al_missing a) (\<lambda>a. a\<lparr>al_change_seq := seq\<rparr>) (ct_albums s)\<rparr>"

definition rename_artist_tracks :: "string \<Rightarrow> string \<Rightarrow> int \<Rightarrow> catalog \<Rightarrow> catalog" where
  "rename_artist_tracks artistID name seq s =
     s\<lparr>ct_tracks := update_where (\<lambda>t. tk_artist_id t = artistID)
        (\<lambda>t. t\<lparr>tk_artist_name := name, tk_change_seq := (if tk_missing t then tk_change_seq t else seq)\<rparr>) (ct_tracks s)\<rparr>"

definition name_artist :: "string \<Rightarrow> string \<Rightarrow> bool \<Rightarrow> int \<Rightarrow> catalog \<Rightarrow> catalog" where
  "name_artist artistID name changed seq s =
     s\<lparr>ct_artists := update_where (\<lambda>a. ar_artist_id a = artistID)
        (\<lambda>a. a\<lparr>ar_name := name, ar_change_seq := (if changed then seq else ar_change_seq a)\<rparr>) (ct_artists s)\<rparr>"

definition set_fetched :: "string \<Rightarrow> seconds \<Rightarrow> artist_db \<Rightarrow> artist_db \<times> (identity_err + unit)" where
  "set_fetched artistID now d =
     (d\<lparr>ai_aliases_at := (ai_aliases_at d)(artistID := now), ai_genres_at := (ai_genres_at d)(artistID := now)\<rparr>, Inr ())"

definition store_metadata ::
  "(string \<Rightarrow> string) \<Rightarrow> (string \<Rightarrow> string \<Rightarrow> bool) \<Rightarrow> string \<Rightarrow> string \<Rightarrow> string \<Rightarrow> string list \<Rightarrow> string list \<Rightarrow> int \<Rightarrow> seconds \<Rightarrow>
   artist_db \<Rightarrow> artist_db \<times> (identity_err + bool)" where
  "store_metadata lower eqf artistID oldName name aliases genres seq now =
     bindE (store_aliases artistID name (oldName \<noteq> name) (uniqueArtistNames eqf (oldName # aliases))) (\<lambda>changed.
     bindE (replace_genres artistID (uniqueArtistGenres lower genres)) (\<lambda>genresChanged.
     bindE (if oldName \<noteq> name
            then bindE (stmt (stamp_artist_albums artistID seq)) (\<lambda>_. stmt (rename_artist_tracks artistID name seq))
            else returnE ()) (\<lambda>_.
     bindE (stmt (name_artist artistID name (changed \<or> genresChanged) seq)) (\<lambda>_.
     bindE (set_fetched artistID now) (\<lambda>_. returnE (changed \<or> genresChanged))))))"

definition persistMusicBrainzArtistMetadataTx ::
  "(string \<Rightarrow> string) \<Rightarrow> (string \<Rightarrow> string \<Rightarrow> bool) \<Rightarrow> string \<Rightarrow> string \<Rightarrow> string \<Rightarrow> string list \<Rightarrow> string list \<Rightarrow> int \<Rightarrow> seconds \<Rightarrow>
   artist_db \<Rightarrow> artist_db \<times> (identity_err + bool)" where
  "persistMusicBrainzArtistMetadataTx lower eqf artistID mbid canonicalName aliases genres seq now d =
     (let name = trim_space canonicalName; wanted = trim_space mbid
      in if artistID = '''' \<or> wanted = '''' \<or> name = '''' then (d, Inl IdentityRequired)
         else case select1 (\<lambda>a. ar_artist_id a = artistID) (ct_artists (ai_cat d)) of
                None \<Rightarrow> (d, Inl NoCanonicalArtist)
              | Some a \<Rightarrow>
                  (case ar_mbid a of
                     None \<Rightarrow> (d, Inl NoCanonicalArtist)
                   | Some stored \<Rightarrow>
                       if stored \<noteq> wanted then (d, Inl WrongMBID)
                       else store_metadata lower eqf artistID (ar_name a) name aliases genres seq now d))"

definition PersistMusicBrainzArtistMetadata where
  "PersistMusicBrainzArtistMetadata lower eqf artistID mbid name aliases genres seq now =
     in_tx (persistMusicBrainzArtistMetadataTx lower eqf artistID mbid name aliases genres seq now)"

definition nextScanSeqTx :: "artist_db \<Rightarrow> artist_db \<times> (identity_err + int)" where
  "nextScanSeqTx d = (case NextScanSeq (ai_cat d) of (c, seq) \<Rightarrow> (d\<lparr>ai_cat := c\<rparr>, Inr seq))"

definition PersistMusicBrainzArtistMetadataAtNextSequence where
  "PersistMusicBrainzArtistMetadataAtNextSequence lower eqf artistID mbid name aliases genres now =
     in_tx (bindE nextScanSeqTx (\<lambda>seq.
       persistMusicBrainzArtistMetadataTx lower eqf artistID mbid name aliases genres seq now))"

section \<open>Which artist a name stands for\<close>

text \<open>
  The evidence says which MusicBrainz ids own a name: pairs of a key and an id, the entries of the
  map of sets.
\<close>

type_synonym evidence = "(string \<times> string) list"

definition artistEvidenceKey :: "(string \<Rightarrow> string) \<Rightarrow> string \<Rightarrow> string" where
  "artistEvidenceKey lower name = lower (trim_space name)"

definition addArtistEvidenceOwner :: "(string \<Rightarrow> string) \<Rightarrow> string \<Rightarrow> string \<Rightarrow> evidence \<Rightarrow> evidence" where
  "addArtistEvidenceOwner lower name mbid owners =
     (let key = artistEvidenceKey lower name in if key = '''' then owners else List.insert (key, mbid) owners)"

text \<open>\<open>len(owners) == 1 && owners[mbid]\<close>.\<close>

definition sole_owner :: "evidence \<Rightarrow> string \<Rightarrow> string \<Rightarrow> bool" where
  "sole_owner owners key mbid \<longleftrightarrow> (key, mbid) \<in> set owners \<and> list_all (\<lambda>(k, m). k = key \<longrightarrow> m = mbid) owners"

record evidence_names =
  en_mbid :: string
  en_canonical :: string
  en_aliases :: "string list"

text \<open>The rows of the query, one entry for each id; no two artists have the same id.\<close>

definition evidence_entries :: "artist_db \<Rightarrow> evidence_names list" where
  "evidence_entries d = List.map_filter (\<lambda>a.
     case ar_mbid a of
       None \<Rightarrow> None
     | Some mbid \<Rightarrow>
         if 0 < ai_aliases_at d (ar_artist_id a)
         then Some \<lparr>en_mbid = mbid, en_canonical = ar_name a,
                en_aliases = sort_key to_lower (map snd (filter (\<lambda>r. fst r = ar_artist_id a) (ct_aliases (ai_cat d))))\<rparr>
         else None)
     (sort_key ar_artist_id (ct_artists (ai_cat d)))"

definition canonical_owners :: "(string \<Rightarrow> string) \<Rightarrow> evidence_names list \<Rightarrow> evidence" where
  "canonical_owners lower es = fold (\<lambda>e. addArtistEvidenceOwner lower (en_canonical e) (en_mbid e)) es []"

definition alias_owners :: "(string \<Rightarrow> string) \<Rightarrow> evidence_names list \<Rightarrow> evidence" where
  "alias_owners lower es = fold (\<lambda>e. fold (\<lambda>x. addArtistEvidenceOwner lower x (en_mbid e)) (en_aliases e)) es []"

text \<open>An alias counts only where no canonical name does.\<close>

definition name_owners :: "(string \<Rightarrow> string) \<Rightarrow> evidence_names list \<Rightarrow> evidence" where
  "name_owners lower es = (let canonical = canonical_owners lower es
     in canonical @ filter (\<lambda>(k, _). k \<notin> fst ` set canonical) (alias_owners lower es))"

text \<open>\<open>Canonical (alias)\<close>, as some sources write it.\<close>

definition qualified_name :: "string \<Rightarrow> string \<Rightarrow> string" where
  "qualified_name canonical x = trim_space canonical @ '' ('' @ trim_space x @ '')''"

definition qualify_entry :: "(string \<Rightarrow> string) \<Rightarrow> evidence_names \<Rightarrow> evidence \<Rightarrow> evidence" where
  "qualify_entry lower e owners =
     (if \<not> sole_owner owners (artistEvidenceKey lower (en_canonical e)) (en_mbid e) then owners
      else fold (\<lambda>x owners.
             if sole_owner owners (artistEvidenceKey lower x) (en_mbid e)
             then addArtistEvidenceOwner lower (qualified_name (en_canonical e) x) (en_mbid e) owners
             else owners) (en_aliases e) owners)"

definition musicBrainzArtistEvidenceTx ::
  "(string \<Rightarrow> string) \<Rightarrow> (evidence_names list \<Rightarrow> evidence_names list) \<Rightarrow> artist_db \<Rightarrow> evidence" where
  "musicBrainzArtistEvidenceTx lower ord d =
     (let es = evidence_entries d in fold (qualify_entry lower) (ord es) (name_owners lower es))"

section \<open>Which artists to merge\<close>

record duplicateArtist =
  da_id :: string
  da_name :: string
  da_art :: "string option"

record artistMergeGroup =
  mg_canonicalID :: string
  mg_mbid :: string
  mg_canonicalName :: string
  mg_canonicalArt :: "string option"
  mg_sources :: "duplicateArtist list"
  mg_collides :: bool

definition duplicate_of :: "artist_row \<Rightarrow> duplicateArtist" where
  "duplicate_of a = \<lparr>da_id = ar_artist_id a, da_name = ar_name a, da_art = ar_art_id a\<rparr>"

text \<open>The artists without an id that match, of those the query selects.\<close>

definition matching_artists ::
  "(string \<Rightarrow> string) \<Rightarrow> (artist_row \<Rightarrow> bool) \<Rightarrow> artist_db \<Rightarrow> evidence \<Rightarrow> string \<Rightarrow> duplicateArtist list" where
  "matching_artists lower P d ev mbid = map duplicate_of (filter (\<lambda>a. sole_owner ev (artistEvidenceKey lower (ar_name a)) mbid)
     (sort_key ar_artist_id (filter (\<lambda>a. ar_mbid a = None \<and> P a) (ct_artists (ai_cat d)))))"

definition matchingAlbumOwnersTx :: "(string \<Rightarrow> string) \<Rightarrow> artist_db \<Rightarrow> evidence \<Rightarrow> string \<Rightarrow> duplicateArtist list" where
  "matchingAlbumOwnersTx lower d =
     matching_artists lower (\<lambda>a. list_ex (\<lambda>al. al_artist_id al = ar_artist_id a \<and> \<not> al_missing al) (ct_albums (ai_cat d))) d"

text \<open>The owner itself, and who is credited on its albums, or has or is credited on their tracks.\<close>

definition linked_to :: "catalog \<Rightarrow> string \<Rightarrow> artist_row \<Rightarrow> bool" where
  "linked_to s owner a \<longleftrightarrow> ar_artist_id a = owner \<or>
     list_ex (\<lambda>al. al_artist_id al = owner \<and>
       (list_ex (\<lambda>c. cr_owner c = al_album_id al \<and> cr_artist_id c = ar_artist_id a) (ct_album_credits s) \<or>
        list_ex (\<lambda>t. tk_album_id t = al_album_id al \<and>
          (tk_artist_id t = ar_artist_id a \<or>
           list_ex (\<lambda>c. cr_owner c = tk_track_id t \<and> cr_artist_id c = ar_artist_id a) (ct_track_credits s))) (ct_tracks s)))
       (ct_albums s)"

fun linkedMatchingArtistsTx ::
  "(string \<Rightarrow> string) \<Rightarrow> artist_db \<Rightarrow> evidence \<Rightarrow> string \<Rightarrow> duplicateArtist list \<Rightarrow> duplicateArtist list \<Rightarrow> duplicateArtist list" where
  "linkedMatchingArtistsTx lower d ev mbid [] found = found"
| "linkedMatchingArtistsTx lower d ev mbid (owner # owners) found =
     linkedMatchingArtistsTx lower d ev mbid owners
       (found @ filter (\<lambda>a. da_id a \<notin> da_id ` set found)
          (matching_artists lower (linked_to (ai_cat d) (da_id owner)) d ev mbid))"

definition group_ids :: "artistMergeGroup \<Rightarrow> string list" where
  "group_ids g = mg_canonicalID g # map da_id (mg_sources g)"

text \<open>Two albums of the group without a release, present or not, with the same title.\<close>

definition artistGroupAlbumCollisionTx :: "(string \<Rightarrow> string) \<Rightarrow> artist_db \<Rightarrow> artistMergeGroup \<Rightarrow> bool" where
  "artistGroupAlbumCollisionTx lower d g \<longleftrightarrow>
     \<not> distinct (map (\<lambda>al. artistEvidenceKey lower (al_title al))
       (filter (\<lambda>al. al_release_id al = None \<and> al_artist_id al \<in> set (group_ids g)) (ct_albums (ai_cat d))))"

definition merge_group :: "(string \<Rightarrow> string) \<Rightarrow> artist_db \<Rightarrow> evidence \<Rightarrow> string \<Rightarrow> artist_row \<Rightarrow> artistMergeGroup" where
  "merge_group lower d ev mbid a =
     (let g = \<lparr>mg_canonicalID = ar_artist_id a, mg_mbid = mbid, mg_canonicalName = ar_name a, mg_canonicalArt = ar_art_id a,
            mg_sources = linkedMatchingArtistsTx lower d ev mbid (matchingAlbumOwnersTx lower d ev mbid) [],
            mg_collides = False\<rparr>
      in g\<lparr>mg_collides := artistGroupAlbumCollisionTx lower d g\<rparr>)"

text \<open>Every canonical artist with metadata, or the one of \<open>onlyMBID\<close>.\<close>

definition artistMergeGroupsTx ::
  "(string \<Rightarrow> string) \<Rightarrow> (evidence_names list \<Rightarrow> evidence_names list) \<Rightarrow> string \<Rightarrow> artist_db \<Rightarrow> artistMergeGroup list" where
  "artistMergeGroupsTx lower ord onlyMBID d =
     (let ev = musicBrainzArtistEvidenceTx lower ord d
      in List.map_filter (\<lambda>a.
           case ar_mbid a of
             None \<Rightarrow> None
           | Some mbid \<Rightarrow>
               if 0 < ai_aliases_at d (ar_artist_id a) \<and> (onlyMBID = '''' \<or> mbid = onlyMBID)
               then Some (merge_group lower d ev mbid a) else None)
         (sort_key ar_artist_id (ct_artists (ai_cat d))))"

definition hasSafeArtistMergeGroup :: "artistMergeGroup list \<Rightarrow> bool" where
  "hasSafeArtistMergeGroup groups = list_ex (\<lambda>g. \<not> mg_collides g \<and> mg_sources g \<noteq> []) groups"

section \<open>Merging\<close>

definition stamp_credit_parents :: "string \<Rightarrow> int \<Rightarrow> catalog \<Rightarrow> catalog" where
  "stamp_credit_parents source seq s = s\<lparr>ct_albums := update_where
     (\<lambda>a. \<not> al_missing a \<and> list_ex (\<lambda>c. cr_owner c = al_album_id a \<and> cr_artist_id c = source) (ct_album_credits s))
     (\<lambda>a. a\<lparr>al_change_seq := seq\<rparr>) (ct_albums s)\<rparr>"

definition stamp_track_parents :: "string \<Rightarrow> int \<Rightarrow> catalog \<Rightarrow> catalog" where
  "stamp_track_parents source seq s = s\<lparr>ct_tracks := update_where
     (\<lambda>t. \<not> tk_missing t \<and> list_ex (\<lambda>c. cr_owner c = tk_track_id t \<and> cr_artist_id c = source) (ct_track_credits s))
     (\<lambda>t. t\<lparr>tk_change_seq := seq\<rparr>) (ct_tracks s)\<rparr>"

definition move_albums :: "string \<Rightarrow> string \<Rightarrow> int \<Rightarrow> catalog \<Rightarrow> catalog" where
  "move_albums source canonical seq s = s\<lparr>ct_albums := update_where (\<lambda>a. al_artist_id a = source)
     (\<lambda>a. a\<lparr>al_artist_id := canonical, al_change_seq := seq\<rparr>) (ct_albums s)\<rparr>"

definition move_credits :: "credit_table \<Rightarrow> string \<Rightarrow> string \<Rightarrow> catalog \<Rightarrow> catalog" where
  "move_credits ct source canonical s = set_credits ct (update_where (\<lambda>c. cr_artist_id c = source)
     (\<lambda>c. c\<lparr>cr_artist_id := canonical\<rparr>) (credits_of ct s)) s"

definition move_tracks :: "string \<Rightarrow> string \<Rightarrow> string \<Rightarrow> int \<Rightarrow> catalog \<Rightarrow> catalog" where
  "move_tracks source canonical name seq s = s\<lparr>ct_tracks := update_where (\<lambda>t. tk_artist_id t = source)
     (\<lambda>t. t\<lparr>tk_artist_id := canonical, tk_artist_name := name, tk_change_seq := seq\<rparr>) (ct_tracks s)\<rparr>"

definition lend_art :: "string \<Rightarrow> string \<Rightarrow> catalog \<Rightarrow> catalog" where
  "lend_art canonical art s = s\<lparr>ct_artists := update_where (\<lambda>a. ar_artist_id a = canonical \<and> ar_art_id a = None)
     (\<lambda>a. a\<lparr>ar_art_id := Some art\<rparr>) (ct_artists s)\<rparr>"

definition retire_artist :: "string \<Rightarrow> int \<Rightarrow> catalog \<Rightarrow> catalog" where
  "retire_artist source seq s = s\<lparr>ct_artists := update_where (\<lambda>a. ar_artist_id a = source)
     (\<lambda>a. a\<lparr>ar_missing := True, ar_change_seq := seq\<rparr>) (ct_artists s)\<rparr>"

definition settle_artist :: "string \<Rightarrow> int \<Rightarrow> catalog \<Rightarrow> catalog" where
  "settle_artist canonical seq s = s\<lparr>ct_artists := update_where (\<lambda>a. ar_artist_id a = canonical)
     (\<lambda>a. a\<lparr>ar_missing := artist_gone s a, ar_change_seq := seq\<rparr>) (ct_artists s)\<rparr>"

definition artistAliasesTx :: "string \<Rightarrow> catalog \<Rightarrow> string list" where
  "artistAliasesTx artistID s = map snd (filter (\<lambda>r. fst r = artistID) (ct_aliases s))"

fun keep_aliases :: "string \<Rightarrow> string \<Rightarrow> string list \<Rightarrow> artist_db \<Rightarrow> artist_db \<times> (identity_err + unit)" where
  "keep_aliases canonical name [] = returnE ()"
| "keep_aliases canonical name (x # xs) =
     (if trim_space x = name then keep_aliases canonical name xs
      else bindE (insertArtistAliasTx canonical x) (\<lambda>_. keep_aliases canonical name xs))"

text \<open>One source; the artwork the canonical artist has so far goes in and out.\<close>

definition merge_source ::
  "artistMergeGroup \<Rightarrow> int \<Rightarrow> duplicateArtist \<Rightarrow> string option \<Rightarrow> artist_db \<Rightarrow> artist_db \<times> (identity_err + string option)" where
  "merge_source g seq source art =
     (let i = da_id source; canonical = mg_canonicalID g; name = mg_canonicalName g
      in bindE (stmt (stamp_credit_parents i seq)) (\<lambda>_.
         bindE (stmt (stamp_track_parents i seq)) (\<lambda>_.
         bindE (stmt (move_albums i canonical seq)) (\<lambda>_.
         bindE (stmt (move_credits CAlbum i canonical)) (\<lambda>_.
         bindE (stmt (move_tracks i canonical name seq)) (\<lambda>_.
         bindE (stmt (move_credits CTrack i canonical)) (\<lambda>_.
         bindE (case (art, da_art source) of
                  (None, Some x) \<Rightarrow> bindE (stmt (lend_art canonical x)) (\<lambda>_. returnE (Some x))
                | _ \<Rightarrow> returnE art) (\<lambda>art'.
         bindE (\<lambda>d. keep_aliases canonical name (da_name source # artistAliasesTx i (ai_cat d)) d) (\<lambda>_.
         bindE (stmt (retire_artist i seq)) (\<lambda>_. returnE art'))))))))))"

fun merge_sources ::
  "artistMergeGroup \<Rightarrow> int \<Rightarrow> duplicateArtist list \<Rightarrow> string option \<Rightarrow> artist_db \<Rightarrow> artist_db \<times> (identity_err + unit)" where
  "merge_sources g seq [] art = returnE ()"
| "merge_sources g seq (x # xs) art = bindE (merge_source g seq x art) (\<lambda>art'. merge_sources g seq xs art')"

fun consolidateArtistGroupsTx :: "int \<Rightarrow> bool \<Rightarrow> artistMergeGroup list \<Rightarrow> artist_db \<Rightarrow> artist_db \<times> (identity_err + bool)" where
  "consolidateArtistGroupsTx seq changed [] = returnE changed"
| "consolidateArtistGroupsTx seq changed (g # gs) =
     (if mg_collides g \<or> mg_sources g = [] then consolidateArtistGroupsTx seq changed gs
      else bindE (merge_sources g seq (mg_sources g) (mg_canonicalArt g)) (\<lambda>_.
           bindE (stmt (settle_artist (mg_canonicalID g) seq)) (\<lambda>_.
           consolidateArtistGroupsTx seq True gs)))"

section \<open>When to merge\<close>

definition currentLibraryScanSeqTx :: "artist_db \<Rightarrow> int" where
  "currentLibraryScanSeqTx d = (case ct_scan_seq (ai_cat d) of None \<Rightarrow> 0 | Some v \<Rightarrow> v)"

definition setArtistConsolidationMarkerTx :: "int \<Rightarrow> artist_db \<Rightarrow> artist_db \<times> (identity_err + unit)" where
  "setArtistConsolidationMarkerTx seq d = (d\<lparr>ai_evaluated := Some seq\<rparr>, Inr ())"

text \<open>Not while an artist's aliases are pending, nor twice for the same sequence.\<close>

definition readyArtistMergeGroupsTx ::
  "(string \<Rightarrow> string) \<Rightarrow> (evidence_names list \<Rightarrow> evidence_names list) \<Rightarrow> artist_db \<Rightarrow> (int \<times> artistMergeGroup list) option" where
  "readyArtistMergeGroupsTx lower ord d =
     (if count_where (\<lambda>a. ar_mbid a \<noteq> None \<and> ai_aliases_at d (ar_artist_id a) = 0) (ct_artists (ai_cat d)) \<noteq> 0 then None
      else if ai_evaluated d = Some (currentLibraryScanSeqTx d) then None
      else Some (currentLibraryScanSeqTx d, artistMergeGroupsTx lower ord '''' d))"

definition ConsolidateMusicBrainzArtists ::
  "(string \<Rightarrow> string) \<Rightarrow> (evidence_names list \<Rightarrow> evidence_names list) \<Rightarrow> int \<Rightarrow> artist_db \<Rightarrow> artist_db \<times> (identity_err + bool)" where
  "ConsolidateMusicBrainzArtists lower ord seq = in_tx (\<lambda>d.
     case readyArtistMergeGroupsTx lower ord d of
       None \<Rightarrow> (d, Inr False)
     | Some (currentSeq, groups) \<Rightarrow>
         bindE (consolidateArtistGroupsTx seq False groups) (\<lambda>changed.
         bindE (setArtistConsolidationMarkerTx (if changed then seq else currentSeq)) (\<lambda>_. returnE changed)) d)"

definition ConsolidateMusicBrainzArtistsAtNextSequence ::
  "(string \<Rightarrow> string) \<Rightarrow> (evidence_names list \<Rightarrow> evidence_names list) \<Rightarrow> artist_db \<Rightarrow> artist_db \<times> (identity_err + bool)" where
  "ConsolidateMusicBrainzArtistsAtNextSequence lower ord = in_tx (\<lambda>d.
     case readyArtistMergeGroupsTx lower ord d of
       None \<Rightarrow> (d, Inr False)
     | Some (currentSeq, groups) \<Rightarrow>
         bindE (if hasSafeArtistMergeGroup groups
                then bindE nextScanSeqTx (\<lambda>seq.
                     bindE (consolidateArtistGroupsTx seq False groups) (\<lambda>changed. returnE (changed, seq)))
                else returnE (False, currentSeq)) (\<lambda>(changed, markerSeq).
         bindE (setArtistConsolidationMarkerTx markerSeq) (\<lambda>_. returnE changed)) d)"

definition ApplyMusicBrainzArtistMetadata where
  "ApplyMusicBrainzArtistMetadata lower eqf ord artistID mbid name aliases genres seq now = in_tx (
     bindE (persistMusicBrainzArtistMetadataTx lower eqf artistID mbid name aliases genres seq now) (\<lambda>metadataChanged d.
       let groups = artistMergeGroupsTx lower ord mbid d
       in if list_ex mg_collides groups then (d, Inl AlbumCollision)
          else bindE (consolidateArtistGroupsTx seq False groups) (\<lambda>merged. returnE (metadataChanged \<or> merged)) d))"

section \<open>Keys fold what the columns fold\<close>

definition caseless :: "char \<Rightarrow> bool" where
  "caseless c \<longleftrightarrow> (\<forall>x. lower_char x = c \<longleftrightarrow> x = c)"

lemma caseless_runes: "w \<in> set space_runes \<Longrightarrow> list_all caseless w"
proof -
  have "caseless c" if "\<not> (65 \<le> (of_char c :: nat) \<and> of_char c \<le> (90 :: nat)) \<and> \<not> (97 \<le> (of_char c :: nat) \<and> of_char c \<le> (122 :: nat))" for c
    using that by (auto simp: caseless_def lower_char_def)
  then show "w \<in> set space_runes \<Longrightarrow> list_all caseless w" by (auto simp: space_runes_def)
qed

lemma caseless_take: "list_all caseless w \<Longrightarrow> map lower_char s = w \<longleftrightarrow> s = w"
proof (induction w arbitrary: s)
  case (Cons c w)
  then show ?case by (cases s) (auto simp: caseless_def)
qed simp

lemma caseless_affix:
  assumes "list_all caseless w"
  shows "prefix w (to_lower s) \<longleftrightarrow> prefix w s" "suffix w (to_lower s) \<longleftrightarrow> suffix w s"
proof -
  have "prefix w (to_lower s) \<longleftrightarrow> map lower_char (take (length w) s) = w"
    by (simp add: prefix_def to_lower_def take_map [symmetric]) (metis append_eq_conv_conj append_take_drop_id)
  moreover have "prefix w s \<longleftrightarrow> take (length w) s = w" by (metis append_eq_conv_conj append_take_drop_id prefix_def)
  ultimately show "prefix w (to_lower s) \<longleftrightarrow> prefix w s" using caseless_take [OF assms] by simp
  have suffix: "suffix w t \<longleftrightarrow> length w \<le> length t \<and> drop (length t - length w) t = w" for t :: string
    by (metis append_eq_conv_conj append_take_drop_id diff_diff_cancel length_append length_drop suffix_def suffix_length_le
        add_diff_cancel_right')
  show "suffix w (to_lower s) \<longleftrightarrow> suffix w s"
    unfolding suffix [of "to_lower s"] suffix [of s] using caseless_take [OF assms, of "drop (length s - length w) s"]
    by (simp add: to_lower_def drop_map)
qed

lemma find_runes_lower:
  "find (\<lambda>w. prefix w (to_lower s)) space_runes = find (\<lambda>w. prefix w s) space_runes"
  "find (\<lambda>w. suffix w (to_lower s)) space_runes = find (\<lambda>w. suffix w s) space_runes"
  using caseless_runes by (auto intro!: find_cong simp: caseless_affix)

lemma trim_fuel_lower:
  "trim_left_fuel n (to_lower s) = to_lower (trim_left_fuel n s)"
  "trim_right_fuel n (to_lower s) = to_lower (trim_right_fuel n s)"
  by (induction n arbitrary: s)
    (auto simp: find_runes_lower to_lower_def drop_map take_map find_runes_lower [unfolded to_lower_def] split: option.split)

lemma trim_space_lower: "trim_space (to_lower s) = to_lower (trim_space s)"
  by (simp add: trim_space_def trim_left_def trim_right_def trim_fuel_lower)

text \<open>\<open>strings.ToLower\<close> does not tell apart what \<open>COLLATE NOCASE\<close> does not.\<close>

definition folds :: "(string \<Rightarrow> string) \<Rightarrow> bool" where
  "folds lower \<longleftrightarrow> (\<forall>a b. to_lower a = to_lower b \<longrightarrow> lower a = lower b)"

lemma key_folds:
  assumes "folds lower" and "to_lower a = to_lower b"
  shows "artistEvidenceKey lower a = artistEvidenceKey lower b"
proof -
  have "to_lower (trim_space a) = to_lower (trim_space b)" unfolding trim_space_lower [symmetric] using assms(2) by simp
  then show ?thesis using assms(1) unfolding folds_def artistEvidenceKey_def by blast
qed

section \<open>The groups do not overlap\<close>

lemma sole_owner_unique: "sole_owner ev k m \<Longrightarrow> sole_owner ev k m' \<Longrightarrow> m = m'"
  by (auto simp: sole_owner_def list_all_iff)

text \<open>What a member of a group's sources is: an artist without an id, whose name only the group's id owns.\<close>

definition source_artist :: "(string \<Rightarrow> string) \<Rightarrow> evidence \<Rightarrow> string \<Rightarrow> catalog \<Rightarrow> duplicateArtist \<Rightarrow> bool" where
  "source_artist lower ev mbid s x \<longleftrightarrow>
     (\<exists>a \<in> set (ct_artists s). x = duplicate_of a \<and> ar_mbid a = None \<and> sole_owner ev (artistEvidenceKey lower (ar_name a)) mbid)"

lemma matching_artists_source: "x \<in> set (matching_artists lower P d ev mbid) \<Longrightarrow> source_artist lower ev mbid (ai_cat d) x"
  by (auto simp: matching_artists_def source_artist_def)

lemma linked_source:
  "(\<forall>x \<in> set found. source_artist lower ev mbid (ai_cat d) x) \<Longrightarrow>
   x \<in> set (linkedMatchingArtistsTx lower d ev mbid owners found) \<Longrightarrow> source_artist lower ev mbid (ai_cat d) x"
  by (induction lower d ev mbid owners found rule: linkedMatchingArtistsTx.induct) (auto dest: matching_artists_source)

text \<open>Untagged albums of these artists with the same title are one album.\<close>

definition one_title :: "(string \<Rightarrow> string) \<Rightarrow> string set \<Rightarrow> catalog \<Rightarrow> bool" where
  "one_title lower I s \<longleftrightarrow> (\<forall>a \<in> set (ct_albums s). \<forall>b \<in> set (ct_albums s).
     al_release_id a = None \<and> al_release_id b = None \<and> al_artist_id a \<in> I \<and> al_artist_id b \<in> I \<and>
     artistEvidenceKey lower (al_title a) = artistEvidenceKey lower (al_title b) \<longrightarrow> al_album_id a = al_album_id b)"

lemma no_collision: "\<not> artistGroupAlbumCollisionTx lower d g \<Longrightarrow> one_title lower (set (group_ids g)) (ai_cat d)"
  unfolding artistGroupAlbumCollisionTx_def one_title_def by (fastforce simp: distinct_map inj_on_def)

lemma merge_group_parts:
  "mg_canonicalID (merge_group lower d ev mbid a) = ar_artist_id a" "mg_mbid (merge_group lower d ev mbid a) = mbid"
  "mg_canonicalName (merge_group lower d ev mbid a) = ar_name a"
  "mg_sources (merge_group lower d ev mbid a) =
    linkedMatchingArtistsTx lower d ev mbid (matchingAlbumOwnersTx lower d ev mbid) []"
  "mg_collides (merge_group lower d ev mbid a) = artistGroupAlbumCollisionTx lower d (merge_group lower d ev mbid a)"
  by (simp_all add: merge_group_def Let_def artistGroupAlbumCollisionTx_def group_ids_def)

lemma group_row:
  assumes "g \<in> set (artistMergeGroupsTx lower ord only d)"
  shows "\<exists>a \<in> set (ct_artists (ai_cat d)). \<exists>mbid. ar_mbid a = Some mbid \<and>
    g = merge_group lower d (musicBrainzArtistEvidenceTx lower ord d) mbid a"
proof -
  let ?f = "\<lambda>a. case ar_mbid a of None \<Rightarrow> None | Some mbid \<Rightarrow>
      if 0 < ai_aliases_at d (ar_artist_id a) \<and> (only = '''' \<or> mbid = only)
      then Some (merge_group lower d (musicBrainzArtistEvidenceTx lower ord d) mbid a) else None"
  obtain a where a: "a \<in> set (ct_artists (ai_cat d))" "?f a = Some g"
    using assms unfolding artistMergeGroupsTx_def Let_def List.map_filter_def by fastforce
  then show ?thesis by (cases "ar_mbid a") (auto split: if_splits)
qed

lemma group_facts:
  assumes "g \<in> set (artistMergeGroupsTx lower ord only d)"
  shows "\<exists>a \<in> set (ct_artists (ai_cat d)). ar_artist_id a = mg_canonicalID g \<and> ar_mbid a = Some (mg_mbid g)"
    and "x \<in> set (mg_sources g) \<Longrightarrow> source_artist lower (musicBrainzArtistEvidenceTx lower ord d) (mg_mbid g) (ai_cat d) x"
    and "\<not> mg_collides g \<Longrightarrow> one_title lower (set (group_ids g)) (ai_cat d)"
proof -
  obtain a mbid where a: "a \<in> set (ct_artists (ai_cat d))" "ar_mbid a = Some mbid"
    "g = merge_group lower d (musicBrainzArtistEvidenceTx lower ord d) mbid a"
    using group_row [OF assms] by blast
  then show "\<exists>a \<in> set (ct_artists (ai_cat d)). ar_artist_id a = mg_canonicalID g \<and> ar_mbid a = Some (mg_mbid g)"
    by (auto simp: merge_group_parts)
  show "x \<in> set (mg_sources g) \<Longrightarrow> source_artist lower (musicBrainzArtistEvidenceTx lower ord d) (mg_mbid g) (ai_cat d) x"
    unfolding a(3) merge_group_parts by (rule linked_source [of "[]"]) simp_all
  show "\<not> mg_collides g \<Longrightarrow> one_title lower (set (group_ids g)) (ai_cat d)"
    using no_collision unfolding a(3) merge_group_parts by blast
qed

lemma unique_row: "unique_key key t \<Longrightarrow> a \<in> set t \<Longrightarrow> b \<in> set t \<Longrightarrow> key a = key b \<Longrightarrow> a = b"
  by (auto simp: unique_key_def distinct_map inj_on_def)

lemma artists_unique:
  "constraints_ok s \<Longrightarrow> a \<in> set (ct_artists s) \<Longrightarrow> b \<in> set (ct_artists s) \<Longrightarrow> ar_artist_id a = ar_artist_id b \<Longrightarrow> a = b"
  by (rule unique_row [of ar_artist_id]) (simp_all add: constraints_ok_def)

lemma source_not_canonical:
  assumes "constraints_ok (ai_cat d)" and "g \<in> set (artistMergeGroupsTx lower ord only d)"
    and "h \<in> set (artistMergeGroupsTx lower ord only d)" and "x \<in> set (mg_sources h)"
  shows "da_id x \<noteq> mg_canonicalID g"
proof
  assume same: "da_id x = mg_canonicalID g"
  obtain a where a: "a \<in> set (ct_artists (ai_cat d))" "ar_artist_id a = mg_canonicalID g" "ar_mbid a = Some (mg_mbid g)"
    using group_facts(1) [OF assms(2)] by blast
  obtain b where b: "b \<in> set (ct_artists (ai_cat d))" "x = duplicate_of b" "ar_mbid b = None"
    using group_facts(2) [OF assms(3,4)] by (auto simp: source_artist_def)
  have "a = b" using artists_unique [OF assms(1) a(1) b(1)] a(2) b(2) same by (simp add: duplicate_of_def)
  then show False using a(3) b(3) by simp
qed

lemma groups_apart:
  assumes ok: "constraints_ok (ai_cat d)" and g: "g \<in> set (artistMergeGroupsTx lower ord only d)"
    and h: "h \<in> set (artistMergeGroupsTx lower ord only d)" and i: "i \<in> set (group_ids g)" "i \<in> set (group_ids h)"
  shows "g = h"
proof -
  have same: "g = h" if "mg_mbid g = mg_mbid h" "mg_canonicalID g = mg_canonicalID h"
  proof -
    let ?ev = "musicBrainzArtistEvidenceTx lower ord d"
    obtain a m where a: "a \<in> set (ct_artists (ai_cat d))" "g = merge_group lower d ?ev m a" using group_row [OF g] by blast
    obtain b n where b: "b \<in> set (ct_artists (ai_cat d))" "h = merge_group lower d ?ev n b" using group_row [OF h] by blast
    have "m = n" "ar_artist_id a = ar_artist_id b" using that unfolding a(2) b(2) merge_group_parts by simp_all
    then show ?thesis using artists_unique [OF ok a(1) b(1)] a(2) b(2) by simp
  qed
  have mbid: "mg_canonicalID g = mg_canonicalID h \<longleftrightarrow> mg_mbid g = mg_mbid h"
  proof -
    obtain a b where a: "a \<in> set (ct_artists (ai_cat d))" "ar_artist_id a = mg_canonicalID g" "ar_mbid a = Some (mg_mbid g)"
      and b: "b \<in> set (ct_artists (ai_cat d))" "ar_artist_id b = mg_canonicalID h" "ar_mbid b = Some (mg_mbid h)"
      using group_facts(1) [OF g] group_facts(1) [OF h] by blast
    have "a = b" if "ar_mbid a = ar_mbid b"
    proof -
      have "distinct (filter (\<lambda>k. k \<noteq> None) (map ar_mbid (ct_artists (ai_cat d))))"
        using ok by (simp add: constraints_ok_def unique_some_def)
      then have "inj_on ar_mbid {r \<in> set (ct_artists (ai_cat d)). ar_mbid r \<noteq> None}"
        by (simp add: filter_map distinct_map comp_def)
      moreover have "a \<in> {r \<in> set (ct_artists (ai_cat d)). ar_mbid r \<noteq> None}" "b \<in> {r \<in> set (ct_artists (ai_cat d)). ar_mbid r \<noteq> None}"
        using a b by simp_all
      ultimately show ?thesis using that by (meson inj_onD)
    qed
    moreover have "a = b" if "ar_artist_id a = ar_artist_id b"
      using artists_unique [OF ok a(1) b(1) that] .
    ultimately show ?thesis using a b by auto
  qed
  show ?thesis
  proof (cases "i = mg_canonicalID g \<or> i = mg_canonicalID h")
    case True
    have "mg_canonicalID g \<notin> da_id ` set (mg_sources h)" "mg_canonicalID h \<notin> da_id ` set (mg_sources g)"
      using source_not_canonical [OF ok g h] source_not_canonical [OF ok h g] by force+
    then have "mg_canonicalID g = mg_canonicalID h" using True i unfolding group_ids_def by auto
    then show ?thesis using mbid same by simp
  next
    case False
    obtain a b where a: "a \<in> set (ct_artists (ai_cat d))" "ar_artist_id a = i"
        "sole_owner (musicBrainzArtistEvidenceTx lower ord d) (artistEvidenceKey lower (ar_name a)) (mg_mbid g)"
      and b: "b \<in> set (ct_artists (ai_cat d))" "ar_artist_id b = i"
        "sole_owner (musicBrainzArtistEvidenceTx lower ord d) (artistEvidenceKey lower (ar_name b)) (mg_mbid h)"
      using False i group_facts(2) [OF g] group_facts(2) [OF h]
      by (fastforce simp: group_ids_def source_artist_def duplicate_of_def)
    have "a = b" using artists_unique [OF ok a(1) b(1)] a(2) b(2) by simp
    then have "mg_mbid g = mg_mbid h" using a(3) b(3) sole_owner_unique by blast
    then show ?thesis using mbid same by simp
  qed
qed

section \<open>What the statements of a merge keep\<close>

lemma untagged_identity_distinct:
  assumes "unique_key al_album_id t"
  shows "distinct (untagged_identity t) \<longleftrightarrow> (\<forall>a \<in> set t. \<forall>b \<in> set t.
    al_release_id a = None \<and> \<not> al_missing a \<and> al_release_id b = None \<and> \<not> al_missing b \<and>
    al_artist_id a = al_artist_id b \<and> to_lower (al_title a) = to_lower (al_title b) \<longrightarrow> al_album_id a = al_album_id b)"
proof -
  have "distinct t" using assms by (simp add: unique_key_def distinct_map)
  moreover have "al_album_id a = al_album_id b \<longleftrightarrow> a = b" if "a \<in> set t" "b \<in> set t" for a b
    using unique_row [OF assms] that by blast
  ultimately show ?thesis unfolding untagged_identity_def distinct_map inj_on_def by auto
qed

text \<open>What holds of the catalogue while safe groups are merged.\<close>

definition mergeable :: "(string \<Rightarrow> string) \<Rightarrow> artistMergeGroup set \<Rightarrow> catalog \<Rightarrow> bool" where
  "mergeable lower G s \<longleftrightarrow> constraints_ok s \<and>
     (\<forall>g \<in> G. mg_canonicalID g \<in> ar_artist_id ` set (ct_artists s) \<and> one_title lower (set (group_ids g)) s)"

definition groups_disjoint :: "artistMergeGroup set \<Rightarrow> bool" where
  "groups_disjoint G \<longleftrightarrow> (\<forall>g \<in> G. \<forall>h \<in> G. \<forall>i. i \<in> set (group_ids g) \<and> i \<in> set (group_ids h) \<longrightarrow> g = h)"

lemma one_title_cong: "ct_albums s' = ct_albums s \<Longrightarrow> one_title lower I s' = one_title lower I s"
  unfolding one_title_def by (rule arg_cong [where f = "\<lambda>t. \<forall>a \<in> set t. \<forall>b \<in> set t. _ a b"])

lemma mergeable_cong:
  assumes "mergeable lower G s" and "constraints_ok s'" and "ct_albums s' = ct_albums s"
    and "ar_artist_id ` set (ct_artists s') = ar_artist_id ` set (ct_artists s)"
  shows "mergeable lower G s'"
  using assms one_title_cong [OF assms(3)] unfolding mergeable_def by auto

lemma one_title_map:
  assumes "one_title lower I s"
    and "\<And>a. al_album_id (f a) = al_album_id a" "\<And>a. al_release_id (f a) = al_release_id a"
    "\<And>a. al_title (f a) = al_title a" "\<And>a. al_artist_id (f a) \<in> I \<longleftrightarrow> al_artist_id a \<in> I"
  shows "one_title lower I (s\<lparr>ct_albums := map f (ct_albums s)\<rparr>)"
  unfolding one_title_def
proof (intro ballI impI)
  fix x y assume x: "x \<in> set (ct_albums (s\<lparr>ct_albums := map f (ct_albums s)\<rparr>))"
    and y: "y \<in> set (ct_albums (s\<lparr>ct_albums := map f (ct_albums s)\<rparr>))"
    and same: "al_release_id x = None \<and> al_release_id y = None \<and> al_artist_id x \<in> I \<and> al_artist_id y \<in> I \<and>
      artistEvidenceKey lower (al_title x) = artistEvidenceKey lower (al_title y)"
  obtain a b where ab: "a \<in> set (ct_albums s)" "x = f a" "b \<in> set (ct_albums s)" "y = f b" using x y by auto
  have "al_release_id a = None \<and> al_release_id b = None \<and> al_artist_id a \<in> I \<and> al_artist_id b \<in> I \<and>
      artistEvidenceKey lower (al_title a) = artistEvidenceKey lower (al_title b)"
    using same unfolding ab(2,4) assms(2-) .
  then have "al_album_id a = al_album_id b" using assms(1) ab(1,3) unfolding one_title_def by blast
  then show "al_album_id x = al_album_id y" unfolding ab(2,4) assms(2) .
qed

lemma mergeable_artists:
  assumes "mergeable lower G s" and "\<And>r. ar_artist_id (f r) = ar_artist_id r" "\<And>r. ar_mbid (f r) = ar_mbid r"
  shows "mergeable lower G (s\<lparr>ct_artists := update_where P f (ct_artists s)\<rparr>)"
proof -
  have "map ar_artist_id (update_where P f (ct_artists s)) = map ar_artist_id (ct_artists s)"
    using assms(2) by (rule map_update_where)
  then have "ar_artist_id ` set (update_where P f (ct_artists s)) = ar_artist_id ` set (ct_artists s)" by (metis set_map)
  moreover have "constraints_ok (s\<lparr>ct_artists := update_where P f (ct_artists s)\<rparr>)"
    using update_artists_keep [OF assms(2,3)] assms(1) by (simp add: mergeable_def)
  ultimately show ?thesis by (intro mergeable_cong [OF assms(1)]) simp_all
qed

lemma mergeable_tracks:
  assumes "mergeable lower G s" and "constraints_ok (s\<lparr>ct_tracks := t\<rparr>)"
  shows "mergeable lower G (s\<lparr>ct_tracks := t\<rparr>)"
  by (rule mergeable_cong [OF assms]) simp_all

lemma mergeable_credits:
  assumes "mergeable lower G s" and "constraints_ok (set_credits ct t s)"
  shows "mergeable lower G (set_credits ct t s)"
  by (rule mergeable_cong [OF assms]) (cases ct; simp add: set_credits_def)+

lemma mergeable_stamps: "mergeable lower G s \<Longrightarrow> mergeable lower G (stamp_credit_parents i seq s)"
proof -
  assume ok: "mergeable lower G s"
  have "constraints_ok (stamp_credit_parents i seq s)"
    unfolding stamp_credit_parents_def by (rule update_rows_keep) (use ok in \<open>simp_all add: mergeable_def\<close>)
  moreover have "one_title lower I (stamp_credit_parents i seq s)" if "one_title lower I s" for I
    unfolding stamp_credit_parents_def update_where_def by (rule one_title_map [OF that]) simp_all
  ultimately show ?thesis using ok by (simp add: mergeable_def) (simp add: stamp_credit_parents_def)
qed

lemma mergeable_track_stamps: "mergeable lower G s \<Longrightarrow> mergeable lower G (stamp_track_parents i seq s)"
proof -
  assume ok: "mergeable lower G s"
  then have c: "constraints_ok s" by (simp add: mergeable_def)
  show ?thesis
    unfolding stamp_track_parents_def
    by (rule mergeable_tracks [OF ok], rule update_tracks_keep [OF _ _ _ _ _ c]) simp_all
qed

lemma one_title_move:
  assumes "one_title lower I s" and "i \<in> I \<longleftrightarrow> c \<in> I"
  shows "one_title lower I (move_albums i c seq s)"
  unfolding move_albums_def update_where_def
proof (rule one_title_map [OF assms(1)])
  fix a :: album_row
  let ?f = "if al_artist_id a = i then a\<lparr>al_artist_id := c, al_change_seq := seq\<rparr> else a"
  show "al_album_id ?f = al_album_id a" "al_release_id ?f = al_release_id a" "al_title ?f = al_title a"
    "al_artist_id ?f \<in> I \<longleftrightarrow> al_artist_id a \<in> I"
    using assms(2) by (cases "al_artist_id a = i"; simp)+
qed

lemma mergeable_moved:
  assumes ok: "mergeable lower G s" and "folds lower" and G: "groups_disjoint G" and g: "g \<in> G" "i \<in> set (group_ids g)"
    and f: "\<And>a. al_album_id (f a) = al_album_id a" "\<And>a. al_release_id (f a) = al_release_id a"
      "\<And>a. al_title (f a) = al_title a" "\<And>a. al_missing (f a) = al_missing a"
    and moved: "\<And>a. al_artist_id a = i \<Longrightarrow> al_artist_id (f a) = mg_canonicalID g" "\<And>a. al_artist_id a \<noteq> i \<Longrightarrow> f a = a"
  shows "mergeable lower G (s\<lparr>ct_albums := map f (ct_albums s)\<rparr>)"
proof -
  let ?c = "mg_canonicalID g" and ?s = "s\<lparr>ct_albums := map f (ct_albums s)\<rparr>"
  have c: "?c \<in> set (group_ids g)" by (simp add: group_ids_def)
  have titles: "one_title lower (set (group_ids h)) ?s" if "h \<in> G" for h
  proof (rule one_title_map [OF _ f(1-3)])
    show "one_title lower (set (group_ids h)) s" using ok that by (simp add: mergeable_def)
    have "i \<in> set (group_ids h) \<longleftrightarrow> ?c \<in> set (group_ids h)" using G g that c unfolding groups_disjoint_def by blast
    then show "al_artist_id (f a) \<in> set (group_ids h) \<longleftrightarrow> al_artist_id a \<in> set (group_ids h)" for a
      using moved by (cases "al_artist_id a = i") simp_all
  qed
  have keys: "map al_album_id (map f (ct_albums s)) = map al_album_id (ct_albums s)"
    "map al_release_id (map f (ct_albums s)) = map al_release_id (ct_albums s)" by (simp_all add: f)
  have ok': "constraints_ok s" using ok by (simp add: mergeable_def)
  then have "unique_key al_album_id (ct_albums s)" by (simp add: constraints_ok_def)
  then have u: "unique_key al_album_id (map f (ct_albums s))" unfolding unique_key_def keys(1) .
  have "distinct (untagged_identity (map f (ct_albums s)))"
    unfolding untagged_identity_distinct [OF u]
  proof (intro ballI impI)
    fix x y assume x: "x \<in> set (map f (ct_albums s))" and y: "y \<in> set (map f (ct_albums s))"
      and same: "al_release_id x = None \<and> \<not> al_missing x \<and> al_release_id y = None \<and> \<not> al_missing y \<and>
        al_artist_id x = al_artist_id y \<and> to_lower (al_title x) = to_lower (al_title y)"
    show "al_album_id x = al_album_id y"
    proof (cases "al_artist_id x = ?c")
      case True
      then have "al_artist_id x \<in> set (group_ids g)" "al_artist_id y \<in> set (group_ids g)" using c same by simp_all
      moreover have "artistEvidenceKey lower (al_title x) = artistEvidenceKey lower (al_title y)"
        using key_folds [OF assms(2)] same by blast
      moreover have "x \<in> set (ct_albums ?s)" "y \<in> set (ct_albums ?s)" using x y by simp_all
      ultimately show ?thesis using titles [OF g(1)] same unfolding one_title_def by blast
    next
      case False
      have kept: "z \<in> set (ct_albums s)" if z: "z \<in> set (map f (ct_albums s))" "al_artist_id z \<noteq> ?c" for z
      proof -
        obtain a where a: "a \<in> set (ct_albums s)" "z = f a" using z(1) by auto
        then show ?thesis using z(2) moved by (cases "al_artist_id a = i") simp_all
      qed
      have "distinct (untagged_identity (ct_albums s))" using ok' by (simp add: constraints_ok_def)
      moreover have "x \<in> set (ct_albums s)" "y \<in> set (ct_albums s)" using kept x y same False by auto
      ultimately show ?thesis using same unfolding untagged_identity_distinct [OF \<open>unique_key al_album_id (ct_albums s)\<close>] by blast
    qed
  qed
  moreover have "al_artist_id x \<in> ar_artist_id ` set (ct_artists s)" if x: "x \<in> set (map f (ct_albums s))" for x
  proof -
    obtain a where a: "a \<in> set (ct_albums s)" "x = f a" using x by auto
    have "al_artist_id a \<in> ar_artist_id ` set (ct_artists s)" "?c \<in> ar_artist_id ` set (ct_artists s)"
      using ok ok' g(1) a(1) by (simp_all add: mergeable_def constraints_ok_def list_all_iff)
    then show ?thesis using a(2) moved by (cases "al_artist_id a = i") simp_all
  qed
  moreover have "al_album_id ` set (map f (ct_albums s)) = al_album_id ` set (ct_albums s)" using keys(1) by (metis set_map)
  ultimately have "constraints_ok ?s"
    using ok' u keys(2) by (simp add: constraints_ok_def unique_some_def list_all_iff del: map_map set_map)
  then show ?thesis using titles ok unfolding mergeable_def by simp
qed

lemma mergeable_move:
  assumes "mergeable lower G s" and "folds lower" and "groups_disjoint G" and "g \<in> G" and "i \<in> set (group_ids g)"
  shows "mergeable lower G (move_albums i (mg_canonicalID g) seq s)"
  unfolding move_albums_def update_where_def by (rule mergeable_moved [OF assms]) simp_all

lemma mergeable_move_credits:
  assumes ok: "mergeable lower G s" and g: "g \<in> G"
  shows "mergeable lower G (move_credits ct i (mg_canonicalID g) s)"
proof -
  let ?f = "\<lambda>c. c\<lparr>cr_artist_id := mg_canonicalID g\<rparr>" and ?P = "\<lambda>c. cr_artist_id c = i"
  have keys: "map (\<lambda>c. (cr_owner c, cr_position c)) (update_where ?P ?f t) = map (\<lambda>c. (cr_owner c, cr_position c)) t" for t
    by (rule map_update_where) simp
  have ok': "constraints_ok s" "mg_canonicalID g \<in> ar_artist_id ` set (ct_artists s)" using ok g by (simp_all add: mergeable_def)
  have rows: "list_all (\<lambda>c. cr_owner c \<in> X \<and> cr_artist_id c \<in> ar_artist_id ` set (ct_artists s)) (update_where ?P ?f t)"
    if "list_all (\<lambda>c. cr_owner c \<in> X \<and> cr_artist_id c \<in> ar_artist_id ` set (ct_artists s)) t" for X t
    using that by (induction t) (simp_all add: ok'(2))
  have "constraints_ok (move_credits ct i (mg_canonicalID g) s)"
    using ok'(1) rows [of "al_album_id ` set (ct_albums s)" "ct_album_credits s"]
      rows [of "tk_track_id ` set (ct_tracks s)" "ct_track_credits s"]
    unfolding move_credits_def constraints_ok_def unique_key_def
    by (cases ct) (simp_all add: set_credits_def credits_of_def keys)
  then show ?thesis unfolding move_credits_def by (rule mergeable_credits [OF ok])
qed

lemma mergeable_move_tracks:
  assumes ok: "mergeable lower G s" and g: "g \<in> G"
  shows "mergeable lower G (move_tracks i (mg_canonicalID g) name seq s)"
  unfolding move_tracks_def
proof (rule mergeable_tracks [OF ok])
  let ?f = "\<lambda>t. t\<lparr>tk_artist_id := mg_canonicalID g, tk_artist_name := name, tk_change_seq := seq\<rparr>"
  let ?t = "update_where (\<lambda>t. tk_artist_id t = i) ?f (ct_tracks s)"
  have keys: "map tk_track_id ?t = map tk_track_id (ct_tracks s)"
    "map (\<lambda>t. (tk_source_kind t, tk_native_id t)) ?t = map (\<lambda>t. (tk_source_kind t, tk_native_id t)) (ct_tracks s)"
    by (rule map_update_where, simp)+
  have ids: "tk_track_id ` set ?t = tk_track_id ` set (ct_tracks s)" using keys(1) by (metis set_map)
  have ok': "constraints_ok s" "mg_canonicalID g \<in> ar_artist_id ` set (ct_artists s)" using ok g by (simp_all add: mergeable_def)
  have "list_all (\<lambda>t. tk_album_id t \<in> A \<and> tk_artist_id t \<in> ar_artist_id ` set (ct_artists s)) (update_where (\<lambda>t. tk_artist_id t = i) ?f t)"
    if "list_all (\<lambda>t. tk_album_id t \<in> A \<and> tk_artist_id t \<in> ar_artist_id ` set (ct_artists s)) t" for A t
    using that by (induction t) (simp_all add: ok'(2))
  from this [of "al_album_id ` set (ct_albums s)" "ct_tracks s"]
  show "constraints_ok (s\<lparr>ct_tracks := ?t\<rparr>)"
    using ok'(1) unfolding constraints_ok_def unique_key_def by (simp add: keys ids)
qed

lemma mergeable_artist_rows:
  assumes "mergeable lower G s"
  shows "mergeable lower G (lend_art c art s)" "mergeable lower G (retire_artist i seq s)"
    "mergeable lower G (settle_artist c seq s)"
  unfolding lend_art_def retire_artist_def settle_artist_def by (rule mergeable_artists [OF assms]; simp)+

lemma mergeable_aliases: "mergeable lower G s \<Longrightarrow> mergeable lower G (s\<lparr>ct_aliases := t\<rparr>)"
  by (rule mergeable_cong) (simp_all add: mergeable_def constraints_ok_def)

lemmas mergeable_rules = mergeable_stamps mergeable_track_stamps mergeable_move mergeable_move_credits mergeable_move_tracks
  mergeable_artist_rows mergeable_aliases

section \<open>Nothing is left to a merged artist\<close>

text \<open>What has left the artist already, after the first \<open>n\<close> moves.\<close>

definition drained :: "nat \<Rightarrow> string \<Rightarrow> catalog \<Rightarrow> bool" where
  "drained n i s \<longleftrightarrow>
     (1 \<le> n \<longrightarrow> (\<forall>a \<in> set (ct_albums s). al_artist_id a \<noteq> i)) \<and>
     (2 \<le> n \<longrightarrow> (\<forall>c \<in> set (ct_album_credits s). cr_artist_id c \<noteq> i)) \<and>
     (3 \<le> n \<longrightarrow> (\<forall>t \<in> set (ct_tracks s). tk_artist_id t \<noteq> i)) \<and>
     (4 \<le> n \<longrightarrow> (\<forall>c \<in> set (ct_track_credits s). cr_artist_id c \<noteq> i)) \<and>
     (5 \<le> n \<longrightarrow> (\<forall>r \<in> set (ct_artists s). ar_artist_id r = i \<longrightarrow> ar_missing r))"

lemma update_where_all:
  "(\<forall>x \<in> set t. Q x) \<Longrightarrow> (\<And>x. Q x \<Longrightarrow> P x \<Longrightarrow> Q (f x)) \<Longrightarrow> \<forall>x \<in> set (update_where P f t). Q x"
  by (auto simp: set_update_where)

lemma update_where_rid:
  "(\<And>x. P x \<Longrightarrow> Q (f x)) \<Longrightarrow> (\<And>x. \<not> P x \<Longrightarrow> Q x) \<Longrightarrow> \<forall>x \<in> set (update_where P f t). Q x"
  by (auto simp: set_update_where)

lemma drained_stamps:
  "drained n i s \<Longrightarrow> drained n i (stamp_credit_parents j seq s)"
  "drained n i s \<Longrightarrow> drained n i (stamp_track_parents j seq s)"
  "drained n i s \<Longrightarrow> drained n i (s\<lparr>ct_aliases := t\<rparr>)"
  unfolding drained_def stamp_credit_parents_def stamp_track_parents_def
  by (auto simp: set_update_where)

lemma drained_moves:
  assumes "c \<noteq> i" and "drained n i s"
  shows "drained n i (move_albums j c seq s)" "drained n i (move_credits ct j c s)" "drained n i (move_tracks j c name seq s)"
proof -
  show "drained n i (move_albums j c seq s)"
    using assms unfolding drained_def move_albums_def by (auto simp: set_update_where)
  show "drained n i (move_credits ct j c s)"
    using assms unfolding drained_def move_credits_def
    by (cases ct) (auto simp: set_update_where set_credits_def credits_of_def)
  show "drained n i (move_tracks j c name seq s)"
    using assms unfolding drained_def move_tracks_def by (auto simp: set_update_where)
qed

lemma drained_artists:
  assumes "c \<noteq> i" and "drained n i s"
  shows "drained n i (lend_art c art s)" "drained n i (settle_artist c seq s)"
  using assms unfolding drained_def lend_art_def settle_artist_def
  by (auto simp: set_update_where)

lemma drained_retire: "drained n i s \<Longrightarrow> drained n i (retire_artist j seq s)"
  unfolding drained_def retire_artist_def by (auto simp: set_update_where)

lemma drained_next:
  assumes "c \<noteq> i"
  shows "drained 0 i s" "drained 1 i (move_albums i c seq s)"
    "drained 1 i s \<Longrightarrow> drained 2 i (move_credits CAlbum i c s)" "drained 2 i s \<Longrightarrow> drained 3 i (move_tracks i c name seq s)"
    "drained 3 i s \<Longrightarrow> drained 4 i (move_credits CTrack i c s)" "drained 4 i s \<Longrightarrow> drained 5 i (retire_artist i seq s)"
proof -
  have gone: "\<forall>x \<in> set (update_where (\<lambda>a. al_artist_id a = i) (\<lambda>a. a\<lparr>al_artist_id := c, al_change_seq := seq\<rparr>) t). al_artist_id x \<noteq> i"
    "\<forall>x \<in> set (update_where (\<lambda>x. cr_artist_id x = i) (\<lambda>x. x\<lparr>cr_artist_id := c\<rparr>) u). cr_artist_id x \<noteq> i"
    "\<forall>x \<in> set (update_where (\<lambda>a. tk_artist_id a = i) (\<lambda>t. t\<lparr>tk_artist_id := c, tk_artist_name := name, tk_change_seq := seq\<rparr>) w). tk_artist_id x \<noteq> i"
    "\<forall>x \<in> set (update_where (\<lambda>a. ar_artist_id a = i) (\<lambda>a. a\<lparr>ar_missing := True, ar_change_seq := seq\<rparr>) r). ar_artist_id x = i \<longrightarrow> ar_missing x"
    for t u w r
    by (rule update_where_rid; use assms in simp)+
  show "drained 0 i s" by (simp add: drained_def)
  show "drained 1 i (move_albums i c seq s)" unfolding drained_def move_albums_def using gone(1) by simp
  show "drained 1 i s \<Longrightarrow> drained 2 i (move_credits CAlbum i c s)"
    unfolding drained_def move_credits_def using gone(2) by (simp add: set_credits_def credits_of_def)
  show "drained 2 i s \<Longrightarrow> drained 3 i (move_tracks i c name seq s)"
    unfolding drained_def move_tracks_def using gone(3) by simp
  show "drained 3 i s \<Longrightarrow> drained 4 i (move_credits CTrack i c s)"
    unfolding drained_def move_credits_def using gone(2) by (simp add: set_credits_def credits_of_def)
  show "drained 4 i s \<Longrightarrow> drained 5 i (retire_artist i seq s)"
    unfolding drained_def retire_artist_def using gone(4) by simp
qed

section \<open>What clients are told of a merge\<close>

text \<open>Until it is settled the canonical artist may look different without its stamp.\<close>

definition delta_but :: "string \<Rightarrow> int \<Rightarrow> catalog \<Rightarrow> catalog \<Rightarrow> bool" where
  "delta_but c v s0 s \<longleftrightarrow>
     stamped_since v ar_artist_id artist_view (\<lambda>r. if ar_artist_id r = c then v + 1 else ar_change_seq r) (ct_artists s0) (ct_artists s) \<and>
     stamped_since v al_album_id album_view al_change_seq (ct_albums s0) (ct_albums s) \<and>
     stamped_since v tk_track_id track_shown tk_change_seq (ct_tracks s0) (ct_tracks s)"

lemma delta_but_start: "delta_ok v s0 s \<Longrightarrow> delta_but c v s0 s"
  unfolding delta_ok_def delta_but_def stamped_since_def by auto

lemma delta_but_settle: "v < seq \<Longrightarrow> delta_but c v s0 s \<Longrightarrow> delta_ok v s0 (settle_artist c seq s)"
proof -
  assume v: "v < seq" and d: "delta_but c v s0 s"
  let ?f = "\<lambda>a. a\<lparr>ar_missing := artist_gone s a, ar_change_seq := seq\<rparr>"
  have "stamped_since v ar_artist_id artist_view ar_change_seq (ct_artists s0)
      (update_where (\<lambda>a. ar_artist_id a = c) ?f (ct_artists s))"
    unfolding stamped_since_def
  proof (intro conjI ballI impI)
    have "ar_artist_id ` set (update_where (\<lambda>a. ar_artist_id a = c) ?f (ct_artists s)) = ar_artist_id ` set (ct_artists s)"
      unfolding set_map [symmetric] by (subst map_update_where) simp_all
    then show "ar_artist_id ` set (ct_artists s0) \<subseteq> ar_artist_id ` set (update_where (\<lambda>a. ar_artist_id a = c) ?f (ct_artists s))"
      using d by (simp add: delta_but_def stamped_since_def)
  next
    fix r assume r: "r \<in> set (update_where (\<lambda>a. ar_artist_id a = c) ?f (ct_artists s))" "ar_change_seq r \<le> v"
    then obtain a where a: "a \<in> set (ct_artists s)" "r = (if ar_artist_id a = c then ?f a else a)"
      by (auto simp: set_update_where)
    then have "ar_artist_id a \<noteq> c" "r = a" using r(2) v by (auto split: if_splits)
    then show "\<exists>r0 \<in> set (ct_artists s0). ar_artist_id r0 = ar_artist_id r \<and> artist_view r0 = artist_view r"
      using d a(1) r(2) unfolding delta_but_def stamped_since_def by auto
  qed
  then show ?thesis using d unfolding delta_but_def delta_ok_def settle_artist_def by simp
qed

lemma stamped_since_update_where:
  assumes "stamped_since v key view stamp t0 t"
    and "\<And>r. P r \<Longrightarrow> key (f r) = key r \<and> (v < stamp (f r) \<or> view (f r) = view r \<and> stamp (f r) = stamp r)"
  shows "stamped_since v key view stamp t0 (update_where P f t)"
  unfolding update_where_def using assms(2) by (intro stamped_since_map [OF assms(1)]) auto

lemma delta_but_artists:
  assumes "delta_but c v s0 s"
    and "\<And>r. P r \<Longrightarrow> ar_artist_id (f r) = ar_artist_id r \<and> (ar_artist_id r = c \<or> v < ar_change_seq (f r))"
  shows "delta_but c v s0 (s\<lparr>ct_artists := update_where P f (ct_artists s)\<rparr>)"
proof -
  have "stamped_since v ar_artist_id artist_view (\<lambda>r. if ar_artist_id r = c then v + 1 else ar_change_seq r) (ct_artists s0)
      (update_where P f (ct_artists s))"
  proof (rule stamped_since_update_where)
    show "stamped_since v ar_artist_id artist_view (\<lambda>r. if ar_artist_id r = c then v + 1 else ar_change_seq r) (ct_artists s0) (ct_artists s)"
      using assms(1) by (simp add: delta_but_def)
    show "ar_artist_id (f r) = ar_artist_id r \<and> (v < (if ar_artist_id (f r) = c then v + 1 else ar_change_seq (f r)) \<or>
        artist_view (f r) = artist_view r \<and> (if ar_artist_id (f r) = c then v + 1 else ar_change_seq (f r)) =
          (if ar_artist_id r = c then v + 1 else ar_change_seq r))" if "P r" for r
      using assms(2) [OF that] by auto
  qed
  then show ?thesis using assms(1) by (simp add: delta_but_def)
qed

lemma delta_but_moves:
  assumes "v < seq" and "delta_but c v s0 s"
  shows "delta_but c v s0 (stamp_credit_parents i seq s)" "delta_but c v s0 (stamp_track_parents i seq s)"
    "delta_but c v s0 (move_albums i c' seq s)" "delta_but c v s0 (move_tracks i c' name seq s)"
    "delta_but c v s0 (retire_artist i seq s)" "delta_but c v s0 (move_credits ct i c' s)"
    "delta_but c v s0 (s\<lparr>ct_aliases := t\<rparr>)" "delta_but c v s0 (lend_art c art s)"
proof -
  show "delta_but c v s0 (retire_artist i seq s)" "delta_but c v s0 (lend_art c art s)"
    unfolding retire_artist_def lend_art_def by (rule delta_but_artists [OF assms(2)]; use assms(1) in simp)+
qed (use assms in \<open>auto simp: delta_but_def stamp_credit_parents_def stamp_track_parents_def move_albums_def
    move_tracks_def move_credits_def set_credits_def intro!: stamped_since_update split: credit_table.split\<close>)

section \<open>Merging succeeds\<close>

text \<open>From \<open>P\<close> the operation returns, without an error, in \<open>Q\<close>.\<close>

definition achieves :: "('s \<Rightarrow> bool) \<Rightarrow> ('s \<Rightarrow> 's \<times> ('e + 'a)) \<Rightarrow> ('a \<Rightarrow> 's \<Rightarrow> bool) \<Rightarrow> bool" where
  "achieves P f Q \<longleftrightarrow> (\<forall>d. P d \<longrightarrow> (\<exists>d' x. f d = (d', Inr x) \<and> Q x d'))"

lemma achieves_bind: "achieves P f Q \<Longrightarrow> (\<And>x. achieves (Q x) (g x) R) \<Longrightarrow> achieves P (bindE f g) R"
  unfolding achieves_def bindE_def by fastforce

lemma achieves_return: "(\<And>d. P d \<Longrightarrow> Q x d) \<Longrightarrow> achieves P (returnE x) Q"
  by (simp add: achieves_def returnE_def)

lemma achieves_weaken: "achieves P f Q \<Longrightarrow> (\<And>x d. Q x d \<Longrightarrow> R x d) \<Longrightarrow> achieves P f R"
  unfolding achieves_def by blast

text \<open>The rest of the state stays as it was in \<open>d0\<close>.\<close>

definition holds :: "artist_db \<Rightarrow> (catalog \<Rightarrow> bool) \<Rightarrow> artist_db \<Rightarrow> bool" where
  "holds d0 P d \<longleftrightarrow> d = d0\<lparr>ai_cat := ai_cat d\<rparr> \<and> P (ai_cat d)"

lemma achieves_holds: "achieves (holds d0 P) f Q \<Longrightarrow> (\<And>s. P' s \<Longrightarrow> P s) \<Longrightarrow> achieves (holds d0 P') f Q"
  unfolding achieves_def holds_def by simp

lemma achieves_stmt:
  "(\<And>s. P s \<Longrightarrow> constraints_ok (f s) \<and> Q (f s)) \<Longrightarrow> achieves (holds d0 P) (stmt f) (\<lambda>_. holds d0 Q)"
  unfolding achieves_def holds_def on_cat_def exec_def by (auto intro: exI) (metis artist_db.surjective artist_db.update_convs(1))+

lemma achieves_alias:
  assumes "\<And>s t. P s \<Longrightarrow> P (s\<lparr>ct_aliases := t\<rparr>)"
  shows "achieves (holds d0 P) (insertArtistAliasTx i x) (\<lambda>_. holds d0 P)"
proof -
  have "P (insert_alias i n s)" if "P s" for n s
    using assms [OF that, of "ct_aliases s"] assms [OF that] that by (simp add: insert_alias_def)
  then show ?thesis unfolding achieves_def holds_def insertArtistAliasTx_def Let_def
    by (auto) (metis artist_db.surjective artist_db.update_convs(1))+
qed

lemma achieves_keep_aliases:
  assumes "\<And>s t. P s \<Longrightarrow> P (s\<lparr>ct_aliases := t\<rparr>)"
  shows "achieves (holds d0 P) (keep_aliases i name xs) (\<lambda>_. holds d0 P)"
proof (induction xs)
  case (Cons x xs)
  show ?case
  proof (cases "trim_space x = name")
    case False
    then show ?thesis using achieves_bind [OF achieves_alias [where P = P, OF assms] Cons] by simp
  qed (use Cons in simp)
qed (simp add: achieves_return)

definition in_merge ::
  "(string \<Rightarrow> string) \<Rightarrow> artistMergeGroup set \<Rightarrow> int \<Rightarrow> catalog \<Rightarrow> int option \<Rightarrow> string \<Rightarrow> string set \<Rightarrow> catalog \<Rightarrow> bool" where
  "in_merge lower G v s0 q c D s \<longleftrightarrow> mergeable lower G s \<and> delta_but c v s0 s \<and> ct_scan_seq s = q \<and> (\<forall>j \<in> D. drained 5 j s)"

lemma seq_moves:
  "ct_scan_seq (stamp_credit_parents i seq s) = ct_scan_seq s" "ct_scan_seq (stamp_track_parents i seq s) = ct_scan_seq s"
  "ct_scan_seq (move_albums i c seq s) = ct_scan_seq s" "ct_scan_seq (move_credits ct i c s) = ct_scan_seq s"
  "ct_scan_seq (move_tracks i c name seq s) = ct_scan_seq s" "ct_scan_seq (lend_art c art s) = ct_scan_seq s"
  "ct_scan_seq (retire_artist i seq s) = ct_scan_seq s" "ct_scan_seq (settle_artist c seq s) = ct_scan_seq s"
  by (simp_all add: stamp_credit_parents_def stamp_track_parents_def move_albums_def move_credits_def move_tracks_def
      lend_art_def retire_artist_def settle_artist_def set_credits_def split: credit_table.split)

lemma in_merge_statements:
  assumes "in_merge lower G v s0 q c D s" and "v < seq" and "folds lower" and "groups_disjoint G" and "g \<in> G"
    and "c = mg_canonicalID g" and "i \<in> set (group_ids g)" and "c \<notin> D"
  shows "in_merge lower G v s0 q c D (stamp_credit_parents i seq s)" "in_merge lower G v s0 q c D (stamp_track_parents i seq s)"
    "in_merge lower G v s0 q c D (move_albums i c seq s)" "in_merge lower G v s0 q c D (move_credits ct i c s)"
    "in_merge lower G v s0 q c D (move_tracks i c name seq s)" "in_merge lower G v s0 q c D (lend_art c art s)"
    "in_merge lower G v s0 q c D (retire_artist i seq s)" "in_merge lower G v s0 q c D (s\<lparr>ct_aliases := t\<rparr>)"
proof -
  have m: "mergeable lower G s" and d: "delta_but c v s0 s" and q: "ct_scan_seq s = q"
    and D: "\<And>j. j \<in> D \<Longrightarrow> drained 5 j s \<and> c \<noteq> j"
    using assms(1,8) by (auto simp: in_merge_def)
  note rules = in_merge_def mergeable_rules(1,2,6-9) [OF m] mergeable_move_credits [OF m assms(5), folded assms(6)]
    mergeable_move_tracks [OF m assms(5), folded assms(6)] mergeable_move [OF m assms(3-5,7), folded assms(6)]
    delta_but_moves [OF assms(2) d] seq_moves q drained_stamps drained_moves drained_artists drained_retire D
  show "in_merge lower G v s0 q c D (stamp_credit_parents i seq s)" "in_merge lower G v s0 q c D (stamp_track_parents i seq s)"
    "in_merge lower G v s0 q c D (move_albums i c seq s)" "in_merge lower G v s0 q c D (move_credits ct i c s)"
    "in_merge lower G v s0 q c D (move_tracks i c name seq s)" "in_merge lower G v s0 q c D (lend_art c art s)"
    "in_merge lower G v s0 q c D (retire_artist i seq s)" "in_merge lower G v s0 q c D (s\<lparr>ct_aliases := t\<rparr>)"
    by (simp add: rules)+
qed

lemma merge_source_achieves:
  assumes "v < seq" and "folds lower" and "groups_disjoint G" and "g \<in> G" and "da_id x \<in> set (group_ids g)"
    and D: "mg_canonicalID g \<notin> insert (da_id x) D"
  shows "achieves (holds d0 (in_merge lower G v s0 q (mg_canonicalID g) D)) (merge_source g seq x art)
    (\<lambda>_. holds d0 (in_merge lower G v s0 q (mg_canonicalID g) (insert (da_id x) D)))"
proof -
  let ?c = "mg_canonicalID g" and ?i = "da_id x"
  let ?M = "in_merge lower G v s0 q ?c D"
  let ?P = "\<lambda>n s. ?M s \<and> drained n ?i s"
  have c: "?c \<noteq> ?i" "?c \<notin> D" using D by auto
  note keep = in_merge_statements [OF _ assms(1-4) refl assms(5) c(2)]
  have ok: "constraints_ok s" if "?M s" for s using that by (simp add: in_merge_def mergeable_def)
  have step: "achieves (holds d0 (?P n)) (stmt f) (\<lambda>_. holds d0 (?P k))"
    if "\<And>s. ?M s \<Longrightarrow> ?M (f s)" "\<And>s. drained n ?i s \<Longrightarrow> drained k ?i (f s)" for f n k
    using that ok by (intro achieves_stmt) blast
  have start: "achieves (holds d0 ?M) f Q" if "achieves (holds d0 (?P 0)) f Q" for f :: "artist_db \<Rightarrow> artist_db \<times> (identity_err + string option)" and Q
    by (rule achieves_holds [OF that]) (simp add: drained_next(1) [OF c(1)])
  have art: "achieves (holds d0 (?P 4)) (case (art, da_art x) of
      (None, Some a) \<Rightarrow> bindE (stmt (lend_art ?c a)) (\<lambda>_. returnE (Some a)) | _ \<Rightarrow> returnE art) (\<lambda>_. holds d0 (?P 4))"
    using achieves_bind [OF step [OF keep(6) drained_artists(1) [OF c(1)]] achieves_return]
    by (auto intro: achieves_return split: option.split)
  have aliases: "achieves (holds d0 (?P 4)) (\<lambda>d. keep_aliases ?c name (da_name x # artistAliasesTx ?i (ai_cat d)) d)
      (\<lambda>_. holds d0 (?P 4))" for name
    using achieves_keep_aliases [where P = "?P 4"] keep(8) drained_stamps(3) unfolding achieves_def by blast
  show ?thesis
    unfolding merge_source_def Let_def
  proof (rule start, rule achieves_bind [OF step [OF keep(1) drained_stamps(1)]]; assumption?)
    show "achieves (holds d0 (?P 0)) (bindE (stmt (stamp_track_parents ?i seq)) (\<lambda>_. bindE (stmt (move_albums ?i ?c seq)) (\<lambda>_.
        bindE (stmt (move_credits CAlbum ?i ?c)) (\<lambda>_. bindE (stmt (move_tracks ?i ?c (mg_canonicalName g) seq)) (\<lambda>_.
        bindE (stmt (move_credits CTrack ?i ?c)) (\<lambda>_.
        bindE (case (art, da_art x) of (None, Some a) \<Rightarrow> bindE (stmt (lend_art ?c a)) (\<lambda>_. returnE (Some a)) | _ \<Rightarrow> returnE art) (\<lambda>art'.
        bindE (\<lambda>d. keep_aliases ?c (mg_canonicalName g) (da_name x # artistAliasesTx ?i (ai_cat d)) d) (\<lambda>_.
        bindE (stmt (retire_artist ?i seq)) (\<lambda>_. returnE art')))))))))
      (\<lambda>_. holds d0 (in_merge lower G v s0 q ?c (insert ?i D)))"
      by (rule achieves_bind [OF step [OF keep(2) drained_stamps(2)]], assumption, assumption,
          rule achieves_bind [OF step [OF keep(3) drained_next(2) [OF c(1)]]], assumption,
          rule achieves_bind [OF step [OF keep(4) drained_next(3) [OF c(1)]]], assumption, assumption,
          rule achieves_bind [OF step [OF keep(5) drained_next(4) [OF c(1)]]], assumption, assumption,
          rule achieves_bind [OF step [OF keep(4) drained_next(5) [OF c(1)]]], assumption, assumption,
          rule achieves_bind [OF art], rule achieves_bind [OF aliases],
          rule achieves_bind [OF step [OF keep(7) drained_next(6) [OF c(1)]]], assumption, assumption,
          rule achieves_return) (auto simp: holds_def in_merge_def)
  qed
qed

lemma merge_sources_achieves:
  assumes "v < seq" and "folds lower" and "groups_disjoint G" and "g \<in> G"
  shows "set xs \<subseteq> set (mg_sources g) \<Longrightarrow> mg_canonicalID g \<notin> da_id ` set (mg_sources g) \<union> D \<Longrightarrow>
    achieves (holds d0 (in_merge lower G v s0 q (mg_canonicalID g) D)) (merge_sources g seq xs art)
      (\<lambda>_. holds d0 (in_merge lower G v s0 q (mg_canonicalID g) (da_id ` set xs \<union> D)))"
proof (induction xs arbitrary: art D)
  case (Cons x xs)
  have x: "da_id x \<in> set (group_ids g)" "mg_canonicalID g \<notin> insert (da_id x) D" using Cons.prems by (auto simp: group_ids_def)
  have rest: "achieves (holds d0 (in_merge lower G v s0 q (mg_canonicalID g) (insert (da_id x) D))) (merge_sources g seq xs art')
      (\<lambda>_. holds d0 (in_merge lower G v s0 q (mg_canonicalID g) (da_id ` set xs \<union> insert (da_id x) D)))" for art'
    using Cons by (intro Cons.IH) auto
  show ?case
    using achieves_bind [OF merge_source_achieves [OF assms x] rest] by simp
qed (simp add: achieves_return)

definition between_merges ::
  "(string \<Rightarrow> string) \<Rightarrow> artistMergeGroup set \<Rightarrow> int \<Rightarrow> catalog \<Rightarrow> int option \<Rightarrow> string set \<Rightarrow> catalog \<Rightarrow> bool" where
  "between_merges lower G v s0 q D s \<longleftrightarrow> mergeable lower G s \<and> delta_ok v s0 s \<and> ct_scan_seq s = q \<and> (\<forall>j \<in> D. drained 5 j s)"

abbreviation safe_groups :: "artistMergeGroup list \<Rightarrow> artistMergeGroup list" where
  "safe_groups gs \<equiv> filter (\<lambda>g. \<not> mg_collides g \<and> mg_sources g \<noteq> []) gs"

definition merged_ids :: "artistMergeGroup list \<Rightarrow> string set" where
  "merged_ids gs = (\<Union>g \<in> set (safe_groups gs). da_id ` set (mg_sources g))"

lemma consolidate_achieves:
  assumes "v < seq" and "folds lower" and "groups_disjoint G"
  shows "set (safe_groups gs) \<subseteq> G \<Longrightarrow> mg_canonicalID ` G \<inter> (merged_ids gs \<union> D) = {} \<Longrightarrow>
    achieves (holds d0 (between_merges lower G v s0 q D)) (consolidateArtistGroupsTx seq b gs)
      (\<lambda>x d. holds d0 (between_merges lower G v s0 q (merged_ids gs \<union> D)) d \<and> x = (b \<or> hasSafeArtistMergeGroup gs))"
proof (induction gs arbitrary: D b)
  case (Cons g gs)
  show ?case
  proof (cases "mg_collides g \<or> mg_sources g = []")
    case True
    then have "merged_ids (g # gs) = merged_ids gs" "hasSafeArtistMergeGroup (g # gs) = hasSafeArtistMergeGroup gs"
      by (auto simp: merged_ids_def hasSafeArtistMergeGroup_def)
    then show ?thesis using Cons True by auto
  next
    case False
    let ?c = "mg_canonicalID g" and ?ids = "da_id ` set (mg_sources g)"
    have ids: "merged_ids (g # gs) = ?ids \<union> merged_ids gs" using False by (auto simp: merged_ids_def)
    have g: "g \<in> G" "set (safe_groups gs) \<subseteq> G" using Cons.prems(1) False by auto
    have c: "?c \<notin> ?ids \<union> D" and apart: "mg_canonicalID ` G \<inter> (merged_ids gs \<union> (?ids \<union> D)) = {}"
      using Cons.prems(2) g(1) unfolding ids by blast+
    have enter: "achieves (holds d0 (between_merges lower G v s0 q D)) f Q"
      if "achieves (holds d0 (in_merge lower G v s0 q ?c D)) f Q" for f :: "artist_db \<Rightarrow> artist_db \<times> (identity_err + bool)" and Q
      by (rule achieves_holds [OF that]) (simp add: between_merges_def in_merge_def delta_but_start)
    have settle: "achieves (holds d0 (in_merge lower G v s0 q ?c (?ids \<union> D))) (stmt (settle_artist ?c seq))
        (\<lambda>_. holds d0 (between_merges lower G v s0 q (?ids \<union> D)))"
    proof (rule achieves_stmt)
      fix s assume s: "in_merge lower G v s0 q ?c (?ids \<union> D) s"
      then have "mergeable lower G (settle_artist ?c seq s)" by (auto simp: in_merge_def intro: mergeable_artist_rows)
      moreover have "drained 5 j (settle_artist ?c seq s)" if "j \<in> ?ids \<union> D" for j
        using s c that by (intro drained_artists) (auto simp: in_merge_def)
      ultimately show "constraints_ok (settle_artist ?c seq s) \<and> between_merges lower G v s0 q (?ids \<union> D) (settle_artist ?c seq s)"
        using s delta_but_settle [OF assms(1)] by (simp add: in_merge_def between_merges_def mergeable_def seq_moves)
    qed
    have rest: "achieves (holds d0 (between_merges lower G v s0 q (?ids \<union> D))) (consolidateArtistGroupsTx seq True gs)
        (\<lambda>x d. holds d0 (between_merges lower G v s0 q (merged_ids gs \<union> (?ids \<union> D))) d \<and> x = (True \<or> hasSafeArtistMergeGroup gs))"
      using Cons.IH [OF g(2) apart] .
    have "achieves (holds d0 (between_merges lower G v s0 q D)) (consolidateArtistGroupsTx seq b (g # gs))
        (\<lambda>x d. holds d0 (between_merges lower G v s0 q (merged_ids gs \<union> (?ids \<union> D))) d \<and> x = (True \<or> hasSafeArtistMergeGroup gs))"
      using False enter [OF achieves_bind [OF merge_sources_achieves [OF assms g(1) subset_refl c] achieves_bind [OF settle rest]]]
      by simp
    then show ?thesis
      by (rule achieves_weaken) (use False in \<open>auto simp: ids hasSafeArtistMergeGroup_def Un_ac\<close>)
  qed
qed (auto simp: achieves_def returnE_def merged_ids_def hasSafeArtistMergeGroup_def)

section \<open>Consolidation\<close>

lemma consolidation_start:
  assumes ok: "constraints_ok (ai_cat d)" and gs: "gs = artistMergeGroupsTx lower ord only d"
  shows "mergeable lower (set (safe_groups gs)) (ai_cat d)" and "groups_disjoint (set (safe_groups gs))"
    and "mg_canonicalID ` set (safe_groups gs) \<inter> merged_ids gs = {}"
proof -
  have mem: "g \<in> set (artistMergeGroupsTx lower ord only d)" if "g \<in> set (safe_groups gs)" for g using that gs by simp
  show "mergeable lower (set (safe_groups gs)) (ai_cat d)"
    unfolding mergeable_def
  proof (intro conjI ballI ok)
    fix g assume g: "g \<in> set (safe_groups gs)"
    show "mg_canonicalID g \<in> ar_artist_id ` set (ct_artists (ai_cat d))" using group_facts(1) [OF mem [OF g]] by force
    show "one_title lower (set (group_ids g)) (ai_cat d)" using group_facts(3) [OF mem [OF g]] g by simp
  qed
  show "groups_disjoint (set (safe_groups gs))"
    unfolding groups_disjoint_def using groups_apart [OF ok mem mem] by blast
  show "mg_canonicalID ` set (safe_groups gs) \<inter> merged_ids gs = {}"
    unfolding merged_ids_def using source_not_canonical [OF ok mem mem] by fastforce
qed

lemma mergeable_next_seq: "mergeable lower G s \<Longrightarrow> mergeable lower G (fst (NextScanSeq s))"
  by (rule mergeable_cong) (auto simp: NextScanSeq_def Let_def mergeable_def intro: NextScanSeq_keeps [unfolded NextScanSeq_def Let_def, simplified])

text \<open>What a consolidation of the planned groups comes to.\<close>

lemma followed_refl: "followed (version s) s s"
  by (simp add: followed_def delta_ok_refl)

lemma consolidation_result:
  assumes ok: "constraints_ok (ai_cat d)" and "folds lower" and ready: "readyArtistMergeGroupsTx lower ord d = Some (cur, gs)"
    and fol: "followed v s0 (ai_cat d)"
  shows "\<exists>d'. ConsolidateMusicBrainzArtistsAtNextSequence lower ord d = (d', Inr (hasSafeArtistMergeGroup gs)) \<and>
    constraints_ok (ai_cat d') \<and> followed v s0 (ai_cat d') \<and>
    (\<forall>i \<in> merged_ids gs. drained 5 i (ai_cat d')) \<and> ai_evaluated d' = Some (currentLibraryScanSeqTx d')"
proof -
  have gs: "gs = artistMergeGroupsTx lower ord '''' d" and cur: "cur = currentLibraryScanSeqTx d"
    using ready by (auto simp: readyArtistMergeGroupsTx_def split: if_splits)
  note start = consolidation_start [OF ok gs]
  show ?thesis
  proof (cases "hasSafeArtistMergeGroup gs")
    case False
    then have "merged_ids gs = {}" by (auto simp: merged_ids_def hasSafeArtistMergeGroup_def list_ex_iff)
    then show ?thesis
      using False ready ok cur fol
      by (simp add: ConsolidateMusicBrainzArtistsAtNextSequence_def in_tx_def bindE_def returnE_def
          setArtistConsolidationMarkerTx_def currentLibraryScanSeqTx_def)
  next
    case True
    obtain c seq where next_seq: "NextScanSeq (ai_cat d) = (c, seq)" by fastforce
    let ?d1 = "d\<lparr>ai_cat := c\<rparr>"
    have seq: "v < seq" "ct_scan_seq c = Some seq" "delta_ok v s0 c"
      using NextScanSeq_version [OF next_seq] NextScanSeq_keeps(2) [of v s0 "ai_cat d"] next_seq fol
      by (auto simp: NextScanSeq_def Let_def followed_def)
    have "holds ?d1 (between_merges lower (set (safe_groups gs)) v s0 (Some seq) {}) ?d1"
      using mergeable_next_seq [OF start(1)] next_seq seq by (simp add: holds_def between_merges_def)
    then obtain d' where d': "consolidateArtistGroupsTx seq False gs ?d1 = (d', Inr True)"
      and post: "holds ?d1 (between_merges lower (set (safe_groups gs)) v s0 (Some seq) (merged_ids gs)) d'"
      using consolidate_achieves [OF seq(1) assms(2) start(2) subset_refl, of "{}" ?d1 s0 "Some seq" False] start(3) True
      unfolding achieves_def by auto
    have "ConsolidateMusicBrainzArtistsAtNextSequence lower ord d = (d'\<lparr>ai_evaluated := Some seq\<rparr>, Inr True)"
      using ready True next_seq d'
      by (simp add: ConsolidateMusicBrainzArtistsAtNextSequence_def in_tx_def bindE_def returnE_def nextScanSeqTx_def
          setArtistConsolidationMarkerTx_def)
    then show ?thesis
      using True post seq(1) by (simp add: holds_def between_merges_def mergeable_def currentLibraryScanSeqTx_def followed_def version_def)
  qed
qed

text \<open>C9
  Merging duplicate artists into their canonical ones never fails on a constraint of the catalogue
  (nor leaves it half done), whatever order Go visits the evidence in: while metadata is pending, or
  when the sequence has been evaluated already, nothing changes; otherwise the artists of every group
  without an album collision own and are credited on nothing any more and are missing, and doing it
  again changes nothing.
\<close>

theorem consolidation_is_safe:
  assumes "constraints_ok (ai_cat d)" and "folds lower"
  shows "case ConsolidateMusicBrainzArtistsAtNextSequence lower ord d of
      (d', Inl e) \<Rightarrow> False
    | (d', Inr changed) \<Rightarrow> constraints_ok (ai_cat d') \<and>
        (case readyArtistMergeGroupsTx lower ord d of
           None \<Rightarrow> \<not> changed \<and> d' = d
         | Some (_, groups) \<Rightarrow> (changed \<longleftrightarrow> hasSafeArtistMergeGroup groups) \<and>
             (\<forall>i \<in> merged_ids groups. drained 5 i (ai_cat d'))) \<and>
        ConsolidateMusicBrainzArtistsAtNextSequence lower ord' d' = (d', Inr False)"
proof (cases "readyArtistMergeGroupsTx lower ord d")
  case None
  have "readyArtistMergeGroupsTx lower ord' d = None" using None by (simp add: readyArtistMergeGroupsTx_def split: if_splits)
  then show ?thesis using None assms(1) by (simp add: ConsolidateMusicBrainzArtistsAtNextSequence_def in_tx_def)
next
  case (Some p)
  then obtain cur gs where p: "readyArtistMergeGroupsTx lower ord d = Some (cur, gs)" by (cases p) auto
  obtain d' where d': "ConsolidateMusicBrainzArtistsAtNextSequence lower ord d = (d', Inr (hasSafeArtistMergeGroup gs))"
    "constraints_ok (ai_cat d')" "\<forall>i \<in> merged_ids gs. drained 5 i (ai_cat d')" "ai_evaluated d' = Some (currentLibraryScanSeqTx d')"
    using consolidation_result [OF assms p followed_refl] by blast
  have "readyArtistMergeGroupsTx lower ord' d' = None" using d'(4) by (simp add: readyArtistMergeGroupsTx_def)
  then have "ConsolidateMusicBrainzArtistsAtNextSequence lower ord' d' = (d', Inr False)"
    by (simp add: ConsolidateMusicBrainzArtistsAtNextSequence_def in_tx_def)
  then show ?thesis using p d' by simp
qed

section \<open>Stored metadata\<close>

lemma insertArtistAliasTx_result:
  "\<exists>t b. insertArtistAliasTx i x d = (d\<lparr>ai_cat := (ai_cat d)\<lparr>ct_aliases := t\<rparr>\<rparr>, Inr b)"
proof -
  have "\<exists>t. insert_alias i n s = s\<lparr>ct_aliases := t\<rparr>" for n s
    by (rule exI [of _ "ct_aliases (insert_alias i n s)"]) (simp add: insert_alias_def)
  then obtain t where t: "insert_alias i (trim_space x) (ai_cat d) = (ai_cat d)\<lparr>ct_aliases := t\<rparr>" by blast
  show ?thesis
  proof (cases "trim_space x = ''''")
    case True
    then show ?thesis
      by (intro exI [of _ "ct_aliases (ai_cat d)"] exI [of _ False]) (simp add: insertArtistAliasTx_def)
  qed (simp add: insertArtistAliasTx_def Let_def t exI)
qed

lemma store_aliases_result:
  "\<exists>t b. store_aliases i name changed xs d = (d\<lparr>ai_cat := (ai_cat d)\<lparr>ct_aliases := t\<rparr>\<rparr>, Inr b) \<and> (changed \<longrightarrow> b)"
proof (induction xs arbitrary: d changed)
  case Nil
  show ?case by (intro exI [of _ "ct_aliases (ai_cat d)"] exI [of _ changed]) (simp add: returnE_def)
next
  case (Cons x xs)
  show ?case
  proof (cases "x = name")
    case False
    obtain t b where t: "insertArtistAliasTx i x d = (d\<lparr>ai_cat := (ai_cat d)\<lparr>ct_aliases := t\<rparr>\<rparr>, Inr b)"
      using insertArtistAliasTx_result by blast
    obtain u b' where "store_aliases i name (changed \<or> b) xs (d\<lparr>ai_cat := (ai_cat d)\<lparr>ct_aliases := t\<rparr>\<rparr>) =
        (d\<lparr>ai_cat := (ai_cat d)\<lparr>ct_aliases := u\<rparr>\<rparr>, Inr b') \<and> (changed \<or> b \<longrightarrow> b')"
      using Cons.IH [of "changed \<or> b" "d\<lparr>ai_cat := (ai_cat d)\<lparr>ct_aliases := t\<rparr>\<rparr>"] by auto
    then show ?thesis using False t by (simp add: bindE_def exI)
  qed (use Cons.IH [of changed d] in simp)
qed

lemma insert_genres_result:
  "insert_genres i p gs d = (d', Inr ()) \<Longrightarrow> \<exists>t. d' = d\<lparr>ai_cat := (ai_cat d)\<lparr>ct_genres := t\<rparr>\<rparr>"
proof (induction gs arbitrary: p d)
  case Nil
  then show ?case by (intro exI [of _ "ct_genres (ai_cat d)"]) (simp add: returnE_def)
next
  case (Cons g gs)
  obtain d1 where d1: "insert_genre i p g d = (d1, Inr ())" "insert_genres i (p + 1) gs d1 = (d', Inr ())"
    using Cons.prems by (auto simp: bindE_Inr)
  then obtain t where "d1 = d\<lparr>ai_cat := (ai_cat d)\<lparr>ct_genres := t\<rparr>\<rparr>" by (auto simp: insert_genre_def split: if_splits)
  then show ?case using Cons.IH [OF d1(2)] by auto
qed

lemma replace_genres_result:
  assumes "replace_genres i gs d = (d', Inr b)"
  shows "\<exists>t. d' = d\<lparr>ai_cat := (ai_cat d)\<lparr>ct_genres := t\<rparr>\<rparr>"
proof (cases "stored_genres (ai_cat d) i = gs")
  case True
  then show ?thesis using assms by (intro exI [of _ "ct_genres (ai_cat d)"]) (simp add: replace_genres_def)
next
  case False
  then show ?thesis
    using assms insert_genres_result by (fastforce simp: replace_genres_def bindE_Inr returnE_def)
qed

lemma stmt_Inr: "stmt f d = (d', Inr ()) \<Longrightarrow> d' = d\<lparr>ai_cat := f (ai_cat d)\<rparr> \<and> constraints_ok (f (ai_cat d))"
  by (auto simp: on_cat_def exec_def split: if_splits)

lemma delta_rows_same:
  "delta_ok v s0 s \<Longrightarrow> ct_artists s' = ct_artists s \<Longrightarrow> ct_albums s' = ct_albums s \<Longrightarrow> ct_tracks s' = ct_tracks s \<Longrightarrow> delta_ok v s0 s'"
  by (simp add: delta_ok_def)

lemma stamp_albums_keeps:
  assumes "constraints_ok s" and "v < seq" and "delta_ok v s0 s"
  shows "constraints_ok (stamp_artist_albums i seq s)" "delta_ok v s0 (stamp_artist_albums i seq s)"
  using assms unfolding stamp_artist_albums_def delta_ok_def
  by (auto intro!: update_rows_keep stamped_since_update)

lemma rename_tracks_keeps:
  assumes "constraints_ok s" and "v < seq" and "delta_ok v s0 s"
  shows "constraints_ok (rename_artist_tracks i name seq s)" "delta_ok v s0 (rename_artist_tracks i name seq s)"
  using assms unfolding rename_artist_tracks_def delta_ok_def
  by (auto intro!: update_tracks_keep stamped_since_update simp: track_shown_def)

lemma name_artist_keeps:
  assumes "constraints_ok s" and "v < seq" and "delta_ok v s0 s"
    and "changed \<or> (\<forall>a \<in> set (ct_artists s). ar_artist_id a = i \<longrightarrow> ar_name a = name)"
  shows "delta_ok v s0 (name_artist i name changed seq s)"
proof -
  have "stamped_since v ar_artist_id artist_view ar_change_seq (ct_artists s0)
      (map (\<lambda>a. if ar_artist_id a = i then a\<lparr>ar_name := name, ar_change_seq := if changed then seq else ar_change_seq a\<rparr> else a)
        (ct_artists s))"
    using assms by (intro stamped_since_map) (auto simp: delta_ok_def artist_view_def)
  then show ?thesis using assms(3) by (simp add: delta_ok_def name_artist_def update_where_def)
qed

definition artist_key :: "artist_row \<Rightarrow> string \<times> string option" where
  "artist_key a = (ar_artist_id a, ar_mbid a)"

lemma store_metadata_result:
  assumes run: "store_metadata lower eqf i old name aliases genres seq now d = (d', Inr changed)"
    and ok: "constraints_ok (ai_cat d)" and "v < seq" and delta: "delta_ok v s0 (ai_cat d)"
    and row: "\<forall>a \<in> set (ct_artists (ai_cat d)). ar_artist_id a = i \<longrightarrow> ar_name a = old"
  shows "constraints_ok (ai_cat d')" "delta_ok v s0 (ai_cat d')" "ct_scan_seq (ai_cat d') = ct_scan_seq (ai_cat d)"
    "ai_aliases_at d' = (ai_aliases_at d)(i := now)" "ai_genres_at d' = (ai_genres_at d)(i := now)"
    "map artist_key (ct_artists (ai_cat d')) = map artist_key (ct_artists (ai_cat d))"
proof -
  obtain d1 c1 d2 c2 d3 d4 d5 u1 u2 u3 where
    d1: "store_aliases i name (old \<noteq> name) (uniqueArtistNames eqf (old # aliases)) d = (d1, Inr c1)" and
    d2: "replace_genres i (uniqueArtistGenres lower genres) d1 = (d2, Inr c2)" and
    d3: "(if old \<noteq> name then bindE (stmt (stamp_artist_albums i seq)) (\<lambda>_. stmt (rename_artist_tracks i name seq))
          else returnE ()) d2 = (d3, Inr u1)" and
    d4: "stmt (name_artist i name (c1 \<or> c2) seq) d3 = (d4, Inr u2)" and
    d5: "set_fetched i now d4 = (d5, Inr u3)" and ret: "returnE (c1 \<or> c2) d5 = (d', Inr changed :: identity_err + bool)"
    using run unfolding store_metadata_def bindE_Inr by blast
  have d': "set_fetched i now d4 = (d', Inr ())" using d5 ret by (simp add: returnE_def)
  obtain t where t: "d1 = d\<lparr>ai_cat := (ai_cat d)\<lparr>ct_aliases := t\<rparr>\<rparr>" "old \<noteq> name \<longrightarrow> c1"
    using store_aliases_result [of i name "old \<noteq> name" "uniqueArtistNames eqf (old # aliases)" d] d1 by auto
  obtain u where u: "d2 = d1\<lparr>ai_cat := (ai_cat d1)\<lparr>ct_genres := u\<rparr>\<rparr>" using replace_genres_result [OF d2] by blast
  let ?s2 = "ai_cat d2"
  have s2: "constraints_ok ?s2" "delta_ok v s0 ?s2" "ct_artists ?s2 = ct_artists (ai_cat d)" "ct_scan_seq ?s2 = ct_scan_seq (ai_cat d)"
    using ok delta by (simp_all add: u t(1) constraints_ok_def delta_ok_def)
  have s3: "constraints_ok (ai_cat d3) \<and> delta_ok v s0 (ai_cat d3) \<and> ct_artists (ai_cat d3) = ct_artists ?s2 \<and>
      ct_scan_seq (ai_cat d3) = ct_scan_seq ?s2 \<and> d3 = d2\<lparr>ai_cat := ai_cat d3\<rparr>"
  proof (cases "old \<noteq> name")
    case True
    then obtain e where e: "stmt (stamp_artist_albums i seq) d2 = (e, Inr ())" "stmt (rename_artist_tracks i name seq) e = (d3, Inr ())"
      using d3 by (auto simp: bindE_Inr)
    have "delta_ok v s0 (rename_artist_tracks i name seq (stamp_artist_albums i seq ?s2))"
      by (intro rename_tracks_keeps(2) stamp_albums_keeps [OF s2(1) assms(3) s2(2)] assms(3))
    then show ?thesis using stmt_Inr [OF e(1)] stmt_Inr [OF e(2)]
      by (simp add: stamp_artist_albums_def rename_artist_tracks_def)
  qed (use d3 s2 in \<open>simp add: returnE_def\<close>)
  have "(c1 \<or> c2) \<or> (\<forall>a \<in> set (ct_artists (ai_cat d3)). ar_artist_id a = i \<longrightarrow> ar_name a = name)"
    using row s3 s2(3) t(2) by auto
  then have delta4: "delta_ok v s0 (name_artist i name (c1 \<or> c2) seq (ai_cat d3))"
    using s3 by (intro name_artist_keeps assms(3)) simp_all
  note s4 = stmt_Inr [OF d4 [unfolded unit_eq [of u2]]]
  have same: "map artist_key (ct_artists (ai_cat d4)) = map artist_key (ct_artists (ai_cat d3))"
    using s4 by (simp add: name_artist_def map_update_where artist_key_def)
  show "constraints_ok (ai_cat d')" "delta_ok v s0 (ai_cat d')" "ct_scan_seq (ai_cat d') = ct_scan_seq (ai_cat d)"
    "map artist_key (ct_artists (ai_cat d')) = map artist_key (ct_artists (ai_cat d))"
    using d' s4 s3 s2 delta4 same by (auto simp: set_fetched_def name_artist_def)
  have "ai_aliases_at d4 = ai_aliases_at d3" "ai_genres_at d4 = ai_genres_at d3" using s4 by simp_all
  moreover have "ai_aliases_at d3 = ai_aliases_at d2" "ai_genres_at d3 = ai_genres_at d2"
    using s3 by (metis artist_db.select_convs(2,3) artist_db.surjective artist_db.update_convs(1))+
  ultimately show "ai_aliases_at d' = (ai_aliases_at d)(i := now)" "ai_genres_at d' = (ai_genres_at d)(i := now)"
    using d' by (auto simp: set_fetched_def u t(1))
qed

text \<open>Persisting succeeds only on the artist it is for.\<close>

lemma persist_Inr:
  assumes "persistMusicBrainzArtistMetadataTx lower eqf i mbid canonicalName aliases genres seq now d = (d', Inr changed)"
  obtains a where "select1 (\<lambda>a. ar_artist_id a = i) (ct_artists (ai_cat d)) = Some a" and "ar_mbid a = Some (trim_space mbid)"
    and "store_metadata lower eqf i (ar_name a) (trim_space canonicalName) aliases genres seq now d = (d', Inr changed)"
  using assms by (auto simp: persistMusicBrainzArtistMetadataTx_def Let_def split: if_splits option.splits)

lemma artist_row_name:
  assumes "constraints_ok s" and "select1 (\<lambda>a. ar_artist_id a = i) (ct_artists s) = Some a"
  shows "\<forall>r \<in> set (ct_artists s). ar_artist_id r = i \<longrightarrow> ar_name r = ar_name a"
  using select1_SomeD [OF assms(2)] artists_unique [OF assms(1)] by metis

lemma persist_keeps:
  assumes run: "persistMusicBrainzArtistMetadataTx lower eqf i mbid canonicalName aliases genres seq now d = (d', Inr changed)"
    and ok: "constraints_ok (ai_cat d)" and "v < seq" and delta: "delta_ok v s0 (ai_cat d)"
  shows "constraints_ok (ai_cat d')" "delta_ok v s0 (ai_cat d')" "ct_scan_seq (ai_cat d') = ct_scan_seq (ai_cat d)"
proof -
  obtain a where a: "select1 (\<lambda>a. ar_artist_id a = i) (ct_artists (ai_cat d)) = Some a"
    "store_metadata lower eqf i (ar_name a) (trim_space canonicalName) aliases genres seq now d = (d', Inr changed)"
    using persist_Inr [OF run] by blast
  note r = store_metadata_result [OF a(2) ok assms(3) delta artist_row_name [OF ok a(1)]]
  show "constraints_ok (ai_cat d')" "delta_ok v s0 (ai_cat d')" "ct_scan_seq (ai_cat d') = ct_scan_seq (ai_cat d)" by (rule r)+
qed

lemma persist_next_seq:
  assumes ok: "constraints_ok (ai_cat d)" and fol: "followed v s0 (ai_cat d)"
    and d': "d' = fst (PersistMusicBrainzArtistMetadataAtNextSequence lower eqf i mbid name aliases genres now d)"
  shows "constraints_ok (ai_cat d') \<and> followed v s0 (ai_cat d')"
proof -
  obtain c seq where step: "NextScanSeq (ai_cat d) = (c, seq)" by fastforce
  let ?d1 = "d\<lparr>ai_cat := c\<rparr>"
  have c: "constraints_ok c" "v < seq" "delta_ok v s0 c" "v \<le> version c"
    using NextScanSeq_version [OF step] NextScanSeq_keeps(1) [OF ok] NextScanSeq_keeps(2) [of v s0 "ai_cat d"] step fol
    by (auto simp: followed_def)
  obtain d2 r where run: "persistMusicBrainzArtistMetadataTx lower eqf i mbid name aliases genres seq now ?d1 = (d2, r)" by fastforce
  have "d' = (case r of Inl _ \<Rightarrow> d | Inr _ \<Rightarrow> d2)"
    using run step d'
    by (simp add: PersistMusicBrainzArtistMetadataAtNextSequence_def in_tx_def bindE_def nextScanSeqTx_def split: sum.split)
  then show ?thesis
    using persist_keeps [of lower eqf i mbid name aliases genres seq now ?d1 d2 _ v s0] run c ok fol
    by (cases r) (auto simp: followed_def version_def)
qed

text \<open>
  Identity reaches clients: after an artist's MusicBrainz metadata was stored (its name, aliases and
  genres, its albums and tracks under the new name), or duplicates were merged, a client with the
  catalogue of the version before follows the change feed and has the catalogue as it is then.
\<close>

lemma identity_reaches_clients:
  assumes "constraints_ok (ai_cat d)" and "folds lower"
    and "d' = fst (PersistMusicBrainzArtistMetadataAtNextSequence lower eqf artistID mbid name aliases genres now d) \<or>
      d' = fst (ConsolidateMusicBrainzArtistsAtNextSequence lower ord d)"
    and "0 < n" and "length (feed (ai_cat d')) < fuel"
  shows "sync (ai_cat d') (walk_pages (\<lambda>c. ChangesSince (ai_cat d') (version (ai_cat d)) c n) fuel None) (live (ai_cat d)) =
    live (ai_cat d')"
proof -
  have "constraints_ok (ai_cat d') \<and> followed (version (ai_cat d)) (ai_cat d) (ai_cat d')"
    using assms(3)
  proof
    assume d': "d' = fst (ConsolidateMusicBrainzArtistsAtNextSequence lower ord d)"
    show ?thesis
    proof (cases "readyArtistMergeGroupsTx lower ord d")
      case None
      then show ?thesis using d' assms(1) by (simp add: ConsolidateMusicBrainzArtistsAtNextSequence_def in_tx_def followed_refl)
    next
      case (Some p)
      then show ?thesis using consolidation_result [OF assms(1,2) _ followed_refl] d' by (cases p) fastforce
    qed
  qed (rule persist_next_seq [OF assms(1) followed_refl])
  then show ?thesis using sync_delta [OF assms(1) _ _ assms(4,5)] by (auto simp: followed_def)
qed

section \<open>The backfill comes to an end\<close>

definition key_pending :: "(string \<Rightarrow> seconds) \<Rightarrow> (string \<Rightarrow> seconds) \<Rightarrow> string \<times> string option \<Rightarrow> bool" where
  "key_pending aliases_at genres_at k \<longleftrightarrow> snd k \<noteq> None \<and> (aliases_at (fst k) = 0 \<or> genres_at (fst k) = 0)"

lemma CountPending_keys:
  "CountPendingMusicBrainzArtists d =
    length (filter (key_pending (ai_aliases_at d) (ai_genres_at d)) (map artist_key (ct_artists (ai_cat d))))"
proof -
  have "metadata_pending d = key_pending (ai_aliases_at d) (ai_genres_at d) \<circ> artist_key"
    by (auto simp: fun_eq_iff metadata_pending_def key_pending_def artist_key_def)
  then show ?thesis by (simp add: CountPendingMusicBrainzArtists_def count_where_def filter_map)
qed

lemma one_less_pending:
  assumes "distinct (map fst ks)" and "k \<in> set ks" and "key_pending a g k"
    and "a' (fst k) \<noteq> 0" "g' (fst k) \<noteq> 0" and "\<And>i. i \<noteq> fst k \<Longrightarrow> a' i = a i \<and> g' i = g i"
  shows "length (filter (key_pending a' g') ks) + 1 = length (filter (key_pending a g) ks)"
proof -
  obtain xs ys where ks: "ks = xs @ k # ys" using assms(2) by (meson split_list)
  have "key_pending a' g' x = key_pending a g x" if "x \<in> set xs \<union> set ys" for x
  proof -
    have "fst x \<noteq> fst k" using assms(1) that unfolding ks by (auto simp: image_iff)
    then show ?thesis using assms(6) by (simp add: key_pending_def)
  qed
  then have "filter (key_pending a' g') xs = filter (key_pending a g) xs" "filter (key_pending a' g') ys = filter (key_pending a g) ys"
    by (auto intro: filter_cong)
  moreover have "\<not> key_pending a' g' k" using assms(4,5) by (simp add: key_pending_def)
  ultimately show ?thesis using assms(3) by (simp add: ks)
qed

lemma artist_keys_distinct: "constraints_ok s \<Longrightarrow> distinct (map fst (map artist_key (ct_artists s)))"
  by (simp add: constraints_ok_def unique_key_def artist_key_def comp_def)

lemma marked_pending:
  assumes ok: "constraints_ok (ai_cat d)" and run: "MarkMusicBrainzArtistMetadataTerminal i mbid d = (d', Inr ())"
  shows "CountPendingMusicBrainzArtists d' + 1 = CountPendingMusicBrainzArtists d"
proof -
  let ?hit = "\<lambda>a. ar_artist_id a = i \<and> ar_mbid a = Some mbid \<and> metadata_pending d a"
  have n: "count_where ?hit (ct_artists (ai_cat d)) = 1"
    using run by (auto simp: MarkMusicBrainzArtistMetadataTerminal_def Let_def split: if_splits)
  then have "filter ?hit (ct_artists (ai_cat d)) \<noteq> []" by (auto simp: count_where_def)
  then obtain a where a: "a \<in> set (ct_artists (ai_cat d))" "?hit a" by (auto simp: filter_empty_conv)
  have d': "d' = d\<lparr>ai_aliases_at := (if ai_aliases_at d i = 0 then (ai_aliases_at d)(i := -1) else ai_aliases_at d),
      ai_genres_at := (if ai_genres_at d i = 0 then (ai_genres_at d)(i := -1) else ai_genres_at d)\<rparr>"
    using run n by (simp add: MarkMusicBrainzArtistMetadataTerminal_def Let_def split: if_splits)
  show ?thesis
    unfolding CountPending_keys
  proof (subst one_less_pending [of "map artist_key (ct_artists (ai_cat d))" "artist_key a" "ai_aliases_at d" "ai_genres_at d", symmetric])
    show "distinct (map fst (map artist_key (ct_artists (ai_cat d))))" by (rule artist_keys_distinct [OF ok])
    show "artist_key a \<in> set (map artist_key (ct_artists (ai_cat d)))" using a(1) by simp
    show "key_pending (ai_aliases_at d) (ai_genres_at d) (artist_key a)"
      using a(2) by (auto simp: key_pending_def artist_key_def metadata_pending_def)
    show "length (filter (key_pending (ai_aliases_at d') (ai_genres_at d')) (map artist_key (ct_artists (ai_cat d')))) + 1 =
      length (filter (key_pending (ai_aliases_at d') (ai_genres_at d')) (map artist_key (ct_artists (ai_cat d)))) + 1"
      by (simp add: d')
  qed (use a(2) in \<open>auto simp: d' artist_key_def\<close>)
qed

lemma persisted_pending:
  assumes ok: "constraints_ok (ai_cat d)" and "now \<noteq> 0"
    and run: "PersistMusicBrainzArtistMetadataAtNextSequence lower eqf i mbid name aliases genres now d = (d', Inr changed)"
    and pending: "list_ex (\<lambda>a. ar_artist_id a = i \<and> metadata_pending d a) (ct_artists (ai_cat d))"
  shows "CountPendingMusicBrainzArtists d' + 1 = CountPendingMusicBrainzArtists d"
proof -
  obtain c seq where step: "NextScanSeq (ai_cat d) = (c, seq)" by fastforce
  let ?d1 = "d\<lparr>ai_cat := c\<rparr>"
  have c: "constraints_ok c" "ct_artists c = ct_artists (ai_cat d)" "seq - 1 < seq"
    using NextScanSeq_keeps(1) [OF ok] step by (auto simp: NextScanSeq_def Let_def)
  have "persistMusicBrainzArtistMetadataTx lower eqf i mbid name aliases genres seq now ?d1 = (d', Inr changed)"
    using run step
    by (auto simp: PersistMusicBrainzArtistMetadataAtNextSequence_def in_tx_def bindE_def nextScanSeqTx_def split: prod.splits sum.splits)
  then obtain a where a: "select1 (\<lambda>a. ar_artist_id a = i) (ct_artists (ai_cat ?d1)) = Some a"
    "store_metadata lower eqf i (ar_name a) (trim_space name) aliases genres seq now ?d1 = (d', Inr changed)"
    by (rule persist_Inr)
  note r = store_metadata_result [OF a(2) _ c(3) delta_ok_refl artist_row_name [OF _ a(1)]]
  have r: "map artist_key (ct_artists (ai_cat d')) = map artist_key (ct_artists (ai_cat d))"
    "ai_aliases_at d' = (ai_aliases_at d)(i := now)" "ai_genres_at d' = (ai_genres_at d)(i := now)"
    using r(4-6) c by simp_all
  obtain b where b: "b \<in> set (ct_artists (ai_cat d))" "ar_artist_id b = i" "metadata_pending d b"
    using pending by (auto simp: list_ex_iff)
  show ?thesis
    unfolding CountPending_keys r
    by (rule one_less_pending [OF artist_keys_distinct [OF ok], of "artist_key b"])
      (use b assms(2) in \<open>auto simp: key_pending_def artist_key_def metadata_pending_def\<close>)
qed

text \<open>
  The backfill of artist metadata comes to an end: storing the metadata of a pending artist, or giving
  it up as invalid, makes the number of pending artists one less; no other artist becomes pending.
\<close>

lemma metadata_backfill_ends:
  assumes "constraints_ok (ai_cat d)"
    and "MarkMusicBrainzArtistMetadataTerminal artistID mbid d = (d', Inr ()) \<or>
      now \<noteq> 0 \<and> list_ex (\<lambda>a. ar_artist_id a = artistID \<and> metadata_pending d a) (ct_artists (ai_cat d)) \<and>
      PersistMusicBrainzArtistMetadataAtNextSequence lower eqf artistID mbid name aliases genres now d = (d', Inr changed)"
  shows "CountPendingMusicBrainzArtists d' + 1 = CountPendingMusicBrainzArtists d"
  using assms(2) marked_pending [OF assms(1)] persisted_pending [OF assms(1)] by blast

section \<open>The order of the evidence\<close>

text \<open>
  The qualified names are added while the map is visited, and count for the artists visited later:
  here \<open>A (B)\<close> is an artist's name and the qualified name of another one, and which of them owns
  \<open>A (B) (C)\<close> depends on the order of the map.
\<close>

lemma evidence_depends_on_map_order:
  "let a = \<lparr>en_mbid = ''1'', en_canonical = ''A'', en_aliases = [''B'']\<rparr>;
       b = \<lparr>en_mbid = ''2'', en_canonical = ''A (B)'', en_aliases = [''C'']\<rparr>;
       evidence = (\<lambda>ord. fold (qualify_entry to_lower) ord (name_owners to_lower [a, b]))
   in sole_owner (evidence [b, a]) (artistEvidenceKey to_lower ''A (B) (C)'') ''2'' \<and>
      \<not> sole_owner (evidence [a, b]) (artistEvidenceKey to_lower ''A (B) (C)'') ''2''"
  by code_simp

section \<open>An example\<close>

text \<open>A canonical artist with metadata, one that waits for its own, and a duplicate of the first one.\<close>

definition demo_identities :: "seconds \<Rightarrow> artist_db" where
  "demo_identities fetched = \<lparr>ai_cat = demo_catalog\<lparr>
       ct_artists := [(demo_artist ''art_a'' ''A'')\<lparr>ar_mbid := Some ''m''\<rparr>, demo_artist ''art_b'' ''a''],
       ct_albums := [demo_album ''alb_a'' ''art_a'' ''One'', demo_album ''alb_b'' ''art_b'' ''Two'']\<rparr>,
     ai_aliases_at = (\<lambda>_. fetched), ai_genres_at = (\<lambda>_. fetched), ai_evaluated = None\<rparr>"

lemma folds_to_lower: "folds to_lower"
  by (simp add: folds_def)

lemma demo_identities_ok: "constraints_ok (ai_cat (demo_identities t))"
  by (simp add: demo_identities_def demo_defs constraints_ok_def unique_key_def unique_some_def untagged_identity_def)

lemma demo_ready:
  "readyArtistMergeGroupsTx to_lower (\<lambda>es. es) (demo_identities 1) = Some (2,
     [\<lparr>mg_canonicalID = ''art_a'', mg_mbid = ''m'', mg_canonicalName = ''A'', mg_canonicalArt = None,
       mg_sources = [\<lparr>da_id = ''art_b'', da_name = ''a'', da_art = None\<rparr>], mg_collides = False\<rparr>])"
  by code_simp

lemma consolidation_is_safe_witness:
  "\<exists>d'. ConsolidateMusicBrainzArtistsAtNextSequence to_lower (\<lambda>es. es) (demo_identities 1) = (d', Inr True) \<and>
    drained 5 ''art_b'' (ai_cat d')"
proof -
  obtain d' r where run: "ConsolidateMusicBrainzArtistsAtNextSequence to_lower (\<lambda>es. es) (demo_identities 1) = (d', r)"
    by fastforce
  show ?thesis
    using consolidation_is_safe [OF demo_identities_ok [of 1] folds_to_lower, of "\<lambda>es. es"] run
    by (cases r) (simp_all add: demo_ready merged_ids_def hasSafeArtistMergeGroup_def)
qed

lemma identity_reaches_clients_witness:
  "\<exists>d'. d' = fst (ConsolidateMusicBrainzArtistsAtNextSequence to_lower (\<lambda>es. es) (demo_identities 1)) \<and>
    sync (ai_cat d') (walk_pages (\<lambda>c. ChangesSince (ai_cat d') 2 c 1) (length (feed (ai_cat d')) + 1) None)
      (live (ai_cat (demo_identities 1))) = live (ai_cat d')"
proof -
  let ?d' = "fst (ConsolidateMusicBrainzArtistsAtNextSequence to_lower (\<lambda>es. es) (demo_identities 1))"
  have "version (ai_cat (demo_identities 1)) = 2" by (simp add: demo_identities_def demo_defs version_def)
  moreover have "length (feed (ai_cat ?d')) < length (feed (ai_cat ?d')) + 1" by simp
  ultimately show ?thesis
    using identity_reaches_clients [OF demo_identities_ok folds_to_lower disjI2 [OF refl] zero_less_one] by metis
qed

lemma metadata_backfill_ends_witness:
  "CountPendingMusicBrainzArtists (demo_identities 0) = 1 \<and>
   CountPendingMusicBrainzArtists (fst (MarkMusicBrainzArtistMetadataTerminal ''art_a'' ''m'' (demo_identities 0))) = 0"
proof -
  have one: "CountPendingMusicBrainzArtists (demo_identities 0) = 1" by code_simp
  have run: "MarkMusicBrainzArtistMetadataTerminal ''art_a'' ''m'' (demo_identities 0) =
      (fst (MarkMusicBrainzArtistMetadataTerminal ''art_a'' ''m'' (demo_identities 0)), Inr ())"
    by (simp add: MarkMusicBrainzArtistMetadataTerminal_def demo_identities_def demo_defs Let_def count_where_def metadata_pending_def)
  then show ?thesis using metadata_backfill_ends [OF demo_identities_ok disjI1 [OF run]] one by simp
qed

end
