(* ===== verification/Unicode.thy ===== *)
theory Unicode
  imports GoText
begin

text \<open>
  Text as runes, and the folding of titles and names that both the store and the resolver use
  (\<open>normalized\<close> of \<open>internal/store/musicbrainz.go\<close>, \<open>normalize\<close> of \<open>internal/mbresolver/resolver.go\<close>).
  Go's UTF-8 decoding is written out; canonical decomposition (\<open>golang.org/x/text\<close>) and the tables of
  package \<open>unicode\<close> are parameters.
\<close>

section \<open>UTF-8\<close>

definition byte_in :: "nat \<Rightarrow> nat \<Rightarrow> char \<Rightarrow> bool" where
  "byte_in lo hi c \<longleftrightarrow> lo \<le> of_char c \<and> of_char c \<le> hi"

definition low6 :: "char \<Rightarrow> nat" where "low6 c = of_char c mod 64"

text \<open>The first rune and its width; an invalid byte is the replacement character.\<close>

definition rune_error :: nat where "rune_error = 0xFFFD"

fun decode_rune :: "string \<Rightarrow> nat \<times> nat" where
  "decode_rune [] = (rune_error, 0)"
| "decode_rune (a # s) =
     (let b = of_char a in
      if b < 0x80 then (b, 1)
      else case s of
        c # s' \<Rightarrow>
          if 0xC2 \<le> b \<and> b \<le> 0xDF \<and> byte_in 0x80 0xBF c then ((b - 0xC0) * 64 + low6 c, 2)
          else (case s' of
            d # s'' \<Rightarrow>
              if 0xE0 \<le> b \<and> b \<le> 0xEF \<and> byte_in (if b = 0xE0 then 0xA0 else 0x80) (if b = 0xED then 0x9F else 0xBF) c \<and> byte_in 0x80 0xBF d
              then (((b - 0xE0) * 64 + low6 c) * 64 + low6 d, 3)
              else (case s'' of
                e # _ \<Rightarrow>
                  if 0xF0 \<le> b \<and> b \<le> 0xF4 \<and> byte_in (if b = 0xF0 then 0x90 else 0x80) (if b = 0xF4 then 0x8F else 0xBF) c \<and>
                    byte_in 0x80 0xBF d \<and> byte_in 0x80 0xBF e
                  then ((((b - 0xF0) * 64 + low6 c) * 64 + low6 d) * 64 + low6 e, 4)
                  else (rune_error, 1)
              | [] \<Rightarrow> (rune_error, 1))
          | [] \<Rightarrow> (rune_error, 1))
      | [] \<Rightarrow> (rune_error, 1))"

lemma decode_rune_width: "0 < snd (decode_rune (a # s))"
  by (simp add: Let_def split: list.split)

function runes :: "string \<Rightarrow> nat list" where
  "runes [] = []"
| "runes (a # s) = fst (decode_rune (a # s)) # runes (drop (snd (decode_rune (a # s))) (a # s))"
  by pat_completeness auto
termination
proof (relation "measure length", goal_cases)
  case (2 a s)
  have "length (drop (snd (decode_rune (a # s))) (a # s)) < length (a # s)"
    using decode_rune_width [of a s] by (cases "snd (decode_rune (a # s))") simp_all
  then show ?case by simp
qed simp

definition encode_rune :: "nat \<Rightarrow> string" where
  "encode_rune r0 =
     (if r0 < 0x80 then [char_of r0]
      else
        (let r = (if 0x10FFFF < r0 \<or> 0xD800 \<le> r0 \<and> r0 \<le> 0xDFFF then rune_error else r0)
         in if r < 0x800 then [char_of (0xC0 + r div 64), char_of (0x80 + r mod 64)]
         else if r < 0x10000 then [char_of (0xE0 + r div 4096), char_of (0x80 + r div 64 mod 64), char_of (0x80 + r mod 64)]
         else [char_of (0xF0 + r div 262144), char_of (0x80 + r div 4096 mod 64), char_of (0x80 + r div 64 mod 64), char_of (0x80 + r mod 64)]))"

lemma of_char_of_byte: "n < 256 \<Longrightarrow> of_char (char_of n) = (n :: nat)"
  by simp

lemma low_bits: "y < 64 \<Longrightarrow> (128 + y) mod 64 = (y :: nat)"
  using mod_mult_self1 [of y 2 64] by (simp add: add.commute)

lemma runes_step: "decode_rune (a # s) = (v, n) \<Longrightarrow> runes (a # s) = v # runes (drop n (a # s))"
  by simp

lemma runes_two:
  assumes "2 \<le> x" and "x < 32" and "y < 64"
  shows "runes (char_of (0xC0 + x) # char_of (0x80 + y) # s) = (x * 64 + y) # runes s"
proof -
  have "decode_rune (char_of (0xC0 + x) # char_of (0x80 + y) # s) = (x * 64 + y, 2)"
    using assms by (simp add: byte_in_def low6_def low_bits)
  then show ?thesis by (simp only: runes_step) simp
qed

lemma runes_three:
  assumes "x < 16" and "y < 64" and "z < 64" and "x = 0 \<Longrightarrow> 32 \<le> y" and "x = 13 \<Longrightarrow> y \<le> 31"
  shows "runes (char_of (0xE0 + x) # char_of (0x80 + y) # char_of (0x80 + z) # s) = ((x * 64 + y) * 64 + z) # runes s"
proof -
  have "decode_rune (char_of (0xE0 + x) # char_of (0x80 + y) # char_of (0x80 + z) # s) = ((x * 64 + y) * 64 + z, 3)"
    using assms by (auto simp: byte_in_def low6_def low_bits Let_def)
  then show ?thesis by (simp only: runes_step) simp
qed

lemma runes_four:
  assumes "x < 5" and "y < 64" and "z < 64" and "w < 64" and "x = 0 \<Longrightarrow> 16 \<le> y" and "x = 4 \<Longrightarrow> y \<le> 15"
  shows "runes (char_of (0xF0 + x) # char_of (0x80 + y) # char_of (0x80 + z) # char_of (0x80 + w) # s) =
    (((x * 64 + y) * 64 + z) * 64 + w) # runes s"
proof -
  have "decode_rune (char_of (0xF0 + x) # char_of (0x80 + y) # char_of (0x80 + z) # char_of (0x80 + w) # s) =
      (((x * 64 + y) * 64 + z) * 64 + w, 4)"
    using assms by (auto simp: byte_in_def low6_def low_bits Let_def)
  then show ?thesis by (simp only: runes_step) simp
qed

text \<open>What is encoded is read back.\<close>

lemma runes_encode:
  assumes "r \<le> 0x10FFFF" and "\<not> (0xD800 \<le> r \<and> r \<le> 0xDFFF)"
  shows "runes (encode_rune r @ s) = r # runes s"
proof -
  have steps: "r div 64 div 64 = r div 4096" "r div 4096 div 64 = r div 262144"
    by (simp_all add: div_mult2_eq [symmetric])
  have div: "r div 64 * 64 + r mod 64 = r" "r div 4096 * 64 + r div 64 mod 64 = r div 64"
      "r div 262144 * 64 + r div 4096 mod 64 = r div 4096"
    using div_mult_mod_eq [of r 64] div_mult_mod_eq [of "r div 64" 64] div_mult_mod_eq [of "r div 4096" 64] by (simp_all only: steps)
  have low: "x mod 64 < 64" for x :: nat by simp
  have enc: "encode_rune r = (if r < 0x80 then [char_of r]
         else if r < 0x800 then [char_of (0xC0 + r div 64), char_of (0x80 + r mod 64)]
         else if r < 0x10000 then [char_of (0xE0 + r div 4096), char_of (0x80 + r div 64 mod 64), char_of (0x80 + r mod 64)]
         else [char_of (0xF0 + r div 262144), char_of (0x80 + r div 4096 mod 64), char_of (0x80 + r div 64 mod 64), char_of (0x80 + r mod 64)])"
    using assms by (auto simp: encode_rune_def Let_def)
  consider "r < 0x80" | "0x80 \<le> r" "r < 0x800" | "0x800 \<le> r" "r < 0x10000" | "0x10000 \<le> r" by linarith
  then show ?thesis
  proof cases
    case 1
    then show ?thesis using assms by (simp add: encode_rune_def Let_def)
  next
    case 2
    then have "runes (char_of (0xC0 + r div 64) # char_of (0x80 + r mod 64) # s) = r # runes s"
      using runes_two [of "r div 64" "r mod 64" s] div(1) low by (simp del: runes.simps)
    then show ?thesis using 2 by (simp add: enc del: runes.simps)
  next
    case 3
    have "r div 4096 < 16" using 3 by simp
    moreover have "32 \<le> r div 64 mod 64" if "r div 4096 = 0"
      using 3 div(2) that by linarith
    moreover have "r div 64 mod 64 \<le> 31" if "r div 4096 = 13"
      using assms(2) div(1,2) that low [of "r div 64"] low [of r] by linarith
    ultimately have "runes (char_of (0xE0 + r div 4096) # char_of (0x80 + r div 64 mod 64) # char_of (0x80 + r mod 64) # s) = r # runes s"
      using runes_three [of "r div 4096" "r div 64 mod 64" "r mod 64" s] div(1,2) low by (simp del: runes.simps)
    then show ?thesis using 3 by (simp add: enc del: runes.simps)
  next
    case 4
    have "r div 262144 < 5" using assms by simp
    moreover have "16 \<le> r div 4096 mod 64" if "r div 262144 = 0"
      using 4 div that by linarith
    moreover have "r div 4096 mod 64 \<le> 15" if "r div 262144 = 4"
      using assms(1) div that low [of "r div 4096"] by linarith
    ultimately have "runes (char_of (0xF0 + r div 262144) # char_of (0x80 + r div 4096 mod 64) # char_of (0x80 + r div 64 mod 64) #
        char_of (0x80 + r mod 64) # s) = r # runes s"
      using runes_four [of "r div 262144" "r div 4096 mod 64" "r div 64 mod 64" "r mod 64" s] div low by (simp del: runes.simps)
    then show ?thesis using 4 by (simp add: enc del: runes.simps)
  qed
qed

section \<open>Folding\<close>

record unicode =
  un_nfd :: "string \<Rightarrow> string"
  un_mark :: "nat \<Rightarrow> bool"
  un_letter :: "nat \<Rightarrow> bool"
  un_digit :: "nat \<Rightarrow> bool"
  un_lower :: "nat \<Rightarrow> nat"

definition fold_rune :: "unicode \<Rightarrow> nat \<Rightarrow> string" where
  "fold_rune U r = (if un_mark U r then '''' else if un_letter U r \<or> un_digit U r then encode_rune (un_lower U r) else '' '')"

text \<open>\<open>strings.Fields\<close> of a text whose only white space are blanks.\<close>

definition blank_fields :: "string \<Rightarrow> string list" where
  "blank_fields s = filter (\<lambda>w. w \<noteq> '''') (split_on (CHR '' '') s)"

definition normalized :: "unicode \<Rightarrow> string \<Rightarrow> string" where
  "normalized U v = join '' '' (blank_fields (List.concat (map (fold_rune U) (runes (un_nfd U v)))))"

text \<open>Only letters, digits and their case matter: marks go, everything else separates words. The tables of
  ASCII, for the examples.\<close>

definition ascii :: unicode where
  "ascii = \<lparr>un_nfd = (\<lambda>s. s), un_mark = (\<lambda>r. False),
     un_letter = (\<lambda>r. 65 \<le> r \<and> r \<le> 90 \<or> 97 \<le> r \<and> r \<le> 122), un_digit = (\<lambda>r. 48 \<le> r \<and> r \<le> 57),
     un_lower = (\<lambda>r. if 65 \<le> r \<and> r \<le> 90 then r + 32 else r)\<rparr>"

lemma normalized_example: "normalized ascii ''  AC/DC - Live! '' = ''ac dc live''"
  by code_simp

end
