(* ===== verification/PathEvidence.thy ===== *)
theory PathEvidence
  imports GoText
begin

text \<open>
  Regular expressions as the code uses them, and what it reads from a file's path
  (\<open>internal/source/path.go\<close>). A Go expression anchored at the end is modelled by the language of its
  body: the match is the longest end of the text in the language, since the leftmost match wins.
  Texts are bytes; the classes the code uses are ASCII but for the two letters \<open>(?i)\<close> folds beyond it.
\<close>

section \<open>Regular expressions\<close>

datatype regex = RxFail | RxEmpty | RxChar "char \<Rightarrow> bool" | RxThen regex regex | RxOr regex regex | RxStar regex

primrec nullable :: "regex \<Rightarrow> bool" where
  "nullable RxFail = False"
| "nullable RxEmpty = True"
| "nullable (RxChar p) = False"
| "nullable (RxThen a b) = (nullable a \<and> nullable b)"
| "nullable (RxOr a b) = (nullable a \<or> nullable b)"
| "nullable (RxStar a) = True"

fun rx_then :: "regex \<Rightarrow> regex \<Rightarrow> regex" where
  "rx_then RxFail b = RxFail"
| "rx_then RxEmpty b = b"
| "rx_then a b = (case b of RxFail \<Rightarrow> RxFail | _ \<Rightarrow> RxThen a b)"

fun rx_or :: "regex \<Rightarrow> regex \<Rightarrow> regex" where
  "rx_or RxFail b = b"
| "rx_or a b = (case b of RxFail \<Rightarrow> a | _ \<Rightarrow> RxOr a b)"

primrec deriv :: "char \<Rightarrow> regex \<Rightarrow> regex" where
  "deriv c RxFail = RxFail"
| "deriv c RxEmpty = RxFail"
| "deriv c (RxChar p) = (if p c then RxEmpty else RxFail)"
| "deriv c (RxThen a b) = (if nullable a then rx_or (rx_then (deriv c a) b) (deriv c b) else rx_then (deriv c a) b)"
| "deriv c (RxOr a b) = rx_or (deriv c a) (deriv c b)"
| "deriv c (RxStar a) = rx_then (deriv c a) (RxStar a)"

fun rx_matches :: "regex \<Rightarrow> string \<Rightarrow> bool" where
  "rx_matches r [] = nullable r"
| "rx_matches r (c # cs) = rx_matches (deriv c r) cs"

text \<open>What the matcher decides.\<close>

inductive in_lang :: "regex \<Rightarrow> string \<Rightarrow> bool" where
  "in_lang RxEmpty []"
| "p c \<Longrightarrow> in_lang (RxChar p) [c]"
| "in_lang a s \<Longrightarrow> in_lang b t \<Longrightarrow> in_lang (RxThen a b) (s @ t)"
| "in_lang a s \<Longrightarrow> in_lang (RxOr a b) s"
| "in_lang b s \<Longrightarrow> in_lang (RxOr a b) s"
| "in_lang (RxStar a) []"
| "in_lang a s \<Longrightarrow> in_lang (RxStar a) t \<Longrightarrow> in_lang (RxStar a) (s @ t)"

inductive_simps in_lang_simps: "in_lang RxFail s" "in_lang RxEmpty s" "in_lang (RxChar p) s" "in_lang (RxThen a b) s" "in_lang (RxOr a b) s"

lemma in_lang_then: "in_lang (rx_then a b) s \<longleftrightarrow> in_lang (RxThen a b) s"
  by (induction a b rule: rx_then.induct) (auto simp: in_lang_simps split: regex.splits)

lemma in_lang_or: "in_lang (rx_or a b) s \<longleftrightarrow> in_lang (RxOr a b) s"
  by (induction a b rule: rx_or.induct) (auto simp: in_lang_simps split: regex.splits)

lemma nullable_lang: "nullable r \<longleftrightarrow> in_lang r []"
  by (induction r) (auto simp: in_lang_simps intro: in_lang.intros)

lemma star_cons:
  assumes "in_lang (RxStar a) (c # cs)"
  shows "\<exists>s t. cs = s @ t \<and> in_lang a (c # s) \<and> in_lang (RxStar a) t"
proof -
  have "in_lang r w \<Longrightarrow> r = RxStar a \<Longrightarrow> w = c # cs \<Longrightarrow> \<exists>s t. cs = s @ t \<and> in_lang a (c # s) \<and> in_lang (RxStar a) t" for r w
    by (induction rule: in_lang.induct) (auto simp: append_eq_Cons_conv)
  then show ?thesis using assms by blast
qed

lemma deriv_lang: "in_lang (deriv c r) s \<longleftrightarrow> in_lang r (c # s)"
proof (induction r arbitrary: s)
  case (RxThen a b)
  have "in_lang (RxThen a b) (c # s) \<longleftrightarrow>
      (in_lang a [] \<and> in_lang b (c # s)) \<or> (\<exists>u v. s = u @ v \<and> in_lang a (c # u) \<and> in_lang b v)"
    by (auto simp: in_lang_simps Cons_eq_append_conv)
  then show ?case using RxThen by (auto simp: in_lang_or in_lang_then in_lang_simps nullable_lang)
next
  case (RxStar a)
  have "in_lang (RxStar a) (c # s) \<longleftrightarrow> (\<exists>u v. s = u @ v \<and> in_lang a (c # u) \<and> in_lang (RxStar a) v)"
    using star_cons in_lang.intros(7) by (metis append_Cons)
  then show ?case using RxStar by (auto simp: in_lang_then in_lang_simps)
qed (auto simp: in_lang_simps in_lang_or)

lemma rx_matches_lang: "rx_matches r s \<longleftrightarrow> in_lang r s"
  by (induction s arbitrary: r) (simp_all add: nullable_lang deriv_lang)

text \<open>The classes and forms the expressions use.\<close>

definition rx_space :: regex where "rx_space = RxChar (\<lambda>c. c \<in> {CHR 0x09, CHR 0x0A, CHR 0x0C, CHR 0x0D, CHR '' ''})"
definition rx_digit :: regex where "rx_digit = RxChar is_digit"
definition rx_char :: "char \<Rightarrow> regex" where "rx_char c = RxChar (\<lambda>x. x = c)"
definition rx_opt :: "regex \<Rightarrow> regex" where "rx_opt r = RxOr r RxEmpty"
definition rx_plus :: "regex \<Rightarrow> regex" where "rx_plus r = RxThen r (RxStar r)"
definition rx_seq :: "regex list \<Rightarrow> regex" where "rx_seq rs = foldr RxThen rs RxEmpty"
definition rx_any :: "regex list \<Rightarrow> regex" where "rx_any rs = foldr RxOr rs RxFail"

text \<open>\<open>(?i)\<close>: the long s and the Kelvin sign fold to ASCII letters.\<close>

definition rx_letter :: "char \<Rightarrow> regex" where
  "rx_letter c = RxOr (RxChar (\<lambda>x. lower_char x = lower_char c))
     (if c = CHR ''s'' then rx_seq [rx_char (CHR 0xC5), rx_char (CHR 0xBF)]
      else if c = CHR ''k'' then rx_seq [rx_char (CHR 0xE2), rx_char (CHR 0x84), rx_char (CHR 0xAA)]
      else RxFail)"

definition rx_word :: "string \<Rightarrow> regex" where "rx_word w = rx_seq (map rx_letter w)"

text \<open>\<open>ReplaceAllString(s, "")\<close> of an expression that ends in \<open>$\<close> and never matches nothing.\<close>

fun cut_end :: "regex \<Rightarrow> string \<Rightarrow> string" where
  "cut_end r [] = []"
| "cut_end r (c # cs) = (if rx_matches r (c # cs) then [] else c # cut_end r cs)"

lemma cut_end_prefix: "prefix (cut_end r s) s"
  by (induction s) simp_all

text \<open>What is cut is the longest end in the language.\<close>

lemma cut_end_cuts:
  assumes "\<not> in_lang r []"
  shows "\<exists>t. s = cut_end r s @ t \<and> (t = [] \<and> (\<forall>u v. s = u @ v \<longrightarrow> \<not> in_lang r v) \<or>
    in_lang r t \<and> (\<forall>u v. s = u @ v \<and> in_lang r v \<longrightarrow> length v \<le> length t))"
proof (induction s)
  case (Cons c s)
  show ?case
  proof (cases "in_lang r (c # s)")
    case True
    have "length v \<le> length (c # s)" if "c # s = u @ v" for u v
      using arg_cong [OF that, of length] by simp
    then show ?thesis using True by (auto simp: rx_matches_lang)
  next
    case False
    obtain t where t: "s = cut_end r s @ t" "t = [] \<and> (\<forall>u v. s = u @ v \<longrightarrow> \<not> in_lang r v) \<or>
        in_lang r t \<and> (\<forall>u v. s = u @ v \<and> in_lang r v \<longrightarrow> length v \<le> length t)"
      using Cons.IH by blast
    have "cut_end r (c # s) = c # cut_end r s" using False by (simp add: rx_matches_lang)
    moreover have "\<forall>u v. c # s = u @ v \<and> in_lang r v \<longrightarrow> (\<exists>u'. s = u' @ v)"
      using False by (auto simp: Cons_eq_append_conv)
    ultimately show ?thesis using t by (intro exI [of _ t]) (metis append_Cons)
  qed
qed (use assms in simp)

section \<open>The album a path names\<close>

text \<open>\<open>^(?:cd|disc|disk)\s*0*([1-9]\d*)$\<close>: the digits of the number, without leading zeros. The words end
  in a letter and the number starts with none, so the match is unique.\<close>

definition disc_words :: regex where
  "disc_words = rx_any [rx_word ''cd'', rx_word ''disc'', rx_word ''disk'']"

definition disc_prefix :: regex where
  "disc_prefix = rx_seq [disc_words, RxStar rx_space, RxStar (rx_char (CHR ''0''))]"

definition positive_digits :: "string \<Rightarrow> bool" where
  "positive_digits s \<longleftrightarrow> s \<noteq> [] \<and> list_all is_digit s \<and> hd s \<noteq> CHR ''0''"

definition disc_number :: "string \<Rightarrow> string option" where
  "disc_number s = find positive_digits (map (\<lambda>n. drop n s) (filter (\<lambda>n. rx_matches disc_prefix (take n s)) [0..<length s]))"

text \<open>\<open>strconv.Atoi\<close> of digits; out of range it gives the largest integer (the error is discarded).\<close>

definition digits_value :: "string \<Rightarrow> int" where
  "digits_value s = fold (\<lambda>c v. 10 * v + int (of_char c) - 48) s 0"

definition atoi_digits :: "string \<Rightarrow> int" where
  "atoi_digits s = min (digits_value s) (2 ^ 63 - 1)"

text \<open>\<open>\s*[\(\[]\d{4}[\)\]]\s*$\<close>.\<close>

definition directory_year :: regex where
  "directory_year = rx_seq [RxStar rx_space, RxOr (rx_char (CHR ''('')) (rx_char (CHR ''['')), rx_digit, rx_digit, rx_digit, rx_digit,
     RxOr (rx_char (CHR '')'')) (rx_char (CHR '']'')), RxStar rx_space]"

text \<open>\<open>path.Clean\<close> of a relative path, as its components: empty ones and \<open>.\<close> go, \<open>..\<close> takes the one before
  away unless there is none.\<close>

fun clean_parts :: "string list \<Rightarrow> string list \<Rightarrow> string list" where
  "clean_parts kept [] = rev kept"
| "clean_parts kept (p # ps) =
     (if p = '''' \<or> p = ''.'' then clean_parts kept ps
      else if p = ''..'' \<and> kept \<noteq> [] \<and> hd kept \<noteq> ''..'' then clean_parts (tl kept) ps
      else clean_parts (p # kept) ps)"

text \<open>\<open>path.Clean\<close> of what has no component left is \<open>.\<close>; \<open>..\<close> can only stand in front.\<close>

definition FilesystemAlbumPathEvidence :: "string \<Rightarrow> (string \<times> int) option" where
  "FilesystemAlbumPathEvidence native =
     (let nativeID = map (\<lambda>c. if c = CHR 0x5C then CHR ''/'' else c) native
      in if nativeID = '''' \<or> has_prefix nativeID ''/'' then None
         else
           (let parts = clean_parts [] (split_on (CHR ''/'') nativeID)
            in if parts = [] \<or> hd parts = ''..'' then None
               else if length parts < 3 then None
               else
                 (let dirs = butlast parts
                  in case disc_number (trim_space (last dirs)) of
                       Some digits \<Rightarrow>
                         if length dirs < 3 then None
                         else (let title = trim_space (cut_end directory_year (last (butlast dirs)))
                               in if title = '''' then None else Some (title, atoi_digits digits))
                     | None \<Rightarrow>
                         (let title = trim_space (cut_end directory_year (last dirs))
                          in if title = '''' then None else Some (title, 0)))))"

end
