(* ===== verification/ReleaseUnion.thy ===== *)
theory ReleaseUnion
  imports StoreRows Source Unicode PathEvidence Complex_Main "HOL-Library.AList" "HOL-Library.Multiset"
begin

text \<open>
  An album as the resolver sees it, a canonical release, and how the tracks of one are assigned to the
  positions of the other (\<open>internal/store/musicbrainz.go\<close>, \<open>matchReleaseUnion\<close> of
  \<open>internal/store/split_album_reconciliation.go\<close>). A Go map from track
  ids is an association list whose keys are distinct.
\<close>

section \<open>Data\<close>

record MusicBrainzAlbum =
  mb_AlbumID :: string
  mb_Title :: string
  mb_ReleaseID :: string
  mb_ReleaseGroupID :: string
  mb_Year :: int
  mb_TrackCount :: int
  mb_Version :: int
  mb_PrimaryArtist :: ArtistCreditRow
  mb_ArtistCredits :: "ArtistCreditRow list"
  mb_Tracks :: "TrackRow list"
  mb_DueAt :: seconds
  mb_PathTitle :: string
  mb_PathDiscs :: "(string \<times> int) list"
  mb_DueRank :: int

text \<open>The evidence of a candidate: the keys the code reads or writes.\<close>

record match_evidence =
  ev_embeddedReleaseID :: bool
  ev_title :: string
  ev_artist :: string
  ev_year :: string
  ev_trackCount :: string
  ev_trackEvidence :: int
  ev_titleEvidence :: int
  ev_positions :: int
  ev_recordings :: "string list option"
  ev_fragmentSnapshots :: "MusicBrainzAlbum list option"

record MusicBrainzCandidate =
  mc_ReleaseID :: string
  mc_ReleaseGroupID :: string
  mc_Title :: string
  mc_ArtistCredit :: string
  mc_Score :: rat
  mc_Evidence :: match_evidence

record CanonicalTrack =
  kt_Disc :: int
  kt_Index :: int
  kt_DurationMs :: int
  kt_Title :: string
  kt_RecordingID :: string
  kt_Credits :: "ArtistCredit list"

record CanonicalRelease =
  kr_ReleaseID :: string
  kr_ReleaseGroupID :: string
  kr_Title :: string
  kr_ReleaseDate :: string
  kr_AlbumCredits :: "ArtistCredit list"
  kr_Tracks :: "CanonicalTrack list"
  kr_Authoritative :: bool
  kr_ReconcileOnly :: bool

section \<open>Comparing\<close>

definition discNumber :: "int \<Rightarrow> int" where
  "discNumber v = (if v \<le> 0 then 1 else v)"

definition durationClose :: "int \<Rightarrow> int \<Rightarrow> bool" where
  "durationClose a b \<longleftrightarrow> a = 0 \<or> b = 0 \<or> a - b < 3000 \<and> b - a < 3000"

definition path_disc :: "(string \<times> int) list \<Rightarrow> string \<Rightarrow> int" where
  "path_disc discs tid = (case map_of discs tid of None \<Rightarrow> 0 | Some d \<Rightarrow> d)"

definition with_path_disc :: "(string \<times> int) list \<Rightarrow> TrackRow \<Rightarrow> TrackRow" where
  "with_path_disc discs t =
     (if tr_Disc t \<le> 0 \<and> 0 < path_disc discs (tr_TrackID t) then t\<lparr>tr_Disc := path_disc discs (tr_TrackID t)\<rparr> else t)"

definition albumWithPathDiscs :: "MusicBrainzAlbum \<Rightarrow> MusicBrainzAlbum" where
  "albumWithPathDiscs album =
     (if mb_PathDiscs album = [] then album
      else album\<lparr>mb_Tracks := map (with_path_disc (mb_PathDiscs album)) (mb_Tracks album)\<rparr>)"

definition same_track :: "TrackRow \<Rightarrow> TrackRow \<Rightarrow> bool" where
  "same_track t u \<longleftrightarrow> tr_Index t = tr_Index u \<and> tr_Disc t = tr_Disc u \<and> tr_Title t = tr_Title u \<and> tr_DurationMs t = tr_DurationMs u"

definition sameMusicBrainzSnapshot :: "MusicBrainzAlbum \<Rightarrow> MusicBrainzAlbum \<Rightarrow> bool" where
  "sameMusicBrainzSnapshot expected current \<longleftrightarrow>
     mb_AlbumID expected = mb_AlbumID current \<and> mb_Title expected = mb_Title current \<and> mb_Year expected = mb_Year current \<and>
     mb_ReleaseID expected = mb_ReleaseID current \<and> mb_ReleaseGroupID expected = mb_ReleaseGroupID current \<and>
     mb_Version expected = mb_Version current \<and> length (mb_Tracks expected) = length (mb_Tracks current) \<and>
     list_all (\<lambda>t. case select1 (\<lambda>u. tr_TrackID u = tr_TrackID t) (rev (mb_Tracks current)) of
         None \<Rightarrow> False | Some u \<Rightarrow> same_track t u) (mb_Tracks expected)"

definition musicBrainzAlbumTitlesCompatible ::
  "unicode \<Rightarrow> (string \<Rightarrow> string \<Rightarrow> bool) \<Rightarrow> MusicBrainzAlbum \<Rightarrow> MusicBrainzAlbum \<Rightarrow> bool" where
  "musicBrainzAlbumTitlesCompatible U eqf a b \<longleftrightarrow>
     eqf (trim_space (mb_Title a)) (trim_space (mb_Title b)) \<or>
     mb_PathTitle a \<noteq> '''' \<and> mb_PathTitle b \<noteq> '''' \<and> normalized U (mb_PathTitle a) = normalized U (mb_PathTitle b)"

section \<open>Assigning tracks to positions\<close>

type_synonym disc_position = "int \<times> int"

definition canonical_key :: "CanonicalTrack \<Rightarrow> disc_position" where
  "canonical_key t = (discNumber (kt_Disc t), kt_Index t)"

definition local_key :: "TrackRow \<Rightarrow> disc_position" where
  "local_key t = (discNumber (tr_Disc t), tr_Index t)"

text \<open>Positions are positive and distinct, and on each disc none is left out.\<close>

fun canonical_positions :: "CanonicalTrack list \<Rightarrow> disc_position list \<Rightarrow> disc_position list option" where
  "canonical_positions [] seen = Some seen"
| "canonical_positions (t # ts) seen =
     (if kt_Index t \<le> 0 \<or> canonical_key t \<in> set seen then None else canonical_positions ts (canonical_key t # seen))"

definition disc_complete :: "disc_position list \<Rightarrow> int \<Rightarrow> bool" where
  "disc_complete ps d \<longleftrightarrow>
     (let positions = remdups (map snd (filter (\<lambda>p. fst p = d) ps))
      in list_all (\<lambda>i. i \<in> set positions) [1..int (length positions)])"

definition release_complete :: "CanonicalTrack list \<Rightarrow> bool" where
  "release_complete ts \<longleftrightarrow> (case canonical_positions ts [] of
       None \<Rightarrow> False | Some ps \<Rightarrow> list_all (\<lambda>p. disc_complete ps (fst p)) ps)"

definition canonical_at :: "CanonicalTrack list \<Rightarrow> disc_position \<Rightarrow> CanonicalTrack option" where
  "canonical_at ts k = select1 (\<lambda>t. canonical_key t = k) ts"

text \<open>What is matched so far, the canonical positions used, and the tracks left.\<close>

type_synonym assignment = "(string \<times> CanonicalTrack) list"

fun match_positions ::
  "unicode \<Rightarrow> CanonicalRelease \<Rightarrow> TrackRow list \<Rightarrow> disc_position list \<Rightarrow> assignment \<Rightarrow> disc_position list \<Rightarrow>
   TrackRow list \<Rightarrow> (assignment \<times> disc_position list \<times> TrackRow list) option" where
  "match_positions U release [] seen matched used unmatched = Some (matched, used, unmatched)"
| "match_positions U release (t # ts) seen matched used unmatched =
     (case canonical_at (kr_Tracks release) (local_key t) of
        None \<Rightarrow> None
      | Some c \<Rightarrow>
          if tr_Index t \<le> 0 \<or> local_key t \<in> set seen then None
          else if kr_Authoritative release \<or> normalized U (tr_Title t) = normalized U (kt_Title c) \<or> durationClose (tr_DurationMs t) (kt_DurationMs c)
          then match_positions U release ts (local_key t # seen) (AList.update (tr_TrackID t) c matched) (local_key t # used) unmatched
          else match_positions U release ts (local_key t # seen) matched used (unmatched @ [t]))"

text \<open>A track with a wrong index, if title and duration single out one free position.\<close>

fun match_elsewhere ::
  "unicode \<Rightarrow> CanonicalTrack list \<Rightarrow> TrackRow list \<Rightarrow> assignment \<Rightarrow> disc_position list \<Rightarrow> TrackRow list \<Rightarrow>
   assignment \<times> disc_position list \<times> TrackRow list" where
  "match_elsewhere U ts [] matched used unresolved = (matched, used, unresolved)"
| "match_elsewhere U ts (t # rest) matched used unresolved =
     (case filter (\<lambda>c. canonical_key c \<notin> set used \<and> normalized U (tr_Title t) = normalized U (kt_Title c) \<and>
          durationClose (tr_DurationMs t) (kt_DurationMs c)) ts of
        [c] \<Rightarrow> match_elsewhere U ts rest (AList.update (tr_TrackID t) c matched) (canonical_key c # used) unresolved
      | _ \<Rightarrow> match_elsewhere U ts rest matched used (unresolved @ [t]))"

fun match_rest ::
  "CanonicalTrack list \<Rightarrow> TrackRow list \<Rightarrow> assignment \<Rightarrow> disc_position list \<Rightarrow> assignment option" where
  "match_rest ts [] matched used = Some matched"
| "match_rest ts (t # rest) matched used =
     (if local_key t \<in> set used then None
      else case canonical_at ts (local_key t) of
             None \<Rightarrow> None
           | Some c \<Rightarrow> match_rest ts rest (AList.update (tr_TrackID t) c matched) (local_key t # used))"

definition matchReleaseUnion :: "unicode \<Rightarrow> TrackRow list \<Rightarrow> CanonicalRelease \<Rightarrow> assignment option" where
  "matchReleaseUnion U tracks release =
     (if tracks = [] \<or> length tracks \<noteq> length (kr_Tracks release) then None
      else if \<not> release_complete (kr_Tracks release) then None
      else case match_positions U release tracks [] [] [] [] of
             None \<Rightarrow> None
           | Some (matched, used, unmatched) \<Rightarrow>
               (case match_elsewhere U (kr_Tracks release) unmatched matched used [] of
                  (matched, used, unresolved) \<Rightarrow>
                    if length matched * 5 < length tracks * 4 then None
                    else case match_rest (kr_Tracks release) unresolved matched used of
                           None \<Rightarrow> None
                         | Some matched \<Rightarrow> if length matched = length tracks then Some matched else None))"

section \<open>The assignment is one to one\<close>

lemma update_fresh: "k \<notin> fst ` set al \<Longrightarrow> AList.update k v al = al @ [(k, v)]"
  by (induction al) auto

text \<open>Every assigned position is used once, by a track that is not among the ones left.\<close>

definition assigned :: "CanonicalTrack list \<Rightarrow> TrackRow list \<Rightarrow> assignment \<Rightarrow> disc_position list \<Rightarrow> bool" where
  "assigned ts rest m used \<longleftrightarrow> distinct (map fst m) \<and> distinct (map (canonical_key \<circ> snd) m) \<and>
     set used = (canonical_key \<circ> snd) ` set m \<and> snd ` set m \<subseteq> set ts \<and> fst ` set m \<inter> tr_TrackID ` set rest = {}"

lemma assigned_update:
  assumes "assigned ts (t # rest) m used" and "c \<in> set ts" and "canonical_key c \<notin> set used" and "tr_TrackID t \<notin> tr_TrackID ` set rest"
  shows "assigned ts rest (AList.update (tr_TrackID t) c m) (canonical_key c # used)"
proof -
  have "tr_TrackID t \<notin> fst ` set m" using assms(1) by (auto simp: assigned_def)
  then show ?thesis using assms by (auto simp: assigned_def update_fresh)
qed

lemma assigned_fewer: "assigned ts (t # rest) m used \<Longrightarrow> assigned ts rest m used"
  by (auto simp: assigned_def)

lemma assigned_rest: "assigned ts rest m used \<Longrightarrow> set rest' \<subseteq> set rest \<Longrightarrow> assigned ts rest' m used"
  unfolding assigned_def by blast

lemma canonical_atD: "canonical_at ts k = Some c \<Longrightarrow> c \<in> set ts \<and> canonical_key c = k"
  using select1_SomeD by (fastforce simp: canonical_at_def)

lemma match_positions_assigned:
  assumes "match_positions U release tracks seen m used unmatched = Some (m', used', unmatched')"
    and "assigned (kr_Tracks release) (tracks @ unmatched) m used" and "distinct (map tr_TrackID (tracks @ unmatched))"
    and "set used \<subseteq> set seen"
  shows "assigned (kr_Tracks release) unmatched' m' used' \<and> distinct (map tr_TrackID unmatched') \<and>
    fst ` set m' \<union> tr_TrackID ` set unmatched' = fst ` set m \<union> tr_TrackID ` set (tracks @ unmatched)"
  using assms
proof (induction U release tracks seen m used unmatched arbitrary: m' used' unmatched' rule: match_positions.induct)
  case (2 U release t ts seen m used unmatched)
  obtain c where c: "canonical_at (kr_Tracks release) (local_key t) = Some c" "local_key t \<notin> set seen"
    using "2.prems"(1) by (auto split: option.splits if_splits)
  have key: "c \<in> set (kr_Tracks release)" "canonical_key c = local_key t" using canonical_atD [OF c(1)] by auto
  have fresh: "tr_TrackID t \<notin> tr_TrackID ` set (ts @ unmatched)" "tr_TrackID t \<notin> fst ` set m"
    using "2.prems"(2,3) by (auto simp: assigned_def)
  show ?case
  proof (cases "kr_Authoritative release \<or> normalized U (tr_Title t) = normalized U (kt_Title c) \<or> durationClose (tr_DurationMs t) (kt_DurationMs c)")
    case True
    have run: "match_positions U release ts (local_key t # seen) (AList.update (tr_TrackID t) c m) (local_key t # used) unmatched =
        Some (m', used', unmatched')"
      using "2.prems"(1) c True by (auto split: if_splits)
    have "assigned (kr_Tracks release) (ts @ unmatched) (AList.update (tr_TrackID t) c m) (local_key t # used)"
      using assigned_update [of "kr_Tracks release" t "ts @ unmatched" m used c] "2.prems"(2,4) key c(2) fresh by auto
    moreover have "distinct (map tr_TrackID (ts @ unmatched))" "set (local_key t # used) \<subseteq> set (local_key t # seen)"
      using "2.prems"(3,4) by auto
    ultimately show ?thesis
      using "2.IH"(1) [OF c(1) _ True run] "2.prems"(1) c fresh by (auto simp: update_fresh split: if_splits)
  next
    case False
    have run: "match_positions U release ts (local_key t # seen) m used (unmatched @ [t]) = Some (m', used', unmatched')"
      using "2.prems"(1) c False by (auto split: if_splits)
    have "assigned (kr_Tracks release) (ts @ unmatched @ [t]) m used"
      using "2.prems"(2) by (rule assigned_rest) auto
    moreover have "distinct (map tr_TrackID (ts @ unmatched @ [t]))" "set used \<subseteq> set (local_key t # seen)"
      using "2.prems"(3,4) by auto
    ultimately show ?thesis
      using "2.IH"(2) [OF c(1) _ False run] "2.prems"(1) c by (auto split: if_splits)
  qed
qed auto

lemma match_elsewhere_assigned:
  assumes "match_elsewhere U ts rest m used unresolved = (m', used', unresolved')"
    and "assigned ts (rest @ unresolved) m used" and "distinct (map tr_TrackID (rest @ unresolved))"
  shows "assigned ts unresolved' m' used' \<and> distinct (map tr_TrackID unresolved') \<and>
    fst ` set m' \<union> tr_TrackID ` set unresolved' = fst ` set m \<union> tr_TrackID ` set (rest @ unresolved)"
  using assms
proof (induction rest arbitrary: m used unresolved)
  case (Cons t rest)
  let ?fit = "filter (\<lambda>c. canonical_key c \<notin> set used \<and> normalized U (tr_Title t) = normalized U (kt_Title c) \<and>
      durationClose (tr_DurationMs t) (kt_DurationMs c)) ts"
  show ?case
  proof (cases "\<exists>c. ?fit = [c]")
    case True
    then obtain c where c: "?fit = [c]" by blast
    then have "c \<in> set ?fit" by simp
    then have fit: "c \<in> set ts" "canonical_key c \<notin> set used" by auto
    have fresh: "tr_TrackID t \<notin> tr_TrackID ` set (rest @ unresolved)" "tr_TrackID t \<notin> fst ` set m"
      using Cons.prems(2,3) by (auto simp: assigned_def)
    have run: "match_elsewhere U ts rest (AList.update (tr_TrackID t) c m) (canonical_key c # used) unresolved = (m', used', unresolved')"
      using Cons.prems(1) c by simp
    have "assigned ts (rest @ unresolved) (AList.update (tr_TrackID t) c m) (canonical_key c # used)"
      using assigned_update [of ts t "rest @ unresolved" m used c] Cons.prems(2) fit fresh by simp
    then show ?thesis using Cons.IH [OF run] Cons.prems(3) fresh by (auto simp: update_fresh)
  next
    case False
    then have run: "match_elsewhere U ts rest m used (unresolved @ [t]) = (m', used', unresolved')"
      using Cons.prems(1) by (auto split: list.splits)
    have "assigned ts (rest @ unresolved @ [t]) m used" using Cons.prems(2) by (rule assigned_rest) auto
    then show ?thesis using Cons.IH [OF run] Cons.prems(3) by auto
  qed
qed simp

lemma match_rest_assigned:
  assumes "match_rest ts rest m used = Some m'" and "assigned ts rest m used" and "distinct (map tr_TrackID rest)"
  shows "\<exists>used'. assigned ts [] m' used' \<and> fst ` set m' = fst ` set m \<union> tr_TrackID ` set rest"
  using assms
proof (induction rest arbitrary: m used)
  case (Cons t rest)
  obtain c where c: "local_key t \<notin> set used" "canonical_at ts (local_key t) = Some c"
    "match_rest ts rest (AList.update (tr_TrackID t) c m) (local_key t # used) = Some m'"
    using Cons.prems(1) by (auto split: if_splits option.splits)
  have fresh: "tr_TrackID t \<notin> tr_TrackID ` set rest" "tr_TrackID t \<notin> fst ` set m"
    using Cons.prems(2,3) by (auto simp: assigned_def)
  have "assigned ts rest (AList.update (tr_TrackID t) c m) (local_key t # used)"
    using assigned_update [of ts t rest m used c] Cons.prems(2) canonical_atD [OF c(2)] c(1) fresh by auto
  then show ?case using Cons.IH [OF c(3)] Cons.prems(3) fresh by (auto simp: update_fresh)
qed auto

lemma union_assigned:
  assumes "matchReleaseUnion U tracks release = Some m" and "distinct (map tr_TrackID tracks)"
  shows "\<exists>used. assigned (kr_Tracks release) [] m used" "fst ` set m = tr_TrackID ` set tracks"
    "length m = length tracks" "length tracks = length (kr_Tracks release)"
    "release_complete (kr_Tracks release)"
proof -
  obtain m1 u1 r1 m2 u2 r2 where p: "match_positions U release tracks [] [] [] [] = Some (m1, u1, r1)"
    and e: "match_elsewhere U (kr_Tracks release) r1 m1 u1 [] = (m2, u2, r2)"
    and r: "match_rest (kr_Tracks release) r2 m2 u2 = Some m" and len: "length m = length tracks"
    "length tracks = length (kr_Tracks release)" "release_complete (kr_Tracks release)"
    using assms(1) by (auto simp: matchReleaseUnion_def split: if_splits option.splits prod.splits)
  have start: "assigned (kr_Tracks release) (tracks @ []) [] []" by (simp add: assigned_def)
  have m1: "assigned (kr_Tracks release) r1 m1 u1" "distinct (map tr_TrackID r1)"
      "fst ` set m1 \<union> tr_TrackID ` set r1 = tr_TrackID ` set tracks"
    using match_positions_assigned [OF p start] assms(2) by auto
  have m2: "assigned (kr_Tracks release) r2 m2 u2" "distinct (map tr_TrackID r2)"
      "fst ` set m2 \<union> tr_TrackID ` set r2 = tr_TrackID ` set tracks"
    using match_elsewhere_assigned [OF e] m1 by auto
  show "\<exists>used. assigned (kr_Tracks release) [] m used" "fst ` set m = tr_TrackID ` set tracks"
    using match_rest_assigned [OF r m2(1,2)] m2(3) by auto
  show "length m = length tracks" "length tracks = length (kr_Tracks release)" "release_complete (kr_Tracks release)"
    by (rule len)+
qed

text \<open>C35
  If the tracks of an album, or of its fragments together, fit a release, each of them is assigned to
  a position of its own, and every track of the release gets exactly one of them.
\<close>

theorem release_union_one_to_one:
  assumes "matchReleaseUnion U tracks release = Some m" and "distinct (map tr_TrackID tracks)"
  shows "mset (map fst m) = mset (map tr_TrackID tracks) \<and> mset (map snd m) = mset (kr_Tracks release)"
proof
  note u = union_assigned [OF assms]
  have d: "distinct (map fst m)" "distinct (map (canonical_key \<circ> snd) m)" "snd ` set m \<subseteq> set (kr_Tracks release)"
    using u(1) by (auto simp: assigned_def)
  show "mset (map fst m) = mset (map tr_TrackID tracks)"
    using u(2) d(1) assms(2) by (intro set_eq_iff_mset_eq_distinct [THEN iffD1]) simp_all
  have "distinct (map snd m)" using d(2) by (metis distinct_map map_map)
  moreover have "length (map snd m) = length (kr_Tracks release)" using u(3,4) by simp
  ultimately have "card (snd ` set m) = length (kr_Tracks release)" by (metis distinct_card list.set_map)
  then have "card (snd ` set m) \<ge> card (set (kr_Tracks release))" by (simp add: card_length)
  then have same: "snd ` set m = set (kr_Tracks release)" using d(3) by (metis card_seteq finite_set)
  then have "distinct (kr_Tracks release)"
    using \<open>card (snd ` set m) = length (kr_Tracks release)\<close> by (simp add: card_distinct)
  then show "mset (map snd m) = mset (kr_Tracks release)"
    using same \<open>distinct (map snd m)\<close> by (intro set_eq_iff_mset_eq_distinct [THEN iffD1]) simp_all
qed

definition demo_release :: CanonicalRelease where
  "demo_release = \<lparr>kr_ReleaseID = ''rel'', kr_ReleaseGroupID = ''grp'', kr_Title = ''Album'', kr_ReleaseDate = '''', kr_AlbumCredits = [],
     kr_Tracks = [\<lparr>kt_Disc = 1, kt_Index = 1, kt_DurationMs = 200000, kt_Title = ''One'', kt_RecordingID = ''r1'', kt_Credits = []\<rparr>,
       \<lparr>kt_Disc = 1, kt_Index = 2, kt_DurationMs = 200000, kt_Title = ''Two'', kt_RecordingID = ''r2'', kt_Credits = []\<rparr>],
     kr_Authoritative = False, kr_ReconcileOnly = False\<rparr>"

definition demo_tracks :: "TrackRow list" where
  "demo_tracks = [(sample_track ''b'')\<lparr>tr_Title := ''TWO!'', tr_Index := 2\<rparr>, (sample_track ''a'')\<lparr>tr_Title := ''One''\<rparr>]"

lemma demo_union: "matchReleaseUnion ascii demo_tracks demo_release =
    Some [(''b'', kr_Tracks demo_release ! 1), (''a'', kr_Tracks demo_release ! 0)]"
  by code_simp

theorem release_union_one_to_one_witness:
  "mset (map snd [(''b'', kr_Tracks demo_release ! 1), (''a'', kr_Tracks demo_release ! 0)]) = mset (kr_Tracks demo_release)"
  using release_union_one_to_one [OF demo_union] by (simp add: demo_tracks_def sample_track_def)

end
