(* ===== verification/MatchRules.thy ===== *)
theory MatchRules
  imports ReleaseUnion
begin

text \<open>
  How the resolver compares a local album with the releases MusicBrainz offers
  (\<open>internal/mbresolver/resolver.go\<close>): the search title, the score and its evidence, and the rules that
  decide whether a release, a group of editions or only an artist is identified. Scores are rationals:
  the code's \<open>float64\<close> differs from them by rounding only in the share of matching durations, and no
  threshold lies within that error for an album of fewer than \<open>2 ^ 40\<close> tracks. An evidence entry that is
  absent reads as the zero value, as the code's type assertions make it.
\<close>

section \<open>Releases\<close>

record artistCredit =
  xc_Name :: string
  xc_JoinPhrase :: string
  xc_ID :: string

record recording =
  rd_ID :: string
  rd_Title :: string
  rd_Length :: int
  rd_Credits :: "artistCredit list"

record release_track =
  rt_Position :: int
  rt_Recording :: recording

record medium =
  me_Position :: int
  me_TrackCount :: int
  me_Tracks :: "release_track list"

record release =
  re_ID :: string
  re_Title :: string
  re_Date :: string
  re_Credits :: "artistCredit list"
  re_ReleaseGroup :: string
  re_Media :: "medium list"

definition credits :: "artistCredit list \<Rightarrow> ArtistCredit list" where
  "credits cs = map (\<lambda>c. \<lparr>ac_Name = xc_Name c, ac_JoinPhrase = xc_JoinPhrase c, ac_MBID = xc_ID c\<rparr>) cs"

definition creditText :: "artistCredit list \<Rightarrow> string" where
  "creditText cs = List.concat (map (\<lambda>c. xc_Name c @ xc_JoinPhrase c) cs)"

definition canonical_track :: "medium \<Rightarrow> release_track \<Rightarrow> CanonicalTrack" where
  "canonical_track m t = \<lparr>kt_Disc = me_Position m, kt_Index = rt_Position t, kt_DurationMs = rd_Length (rt_Recording t),
     kt_Title = rd_Title (rt_Recording t), kt_RecordingID = rd_ID (rt_Recording t), kt_Credits = credits (rd_Credits (rt_Recording t))\<rparr>"

definition canonical :: "release \<Rightarrow> CanonicalRelease" where
  "canonical r = \<lparr>kr_ReleaseID = re_ID r, kr_ReleaseGroupID = re_ReleaseGroup r, kr_Title = re_Title r, kr_ReleaseDate = re_Date r,
     kr_AlbumCredits = credits (re_Credits r), kr_Tracks = List.concat (map (\<lambda>m. map (canonical_track m) (me_Tracks m)) (re_Media r)),
     kr_Authoritative = False, kr_ReconcileOnly = False\<rparr>"

definition escape :: "string \<Rightarrow> string" where
  "escape v = List.concat (map (\<lambda>c. if c = CHR 0x22 then [CHR 0x5C, CHR 0x22] else [c]) v)"

section \<open>The search title\<close>

definition rx_spaces :: regex where "rx_spaces = RxStar rx_space"

definition searchTitleSuffixes :: "regex list" where
  "searchTitleSuffixes =
    [rx_seq [rx_spaces, rx_char (CHR ''[''), RxStar (RxChar (\<lambda>c. c \<noteq> CHR '']'')), rx_char (CHR '']''), rx_spaces],
     rx_seq [rx_spaces, rx_char (CHR ''(''), RxOr (rx_word ''disc'') (rx_word ''cd''), rx_spaces, rx_plus rx_digit, rx_char (CHR '')''), rx_spaces],
     rx_seq [rx_spaces, rx_opt (rx_seq [rx_char (CHR ''-''), rx_spaces]), RxOr (rx_word ''disc'') (rx_word ''cd''), rx_spaces, rx_plus rx_digit, rx_spaces],
     rx_seq [rx_plus rx_space, RxOr (rx_word ''disc'') (rx_word ''cd''), rx_spaces],
     rx_seq [rx_spaces, rx_char (CHR ''(''), rx_opt (rx_seq [rx_digit, rx_digit, rx_digit, rx_digit, rx_plus rx_space]),
       rx_word ''remaster'', rx_opt (rx_word ''ed''), rx_opt (rx_seq [rx_plus rx_space, rx_digit, rx_digit, rx_digit, rx_digit]),
       rx_char (CHR '')''), rx_spaces]]"

text \<open>One pass over the suffixes; nothing when one of them leaves no title.\<close>

fun strip_pass :: "regex list \<Rightarrow> string \<Rightarrow> string option" where
  "strip_pass [] out = Some out"
| "strip_pass (r # rs) out =
     (let nxt = trim_space (cut_end r out)
      in if nxt = out then strip_pass rs out else if nxt = '''' then None else strip_pass rs nxt)"

lemma trim_space_parts: "\<exists>u v. s = u @ trim_space s @ v"
proof -
  obtain u where u: "s = u @ trim_left s" using trim_left_fuel_suffix [of "length s" s] by (auto simp: trim_left_def suffix_def)
  obtain v where "trim_left s = trim_space s @ v"
    using trim_right_fuel_prefix [of "length (trim_left s)" "trim_left s"] by (auto simp: trim_space_def trim_right_def prefix_def)
  then show ?thesis using u by metis
qed

lemma trim_cut_shorter: "trim_space (cut_end r s) = s \<or> length (trim_space (cut_end r s)) < length s"
proof -
  obtain u v where "cut_end r s = u @ trim_space (cut_end r s) @ v" using trim_space_parts by blast
  moreover obtain w where "s = cut_end r s @ w" using cut_end_prefix by (metis prefixE)
  ultimately have whole: "s = u @ trim_space (cut_end r s) @ v @ w" by (metis append.assoc)
  have "length s = length u + length (trim_space (cut_end r s)) + length v + length w"
    by (subst whole) simp
  then consider "u = []" "v = []" "w = []" | "length (trim_space (cut_end r s)) < length s"
    by (cases "u = [] \<and> v = [] \<and> w = []") auto
  then show ?thesis using whole by cases auto
qed

lemma strip_pass_shorter: "strip_pass rs out = Some s \<Longrightarrow> s = out \<or> length s < length out"
proof (induction rs arbitrary: out)
  case (Cons r rs)
  then show ?case using trim_cut_shorter [of r out] by (fastforce simp: Let_def split: if_splits)
qed simp

function strip_suffixes :: "string \<Rightarrow> string option" where
  "strip_suffixes out =
     (case strip_pass searchTitleSuffixes out of
        None \<Rightarrow> None | Some s \<Rightarrow> if s = out then Some out else strip_suffixes s)"
  by pat_completeness auto
termination
  by (relation "measure length") (use strip_pass_shorter in fastforce)+

declare strip_suffixes.simps [simp del]

definition searchTitle :: "string \<Rightarrow> string" where
  "searchTitle title = (case strip_suffixes (trim_space title) of
       None \<Rightarrow> trim_space title | Some out \<Rightarrow> if out = '''' then trim_space title else out)"

section \<open>Scores\<close>

definition normalizedDisc :: "int \<Rightarrow> int" where
  "normalizedDisc v = (if v \<le> 0 then 1 else v)"

definition trackVersionSuffix :: regex where
  "trackVersionSuffix = rx_seq [rx_spaces, rx_char (CHR ''(''),
     rx_any [rx_word ''album version'', rx_word ''original mix'', rx_word ''radio edit''], rx_char (CHR '')''), rx_spaces]"

definition normalizedTrackTitle :: "unicode \<Rightarrow> string \<Rightarrow> string" where
  "normalizedTrackTitle U v = normalized U (cut_end trackVersionSuffix (trim_space v))"

record scoredRelease =
  sc_release :: release
  sc_score :: rat
  sc_evidence :: match_evidence

definition no_evidence :: match_evidence where
  "no_evidence = \<lparr>ev_embeddedReleaseID = False, ev_title = '''', ev_artist = '''', ev_year = '''', ev_trackCount = '''',
     ev_trackEvidence = 0, ev_titleEvidence = 0, ev_positions = 0, ev_recordings = None, ev_fragmentSnapshots = None\<rparr>"

definition title_matches :: "unicode \<Rightarrow> MusicBrainzAlbum \<Rightarrow> release \<Rightarrow> bool" where
  "title_matches U album r \<longleftrightarrow> normalized U (searchTitle (mb_Title album)) = normalized U (searchTitle (re_Title r))"

definition artist_matches :: "unicode \<Rightarrow> MusicBrainzAlbum \<Rightarrow> release \<Rightarrow> bool" where
  "artist_matches U album r \<longleftrightarrow>
     (let localArtists = map (\<lambda>c. normalized U (acr_Name c)) (mb_ArtistCredits album) @
          (if acr_Name (mb_PrimaryArtist album) \<noteq> '''' then [normalized U (acr_Name (mb_PrimaryArtist album))] else [])
      in list_ex (\<lambda>c. normalized U (xc_Name c) \<in> set localArtists \<or>
           list_ex (\<lambda>lc. acr_MusicBrainzID lc \<noteq> '''' \<and> acr_MusicBrainzID lc = xc_ID c) (mb_ArtistCredits album)) (re_Credits r))"

definition year_matches :: "MusicBrainzAlbum \<Rightarrow> release \<Rightarrow> bool" where
  "year_matches album r \<longleftrightarrow> 0 < mb_Year album \<and> 4 \<le> length (re_Date r) \<and> format_int (mb_Year album) = take 4 (re_Date r)"

definition track_count :: "release \<Rightarrow> int" where
  "track_count r = sum_list (map (\<lambda>m. if me_Tracks m = [] then me_TrackCount m else int (length (me_Tracks m))) (re_Media r))"

text \<open>Every pair of a local track and a release track in the same position.\<close>

definition at_position :: "MusicBrainzAlbum \<Rightarrow> medium \<Rightarrow> release_track \<Rightarrow> TrackRow list" where
  "at_position album m t = filter (\<lambda>lt. normalizedDisc (tr_Disc lt) = normalizedDisc (me_Position m) \<and> tr_Index lt = rt_Position t) (mb_Tracks album)"

definition position_pairs :: "MusicBrainzAlbum \<Rightarrow> release \<Rightarrow> (TrackRow \<times> release_track) list" where
  "position_pairs album r = List.concat (map (\<lambda>m. List.concat (map (\<lambda>t. map (\<lambda>lt. (lt, t)) (at_position album m t)) (me_Tracks m))) (re_Media r))"

definition title_pair :: "unicode \<Rightarrow> TrackRow \<times> release_track \<Rightarrow> bool" where
  "title_pair U p \<longleftrightarrow> normalizedTrackTitle U (tr_Title (fst p)) = normalizedTrackTitle U (rd_Title (rt_Recording (snd p)))"

definition duration_pair :: "TrackRow \<times> release_track \<Rightarrow> bool" where
  "duration_pair p \<longleftrightarrow> durationClose (tr_DurationMs (fst p)) (rd_Length (rt_Recording (snd p)))"

definition scoreRelease :: "unicode \<Rightarrow> MusicBrainzAlbum \<Rightarrow> release \<Rightarrow> rat \<times> match_evidence" where
  "scoreRelease U album r =
     (let pairs = position_pairs album r;
          durations = int (length (filter duration_pair pairs));
          titles = int (length (filter (title_pair U) pairs));
          n = mb_TrackCount album;
          exact = 0 < n \<and> track_count r = n
      in ((if title_matches U album r then 45 else 0) + (if artist_matches U album r then 25 else 0) +
          (if year_matches album r then 10 else 0) + (if exact then 10 else 0) +
          (if 0 < n then 10 * of_int durations / of_int n else 0),
          no_evidence\<lparr>ev_title := if title_matches U album r then ''exact'' else '''',
            ev_artist := if artist_matches U album r then ''matched'' else '''',
            ev_year := if year_matches album r then ''exact'' else '''',
            ev_trackCount := if exact then ''exact'' else '''',
            ev_trackEvidence := if 0 < n then durations else 0,
            ev_titleEvidence := if 0 < n then titles else 0,
            ev_positions := if 0 < n then int (length pairs) else 0\<rparr>))"

text \<open>The candidates by score, best first; equal ones in the order they came. A release the files name is
  certain.\<close>

definition score_candidate :: "unicode \<Rightarrow> MusicBrainzAlbum \<Rightarrow> release \<Rightarrow> scoredRelease" where
  "score_candidate U album r =
     (let (score, evidence) = (if mb_ReleaseID album \<noteq> '''' \<and> re_ID r = mb_ReleaseID album
        then (100, no_evidence\<lparr>ev_embeddedReleaseID := True\<rparr>) else scoreRelease U album r)
      in \<lparr>sc_release = r, sc_score = score, sc_evidence = evidence\<rparr>)"

definition scoreCandidates :: "unicode \<Rightarrow> MusicBrainzAlbum \<Rightarrow> release list \<Rightarrow> scoredRelease list" where
  "scoreCandidates U album candidates = sort_key (\<lambda>c. - sc_score c) (map (score_candidate U album) candidates)"

definition persisted :: "scoredRelease \<Rightarrow> MusicBrainzCandidate" where
  "persisted s = \<lparr>mc_ReleaseID = re_ID (sc_release s), mc_ReleaseGroupID = re_ReleaseGroup (sc_release s), mc_Title = re_Title (sc_release s),
     mc_ArtistCredit = creditText (re_Credits (sc_release s)), mc_Score = sc_score s, mc_Evidence = sc_evidence s\<rparr>"

definition persistedWithFragments :: "scoredRelease \<Rightarrow> MusicBrainzAlbum list \<Rightarrow> MusicBrainzCandidate" where
  "persistedWithFragments candidate fragments =
     (let p = persisted candidate
      in if fragments = [] then p else p\<lparr>mc_Evidence := (mc_Evidence p)\<lparr>ev_fragmentSnapshots := Some fragments\<rparr>\<rparr>)"

section \<open>The rules\<close>

definition acceptScore :: rat where "acceptScore = 80"
definition acceptMargin :: rat where "acceptMargin = 10"

definition strongSearchMatch :: "MusicBrainzAlbum \<Rightarrow> scoredRelease \<Rightarrow> bool" where
  "strongSearchMatch album c \<longleftrightarrow>
     (let e = sc_evidence c; positions = ev_positions e; titles = ev_titleEvidence e; durations = ev_trackEvidence e
      in if ev_title e \<noteq> ''exact'' \<or> ev_artist e \<noteq> ''matched'' \<or> positions = 0 then False
         else if ev_trackCount e = ''exact'' \<and> positions = mb_TrackCount album \<and> titles * 5 \<ge> mb_TrackCount album * 4 then True
         else if titles = 0 then False
         else if 0 < mb_Year album then ev_year e = ''exact'' \<and> (titles \<ge> 2 \<or> mb_TrackCount album = 1 \<and> durations = 1)
         else titles \<ge> 2 \<and> durations \<ge> 2)"

definition strongCandidate :: "MusicBrainzAlbum \<Rightarrow> scoredRelease \<Rightarrow> bool" where
  "strongCandidate album c \<longleftrightarrow>
     (if sc_score c \<ge> acceptScore \<and> strongSearchMatch album c then True
      else
        (let e = sc_evidence c
         in sc_score c \<ge> 60 \<and> ev_title e = ''exact'' \<and> ev_year e = ''exact'' \<and> ev_trackCount e = ''exact'' \<and>
            ev_positions e = mb_TrackCount album \<and> ev_titleEvidence e * 5 \<ge> mb_TrackCount album * 4))"

definition structurallyUnique :: "MusicBrainzAlbum \<Rightarrow> release \<Rightarrow> bool" where
  "structurallyUnique album r \<longleftrightarrow>
     list_all (\<lambda>lt. 0 < tr_Index lt \<and>
       length (List.concat (map (\<lambda>m. filter (\<lambda>t. normalizedDisc (me_Position m) = normalizedDisc (tr_Disc lt) \<and> rt_Position t = tr_Index lt)
         (me_Tracks m)) (re_Media r))) = 1) (mb_Tracks album) \<and> mb_Tracks album \<noteq> []"

text \<open>The recordings at the positions the album has; a later one replaces an earlier one there.\<close>

definition alignedRecordings :: "MusicBrainzAlbum \<Rightarrow> release \<Rightarrow> (disc_position \<times> string) list" where
  "alignedRecordings album r =
     fold (\<lambda>(k, v) al. AList.update k v al)
       (List.concat (map (\<lambda>m. List.concat (map (\<lambda>t.
          map (\<lambda>lt. ((normalizedDisc (me_Position m), rt_Position t), rd_ID (rt_Recording t))) (at_position album m t)) (me_Tracks m))) (re_Media r))) []"

definition same_recordings :: "(disc_position \<times> string) list \<Rightarrow> (disc_position \<times> string) list \<Rightarrow> bool" where
  "same_recordings reference other \<longleftrightarrow> length other = length reference \<and>
     list_all (\<lambda>(k, v). (case map_of other k of None \<Rightarrow> '''' | Some w \<Rightarrow> w) = v) reference"

definition same_group :: "scoredRelease list \<Rightarrow> bool" where
  "same_group cs \<longleftrightarrow> cs = [] \<or> re_ReleaseGroup (sc_release (hd cs)) \<noteq> '''' \<and>
     list_all (\<lambda>c. re_ReleaseGroup (sc_release c) = re_ReleaseGroup (sc_release (hd cs))) (tl cs)"

definition editionTiebreak :: "MusicBrainzAlbum \<Rightarrow> scoredRelease list \<Rightarrow> scoredRelease option" where
  "editionTiebreak album scored =
     (let fitting = filter (\<lambda>c. ev_trackCount (sc_evidence c) = ''exact'' \<and> strongCandidate album c) scored
      in if \<not> same_group fitting then None
         else case fitting of
           [] \<Rightarrow> None
         | [c] \<Rightarrow> Some c
         | c # cs \<Rightarrow>
             if list_all (\<lambda>d. same_recordings (alignedRecordings album (sc_release c)) (alignedRecordings album (sc_release d))) cs
             then Some c else None)"

definition completeDurationStructure :: "MusicBrainzAlbum \<Rightarrow> scoredRelease \<Rightarrow> bool" where
  "completeDurationStructure album c \<longleftrightarrow>
     (let e = sc_evidence c
      in sc_score c \<ge> 60 \<and> ev_title e = ''exact'' \<and> ev_year e = ''exact'' \<and> ev_trackCount e = ''exact'' \<and>
         ev_positions e = mb_TrackCount album \<and> ev_trackEvidence e * 5 \<ge> mb_TrackCount album * 4)"

definition structuralEditionConsensus :: "MusicBrainzAlbum \<Rightarrow> scoredRelease list \<Rightarrow> scoredRelease option" where
  "structuralEditionConsensus album scored =
     (let fitting = filter (\<lambda>c. ev_trackCount (sc_evidence c) = ''exact'' \<and> (strongCandidate album c \<or> completeDurationStructure album c)) scored
      in if length fitting < 2 \<or> \<not> same_group fitting then None else Some (hd fitting))"

fun shared_artist :: "string \<Rightarrow> scoredRelease list \<Rightarrow> string option" where
  "shared_artist artistID [] = Some artistID"
| "shared_artist artistID (c # cs) =
     (case re_Credits (sc_release c) of
        [] \<Rightarrow> None
      | a # _ \<Rightarrow>
          if xc_ID a = '''' then None
          else if artistID = '''' then shared_artist (xc_ID a) cs
          else if artistID \<noteq> xc_ID a then None
          else shared_artist artistID cs)"

definition consensusIdentity :: "scoredRelease list \<Rightarrow> CanonicalRelease option" where
  "consensusIdentity scored =
     (case filter (\<lambda>c. sc_score c \<ge> 60) scored of
        [] \<Rightarrow> None
      | p # ps \<Rightarrow>
          (case shared_artist '''' (p # ps) of
             None \<Rightarrow> None
           | Some _ \<Rightarrow>
               Some \<lparr>kr_ReleaseID = '''',
                 kr_ReleaseGroupID = (if list_all (\<lambda>c. re_ReleaseGroup (sc_release c) = re_ReleaseGroup (sc_release p)) ps
                   then re_ReleaseGroup (sc_release p) else ''''),
                 kr_Title = '''', kr_ReleaseDate = '''', kr_AlbumCredits = kr_AlbumCredits (canonical (sc_release p)), kr_Tracks = [],
                 kr_Authoritative = False, kr_ReconcileOnly = False\<rparr>))"

section \<open>What the rules promise\<close>

lemma of_filter_length: "0 < int (length (filter P xs)) \<Longrightarrow> \<exists>x \<in> set xs. P x"
  by (auto simp: filter_empty_conv)

lemma position_pairsD:
  "(lt, t) \<in> set (position_pairs album r) \<Longrightarrow>
     lt \<in> set (mb_Tracks album) \<and> (\<exists>m \<in> set (re_Media r). t \<in> set (me_Tracks m) \<and>
       normalizedDisc (tr_Disc lt) = normalizedDisc (me_Position m) \<and> tr_Index lt = rt_Position t)"
  by (auto simp: position_pairs_def at_position_def)

text \<open>A local track and a track of the release in the same position with the same title.\<close>

definition shares_track :: "unicode \<Rightarrow> MusicBrainzAlbum \<Rightarrow> release \<Rightarrow> bool" where
  "shares_track U album r \<longleftrightarrow> (\<exists>p \<in> set (position_pairs album r). title_pair U p)"

lemma strong_evidence:
  assumes "strongCandidate album (score_candidate U album r)" and "mb_ReleaseID album = '''' \<or> re_ID r \<noteq> mb_ReleaseID album"
  shows "title_matches U album r \<and> (artist_matches U album r \<or> year_matches album r) \<and> shares_track U album r \<and>
    (year_matches album r \<or> mb_Year album \<le> 0 \<or> track_count r = mb_TrackCount album)"
proof -
  let ?pairs = "position_pairs album r"
  let ?titles = "int (length (filter (title_pair U) ?pairs))"
  obtain e where e: "score_candidate U album r = \<lparr>sc_release = r, sc_score = fst (scoreRelease U album r), sc_evidence = e\<rparr>"
    "e = snd (scoreRelease U album r)"
    using assms(2) by (auto simp: score_candidate_def split_def Let_def)
  have ev: "ev_title e = ''exact'' \<longleftrightarrow> title_matches U album r" "ev_artist e = ''matched'' \<longleftrightarrow> artist_matches U album r"
      "ev_year e = ''exact'' \<longleftrightarrow> year_matches album r" "ev_trackCount e = ''exact'' \<longleftrightarrow> 0 < mb_TrackCount album \<and> track_count r = mb_TrackCount album"
      "ev_titleEvidence e = (if 0 < mb_TrackCount album then ?titles else 0)"
    by (simp_all add: e(2) scoreRelease_def Let_def)
  have "0 < ev_titleEvidence e"
    using assms(1) ev(4,5) by (auto simp: e(1) strongCandidate_def strongSearchMatch_def Let_def split: if_splits)
  then have "shares_track U album r"
    using ev(5) of_filter_length by (auto simp: shares_track_def split: if_splits)
  then show ?thesis
    using assms(1) ev(1-4) by (auto simp: e(1) strongCandidate_def strongSearchMatch_def Let_def split: if_splits)
qed

lemma trim_space_trim [simp]: "trim_space (trim_space s) = trim_space s"
proof -
  let ?t = "trim_space s"
  have "\<not> prefix w ?t" if w: "w \<in> set space_runes" for w
    using trim_left_fuel_done [OF order_refl w, of s] trim_right_fuel_prefix [of "length (trim_left s)" "trim_left s"]
    by (auto simp: trim_space_def trim_right_def trim_left_def dest: prefix_order.trans)
  then have none: "find (\<lambda>w. prefix w ?t) space_runes = None" "find (\<lambda>w. suffix w ?t) space_runes = None"
    using trim_space_no_trailing by (auto simp: find_None_iff)
  have "trim_left ?t = ?t" using none(1) by (cases "length ?t") (auto simp: trim_left_def)
  moreover have "trim_right ?t = ?t" using none(2) by (cases "length ?t") (auto simp: trim_right_def)
  ultimately show ?thesis by (simp add: trim_space_def [of ?t])
qed

lemma strip_pass_trimmed: "strip_pass rs out = Some s \<Longrightarrow> trim_space out = out \<Longrightarrow> trim_space s = s"
  by (induction rs arbitrary: out) (auto simp: Let_def split: if_splits)

lemma strip_suffixes_stable:
  "strip_suffixes out = Some s \<Longrightarrow> trim_space out = out \<Longrightarrow> strip_suffixes s = Some s \<and> trim_space s = s"
proof (induction out rule: strip_suffixes.induct)
  case (1 out)
  obtain nxt where nxt: "strip_pass searchTitleSuffixes out = Some nxt"
    using "1.prems"(1) by (auto simp: strip_suffixes.simps [of out] split: option.splits)
  show ?case
  proof (cases "nxt = out")
    case True
    then have "s = out" using "1.prems"(1) nxt by (simp add: strip_suffixes.simps [of out])
    then show ?thesis using "1.prems" by simp
  next
    case False
    then show ?thesis
      using "1.prems" "1.IH" [OF nxt] nxt strip_pass_trimmed [OF nxt] by (simp add: strip_suffixes.simps [of out])
  qed
qed

text \<open>Nothing is left to strip from a search title.\<close>

lemma searchTitle_stable: "searchTitle (searchTitle title) = searchTitle title"
proof (cases "strip_suffixes (trim_space title)")
  case None
  then show ?thesis by (simp add: searchTitle_def)
next
  case (Some out)
  then have "strip_suffixes out = Some out" "trim_space out = out" using strip_suffixes_stable [OF Some] by simp_all
  then show ?thesis using Some by (simp add: searchTitle_def)
qed

end
