(* ===== verification/ReleaseStore.thy ===== *)
theory ReleaseStore
  imports ReleaseUnion ProfileStore ArtistIdentity
begin

text \<open>
  What the store keeps of the albums' MusicBrainz identity (\<open>internal/store/musicbrainz.go\<close>): the albums
  that are due, the snapshot an answer is checked against, the outcome of an attempt with its
  candidates, and the statements that bring canonical credits into the catalogue. The state is the
  store with the table of candidates. The evidence of a candidate is stored as it is: of its JSON text
  only the track count and the recordings are ever read back.
\<close>

section \<open>State\<close>

record candidate_row =
  cd_album_id :: string
  cd_position :: nat
  cd_candidate :: MusicBrainzCandidate

record release_db =
  rb_store :: profile_db
  rb_candidates :: "candidate_row table"

abbreviation lib :: "release_db \<Rightarrow> catalog" where "lib d \<equiv> pd_cat (rb_store d)"

definition with_lib :: "catalog \<Rightarrow> release_db \<Rightarrow> release_db" where
  "with_lib s d = d\<lparr>rb_store := (rb_store d)\<lparr>pd_cat := s\<rparr>\<rparr>"

datatype release_err = RNoRows | RStore cat_err

definition on_lib :: "(catalog \<Rightarrow> catalog \<times> (cat_err + 'a)) \<Rightarrow> release_db \<Rightarrow> release_db \<times> (release_err + 'a)" where
  "on_lib f d = (case f (lib d) of (s, Inl e) \<Rightarrow> (with_lib s d, Inl (RStore e)) | (s, Inr x) \<Rightarrow> (with_lib s d, Inr x))"

abbreviation lib_stmt :: "(catalog \<Rightarrow> catalog) \<Rightarrow> release_db \<Rightarrow> release_db \<times> (release_err + unit)" where
  "lib_stmt f \<equiv> on_lib (exec f)"

text \<open>A statement of the other tables, which no constraint here can refuse.\<close>

definition on_store :: "(profile_db \<Rightarrow> profile_db) \<Rightarrow> release_db \<Rightarrow> release_db \<times> (release_err + unit)" where
  "on_store f d = (d\<lparr>rb_store := f (rb_store d)\<rparr>, Inr ())"

section \<open>Path evidence and snapshots\<close>

definition pathAlbumCandidate :: "string \<Rightarrow> string \<Rightarrow> (string \<times> int) option" where
  "pathAlbumCandidate sourceKind native = (if sourceKind \<noteq> ''filesystem'' then None else FilesystemAlbumPathEvidence native)"

fun path_evidence_from :: "unicode \<Rightarrow> track_row list \<Rightarrow> string \<Rightarrow> (string \<times> int) list \<Rightarrow> string \<times> (string \<times> int) list" where
  "path_evidence_from U [] title discs = (title, discs)"
| "path_evidence_from U (t # ts) title discs =
     (case pathAlbumCandidate (tk_source_kind t) (tk_native_id t) of
        None \<Rightarrow> ('''', [])
      | Some (candidate, disc) \<Rightarrow>
          if title \<noteq> '''' \<and> normalized U candidate \<noteq> normalized U title then ('''', [])
          else path_evidence_from U ts (if title = '''' then candidate else title)
                 (if 0 < disc then discs @ [(tk_track_id t, disc)] else discs))"

definition present_tracks :: "catalog \<Rightarrow> string \<Rightarrow> track_row list" where
  "present_tracks s albumID = sort_key tk_track_id (filter (\<lambda>t. tk_album_id t = albumID \<and> \<not> tk_missing t) (ct_tracks s))"

definition musicBrainzPathEvidence :: "unicode \<Rightarrow> catalog \<Rightarrow> string \<Rightarrow> string \<times> (string \<times> int) list" where
  "musicBrainzPathEvidence U s albumID = path_evidence_from U (present_tracks s albumID) '''' []"

definition no_track :: TrackRow where
  "no_track = \<lparr>tr_TrackID = '''', tr_Title = '''', tr_Index = 0, tr_Disc = 0, tr_ArtistID = '''', tr_ArtistName = '''',
     tr_AlbumID = '''', tr_AlbumTitle = '''', tr_Genre = '''', tr_DurationMs = 0, tr_ArtID = '''', tr_Container = '''',
     tr_Codec = '''', tr_BitrateKbps = 0, tr_SizeBytes = 0, tr_PrimaryArtist = no_credit, tr_ArtistCredits = [],
     tr_MusicBrainzRecordingID = ''''\<rparr>"

definition snapshot_track :: "track_row \<Rightarrow> TrackRow" where
  "snapshot_track t = no_track\<lparr>tr_TrackID := tk_track_id t, tr_Index := or_zero (tk_idx t), tr_Disc := or_zero (tk_disc t),
     tr_Title := tk_title t, tr_DurationMs := tk_duration_ms t\<rparr>"

definition musicBrainzSnapshotTx :: "unicode \<Rightarrow> catalog \<Rightarrow> string \<Rightarrow> MusicBrainzAlbum option" where
  "musicBrainzSnapshotTx U s albumID =
     (case album_by_id s albumID of
        None \<Rightarrow> None
      | Some a \<Rightarrow>
          (let tracks = map snapshot_track (present_tracks s albumID); (title, discs) = musicBrainzPathEvidence U s albumID
           in Some \<lparr>mb_AlbumID = al_album_id a, mb_Title = al_title a, mb_ReleaseID = or_empty (al_release_id a),
                mb_ReleaseGroupID = or_empty (al_group_id a), mb_Year = or_zero (al_year a), mb_TrackCount = int (length tracks),
                mb_Version = al_change_seq a, mb_PrimaryArtist = no_credit, mb_ArtistCredits = [], mb_Tracks = tracks, mb_DueAt = 0,
                mb_PathTitle = title, mb_PathDiscs = discs, mb_DueRank = 0\<rparr>))"

section \<open>Due albums\<close>

definition match_of :: "catalog \<Rightarrow> string \<Rightarrow> match_row option" where
  "match_of s albumID = select1 (\<lambda>m. mr_album_id m = albumID) (ct_matches s)"

definition due_at :: "catalog \<Rightarrow> string \<Rightarrow> seconds" where
  "due_at s albumID = (case match_of s albumID of None \<Rightarrow> 0 | Some m \<Rightarrow> mr_next_attempt_at m)"

text \<open>Present, not matched, and its next attempt has come.\<close>

definition identity_due :: "catalog \<Rightarrow> seconds \<Rightarrow> album_row \<Rightarrow> bool" where
  "identity_due s now a \<longleftrightarrow> \<not> al_missing a \<and> (case match_of s (al_album_id a) of None \<Rightarrow> True | Some m \<Rightarrow> mr_state m \<noteq> ''matched'') \<and>
     due_at s (al_album_id a) \<le> now"

definition due_rank :: "catalog \<Rightarrow> album_row \<Rightarrow> int" where
  "due_rank s a =
     (if al_release_id a \<noteq> None then 0 else if al_group_id a \<noteq> None then 1
      else if (case artist_by_id s (al_artist_id a) of None \<Rightarrow> False | Some r \<Rightarrow> ar_mbid r \<noteq> None) then 2 else 3)"

definition due_key :: "catalog \<Rightarrow> album_row \<Rightarrow> seconds \<times> int \<times> string" where
  "due_key s a = (due_at s (al_album_id a), due_rank s a, al_album_id a)"

definition due_album :: "unicode \<Rightarrow> catalog \<Rightarrow> album_row \<Rightarrow> AlbumRow \<Rightarrow> TrackRow list \<Rightarrow> MusicBrainzAlbum" where
  "due_album U s a b tracks =
     (let (title, discs) = musicBrainzPathEvidence U s (al_album_id a)
      in \<lparr>mb_AlbumID = bx_AlbumID b, mb_Title = bx_Title b, mb_ReleaseID = bx_MusicBrainzReleaseID b,
          mb_ReleaseGroupID = bx_MusicBrainzReleaseGroupID b, mb_Year = bx_Year b, mb_TrackCount = int (bx_TrackCount b),
          mb_Version = al_change_seq a, mb_PrimaryArtist = bx_PrimaryArtist b, mb_ArtistCredits = bx_ArtistCredits b, mb_Tracks = tracks,
          mb_DueAt = due_at s (al_album_id a), mb_PathTitle = title, mb_PathDiscs = discs, mb_DueRank = due_rank s a\<rparr>)"

fun due_albums :: "unicode \<Rightarrow> catalog \<Rightarrow> album_row list \<Rightarrow> cat_err + MusicBrainzAlbum list" where
  "due_albums U s [] = Inr []"
| "due_albums U s (a # as) =
     (case GetAlbum s (al_album_id a) of
        None \<Rightarrow> due_albums U s as
      | Some b \<Rightarrow>
          (case ListAlbumTracks s (al_album_id a) of
             Inl e \<Rightarrow> Inl e
           | Inr tracks \<Rightarrow> (case due_albums U s as of Inl e \<Rightarrow> Inl e | Inr out \<Rightarrow> Inr (due_album U s a b tracks # out))))"

text \<open>In the order of the due time, the identity an album already has, and its id; the page after a key.\<close>

definition DueMusicBrainzAlbumsPage ::
  "unicode \<Rightarrow> catalog \<Rightarrow> seconds \<Rightarrow> seconds \<times> int \<times> string \<Rightarrow> nat \<Rightarrow> cat_err + MusicBrainzAlbum list" where
  "DueMusicBrainzAlbumsPage U s now after limit =
     due_albums U s (take limit (sort_key (due_key s) (filter (\<lambda>a. identity_due s now a \<and>
       artist_by_id s (al_artist_id a) \<noteq> None \<and> after < due_key s a) (ct_albums s))))"

definition DueMusicBrainzAlbums :: "unicode \<Rightarrow> catalog \<Rightarrow> seconds \<Rightarrow> nat \<Rightarrow> cat_err + MusicBrainzAlbum list" where
  "DueMusicBrainzAlbums U s now limit = DueMusicBrainzAlbumsPage U s now (-1, -1, '''') limit"

definition CountDueMusicBrainzAlbums :: "catalog \<Rightarrow> seconds \<Rightarrow> nat" where
  "CountDueMusicBrainzAlbums s now = count_where (identity_due s now) (ct_albums s)"

section \<open>The outcome of an attempt\<close>

definition put_match :: "match_row \<Rightarrow> catalog \<Rightarrow> catalog" where
  "put_match m s = s\<lparr>ct_matches := upsert mr_album_id m (\<lambda>r. m\<lparr>mr_attempt_count := mr_attempt_count r + 1\<rparr>) (ct_matches s)\<rparr>"

definition candidate_rows :: "string \<Rightarrow> MusicBrainzCandidate list \<Rightarrow> candidate_row list" where
  "candidate_rows albumID cs = map (\<lambda>(i, c). \<lparr>cd_album_id = albumID, cd_position = i, cd_candidate = c\<rparr>) (enumerate 0 cs)"

text \<open>The album's row must exist (a foreign key).\<close>

definition recordMusicBrainzResultTx ::
  "string \<Rightarrow> string \<Rightarrow> MusicBrainzCandidate \<Rightarrow> MusicBrainzCandidate list \<Rightarrow> seconds \<Rightarrow> string \<Rightarrow> seconds \<Rightarrow>
   release_db \<Rightarrow> release_db \<times> (release_err + unit)" where
  "recordMusicBrainzResultTx albumID state selected candidates nxt lastError now d =
     (if album_by_id (lib d) albumID = None then (d, Inl (RStore ConstraintFailed))
      else ((with_lib (put_match \<lparr>mr_album_id = albumID, mr_state = state, mr_release_id = nullStr (mc_ReleaseID selected),
               mr_group_id = nullStr (mc_ReleaseGroupID selected), mr_confidence = mc_Score selected, mr_attempt_count = 1,
               mr_next_attempt_at = nxt, mr_last_error = lastError, mr_updated_at = now\<rparr> (lib d)) d)
             \<lparr>rb_candidates := delete_where (\<lambda>c. cd_album_id c = albumID) (rb_candidates d) @ candidate_rows albumID candidates\<rparr>, Inr ()))"

definition RecordMusicBrainzResult ::
  "string \<Rightarrow> string \<Rightarrow> MusicBrainzCandidate \<Rightarrow> MusicBrainzCandidate list \<Rightarrow> seconds \<Rightarrow> string \<Rightarrow> seconds \<Rightarrow>
   release_db \<Rightarrow> release_db \<times> (release_err + unit)" where
  "RecordMusicBrainzResult albumID state selected candidates nxt lastError now =
     in_tx (recordMusicBrainzResultTx albumID state selected candidates nxt lastError now)"

section \<open>Canonical credits\<close>

definition same_canonical :: "ArtistCreditRow list \<Rightarrow> ArtistCredit list \<Rightarrow> bool" where
  "same_canonical existing credits \<longleftrightarrow> length existing = length credits \<and>
     list_all (\<lambda>(e, c). acr_MusicBrainzID e = ac_MBID c \<and> acr_Name e = ac_Name c \<and> acr_JoinPhrase e = ac_JoinPhrase c) (zip existing credits)"

text \<open>An artist without a MusicBrainz id that may take the credit's: the owner's primary artist for the
  first credit, for the others the only one of that name.\<close>

definition adoptable :: "catalog \<Rightarrow> nat \<Rightarrow> string \<Rightarrow> ArtistCredit \<Rightarrow> artist_row option" where
  "adoptable s i primaryOwner c =
     (if i = 0
      then (if primaryOwner \<noteq> '''' then select1 (\<lambda>a. ar_artist_id a = primaryOwner \<and> ar_mbid a = None) (ct_artists s) else None)
      else (case filter (\<lambda>a. ar_mbid a = None \<and> same_text (ar_name a) (ac_Name c)) (ct_artists s) of [a] \<Rightarrow> Some a | _ \<Rightarrow> None))"

definition adopt_artist :: "string \<Rightarrow> string \<Rightarrow> int \<Rightarrow> catalog \<Rightarrow> catalog" where
  "adopt_artist aid mbid seq s = s\<lparr>ct_artists := update_where (\<lambda>a. ar_artist_id a = aid)
     (\<lambda>a. a\<lparr>ar_mbid := Some mbid, ar_missing := False, ar_change_seq := seq,
        ar_retry := (ar_retry a)\<lparr>rt_next_attempt_at := 0, rt_miss_count := 0\<rparr>\<rparr>) (ct_artists s)\<rparr>"

definition insert_canonical_artist :: "string \<Rightarrow> string \<Rightarrow> string \<Rightarrow> seconds \<Rightarrow> int \<Rightarrow> catalog \<Rightarrow> catalog" where
  "insert_canonical_artist aid name mbid now seq s = s\<lparr>ct_artists := ct_artists s @
     [\<lparr>ar_artist_id = aid, ar_name = name, ar_mbid = Some mbid, ar_art_id = None, ar_missing = False,
       ar_created_at = now, ar_change_seq = seq, ar_retry = no_retry\<rparr>]\<rparr>"

definition rename_artist :: "string \<Rightarrow> string \<Rightarrow> int \<Rightarrow> catalog \<Rightarrow> catalog" where
  "rename_artist aid name seq s = s\<lparr>ct_artists := update_where (\<lambda>a. ar_artist_id a = aid)
     (\<lambda>a. a\<lparr>ar_name := name, ar_change_seq := seq\<rparr>) (ct_artists s)\<rparr>"

text \<open>The artist a canonical credit stands for, and the name it had (none for a new one).\<close>

definition canonical_artist :: "nat \<Rightarrow> string \<Rightarrow> ArtistCredit \<Rightarrow> seconds \<Rightarrow> int \<Rightarrow> catalog \<Rightarrow> catalog \<times> (cat_err + (string \<times> string))" where
  "canonical_artist i primaryOwner c now seq s =
     (case artist_by_mbid s (ac_MBID c) of
        Some a \<Rightarrow> (s, Inr (ar_artist_id a, ar_name a))
      | None \<Rightarrow>
          (case adoptable s i primaryOwner c of
             Some a \<Rightarrow> bindE (exec (adopt_artist (ar_artist_id a) (ac_MBID c) seq)) (\<lambda>_. returnE (ar_artist_id a, ar_name a)) s
           | None \<Rightarrow> bindE (draw_id ''art'') (\<lambda>aid.
               bindE (exec (insert_canonical_artist aid (ac_Name c) (ac_MBID c) now seq)) (\<lambda>_. returnE (aid, ''''))) s))"

definition replace_credit ::
  "credit_table \<Rightarrow> string \<Rightarrow> string \<Rightarrow> ArtistCreditRow list \<Rightarrow> nat \<Rightarrow> ArtistCredit \<Rightarrow> seconds \<Rightarrow> int \<Rightarrow> catalog \<Rightarrow> catalog \<times> (cat_err + unit)" where
  "replace_credit ct owner primaryOwner existing i c now seq =
     bindE (canonical_artist i primaryOwner c now seq) (\<lambda>(aid, name).
     bindE (if ac_Name c \<noteq> name \<and> name \<noteq> ''''
            then bindE (exec (insert_alias aid name)) (\<lambda>_. exec (rename_artist aid (ac_Name c) seq))
            else returnE ()) (\<lambda>_.
     bindE (if i < length existing \<and> acr_Name (existing ! i) \<noteq> '''' \<and> acr_Name (existing ! i) \<noteq> ac_Name c
            then exec (insert_alias aid (acr_Name (existing ! i)))
            else returnE ()) (\<lambda>_.
     exec (\<lambda>s. set_credits ct (credits_of ct s @
       [\<lparr>cr_owner = owner, cr_position = i, cr_artist_id = aid, cr_name = ac_Name c, cr_join = ac_JoinPhrase c\<rparr>]) s))))"

fun replace_credits_from ::
  "credit_table \<Rightarrow> string \<Rightarrow> string \<Rightarrow> ArtistCreditRow list \<Rightarrow> nat \<Rightarrow> ArtistCredit list \<Rightarrow> seconds \<Rightarrow> int \<Rightarrow> catalog \<Rightarrow> catalog \<times> (cat_err + unit)" where
  "replace_credits_from ct owner primaryOwner existing i [] now seq = returnE ()"
| "replace_credits_from ct owner primaryOwner existing i (c # cs) now seq =
     bindE (replace_credit ct owner primaryOwner existing i c now seq) (\<lambda>_.
       replace_credits_from ct owner primaryOwner existing (i + 1) cs now seq)"

text \<open>Whether the credits were replaced.\<close>

definition replaceCreditsTx ::
  "credit_table \<Rightarrow> string \<Rightarrow> string \<Rightarrow> ArtistCredit list \<Rightarrow> seconds \<Rightarrow> int \<Rightarrow> catalog \<Rightarrow> catalog \<times> (cat_err + bool)" where
  "replaceCreditsTx ct owner primaryOwner credits now seq s =
     (let existing = readCredits ct owner s
      in if same_canonical existing credits then (s, Inr False)
         else bindE (exec (\<lambda>s. set_credits ct (delete_where (\<lambda>c. cr_owner c = owner) (credits_of ct s)) s)) (\<lambda>_.
              bindE (replace_credits_from ct owner primaryOwner existing 0 credits now seq) (\<lambda>_. returnE True)) s)"

section \<open>What an artist's card counts\<close>

definition album_artists :: "catalog \<Rightarrow> string \<Rightarrow> string list" where
  "album_artists s albumID = remdups (
     map al_artist_id (filter (\<lambda>a. al_album_id a = albumID) (ct_albums s)) @
     map cr_artist_id (filter (\<lambda>c. cr_owner c = albumID) (ct_album_credits s)) @
     map tk_artist_id (filter (\<lambda>t. tk_album_id t = albumID) (ct_tracks s)) @
     map cr_artist_id (filter (\<lambda>c. list_ex (\<lambda>t. tk_track_id t = cr_owner c \<and> tk_album_id t = albumID) (ct_tracks s)) (ct_track_credits s)))"

definition artist_counts :: "catalog \<Rightarrow> string \<Rightarrow> nat \<times> nat" where
  "artist_counts s i =
     (count_where (\<lambda>a. al_artist_id a = i \<and> \<not> al_missing a) (ct_albums s),
      count_where (\<lambda>t. \<not> tk_missing t \<and> list_ex (\<lambda>c. cr_owner c = tk_track_id t \<and> cr_artist_id c = i) (ct_track_credits s)) (ct_tracks s))"

definition albumArtistCountsTx :: "catalog \<Rightarrow> string \<Rightarrow> (string \<times> (nat \<times> nat)) list" where
  "albumArtistCountsTx s albumID = map (\<lambda>i. (i, artist_counts s i)) (album_artists s albumID)"

definition counts_for :: "(string \<times> (nat \<times> nat)) list \<Rightarrow> string \<Rightarrow> nat \<times> nat" where
  "counts_for counts i = (case map_of counts i of None \<Rightarrow> (0, 0) | Some c \<Rightarrow> c)"

text \<open>The artists whose counts differ between two readings, the order of a Go map being immaterial here.\<close>

definition recounted :: "(string \<times> (nat \<times> nat)) list \<Rightarrow> (string \<times> (nat \<times> nat)) list \<Rightarrow> string list" where
  "recounted prior after = map fst (filter (\<lambda>(i, c). counts_for after i \<noteq> c) prior) @ map fst (filter (\<lambda>(i, c). counts_for prior i \<noteq> c) after)"

end
