(* ===== verification/SplitAlbum.thy ===== *)
theory SplitAlbum
  imports ReleaseStore
begin

text \<open>
  An album whose tracks were filed under several album rows
  (\<open>internal/store/split_album_reconciliation.go\<close>): the union a release is scored against, the plan
  that joins the fragments to the anchor when they fit the release together, and the statements that
  carry it out: tracks, artwork, loves, ratings and recommendations move to the anchor, the fragments
  retire. \<open>strings.EqualFold\<close> (\<open>eqf\<close>) is a parameter. The snapshots of the fragments reach the plan as
  the resolver built them, never as decoded JSON.
\<close>

section \<open>The union\<close>

text \<open>The fragments that may belong to the anchor, in order; nothing if they name several release groups or
  one has a track that is gone.\<close>

definition all_present :: "catalog \<Rightarrow> string \<Rightarrow> bool" where
  "all_present s albumID \<longleftrightarrow> (let ts = filter (\<lambda>t. tk_album_id t = albumID) (ct_tracks s) in ts \<noteq> [] \<and> list_all (\<lambda>t. \<not> tk_missing t) ts)"

fun union_fragments ::
  "unicode \<Rightarrow> (string \<Rightarrow> string \<Rightarrow> bool) \<Rightarrow> catalog \<Rightarrow> MusicBrainzAlbum \<Rightarrow> album_row list \<Rightarrow> string list \<Rightarrow>
   MusicBrainzAlbum list \<Rightarrow> release_err + MusicBrainzAlbum list option" where
  "union_fragments U eqf s anchor [] groups fragments = Inr (Some fragments)"
| "union_fragments U eqf s anchor (a # as) groups fragments =
     (case musicBrainzSnapshotTx U s (al_album_id a) of
        None \<Rightarrow> Inl RNoRows
      | Some f \<Rightarrow>
          if \<not> musicBrainzAlbumTitlesCompatible U eqf anchor f then union_fragments U eqf s anchor as groups fragments
          else
            (let groups' = (if mb_ReleaseGroupID f = '''' then groups else List.insert (mb_ReleaseGroupID f) groups)
             in if mb_ReleaseGroupID f \<noteq> '''' \<and> 1 < length groups' then Inr None
                else if \<not> all_present s (al_album_id a) then Inr None
                else union_fragments U eqf s anchor as groups' (fragments @ [f])))"

definition MusicBrainzAlbumUnionCandidate ::
  "unicode \<Rightarrow> (string \<Rightarrow> string \<Rightarrow> bool) \<Rightarrow> catalog \<Rightarrow> MusicBrainzAlbum \<Rightarrow> release_err + (MusicBrainzAlbum \<times> MusicBrainzAlbum list)" where
  "MusicBrainzAlbumUnionCandidate U eqf s anchor =
     (case musicBrainzSnapshotTx U s (mb_AlbumID anchor) of
        None \<Rightarrow> Inl RNoRows
      | Some cur \<Rightarrow>
          if \<not> sameMusicBrainzSnapshot anchor cur then Inr (anchor, [])
          else
            (let anchor = anchor\<lparr>mb_PathTitle := mb_PathTitle cur, mb_PathDiscs := mb_PathDiscs cur\<rparr>;
                 others = sort_key al_album_id (filter (\<lambda>a. al_album_id a \<noteq> mb_AlbumID anchor \<and> \<not> al_missing a \<and>
                   or_zero (al_year a) = mb_Year anchor \<and> al_release_id a = None) (ct_albums s))
             in case union_fragments U eqf s anchor others (if mb_ReleaseGroupID anchor \<noteq> '''' then [mb_ReleaseGroupID anchor] else []) [] of
                  Inl e \<Rightarrow> Inl e
                | Inr None \<Rightarrow> Inr (anchor, [])
                | Inr (Some fragments) \<Rightarrow>
                    (let tracks = mb_Tracks (albumWithPathDiscs anchor) @ List.concat (map (\<lambda>f. mb_Tracks (albumWithPathDiscs f)) fragments)
                     in Inr ((albumWithPathDiscs anchor)\<lparr>mb_Tracks := tracks, mb_TrackCount := int (length tracks)\<rparr>, fragments))))"

section \<open>The plan\<close>

record splitAlbumPlan =
  sp_fragmentIDs :: "string list"
  sp_artistIDs :: "string list"
  sp_tracks :: "TrackRow list"
  sp_canonical :: assignment
  sp_artID :: string

text \<open>No plan is needed, the plan is safe, or there are fragments and nothing may be changed.\<close>

datatype split_verdict = NoSplit | SafeSplit splitAlbumPlan | UnsafeSplit

fun stale_snapshots :: "unicode \<Rightarrow> catalog \<Rightarrow> string list \<Rightarrow> MusicBrainzAlbum list \<Rightarrow> release_err + bool" where
  "stale_snapshots U s fragments [] = Inr False"
| "stale_snapshots U s fragments (x # xs) =
     (if mb_AlbumID x \<notin> set fragments then Inr True
      else case musicBrainzSnapshotTx U s (mb_AlbumID x) of
             None \<Rightarrow> Inl RNoRows
           | Some cur \<Rightarrow> if sameMusicBrainzSnapshot x cur then stale_snapshots U s fragments xs else Inr True)"

definition staleFragmentEvidence :: "unicode \<Rightarrow> catalog \<Rightarrow> MusicBrainzCandidate \<Rightarrow> string list \<Rightarrow> release_err + bool" where
  "staleFragmentEvidence U s selected fragments =
     (case ev_fragmentSnapshots (mc_Evidence selected) of
        None \<Rightarrow> Inr False
      | Some snapshots \<Rightarrow> if length snapshots \<noteq> length fragments then Inr True else stale_snapshots U s fragments snapshots)"

fun divergent_from :: "string list option \<Rightarrow> match_evidence list \<Rightarrow> bool" where
  "divergent_from reference [] = False"
| "divergent_from reference (e # es) =
     (case ev_recordings e of
        None \<Rightarrow> divergent_from reference es
      | Some signature \<Rightarrow>
          if ev_trackCount e \<noteq> ''complete'' then divergent_from reference es
          else (case reference of
                  None \<Rightarrow> divergent_from (Some signature) es
                | Some r \<Rightarrow> if r = signature then divergent_from reference es else True))"

definition divergentCompleteEditionsTx :: "candidate_row table \<Rightarrow> string \<Rightarrow> bool" where
  "divergentCompleteEditionsTx t albumID =
     divergent_from None (map (mc_Evidence \<circ> cd_candidate) (sort_key cd_position (filter (\<lambda>c. cd_album_id c = albumID) t)))"

text \<open>Profiles that hold different opinions of the albums to be joined.\<close>

definition conflicting :: "('r \<Rightarrow> string) \<Rightarrow> ('r \<Rightarrow> 'v) \<Rightarrow> ('r \<Rightarrow> bool) \<Rightarrow> 'r table \<Rightarrow> bool" where
  "conflicting owner opinion hit t \<longleftrightarrow>
     list_ex (\<lambda>a. list_ex (\<lambda>b. owner a = owner b \<and> opinion a \<noteq> opinion b) (filter hit t)) (filter hit t)"

definition splitProfileConflictTx :: "profile_db \<Rightarrow> string \<Rightarrow> string list \<Rightarrow> bool" where
  "splitProfileConflictTx d anchorID fragmentIDs \<longleftrightarrow>
     conflicting lv_profile lv_state (\<lambda>l. lv_ref l \<in> set (anchorID # fragmentIDs)) (pd_loves d) \<or>
     conflicting rg_profile rg_rating10 (\<lambda>r. rg_item r \<in> set (anchorID # fragmentIDs)) (pd_ratings d)"

text \<open>The albums of the anchor's year whose title or path agrees, except those of another release group.\<close>

definition split_compatible ::
  "unicode \<Rightarrow> (string \<Rightarrow> string \<Rightarrow> bool) \<Rightarrow> catalog \<Rightarrow> MusicBrainzAlbum \<Rightarrow> CanonicalRelease \<Rightarrow> album_row list" where
  "split_compatible U eqf s anchor release =
     filter (\<lambda>a. musicBrainzAlbumTitlesCompatible U eqf anchor
           (anchor\<lparr>mb_Title := al_title a, mb_PathTitle := fst (musicBrainzPathEvidence U s (al_album_id a))\<rparr>) \<and>
         \<not> (al_album_id a \<noteq> mb_AlbumID anchor \<and> or_empty (al_group_id a) \<noteq> '''' \<and> or_empty (al_group_id a) \<noteq> kr_ReleaseGroupID release))
       (sort_key al_album_id (filter (\<lambda>a. \<not> al_missing a \<and> or_zero (al_year a) = mb_Year anchor) (ct_albums s)))"

text \<open>A fragment may be taken only if nothing identifies it but, at most, the release group of the release.\<close>

definition fragment_evidence :: "catalog \<Rightarrow> album_row \<Rightarrow> bool" where
  "fragment_evidence s a \<longleftrightarrow> or_empty (al_release_id a) \<noteq> '''' \<or> or_empty (al_group_id a) \<noteq> '''' \<or>
     list_ex (\<lambda>m. mr_album_id m = al_album_id a \<and> (mr_release_id m \<noteq> None \<or> mr_group_id m \<noteq> None)) (ct_matches s)"

definition fragment_ok :: "catalog \<Rightarrow> CanonicalRelease \<Rightarrow> album_row \<Rightarrow> bool" where
  "fragment_ok s release a \<longleftrightarrow>
     \<not> (fragment_evidence s a \<and>
        \<not> (or_empty (al_release_id a) = '''' \<and> or_empty (al_group_id a) \<noteq> '''' \<and> or_empty (al_group_id a) = kr_ReleaseGroupID release)) \<and>
     all_present s (al_album_id a)"

text \<open>The tracks of the albums, in order of their ids, a disc the path names filled in.\<close>

definition plan_track :: "(string \<times> int) list \<Rightarrow> track_row \<Rightarrow> TrackRow" where
  "plan_track discs t = with_path_disc discs ((snapshot_track t)\<lparr>tr_ArtistID := tk_artist_id t, tr_ArtistName := tk_artist_name t,
     tr_MusicBrainzRecordingID := or_empty (tk_recording_id t)\<rparr>)"

definition plan_tracks :: "(string \<times> int) list \<Rightarrow> catalog \<Rightarrow> string list \<Rightarrow> TrackRow list" where
  "plan_tracks discs s ids = map (plan_track discs)
     (sort_key tk_track_id (filter (\<lambda>t. \<not> tk_missing t \<and> tk_album_id t \<in> set ids) (ct_tracks s)))"

text \<open>The artwork the anchor takes over: none if it has its own, and no choice between several.\<close>

definition plan_art :: "string \<Rightarrow> album_row list \<Rightarrow> string option" where
  "plan_art anchorID compatible =
     (let anchorArt = or_empty (case filter (\<lambda>a. al_album_id a = anchorID) compatible of [] \<Rightarrow> None | a # _ \<Rightarrow> al_art_id a);
          arts = remdups (filter (\<lambda>x. x \<noteq> '''') (map (\<lambda>a. or_empty (al_art_id a)) (filter (\<lambda>a. al_album_id a \<noteq> anchorID) compatible)))
      in if anchorArt \<noteq> '''' then Some ''''
         else case arts of [] \<Rightarrow> Some '''' | [x] \<Rightarrow> Some x | _ \<Rightarrow> None)"

definition planSplitAlbumReconciliation ::
  "unicode \<Rightarrow> (string \<Rightarrow> string \<Rightarrow> bool) \<Rightarrow> release_db \<Rightarrow> MusicBrainzAlbum \<Rightarrow> CanonicalRelease \<Rightarrow> MusicBrainzCandidate \<Rightarrow>
   release_err + split_verdict" where
  "planSplitAlbumReconciliation U eqf d anchor release selected =
     (let s = lib d; anchorID = mb_AlbumID anchor; compatible = split_compatible U eqf s anchor release;
          fragments = filter (\<lambda>a. al_album_id a \<noteq> anchorID) compatible; fragmentIDs = map al_album_id fragments;
          discs = List.concat (map (\<lambda>a. snd (musicBrainzPathEvidence U s (al_album_id a))) compatible)
      in if length compatible \<le> 1 then Inr NoSplit
         else if \<not> list_all (fragment_ok s release) fragments then Inr UnsafeSplit
         else case plan_art anchorID compatible of
           None \<Rightarrow> Inr UnsafeSplit
         | Some artID \<Rightarrow>
             (case staleFragmentEvidence U s selected fragmentIDs of
                Inl e \<Rightarrow> Inl e
              | Inr True \<Rightarrow> Inr UnsafeSplit
              | Inr False \<Rightarrow>
                  if divergentCompleteEditionsTx (rb_candidates d) anchorID then Inr UnsafeSplit
                  else
                    (let tracks = plan_tracks discs s (anchorID # fragmentIDs)
                     in case matchReleaseUnion U tracks release of
                          None \<Rightarrow> Inr UnsafeSplit
                        | Some canonical \<Rightarrow>
                            if splitProfileConflictTx (rb_store d) anchorID fragmentIDs then Inr UnsafeSplit
                            else if kr_ReleaseID release \<noteq> '''' \<and>
                              list_ex (\<lambda>a. al_release_id a = Some (kr_ReleaseID release) \<and> al_album_id a \<noteq> anchorID) (ct_albums s)
                            then Inr UnsafeSplit
                            else Inr (SafeSplit \<lparr>sp_fragmentIDs = fragmentIDs, sp_artistIDs = remdups (map al_artist_id compatible),
                              sp_tracks = tracks, sp_canonical = canonical, sp_artID = artID\<rparr>))))"

section \<open>Joining the fragments\<close>

definition join_tracks :: "string \<Rightarrow> string list \<Rightarrow> int \<Rightarrow> catalog \<Rightarrow> catalog" where
  "join_tracks anchorID ids seq s = s\<lparr>ct_tracks := update_where (\<lambda>t. tk_album_id t \<in> set ids)
     (\<lambda>t. t\<lparr>tk_album_id := anchorID, tk_change_seq := seq\<rparr>) (ct_tracks s)\<rparr>"

definition stamp_album_tracks :: "string \<Rightarrow> int \<Rightarrow> catalog \<Rightarrow> catalog" where
  "stamp_album_tracks anchorID seq s = s\<lparr>ct_tracks := update_where (\<lambda>t. tk_album_id t = anchorID)
     (\<lambda>t. t\<lparr>tk_change_seq := seq\<rparr>) (ct_tracks s)\<rparr>"

definition take_art :: "string \<Rightarrow> string \<Rightarrow> catalog \<Rightarrow> catalog" where
  "take_art anchorID artID s = s\<lparr>ct_albums := update_where (\<lambda>a. al_album_id a = anchorID \<and> al_art_id a = None)
     (\<lambda>a. a\<lparr>al_art_id := Some artID\<rparr>) (ct_albums s)\<rparr>"

text \<open>Of the rows of the albums, the one to keep of each profile: the least id, or the first stored.\<close>

definition first_of :: "('r \<Rightarrow> 'k) \<Rightarrow> ('r \<Rightarrow> bool) \<Rightarrow> 'r table \<Rightarrow> 'r \<Rightarrow> bool" where
  "first_of key hit t r \<longleftrightarrow> (case filter (\<lambda>x. hit x \<and> key x = key r) t of [] \<Rightarrow> False | x # _ \<Rightarrow> x = r)"

definition collapse_loves :: "string list \<Rightarrow> love_row table \<Rightarrow> love_row table" where
  "collapse_loves ids t = delete_where (\<lambda>l. lv_ref l \<in> set ids \<and>
     \<not> first_of lv_profile (\<lambda>x. lv_ref x \<in> set ids) (sort_key lv_id t) l) t"

definition collapse_ratings :: "string list \<Rightarrow> rating_row table \<Rightarrow> rating_row table" where
  "collapse_ratings ids t = delete_where (\<lambda>r. rg_item r \<in> set ids \<and> \<not> first_of rg_profile (\<lambda>x. rg_item x \<in> set ids) t r) t"

definition rec_key :: "recommendation_row \<Rightarrow> string \<times> string \<times> string \<times> string \<times> bool" where
  "rec_key r = (rc_from r, rc_to r, rc_kind r, or_empty (rc_note r), rc_seen r)"

definition collapse_recs :: "string \<Rightarrow> recommendation_row table \<Rightarrow> recommendation_row table" where
  "collapse_recs anchorID t = delete_where (\<lambda>r. rc_ref r = anchorID \<and> \<not> first_of rec_key (\<lambda>x. rc_ref x = anchorID) t r) t"

definition retire_albums :: "string list \<Rightarrow> int \<Rightarrow> catalog \<Rightarrow> catalog" where
  "retire_albums ids seq s = s\<lparr>ct_albums := update_where (\<lambda>a. al_album_id a \<in> set ids)
     (\<lambda>a. a\<lparr>al_missing := True, al_change_seq := seq\<rparr>) (ct_albums s)\<rparr>"

definition settle_owner :: "string \<Rightarrow> int \<Rightarrow> catalog \<Rightarrow> catalog" where
  "settle_owner aid seq s = s\<lparr>ct_artists := update_where (\<lambda>a. ar_artist_id a = aid)
     (\<lambda>a. a\<lparr>ar_missing := \<not> list_ex (\<lambda>x. al_artist_id x = aid \<and> \<not> al_missing x) (ct_albums s), ar_change_seq := seq\<rparr>) (ct_artists s)\<rparr>"

fun settle_owners :: "string list \<Rightarrow> int \<Rightarrow> release_db \<Rightarrow> release_db \<times> (release_err + unit)" where
  "settle_owners [] seq = returnE ()"
| "settle_owners (i # is) seq = bindE (lib_stmt (settle_owner i seq)) (\<lambda>_. settle_owners is seq)"

definition applySplitAlbumPlanTx :: "string \<Rightarrow> splitAlbumPlan \<Rightarrow> int \<Rightarrow> release_db \<Rightarrow> release_db \<times> (release_err + unit)" where
  "applySplitAlbumPlanTx anchorID plan seq =
     (let ids = sp_fragmentIDs plan; all = anchorID # ids in
     bindE (lib_stmt (join_tracks anchorID ids seq)) (\<lambda>_.
     bindE (lib_stmt (stamp_album_tracks anchorID seq)) (\<lambda>_.
     bindE (if sp_artID plan \<noteq> '''' then lib_stmt (take_art anchorID (sp_artID plan)) else returnE ()) (\<lambda>_.
     bindE (on_store (\<lambda>p. p\<lparr>pd_loves := collapse_loves all (pd_loves p)\<rparr>)) (\<lambda>_.
     bindE (on_store (\<lambda>p. p\<lparr>pd_loves := update_where (\<lambda>l. lv_ref l \<in> set ids) (\<lambda>l. l\<lparr>lv_ref := anchorID\<rparr>) (pd_loves p)\<rparr>)) (\<lambda>_.
     bindE (on_store (\<lambda>p. p\<lparr>pd_ratings := collapse_ratings all (pd_ratings p)\<rparr>)) (\<lambda>_.
     bindE (on_store (\<lambda>p. p\<lparr>pd_ratings := update_where (\<lambda>r. rg_item r \<in> set ids) (\<lambda>r. r\<lparr>rg_item := anchorID\<rparr>) (pd_ratings p)\<rparr>)) (\<lambda>_.
     bindE (on_store (\<lambda>p. p\<lparr>pd_recs := update_where (\<lambda>r. rc_ref r \<in> set ids) (\<lambda>r. r\<lparr>rc_ref := anchorID\<rparr>) (pd_recs p)\<rparr>)) (\<lambda>_.
     bindE (on_store (\<lambda>p. p\<lparr>pd_recs := collapse_recs anchorID (pd_recs p)\<rparr>)) (\<lambda>_.
     bindE (\<lambda>d. (d\<lparr>rb_candidates := delete_where (\<lambda>c. cd_album_id c \<in> set ids) (rb_candidates d)\<rparr>, Inr ())) (\<lambda>_.
     bindE (lib_stmt (\<lambda>s. s\<lparr>ct_matches := delete_where (\<lambda>m. mr_album_id m \<in> set ids) (ct_matches s)\<rparr>)) (\<lambda>_.
     bindE (lib_stmt (retire_albums ids seq)) (\<lambda>_.
     bindE (lib_stmt (stamp_album anchorID seq)) (\<lambda>_.
     settle_owners (sp_artistIDs plan) seq))))))))))))))"

end
