(* ===== verification/ReleaseApply.thy ===== *)
theory ReleaseApply
  imports SplitAlbum
begin

text \<open>
  Applying what MusicBrainz knows of an album (\<open>applyMusicBrainzRelease\<close> of
  \<open>internal/store/musicbrainz.go\<close>): one transaction that checks the album is as it was when it was scored,
  joins its fragments if there are any, writes the release, its title, credits and recordings, settles
  what artists count, and records the outcome. The identity lock makes it atomic.
\<close>

section \<open>The release on the album and its tracks\<close>

definition identify_row :: "CanonicalRelease \<Rightarrow> int \<Rightarrow> album_row \<Rightarrow> album_row" where
  "identify_row release seq a =
     (let rid = coalesce (nullStr (kr_ReleaseID release)) (al_release_id a);
          gid = coalesce (nullStr (kr_ReleaseGroupID release)) (al_group_id a)
      in a\<lparr>al_release_id := rid, al_group_id := gid,
           al_release_date := coalesce (nullStr (kr_ReleaseDate release)) (al_release_date a),
           al_change_seq := (if rid \<noteq> al_release_id a \<or> gid \<noteq> al_group_id a then seq else al_change_seq a)\<rparr>)"

definition retry_art_now :: "string \<Rightarrow> catalog \<Rightarrow> catalog" where
  "retry_art_now albumID s = s\<lparr>ct_albums := update_where (\<lambda>a. al_album_id a = albumID \<and> al_art_id a = None)
     (\<lambda>a. a\<lparr>al_retry := (al_retry a)\<lparr>rt_next_attempt_at := 0, rt_miss_count := 0\<rparr>\<rparr>) (ct_albums s)\<rparr>"

text \<open>The titles are compared with \<open>IS NOT\<close> on a \<open>NOCASE\<close> column.\<close>

definition retitle_album :: "string \<Rightarrow> string \<Rightarrow> int \<Rightarrow> catalog \<Rightarrow> catalog" where
  "retitle_album albumID title seq s = s\<lparr>ct_albums := update_where (\<lambda>a. al_album_id a = albumID \<and> \<not> same_text (al_title a) title)
     (\<lambda>a. a\<lparr>al_title := title, al_change_seq := seq\<rparr>) (ct_albums s)\<rparr>"

definition own_album :: "string \<Rightarrow> string \<Rightarrow> int \<Rightarrow> catalog \<Rightarrow> catalog" where
  "own_album albumID artistID seq s = update_album albumID (\<lambda>a. a\<lparr>al_artist_id := artistID,
     al_change_seq := (if al_artist_id a \<noteq> artistID then seq else al_change_seq a)\<rparr>) s"

text \<open>The artist of the first credit.\<close>

definition primary_credit :: "credit_table \<Rightarrow> string \<Rightarrow> catalog \<Rightarrow> catalog \<times> (cat_err + string)" where
  "primary_credit ct owner s = (case select1 (\<lambda>c. cr_owner c = owner \<and> cr_position c = 0) (credits_of ct s) of
     None \<Rightarrow> (s, Inl NoSuchRow) | Some c \<Rightarrow> (s, Inr (cr_artist_id c)))"

text \<open>Whether the statement changes a row.\<close>

definition affects :: "('r \<Rightarrow> bool) \<Rightarrow> (catalog \<Rightarrow> 'r table) \<Rightarrow> (catalog \<Rightarrow> catalog) \<Rightarrow> catalog \<Rightarrow> catalog \<times> (cat_err + bool)" where
  "affects P t f s = bindE (exec f) (\<lambda>_. returnE (list_ex P (t s))) s"

definition apply_credits ::
  "MusicBrainzAlbum \<Rightarrow> CanonicalRelease \<Rightarrow> seconds \<Rightarrow> int \<Rightarrow> catalog \<Rightarrow> catalog \<times> (cat_err + bool)" where
  "apply_credits album release now seq =
     (if kr_AlbumCredits release = [] then returnE False
      else bindE (replaceCreditsTx CAlbum (mb_AlbumID album) (acr_ArtistID (mb_PrimaryArtist album)) (kr_AlbumCredits release) now seq) (\<lambda>c.
        bindE (primary_credit CAlbum (mb_AlbumID album)) (\<lambda>primaryID.
        bindE (exec (own_album (mb_AlbumID album) primaryID seq)) (\<lambda>_.
        returnE (c \<or> primaryID \<noteq> acr_ArtistID (mb_PrimaryArtist album))))))"

text \<open>The track of the release a local track is, if the positions, or position, title and duration, single it
  out.\<close>

definition release_match :: "unicode \<Rightarrow> CanonicalRelease \<Rightarrow> TrackRow \<Rightarrow> CanonicalTrack option" where
  "release_match U release t =
     (case filter (\<lambda>r. discNumber (kt_Disc r) = discNumber (tr_Disc t) \<and> kt_Index r = tr_Index t \<and>
         (kr_Authoritative release \<or> normalized U (kt_Title r) = normalized U (tr_Title t) \<and> durationClose (kt_DurationMs r) (tr_DurationMs t)))
         (kr_Tracks release) of
        [r] \<Rightarrow> Some r | _ \<Rightarrow> None)"

definition recording_stale :: "CanonicalTrack \<Rightarrow> string \<Rightarrow> track_row \<Rightarrow> bool" where
  "recording_stale r tid t \<longleftrightarrow> tk_track_id t = tid \<and>
     (tk_recording_id t \<noteq> Some (kt_RecordingID r) \<or> 0 < kt_Index r \<and> tk_idx t \<noteq> Some (kt_Index r) \<or>
      0 < kt_Disc r \<and> tk_disc t \<noteq> Some (kt_Disc r))"

definition set_recording :: "CanonicalTrack \<Rightarrow> int \<Rightarrow> track_row \<Rightarrow> track_row" where
  "set_recording r seq t = t\<lparr>tk_recording_id := Some (kt_RecordingID r),
     tk_idx := (if 0 < kt_Index r then Some (kt_Index r) else tk_idx t),
     tk_disc := (if 0 < kt_Disc r then Some (kt_Disc r) else tk_disc t), tk_change_seq := seq\<rparr>"

definition record_track :: "CanonicalTrack \<Rightarrow> string \<Rightarrow> int \<Rightarrow> catalog \<Rightarrow> catalog" where
  "record_track r tid seq s = s\<lparr>ct_tracks := update_where (recording_stale r tid) (set_recording r seq) (ct_tracks s)\<rparr>"

definition own_track :: "string \<Rightarrow> string \<Rightarrow> string \<Rightarrow> int \<Rightarrow> catalog \<Rightarrow> catalog" where
  "own_track tid artistID name seq s = s\<lparr>ct_tracks := update_where (\<lambda>t. tk_track_id t = tid)
     (\<lambda>t. t\<lparr>tk_artist_id := artistID, tk_artist_name := name,
        tk_change_seq := (if tk_artist_id t \<noteq> artistID \<or> tk_artist_name t \<noteq> name then seq else tk_change_seq t)\<rparr>) (ct_tracks s)\<rparr>"

definition apply_track :: "TrackRow \<Rightarrow> CanonicalTrack \<Rightarrow> seconds \<Rightarrow> int \<Rightarrow> catalog \<Rightarrow> catalog \<times> (cat_err + bool)" where
  "apply_track t r now seq =
     bindE (affects (recording_stale r (tr_TrackID t)) ct_tracks (record_track r (tr_TrackID t) seq)) (\<lambda>recorded.
     if kt_Credits r = [] then returnE recorded
     else bindE (replaceCreditsTx CTrack (tr_TrackID t) (tr_ArtistID t) (kt_Credits r) now seq) (\<lambda>c.
       bindE (primary_credit CTrack (tr_TrackID t)) (\<lambda>primaryID.
       bindE (exec (own_track (tr_TrackID t) primaryID (ac_Name (hd (kt_Credits r))) seq)) (\<lambda>_.
       returnE (recorded \<or> c \<or> tr_ArtistID t \<noteq> primaryID \<or> tr_ArtistName t \<noteq> ac_Name (hd (kt_Credits r)))))))"

fun apply_tracks ::
  "(TrackRow \<Rightarrow> CanonicalTrack option) \<Rightarrow> TrackRow list \<Rightarrow> seconds \<Rightarrow> int \<Rightarrow> catalog \<Rightarrow> catalog \<times> (cat_err + bool)" where
  "apply_tracks match [] now seq = returnE False"
| "apply_tracks match (t # ts) now seq =
     bindE (case match t of None \<Rightarrow> returnE False | Some r \<Rightarrow> apply_track t r now seq) (\<lambda>c.
     bindE (apply_tracks match ts now seq) (\<lambda>c'. returnE (c \<or> c')))"

section \<open>Settling\<close>

definition settle_artists :: "int \<Rightarrow> catalog \<Rightarrow> catalog" where
  "settle_artists seq s = s\<lparr>ct_artists := map (\<lambda>a. a\<lparr>ar_missing := artist_gone s a,
     ar_change_seq := (if ar_missing a \<noteq> artist_gone s a then seq else ar_change_seq a)\<rparr>) (ct_artists s)\<rparr>"

definition stamp_artist :: "string \<Rightarrow> int \<Rightarrow> catalog \<Rightarrow> catalog" where
  "stamp_artist aid seq s = s\<lparr>ct_artists := update_where (\<lambda>a. ar_artist_id a = aid) (\<lambda>a. a\<lparr>ar_change_seq := seq\<rparr>) (ct_artists s)\<rparr>"

fun stamp_artists :: "string list \<Rightarrow> int \<Rightarrow> catalog \<Rightarrow> catalog \<times> (cat_err + unit)" where
  "stamp_artists [] seq = returnE ()"
| "stamp_artists (i # is) seq = bindE (exec (stamp_artist i seq)) (\<lambda>_. stamp_artists is seq)"

definition settle_counts :: "string \<Rightarrow> (string \<times> (nat \<times> nat)) list \<Rightarrow> int \<Rightarrow> catalog \<Rightarrow> catalog \<times> (cat_err + unit)" where
  "settle_counts albumID prior seq =
     bindE (exec (stamp_album albumID seq)) (\<lambda>_.
     bindE (exec (settle_artists seq)) (\<lambda>_ s.
       stamp_artists (recounted prior (albumArtistCountsTx s albumID)) seq s))"

section \<open>The transaction\<close>

record musicBrainzResult =
  br_state :: string
  br_selected :: MusicBrainzCandidate
  br_candidates :: "MusicBrainzCandidate list"
  br_next :: seconds

text \<open>The same outcome is not recorded again.\<close>

definition already_recorded :: "catalog \<Rightarrow> string \<Rightarrow> musicBrainzResult \<Rightarrow> bool" where
  "already_recorded s albumID r \<longleftrightarrow> list_ex (\<lambda>m. mr_album_id m = albumID \<and> mr_state m = br_state r \<and>
     or_empty (mr_release_id m) = mc_ReleaseID (br_selected r) \<and> or_empty (mr_group_id m) = mc_ReleaseGroupID (br_selected r)) (ct_matches s)"

definition apply_plan :: "string \<Rightarrow> split_verdict \<Rightarrow> int \<Rightarrow> release_db \<Rightarrow> release_db \<times> (release_err + bool)" where
  "apply_plan albumID verdict seq = (case verdict of
     SafeSplit plan \<Rightarrow> bindE (applySplitAlbumPlanTx albumID plan seq) (\<lambda>_. returnE True) | _ \<Rightarrow> returnE False)"

definition identify_album :: "MusicBrainzAlbum \<Rightarrow> CanonicalRelease \<Rightarrow> int \<Rightarrow> catalog \<Rightarrow> catalog \<times> (cat_err + bool)" where
  "identify_album album release seq =
     bindE (affects (\<lambda>a. al_album_id a = mb_AlbumID album) ct_albums (update_album (mb_AlbumID album) (identify_row release seq))) (\<lambda>hit.
     if hit \<and> (mb_ReleaseID album \<noteq> kr_ReleaseID release \<or> mb_ReleaseGroupID album \<noteq> kr_ReleaseGroupID release)
     then bindE (exec (retry_art_now (mb_AlbumID album))) (\<lambda>_. returnE True)
     else returnE False)"

definition title_album :: "MusicBrainzAlbum \<Rightarrow> CanonicalRelease \<Rightarrow> int \<Rightarrow> catalog \<Rightarrow> catalog \<times> (cat_err + bool)" where
  "title_album album release seq =
     (if kr_ReleaseID release \<noteq> '''' \<and> kr_Title release \<noteq> ''''
      then affects (\<lambda>a. al_album_id a = mb_AlbumID album \<and> \<not> same_text (al_title a) (kr_Title release)) ct_albums
             (retitle_album (mb_AlbumID album) (kr_Title release) seq)
      else returnE False)"

text \<open>The release, its title, its credits and its recordings; whether any of it was news.\<close>

definition write_identity ::
  "MusicBrainzAlbum \<Rightarrow> CanonicalRelease \<Rightarrow> (TrackRow \<Rightarrow> CanonicalTrack option) \<Rightarrow> TrackRow list \<Rightarrow> seconds \<Rightarrow> int \<Rightarrow>
   catalog \<Rightarrow> catalog \<times> (cat_err + bool)" where
  "write_identity album release match tracks now seq =
     bindE (identify_album album release seq) (\<lambda>identified.
     bindE (title_album album release seq) (\<lambda>titled.
     bindE (apply_credits album release now seq) (\<lambda>credited.
     bindE (if kr_ReconcileOnly release then returnE False else apply_tracks match tracks now seq) (\<lambda>recorded.
     returnE (identified \<or> titled \<or> credited \<or> recorded)))))"

definition record_outcome ::
  "string \<Rightarrow> musicBrainzResult option \<Rightarrow> bool \<Rightarrow> seconds \<Rightarrow> release_db \<Rightarrow> release_db \<times> (release_err + bool)" where
  "record_outcome albumID result changed now d =
     (case result of
        None \<Rightarrow> (d, Inr True)
      | Some r \<Rightarrow>
          if \<not> changed \<and> already_recorded (lib d) albumID r then (d, Inr False)
          else bindE (recordMusicBrainzResultTx albumID (br_state r) (br_selected r) (br_candidates r) (br_next r) '''' now)
                 (\<lambda>_. returnE True) d)"

text \<open>The tracks the release is written to, and the track of the release each of them is. The code clears the
  credits of the release's tracks when there is a plan, but the plan holds copies made earlier, so it has
  no effect.\<close>

definition release_tracks :: "MusicBrainzAlbum \<Rightarrow> split_verdict \<Rightarrow> TrackRow list" where
  "release_tracks album verdict = (case verdict of SafeSplit plan \<Rightarrow> sp_tracks plan | _ \<Rightarrow> mb_Tracks album)"

definition release_matcher :: "unicode \<Rightarrow> CanonicalRelease \<Rightarrow> split_verdict \<Rightarrow> TrackRow \<Rightarrow> CanonicalTrack option" where
  "release_matcher U release verdict t = (case verdict of
     SafeSplit plan \<Rightarrow> map_of (sp_canonical plan) (tr_TrackID t) | _ \<Rightarrow> release_match U release t)"

text \<open>What is written for a verdict that allows it; whether the transaction is committed, and whether anything
  changed.\<close>

definition write_release ::
  "unicode \<Rightarrow> MusicBrainzAlbum \<Rightarrow> CanonicalRelease \<Rightarrow> split_verdict \<Rightarrow> musicBrainzResult option \<Rightarrow> seconds \<Rightarrow> int \<Rightarrow>
   release_db \<Rightarrow> release_db \<times> (release_err + (bool \<times> bool))" where
  "write_release U album release verdict result now seq d =
     (let prior = albumArtistCountsTx (lib d) (mb_AlbumID album);
          tracks = release_tracks album verdict; match = release_matcher U release verdict
      in bindE (apply_plan (mb_AlbumID album) verdict seq) (\<lambda>split.
         bindE (on_lib (write_identity album release match tracks now seq)) (\<lambda>written.
         let changed = (split \<or> written) in
         bindE (if changed then on_lib (settle_counts (mb_AlbumID album) prior seq) else returnE ()) (\<lambda>_.
         bindE (record_outcome (mb_AlbumID album) result changed now) (\<lambda>commit.
         bindE (if changed then lib_stmt (\<lambda>s. s\<lparr>ct_updated_at := Some now\<rparr>) else returnE ()) (\<lambda>_.
         returnE (commit, changed))))))
        d)"

text \<open>When a plan for fragments is asked for.\<close>

definition wants_plan :: "CanonicalRelease \<Rightarrow> musicBrainzResult option \<Rightarrow> bool" where
  "wants_plan release result = (case result of
     None \<Rightarrow> False
   | Some r \<Rightarrow> kr_Tracks release \<noteq> [] \<and>
       (br_state r = ''matched'' \<and> kr_ReleaseID release \<noteq> '''' \<or>
        br_state r = ''ambiguous'' \<and> kr_ReconcileOnly release \<and> kr_ReleaseGroupID release \<noteq> ''''))"

definition applyMusicBrainzRelease ::
  "unicode \<Rightarrow> (string \<Rightarrow> string \<Rightarrow> bool) \<Rightarrow> MusicBrainzAlbum \<Rightarrow> CanonicalRelease \<Rightarrow> musicBrainzResult option \<Rightarrow> seconds \<Rightarrow> int \<Rightarrow>
   release_db \<Rightarrow> release_db \<times> (release_err + bool)" where
  "applyMusicBrainzRelease U eqf album release result now seq d =
     (case musicBrainzSnapshotTx U (lib d) (mb_AlbumID album) of
        None \<Rightarrow> (d, Inl RNoRows)
      | Some cur \<Rightarrow>
          if \<not> sameMusicBrainzSnapshot album cur then (d, Inr False)
          else case (case result of
                 Some r \<Rightarrow> if wants_plan release result then planSplitAlbumReconciliation U eqf d cur release (br_selected r) else Inr NoSplit
               | None \<Rightarrow> Inr NoSplit) of
               Inl e \<Rightarrow> (d, Inl e)
             | Inr UnsafeSplit \<Rightarrow> (d, Inr False)
             | Inr verdict \<Rightarrow>
                 (case write_release U album release verdict result now seq d of
                    (_, Inl e) \<Rightarrow> (d, Inl e)
                  | (d', Inr (commit, changed)) \<Rightarrow> if commit then (d', Inr changed) else (d, Inr False)))"

definition ApplyMusicBrainzRelease where
  "ApplyMusicBrainzRelease U eqf album release now seq = applyMusicBrainzRelease U eqf album release None now seq"

definition ApplyMusicBrainzMatch ::
  "unicode \<Rightarrow> (string \<Rightarrow> string \<Rightarrow> bool) \<Rightarrow> MusicBrainzAlbum \<Rightarrow> CanonicalRelease \<Rightarrow> int \<Rightarrow> MusicBrainzCandidate \<Rightarrow>
   MusicBrainzCandidate list \<Rightarrow> seconds \<Rightarrow> seconds \<Rightarrow> release_db \<Rightarrow> release_db \<times> (release_err + bool)" where
  "ApplyMusicBrainzMatch U eqf album release seq selected candidates nxt now =
     applyMusicBrainzRelease U eqf album release
       (Some \<lparr>br_state = ''matched'', br_selected = selected, br_candidates = candidates, br_next = nxt\<rparr>) now seq"

definition ApplyMusicBrainzConsensus ::
  "unicode \<Rightarrow> (string \<Rightarrow> string \<Rightarrow> bool) \<Rightarrow> MusicBrainzAlbum \<Rightarrow> CanonicalRelease \<Rightarrow> int \<Rightarrow> MusicBrainzCandidate \<Rightarrow>
   MusicBrainzCandidate list \<Rightarrow> seconds \<Rightarrow> seconds \<Rightarrow> release_db \<Rightarrow> release_db \<times> (release_err + bool)" where
  "ApplyMusicBrainzConsensus U eqf album release seq selected candidates nxt now =
     (let release = release\<lparr>kr_ReleaseID := '''', kr_Tracks := (if kr_ReconcileOnly release then kr_Tracks release else [])\<rparr>
      in applyMusicBrainzRelease U eqf album release
           (Some \<lparr>br_state = ''ambiguous'', br_selected = selected, br_candidates = candidates, br_next = nxt\<rparr>) now seq)"

end
