(* ===== verification/ReleaseLaws.thy ===== *)
theory ReleaseLaws
  imports ReleaseApply
begin

text \<open>
  What applying a release promises. The locales say which statements an identification is made of and that
  a property each of them keeps is kept by the whole transaction; they are interpreted for the edition (what
  identifies the tracks and albums), the places of tracks and albums, the constraints of the schema and what
  the change feed announces. Then: a consensus keeps the edition, joining fragments loses nothing, and
  clients are told.
\<close>

section \<open>The statements of a committed transaction\<close>

lemma on_lib_Inr:
  "on_lib f d = (d', Inr x) \<longleftrightarrow> (\<exists>s. f (lib d) = (s, Inr x) \<and> d' = with_lib s d)"
  by (auto simp: on_lib_def split: prod.splits sum.splits)

lemma with_lib_simps [simp]: "lib (with_lib s d) = s" "rb_store (with_lib s d) = (rb_store d)\<lparr>pd_cat := s\<rparr>"
  "rb_candidates (with_lib s d) = rb_candidates d" "with_lib s (with_lib s' d) = with_lib s d" "with_lib (lib d) d = d"
  by (simp_all add: with_lib_def)

lemma record_outcome_Inr:
  "record_outcome albumID result changed now d = (d', Inr commit) \<Longrightarrow>
     d' = d \<and> (result = None \<or> \<not> commit) \<or> (\<exists>m c b. d' = (with_lib (put_match m (lib d)) d)\<lparr>rb_candidates := c\<rparr> \<and> mr_album_id m = albumID \<and>
       result = Some b \<and> mr_state m = br_state b \<and> mr_next_attempt_at m = br_next b \<and>
       mr_release_id m = nullStr (mc_ReleaseID (br_selected b)))"
  by (auto simp: record_outcome_def recordMusicBrainzResultTx_def bindE_def returnE_def split: option.splits if_splits)

lemma write_release_Inr:
  assumes "write_release U album release verdict result now seq d = (d', Inr (commit, changed))"
  obtains d1 split s2 written s3 prior d4 where
    "apply_plan (mb_AlbumID album) verdict seq d = (d1, Inr split)"
    "write_identity album release (release_matcher U release verdict) (release_tracks album verdict) now seq (lib d1) = (s2, Inr written)"
    "changed = (split \<or> written)"
    "if changed then settle_counts (mb_AlbumID album) prior seq s2 = (s3, Inr ()) else s3 = s2"
    "record_outcome (mb_AlbumID album) result changed now (with_lib s3 d1) = (d4, Inr commit)"
    "d' = (if changed then with_lib ((lib d4)\<lparr>ct_updated_at := Some now\<rparr>) d4 else d4)"
proof -
  obtain d1 split s2 written s3 prior d4 where
    "apply_plan (mb_AlbumID album) verdict seq d = (d1, Inr split)"
    "write_identity album release (release_matcher U release verdict) (release_tracks album verdict) now seq (lib d1) = (s2, Inr written)"
    "changed = (split \<or> written)"
    "if changed then settle_counts (mb_AlbumID album) prior seq s2 = (s3, Inr ()) else s3 = s2"
    "record_outcome (mb_AlbumID album) result changed now (with_lib s3 d1) = (d4, Inr commit)"
    "d' = (if changed then with_lib ((lib d4)\<lparr>ct_updated_at := Some now\<rparr>) d4 else d4)"
    using assms unfolding write_release_def Let_def
    by (auto simp: bindE_Inr on_lib_Inr exec_def returnE_def split: if_splits)
  then show thesis by (rule that)
qed

section \<open>What every statement of an identification keeps\<close>

locale canonical_credits =
  fixes P :: "catalog \<Rightarrow> bool" and ct :: credit_table and seq :: int
  assumes drawn: "P s \<Longrightarrow> P (s\<lparr>ct_drawn := n\<rparr>)"
    and adopted: "P s \<Longrightarrow> constraints_ok (adopt_artist aid mbid seq s) \<Longrightarrow> P (adopt_artist aid mbid seq s)"
    and canonical_inserted: "P s \<Longrightarrow> constraints_ok (insert_canonical_artist aid name mbid now seq s) \<Longrightarrow>
      P (insert_canonical_artist aid name mbid now seq s)"
    and renamed: "P s \<Longrightarrow> constraints_ok (rename_artist aid name seq s) \<Longrightarrow> P (rename_artist aid name seq s)"
    and alias_inserted: "P s \<Longrightarrow> constraints_ok (insert_alias aid name s) \<Longrightarrow> P (insert_alias aid name s)"
    and credits_set: "P s \<Longrightarrow> constraints_ok (set_credits ct t s) \<Longrightarrow> P (set_credits ct t s)"
begin

lemma keeps_canonical_artist: "keeps P (canonical_artist i owner c now seq)"
proof -
  have adopt: "keeps P (bindE (exec (adopt_artist aid mbid seq)) (\<lambda>_. returnE x))" for aid mbid and x :: "string \<times> string"
    by (intro keeps_rules keeps_exec adopted)
  have insert: "keeps P (bindE (draw_id ''art'') (\<lambda>aid. bindE (exec (insert_canonical_artist aid name mbid now seq)) (\<lambda>_. returnE (aid, '''' :: string))))"
    for name mbid by (intro keeps_rules keeps_exec canonical_inserted) (simp add: keeps_def draw_id_def drawn)
  show ?thesis unfolding keeps_def
  proof (intro allI impI)
    fix s assume "P s"
    then show "P (fst (canonical_artist i owner c now seq s))"
      using adopt insert by (cases "artist_by_mbid s (ac_MBID c)"; cases "adoptable s i owner c") (simp_all add: canonical_artist_def keeps_def)
  qed
qed

lemma keeps_replace_credit: "keeps P (replace_credit ct owner primaryOwner existing i c now seq)"
  unfolding replace_credit_def
  by (auto intro!: keeps_rules keeps_canonical_artist keeps_exec alias_inserted renamed credits_set split: prod.split)

lemma keeps_replace_credits_from: "keeps P (replace_credits_from ct owner primaryOwner existing i cs now seq)"
  by (induction cs arbitrary: i) (auto intro!: keeps_rules keeps_replace_credit)

lemma keeps_replaceCreditsTx: "keeps P (replaceCreditsTx ct owner primaryOwner credits now seq)"
proof -
  have "keeps P (bindE (exec (\<lambda>s. set_credits ct (delete_where (\<lambda>c. cr_owner c = owner) (credits_of ct s)) s)) (\<lambda>_.
      bindE (replace_credits_from ct owner primaryOwner existing 0 credits now seq) (\<lambda>_. returnE True)))" for existing
    by (intro keeps_rules keeps_exec credits_set keeps_replace_credits_from)
  then show ?thesis by (simp add: keeps_def replaceCreditsTx_def Let_def)
qed

end

lemma keeps_primary: "keeps P (primary_credit ct owner)"
  by (simp add: keeps_def primary_credit_def split: option.split)

lemma keeps_affects: "keeps P (exec f) \<Longrightarrow> keeps P (affects Q t f)"
  unfolding affects_def keeps_def by (auto simp: bindE_def returnE_def split: prod.split sum.split)

text \<open>The album and the artists.\<close>

locale album_identity = canonical_credits P CAlbum seq for P seq +
  fixes albumID :: string and release :: CanonicalRelease
  assumes updated: "P s \<Longrightarrow> P (s\<lparr>ct_updated_at := Some now\<rparr>)"
    and matched: "mr_album_id m = albumID \<Longrightarrow> P s \<Longrightarrow> P (put_match m s)"
    and identified: "P s \<Longrightarrow> constraints_ok (update_album albumID (identify_row release seq) s) \<Longrightarrow>
      P (update_album albumID (identify_row release seq) s)"
    and art_retried: "P s \<Longrightarrow> constraints_ok (retry_art_now albumID s) \<Longrightarrow> P (retry_art_now albumID s)"
    and retitled: "kr_ReleaseID release \<noteq> '''' \<Longrightarrow> P s \<Longrightarrow> constraints_ok (retitle_album albumID title seq s) \<Longrightarrow>
      P (retitle_album albumID title seq s)"
    and owned: "P s \<Longrightarrow> constraints_ok (own_album albumID aid seq s) \<Longrightarrow> P (own_album albumID aid seq s)"
    and album_stamped: "P s \<Longrightarrow> constraints_ok (stamp_album albumID seq s) \<Longrightarrow> P (stamp_album albumID seq s)"
    and artists_settled: "P s \<Longrightarrow> constraints_ok (settle_artists seq s) \<Longrightarrow> P (settle_artists seq s)"
    and artist_stamped: "P s \<Longrightarrow> constraints_ok (stamp_artist aid seq s) \<Longrightarrow> P (stamp_artist aid seq s)"
begin

lemma keeps_identify_album:
  assumes "mb_AlbumID album = albumID"
  shows "keeps P (identify_album album release seq)"
  unfolding identify_album_def assms by (intro keeps_rules keeps_affects keeps_exec identified art_retried)

lemma keeps_title_album:
  assumes "mb_AlbumID album = albumID"
  shows "keeps P (title_album album release seq)"
  unfolding title_album_def assms by (intro keeps_rules keeps_affects keeps_exec retitled) blast+

lemma keeps_apply_credits:
  assumes "mb_AlbumID album = albumID"
  shows "keeps P (apply_credits album release now seq)"
  unfolding apply_credits_def assms by (intro keeps_rules keeps_replaceCreditsTx keeps_primary keeps_exec owned)

lemma keeps_stamp_artists: "keeps P (stamp_artists is seq)"
  by (induction "is") (auto intro!: keeps_rules keeps_exec artist_stamped)

lemma keeps_settle_counts: "keeps P (settle_counts albumID prior seq)"
proof -
  have "keeps P (\<lambda>s. stamp_artists (recounted prior (albumArtistCountsTx s albumID)) seq s)"
    using keeps_stamp_artists by (simp add: keeps_def)
  then show ?thesis unfolding settle_counts_def
    by (intro keeps_rules keeps_exec album_stamped artists_settled)
qed

lemma keeps_write_identity:
  assumes "mb_AlbumID album = albumID" and "keeps P (if kr_ReconcileOnly release then returnE False else apply_tracks match tracks now seq)"
  shows "keeps P (write_identity album release match tracks now seq)"
  unfolding write_identity_def
  by (intro keeps_rules keeps_identify_album keeps_title_album keeps_apply_credits assms)

text \<open>What the transaction writes after the plan.\<close>

lemma write_release_keeps:
  assumes "write_release U album release verdict result now seq d = (d', Inr (commit, changed))"
    and "apply_plan (mb_AlbumID album) verdict seq d = (d1, Inr split)" and "P (lib d1)" and "mb_AlbumID album = albumID"
    and "keeps P (if kr_ReconcileOnly release then returnE False
      else apply_tracks (release_matcher U release verdict) (release_tracks album verdict) now seq)"
  shows "P (lib d')"
proof -
  obtain d1' split' s2 written s3 prior d4 where w:
    "apply_plan (mb_AlbumID album) verdict seq d = (d1', Inr split')"
    "write_identity album release (release_matcher U release verdict) (release_tracks album verdict) now seq (lib d1') = (s2, Inr written)"
    "changed = (split' \<or> written)"
    "if changed then settle_counts (mb_AlbumID album) prior seq s2 = (s3, Inr ()) else s3 = s2"
    "record_outcome (mb_AlbumID album) result changed now (with_lib s3 d1') = (d4, Inr commit)"
    "d' = (if changed then with_lib ((lib d4)\<lparr>ct_updated_at := Some now\<rparr>) d4 else d4)"
    by (rule write_release_Inr [OF assms(1)])
  have "P s2" using keepsD [OF keeps_write_identity _ w(2)] assms w(1) by simp
  then have "P s3" using w(4) keepsD [OF keeps_settle_counts] assms(4) by (metis (full_types))
  then have "P (lib d4)" using record_outcome_Inr [OF w(5)] matched assms(4) by auto
  then show ?thesis using w(6) updated by simp
qed

end

text \<open>The tracks as well.\<close>

locale release_property = album_identity P seq albumID release + tracks: canonical_credits P CTrack seq for P seq albumID release +
  assumes recorded: "P s \<Longrightarrow> constraints_ok (record_track r tid seq s) \<Longrightarrow> P (record_track r tid seq s)"
    and track_owned: "P s \<Longrightarrow> constraints_ok (own_track tid aid name seq s) \<Longrightarrow> P (own_track tid aid name seq s)"
begin

lemma keeps_apply_track: "keeps P (apply_track t r now seq)"
  unfolding apply_track_def
  by (auto intro!: keeps_rules keeps_affects tracks.keeps_replaceCreditsTx keeps_primary keeps_exec recorded track_owned)

lemma keeps_apply_tracks: "keeps P (apply_tracks match ts now seq)"
  by (induction ts) (auto intro!: keeps_rules keeps_apply_track split: option.split)

lemma write_release_keeps_all:
  assumes "write_release U album release verdict result now seq d = (d', Inr (commit, changed))"
    and "apply_plan (mb_AlbumID album) verdict seq d = (d1, Inr split)" and "P (lib d1)" and "mb_AlbumID album = albumID"
  shows "P (lib d')"
  by (rule write_release_keeps [OF assms]) (intro keeps_rules keeps_apply_tracks)

end

section \<open>What joining the fragments does\<close>

definition split_catalog :: "string \<Rightarrow> splitAlbumPlan \<Rightarrow> int \<Rightarrow> catalog \<Rightarrow> catalog" where
  "split_catalog anchorID plan seq s =
     (let ids = sp_fragmentIDs plan;
          s1 = stamp_album_tracks anchorID seq (join_tracks anchorID ids seq s);
          s2 = (if sp_artID plan \<noteq> '''' then take_art anchorID (sp_artID plan) s1 else s1);
          s3 = s2\<lparr>ct_matches := delete_where (\<lambda>m. mr_album_id m \<in> set ids) (ct_matches s2)\<rparr>
      in fold (\<lambda>i. settle_owner i seq) (sp_artistIDs plan) (stamp_album anchorID seq (retire_albums ids seq s3)))"

definition move_refs :: "string \<Rightarrow> string list \<Rightarrow> profile_db \<Rightarrow> profile_db" where
  "move_refs anchorID ids p = p\<lparr>
     pd_loves := update_where (\<lambda>l. lv_ref l \<in> set ids) (\<lambda>l. l\<lparr>lv_ref := anchorID\<rparr>) (collapse_loves (anchorID # ids) (pd_loves p)),
     pd_ratings := update_where (\<lambda>r. rg_item r \<in> set ids) (\<lambda>r. r\<lparr>rg_item := anchorID\<rparr>) (collapse_ratings (anchorID # ids) (pd_ratings p)),
     pd_recs := collapse_recs anchorID (update_where (\<lambda>r. rc_ref r \<in> set ids) (\<lambda>r. r\<lparr>rc_ref := anchorID\<rparr>) (pd_recs p))\<rparr>"

lemma settle_owners_Inr:
  "settle_owners is seq d = (d', Inr u) \<Longrightarrow> d' = with_lib (fold (\<lambda>i. settle_owner i seq) is (lib d)) d"
proof (induction "is" arbitrary: d)
  case (Cons i "is")
  then obtain d1 where "lib_stmt (settle_owner i seq) d = (d1, Inr ())" "settle_owners is seq d1 = (d', Inr u)"
    by (auto simp: bindE_Inr)
  then show ?case using Cons.IH [of d1] by (auto simp: on_lib_Inr exec_def split: if_splits)
qed (simp add: returnE_def)

lemma lib_stmt_Inr: "lib_stmt f d = (d', Inr u) \<longleftrightarrow> d' = with_lib (f (lib d)) d \<and> constraints_ok (f (lib d))"
  by (auto simp: on_lib_Inr exec_def)

lemma settle_owners_ok: "settle_owners is seq d = (d', Inr u) \<Longrightarrow> constraints_ok (lib d) \<Longrightarrow> constraints_ok (lib d')"
  by (induction "is" arbitrary: d) (auto simp: bindE_Inr returnE_def lib_stmt_Inr)

lemma applySplit_Inr:
  assumes "applySplitAlbumPlanTx anchorID plan seq d = (d', Inr u)"
  shows "constraints_ok (lib d')" "rb_store d' = (move_refs anchorID (sp_fragmentIDs plan) (rb_store d))\<lparr>pd_cat := split_catalog anchorID plan seq (lib d)\<rparr>"
proof -
  obtain d1 where last: "settle_owners (sp_artistIDs plan) seq d1 = (d', Inr u)" and ok: "constraints_ok (lib d1)"
    and d1: "rb_store d1 = (move_refs anchorID (sp_fragmentIDs plan) (rb_store d))\<lparr>pd_cat := stamp_album anchorID seq
      (retire_albums (sp_fragmentIDs plan) seq (let s1 = stamp_album_tracks anchorID seq (join_tracks anchorID (sp_fragmentIDs plan) seq (lib d));
          s2 = (if sp_artID plan \<noteq> '''' then take_art anchorID (sp_artID plan) s1 else s1)
        in s2\<lparr>ct_matches := delete_where (\<lambda>m. mr_album_id m \<in> set (sp_fragmentIDs plan)) (ct_matches s2)\<rparr>))\<rparr>"
    using assms unfolding applySplitAlbumPlanTx_def
    by (cases "sp_artID plan = ''''") (auto simp: bindE_Inr lib_stmt_Inr on_store_def returnE_def Let_def move_refs_def)
  show "constraints_ok (lib d')" by (rule settle_owners_ok [OF last ok])
  show "rb_store d' = (move_refs anchorID (sp_fragmentIDs plan) (rb_store d))\<lparr>pd_cat := split_catalog anchorID plan seq (lib d)\<rparr>"
    using settle_owners_Inr [OF last] d1 by (simp add: split_catalog_def Let_def)
qed

section \<open>A consensus keeps the edition\<close>

text \<open>How an application ends: nothing changed, or all of it was written.\<close>

lemma apply_cases:
  assumes "applyMusicBrainzRelease U eqf album release result now seq d = (d', r)"
  shows "d' = d \<and> r \<noteq> Inr True \<or> (\<exists>cur verdict changed. musicBrainzSnapshotTx U (lib d) (mb_AlbumID album) = Some cur \<and> sameMusicBrainzSnapshot album cur \<and>
    (case result of
       Some b \<Rightarrow> if wants_plan release result then planSplitAlbumReconciliation U eqf d cur release (br_selected b) else Inr NoSplit
     | None \<Rightarrow> Inr NoSplit) = Inr verdict \<and> verdict \<noteq> UnsafeSplit \<and>
    write_release U album release verdict result now seq d = (d', Inr (True, changed)) \<and> r = Inr changed)"
proof (cases "musicBrainzSnapshotTx U (lib d) (mb_AlbumID album)")
  case None
  then show ?thesis using assms by (auto simp: applyMusicBrainzRelease_def)
next
  case (Some cur)
  let ?plan = "case result of
       Some b \<Rightarrow> if wants_plan release result then planSplitAlbumReconciliation U eqf d cur release (br_selected b) else Inr NoSplit
     | None \<Rightarrow> Inr NoSplit"
  show ?thesis
  proof (cases "sameMusicBrainzSnapshot album cur \<and> (\<exists>v. ?plan = Inr v \<and> v \<noteq> UnsafeSplit)")
    case False
    then show ?thesis using assms Some
      by (auto simp: applyMusicBrainzRelease_def split: if_splits sum.splits split_verdict.splits)
  next
    case True
    then obtain v where v: "?plan = Inr v" "v \<noteq> UnsafeSplit" "sameMusicBrainzSnapshot album cur" by blast
    obtain e w where w: "write_release U album release v result now seq d = (e, w)" by fastforce
    have "(d', r) = (case (e, w) of (_, Inl err) \<Rightarrow> (d, Inl err) | (e, Inr (commit, changed)) \<Rightarrow> if commit then (e, Inr changed) else (d, Inr False))"
      using assms Some v w by (cases v) (simp_all add: applyMusicBrainzRelease_def)
    then show ?thesis using Some v w by (auto split: sum.splits prod.splits if_splits)
  qed
qed

definition track_identity ::
  "track_row \<Rightarrow> string \<times> string option \<times> int option \<times> int option \<times> string \<times> string \<times> string" where
  "track_identity t = (tk_track_id t, tk_recording_id t, tk_idx t, tk_disc t, tk_title t, tk_artist_id t, tk_artist_name t)"

definition edition ::
  "catalog \<Rightarrow> (string \<times> string option \<times> int option \<times> int option \<times> string \<times> string \<times> string) list \<times> credit_row list \<times>
     (string \<times> string option \<times> string) list" where
  "edition s = (map track_identity (ct_tracks s), ct_track_credits s, map (\<lambda>a. (al_album_id a, al_release_id a, al_title a)) (ct_albums s))"

lemma map_update_where_same: "(\<And>r. g (f r) = g r) \<Longrightarrow> map g (update_where P f t) = map g t"
  by (simp add: update_where_def)

lemma edition_of_tables:
  "ct_tracks s' = ct_tracks s \<Longrightarrow> ct_track_credits s' = ct_track_credits s \<Longrightarrow> ct_albums s' = ct_albums s \<Longrightarrow> edition s' = edition s"
  by (simp add: edition_def)

lemma edition_of_albums:
  "ct_tracks s' = ct_tracks s \<Longrightarrow> ct_track_credits s' = ct_track_credits s \<Longrightarrow> ct_albums s' = update_where P f (ct_albums s) \<Longrightarrow>
   (\<And>a. al_album_id (f a) = al_album_id a \<and> al_release_id (f a) = al_release_id a \<and> al_title (f a) = al_title a) \<Longrightarrow> edition s' = edition s"
  by (simp add: edition_def map_update_where_same)

lemmas release_statements = adopt_artist_def insert_canonical_artist_def rename_artist_def insert_alias_def set_credits_def
  update_album_def retry_art_now_def retitle_album_def own_album_def stamp_album_def settle_artists_def stamp_artist_def put_match_def

interpretation edition: album_identity "\<lambda>s. kr_ReleaseID release = '''' \<longrightarrow> edition s = e" seq albumID release
proof unfold_locales
  fix s assume kept: "kr_ReleaseID release = '''' \<longrightarrow> edition s = e"
  have tables: "kr_ReleaseID release = '''' \<longrightarrow> edition s' = e"
    if "ct_tracks s' = ct_tracks s" "ct_track_credits s' = ct_track_credits s" "ct_albums s' = ct_albums s" for s'
    using edition_of_tables [OF that] kept by simp
  have rows: "kr_ReleaseID release = '''' \<longrightarrow> edition (s\<lparr>ct_albums := update_where P f (ct_albums s)\<rparr>) = e"
    if "kr_ReleaseID release = '''' \<Longrightarrow> (\<And>a. al_album_id (f a) = al_album_id a \<and> al_release_id (f a) = al_release_id a \<and> al_title (f a) = al_title a)" for P f
    using edition_of_albums [of "s\<lparr>ct_albums := update_where P f (ct_albums s)\<rparr>" s P f] that kept by simp
  show "kr_ReleaseID release = '''' \<longrightarrow> edition (s\<lparr>ct_drawn := n\<rparr>) = e" for n by (rule tables) simp_all
  show "kr_ReleaseID release = '''' \<longrightarrow> edition (s\<lparr>ct_updated_at := Some now\<rparr>) = e" for now by (rule tables) simp_all
  show "kr_ReleaseID release = '''' \<longrightarrow> edition (put_match m s) = e" for m by (rule tables) (simp_all add: put_match_def)
  show "kr_ReleaseID release = '''' \<longrightarrow> edition (adopt_artist aid mbid seq s) = e" for aid mbid by (rule tables) (simp_all add: release_statements)
  show "kr_ReleaseID release = '''' \<longrightarrow> edition (insert_canonical_artist aid name mbid now seq s) = e" for aid name mbid now
    by (rule tables) (simp_all add: release_statements)
  show "kr_ReleaseID release = '''' \<longrightarrow> edition (rename_artist aid name seq s) = e" for aid name by (rule tables) (simp_all add: release_statements)
  show "kr_ReleaseID release = '''' \<longrightarrow> edition (insert_alias aid name s) = e" for aid name by (rule tables) (simp_all add: release_statements)
  show "kr_ReleaseID release = '''' \<longrightarrow> edition (set_credits CAlbum t s) = e" for t by (rule tables) (simp_all add: release_statements)
  show "kr_ReleaseID release = '''' \<longrightarrow> edition (settle_artists seq s) = e" by (rule tables) (simp_all add: release_statements)
  show "kr_ReleaseID release = '''' \<longrightarrow> edition (stamp_artist aid seq s) = e" for aid by (rule tables) (simp_all add: release_statements)
  show "kr_ReleaseID release = '''' \<longrightarrow> edition (update_album albumID (identify_row release seq) s) = e"
    unfolding update_album_def by (rule rows) (simp add: identify_row_def nullStr_def coalesce_def Let_def)
  show "kr_ReleaseID release = '''' \<longrightarrow> edition (retry_art_now albumID s) = e" unfolding retry_art_now_def by (rule rows) simp
  show "kr_ReleaseID release = '''' \<longrightarrow> edition (own_album albumID aid seq s) = e" for aid
    unfolding own_album_def update_album_def by (rule rows) simp
  show "kr_ReleaseID release = '''' \<longrightarrow> edition (stamp_album albumID seq s) = e" unfolding stamp_album_def update_album_def by (rule rows) simp
qed simp

interpretation album_tracks: album_identity "\<lambda>s. ct_tracks s = ts" seq albumID release
  by unfold_locales (simp_all add: release_statements)

lemma settle_fold_tables:
  "ct_tracks (fold (\<lambda>i. settle_owner i seq) is s) = ct_tracks s \<and> ct_albums (fold (\<lambda>i. settle_owner i seq) is s) = ct_albums s \<and>
   ct_track_credits (fold (\<lambda>i. settle_owner i seq) is s) = ct_track_credits s \<and>
   ct_album_credits (fold (\<lambda>i. settle_owner i seq) is s) = ct_album_credits s \<and>
   ct_matches (fold (\<lambda>i. settle_owner i seq) is s) = ct_matches s \<and> ct_scan_seq (fold (\<lambda>i. settle_owner i seq) is s) = ct_scan_seq s"
  by (induction "is" arbitrary: s) (simp_all add: settle_owner_def)

text \<open>The tables after the fragments were joined.\<close>

definition joined_album :: "string \<Rightarrow> splitAlbumPlan \<Rightarrow> int \<Rightarrow> album_row \<Rightarrow> album_row" where
  "joined_album anchorID plan seq a =
     (let art = (if al_album_id a = anchorID \<and> al_art_id a = None \<and> sp_artID plan \<noteq> '''' then Some (sp_artID plan) else al_art_id a)
      in a\<lparr>al_art_id := art, al_missing := (al_missing a \<or> al_album_id a \<in> set (sp_fragmentIDs plan)),
           al_change_seq := (if al_album_id a \<in> set (anchorID # sp_fragmentIDs plan) then seq else al_change_seq a)\<rparr>)"

definition joined_track :: "string \<Rightarrow> splitAlbumPlan \<Rightarrow> int \<Rightarrow> track_row \<Rightarrow> track_row" where
  "joined_track anchorID plan seq t =
     (if tk_album_id t \<in> set (anchorID # sp_fragmentIDs plan) then t\<lparr>tk_album_id := anchorID, tk_change_seq := seq\<rparr> else t)"

lemma split_catalog_tables:
  "ct_albums (split_catalog anchorID plan seq s) = map (joined_album anchorID plan seq) (ct_albums s)"
  "ct_tracks (split_catalog anchorID plan seq s) = map (joined_track anchorID plan seq) (ct_tracks s)"
  "ct_track_credits (split_catalog anchorID plan seq s) = ct_track_credits s"
  "ct_matches (split_catalog anchorID plan seq s) = delete_where (\<lambda>m. mr_album_id m \<in> set (sp_fragmentIDs plan)) (ct_matches s)"
proof -
  show "ct_albums (split_catalog anchorID plan seq s) = map (joined_album anchorID plan seq) (ct_albums s)"
    by (cases "sp_artID plan = ''''") (auto simp: split_catalog_def Let_def settle_fold_tables stamp_album_def update_album_def retire_albums_def
        take_art_def stamp_album_tracks_def join_tracks_def joined_album_def update_where_def)
  show "ct_tracks (split_catalog anchorID plan seq s) = map (joined_track anchorID plan seq) (ct_tracks s)"
    by (auto simp: split_catalog_def Let_def settle_fold_tables stamp_album_def update_album_def retire_albums_def
        take_art_def stamp_album_tracks_def join_tracks_def joined_track_def update_where_def)
qed (simp_all add: split_catalog_def Let_def settle_fold_tables stamp_album_def update_album_def retire_albums_def
        take_art_def stamp_album_tracks_def join_tracks_def)

lemma split_catalog_edition: "edition (split_catalog anchorID plan seq s) = edition s"
  by (simp add: edition_def split_catalog_tables joined_album_def joined_track_def track_identity_def Let_def)

lemma apply_plan_Inr:
  "apply_plan albumID verdict seq d = (d1, Inr split) \<Longrightarrow>
     (case verdict of SafeSplit plan \<Rightarrow> split \<and> constraints_ok (lib d1) \<and>
        rb_store d1 = (move_refs albumID (sp_fragmentIDs plan) (rb_store d))\<lparr>pd_cat := split_catalog albumID plan seq (lib d)\<rparr>
      | _ \<Rightarrow> \<not> split \<and> d1 = d)"
  by (auto simp: apply_plan_def bindE_Inr returnE_def split: split_verdict.splits dest: applySplit_Inr)

lemma applied_without_release:
  assumes run: "applyMusicBrainzRelease U eqf album release (Some b) now seq d = (d', r)" and noid: "kr_ReleaseID release = ''''"
    and tracks: "kr_ReconcileOnly release \<or> kr_Tracks release = []"
  shows "edition (lib d') = edition (lib d) \<and> (kr_ReconcileOnly release \<or> ct_tracks (lib d') = ct_tracks (lib d))"
proof (cases "d' = d")
  case False
  then obtain cur verdict changed where
    v: "(if wants_plan release (Some b) then planSplitAlbumReconciliation U eqf d cur release (br_selected b) else Inr NoSplit) = Inr verdict"
      "verdict \<noteq> UnsafeSplit" and w: "write_release U album release verdict (Some b) now seq d = (d', Inr (True, changed))"
    using apply_cases [OF run] by (auto simp del: not_None_eq)
  obtain d1 split where d1: "apply_plan (mb_AlbumID album) verdict seq d = (d1, Inr split)" by (rule write_release_Inr [OF w])
  show ?thesis
  proof (cases "kr_ReconcileOnly release")
    case True
    have "edition (lib d1) = edition (lib d)"
      using apply_plan_Inr [OF d1] split_catalog_edition by (auto split: split_verdict.splits)
    then show ?thesis
      using edition.write_release_keeps [OF w d1, of "edition (lib d)"] True noid by (simp add: keeps_returnE)
  next
    case False
    have verdict: "verdict = NoSplit" using v False tracks by (auto simp: wants_plan_def)
    then have same: "d1 = d" using apply_plan_Inr [OF d1] by simp
    have "keeps P (apply_tracks (release_matcher U release verdict) ts now seq)" for P ts
      using False tracks verdict by (induction ts) (auto intro!: keeps_rules simp: release_matcher_def release_match_def)
    then show ?thesis
      using edition.write_release_keeps [OF w d1, of "edition (lib d)"] album_tracks.write_release_keeps [OF w d1, of "ct_tracks (lib d)"] same False noid
      by simp
  qed
qed simp

text \<open>C38
  When the plausible candidates agree on an artist or on a release group but not on an edition, applying
  what they agree on never touches what identifies the tracks: their recordings, positions, titles and
  credits stay, and so do the albums' releases and titles; without fragments to join, no track changes
  at all.
\<close>

theorem consensus_keeps_the_edition:
  "edition (lib (fst (ApplyMusicBrainzConsensus U eqf album release seq selected candidates nxt now d))) = edition (lib d) \<and>
   (kr_ReconcileOnly release \<or>
    ct_tracks (lib (fst (ApplyMusicBrainzConsensus U eqf album release seq selected candidates nxt now d))) = ct_tracks (lib d))"
proof -
  let ?release = "release\<lparr>kr_ReleaseID := '''', kr_Tracks := (if kr_ReconcileOnly release then kr_Tracks release else [])\<rparr>"
  obtain d' r where run: "applyMusicBrainzRelease U eqf album ?release
      (Some \<lparr>br_state = ''ambiguous'', br_selected = selected, br_candidates = candidates, br_next = nxt\<rparr>) now seq d = (d', r)" by fastforce
  then show ?thesis using applied_without_release [OF run] by (simp add: ApplyMusicBrainzConsensus_def Let_def)
qed

section \<open>Joining loses nothing\<close>

definition album_place :: "album_row \<Rightarrow> string \<times> bool" where "album_place a = (al_album_id a, al_missing a)"

definition track_place :: "track_row \<Rightarrow> string \<times> string \<times> bool" where
  "track_place t = (tk_track_id t, tk_album_id t, tk_missing t)"

interpretation places: release_property "\<lambda>s. map album_place (ct_albums s) = as \<and> map track_place (ct_tracks s) = ts" seq albumID release
  by unfold_locales (auto simp: release_statements identify_row_def record_track_def set_recording_def own_track_def album_place_def
      track_place_def map_update_where_same Let_def split: credit_table.splits)

lemma write_release_store:
  assumes "write_release U album release verdict result now seq d = (d', Inr (commit, changed))"
    and "apply_plan (mb_AlbumID album) verdict seq d = (d1, Inr split)"
  shows "rb_store d' = (rb_store d1)\<lparr>pd_cat := lib d'\<rparr>"
proof -
  obtain d1' split' s2 written s3 prior d4 where w:
    "apply_plan (mb_AlbumID album) verdict seq d = (d1', Inr split')"
    "record_outcome (mb_AlbumID album) result changed now (with_lib s3 d1') = (d4, Inr commit)"
    "d' = (if changed then with_lib ((lib d4)\<lparr>ct_updated_at := Some now\<rparr>) d4 else d4)"
    by (rule write_release_Inr [OF assms(1)])
  then show ?thesis using record_outcome_Inr [OF w(2)] assms(2) by auto
qed

text \<open>Every row of the albums has, with its key, one that is kept.\<close>

lemma collapse_finds:
  assumes "r \<in> set t" and "hit r"
  shows "\<exists>x \<in> set t. hit x \<and> key x = key r \<and> first_of key hit t x"
proof -
  obtain x xs where x: "filter (\<lambda>x. hit x \<and> key x = key r) t = x # xs"
    using assms by (cases "filter (\<lambda>x. hit x \<and> key x = key r) t") (auto simp: filter_empty_conv)
  then have "x \<in> set (filter (\<lambda>x. hit x \<and> key x = key r) t)" by simp
  then have "x \<in> set t" "hit x" "key x = key r" by simp_all
  then show ?thesis using x by (auto simp: first_of_def)
qed

lemma no_conflict:
  "\<not> conflicting owner opinion hit t \<Longrightarrow> a \<in> set t \<Longrightarrow> b \<in> set t \<Longrightarrow> hit a \<Longrightarrow> hit b \<Longrightarrow> owner a = owner b \<Longrightarrow> opinion a = opinion b"
  unfolding conflicting_def list_ex_iff set_filter by blast

lemma loves_joined:
  assumes calm: "\<not> conflicting lv_profile lv_state (\<lambda>l. lv_ref l \<in> set (A # ids)) t" and l: "l \<in> set t" "lv_ref l \<in> set (A # ids)"
  shows "map_option lv_state (select1 (\<lambda>x. love_key x = (lv_profile l, A))
    (update_where (\<lambda>x. lv_ref x \<in> set ids) (\<lambda>x. x\<lparr>lv_ref := A\<rparr>) (collapse_loves (A # ids) t))) = Some (lv_state l)"
    (is "map_option _ (select1 ?P ?t) = _")
proof -
  obtain x where x: "x \<in> set t" "lv_ref x \<in> set (A # ids)" "lv_profile x = lv_profile l"
      "first_of lv_profile (\<lambda>x. lv_ref x \<in> set (A # ids)) (sort_key lv_id t) x"
    using collapse_finds [of l "sort_key lv_id t" "\<lambda>x. lv_ref x \<in> set (A # ids)" lv_profile] l by auto
  then have "(if lv_ref x \<in> set ids then x\<lparr>lv_ref := A\<rparr> else x) \<in> set ?t"
    by (auto simp: set_update_where collapse_loves_def)
  moreover have "?P (if lv_ref x \<in> set ids then x\<lparr>lv_ref := A\<rparr> else x)" using x by (auto simp: love_key_def)
  ultimately have "\<exists>y. select1 ?P ?t = Some y" by (rule select1_Some_ex)
  then obtain y where y: "select1 ?P ?t = Some y" by blast
  then have "y \<in> set ?t" "love_key y = (lv_profile l, A)" using select1_SomeD [OF y] by simp_all
  then obtain z where z: "z \<in> set t" "y = (if lv_ref z \<in> set ids then z\<lparr>lv_ref := A\<rparr> else z)"
    by (auto simp: set_update_where collapse_loves_def)
  then have "lv_ref z \<in> set (A # ids)" "lv_profile z = lv_profile l" "lv_state y = lv_state z"
    using \<open>love_key y = _\<close> by (auto simp: love_key_def split: if_splits)
  then have "lv_state y = lv_state l" using no_conflict [OF calm z(1) l(1)] l(2) by simp
  then show ?thesis using y by simp
qed

lemma ratings_joined:
  assumes calm: "\<not> conflicting rg_profile rg_rating10 (\<lambda>r. rg_item r \<in> set (A # ids)) t" and r: "r \<in> set t" "rg_item r \<in> set (A # ids)"
  shows "map_option rg_rating10 (select1 (\<lambda>x. rating_key x = (rg_profile r, A))
    (update_where (\<lambda>x. rg_item x \<in> set ids) (\<lambda>x. x\<lparr>rg_item := A\<rparr>) (collapse_ratings (A # ids) t))) = Some (rg_rating10 r)"
    (is "map_option _ (select1 ?P ?t) = _")
proof -
  obtain x where x: "x \<in> set t" "rg_item x \<in> set (A # ids)" "rg_profile x = rg_profile r"
      "first_of rg_profile (\<lambda>x. rg_item x \<in> set (A # ids)) t x"
    using collapse_finds [of r t "\<lambda>x. rg_item x \<in> set (A # ids)" rg_profile] r by auto
  then have "(if rg_item x \<in> set ids then x\<lparr>rg_item := A\<rparr> else x) \<in> set ?t"
    by (auto simp: set_update_where collapse_ratings_def)
  moreover have "?P (if rg_item x \<in> set ids then x\<lparr>rg_item := A\<rparr> else x)" using x by (auto simp: rating_key_def)
  ultimately have "\<exists>y. select1 ?P ?t = Some y" by (rule select1_Some_ex)
  then obtain y where y: "select1 ?P ?t = Some y" by blast
  then have "y \<in> set ?t" "rating_key y = (rg_profile r, A)" using select1_SomeD [OF y] by simp_all
  then obtain z where z: "z \<in> set t" "y = (if rg_item z \<in> set ids then z\<lparr>rg_item := A\<rparr> else z)"
    by (auto simp: set_update_where collapse_ratings_def)
  then have "rg_item z \<in> set (A # ids)" "rg_profile z = rg_profile r" "rg_rating10 y = rg_rating10 z"
    using \<open>rating_key y = _\<close> by (auto simp: rating_key_def split: if_splits)
  then have "rg_rating10 y = rg_rating10 r" using no_conflict [OF calm z(1) r(1)] r(2) by simp
  then show ?thesis using y by simp
qed

lemma recs_joined:
  assumes "r \<in> set t" and "rc_ref r \<in> set (A # ids)"
  shows "\<exists>x \<in> set (collapse_recs A (update_where (\<lambda>r. rc_ref r \<in> set ids) (\<lambda>r. r\<lparr>rc_ref := A\<rparr>) t)). rc_ref x = A \<and> rec_key x = rec_key r"
proof -
  let ?t = "update_where (\<lambda>r. rc_ref r \<in> set ids) (\<lambda>r. r\<lparr>rc_ref := A\<rparr>) t"
  let ?r = "if rc_ref r \<in> set ids then r\<lparr>rc_ref := A\<rparr> else r"
  have "?r \<in> set ?t" "rc_ref ?r = A" "rec_key ?r = rec_key r" using assms by (auto simp: set_update_where rec_key_def)
  then obtain x where "x \<in> set ?t" "rc_ref x = A" "rec_key x = rec_key r" "first_of rec_key (\<lambda>x. rc_ref x = A) ?t x"
    using collapse_finds [of ?r ?t "\<lambda>x. rc_ref x = A" rec_key] by auto
  then show ?thesis by (auto simp: collapse_recs_def)
qed

text \<open>What a safe plan guarantees.\<close>

lemma safe_plan:
  assumes "planSplitAlbumReconciliation U eqf d cur release selected = Inr (SafeSplit plan)"
  shows "mb_AlbumID cur \<notin> set (sp_fragmentIDs plan)" "\<not> splitProfileConflictTx (rb_store d) (mb_AlbumID cur) (sp_fragmentIDs plan)"
    "\<forall>i \<in> set (sp_fragmentIDs plan). all_present (lib d) i"
    "matchReleaseUnion U (sp_tracks plan) release = Some (sp_canonical plan)"
  using assms
  by (auto simp: planSplitAlbumReconciliation_def Let_def fragment_ok_def list_all_iff split: if_splits option.splits sum.splits bool.splits)

lemma joined:
  assumes "ApplyMusicBrainzMatch U eqf album release seq selected candidates nxt now d = (d', Inr changed)"
    and "musicBrainzSnapshotTx U (lib d) (mb_AlbumID album) = Some cur" and "sameMusicBrainzSnapshot album cur"
    and "kr_ReleaseID release \<noteq> ''''" and "kr_Tracks release \<noteq> []"
    and "planSplitAlbumReconciliation U eqf d cur release selected = Inr (SafeSplit plan)"
  defines "A \<equiv> mb_AlbumID album" and "ids \<equiv> sp_fragmentIDs plan"
  shows "changed" and "A \<notin> set ids"
    and "map track_place (ct_tracks (lib d')) =
      map (\<lambda>t. (tk_track_id t, if tk_album_id t \<in> set ids then A else tk_album_id t, tk_missing t)) (ct_tracks (lib d))"
    and "map album_place (ct_albums (lib d')) = map (\<lambda>a. (al_album_id a, al_missing a \<or> al_album_id a \<in> set ids)) (ct_albums (lib d))"
    and "\<forall>l \<in> set (pd_loves (rb_store d)). lv_ref l \<in> set (A # ids) \<longrightarrow>
      GetLoveStates (rb_store d') (lv_profile l) [A] A = Some (lv_state l)"
    and "\<forall>r \<in> set (pd_ratings (rb_store d)). rg_item r \<in> set (A # ids) \<longrightarrow>
      GetRatings (rb_store d') (rg_profile r) [A] A = Some (rg_rating10 r)"
    and "\<forall>r \<in> set (pd_recs (rb_store d)). rc_ref r \<in> set (A # ids) \<longrightarrow>
      (\<exists>x \<in> set (pd_recs (rb_store d')). rc_ref x = A \<and> rec_key x = rec_key r)"
proof -
  have curID: "mb_AlbumID cur = A"
    using assms(2) by (auto simp: musicBrainzSnapshotTx_def A_def album_by_id_def split: option.splits prod.splits dest: select1_SomeD)
  note safe = safe_plan [OF assms(6), unfolded curID, folded ids_def]
  let ?b = "\<lparr>br_state = ''matched'', br_selected = selected, br_candidates = candidates, br_next = nxt\<rparr>"
  have wants: "wants_plan release (Some ?b)" using assms(4,5) by (simp add: wants_plan_def)
  obtain w c where w: "write_release U album release (SafeSplit plan) (Some ?b) now seq d = (w, c)" by fastforce
  have run: "(case (w, c) of (_, Inl e) \<Rightarrow> (d, Inl e) | (e, Inr (commit, changed)) \<Rightarrow> if commit then (e, Inr changed) else (d, Inr False)) = (d', Inr changed)"
    using assms(1-3,6) wants w by (simp add: ApplyMusicBrainzMatch_def applyMusicBrainzRelease_def)
  obtain commit ch where c: "c = Inr (commit, ch)" using run by (cases c) auto
  obtain d1 split s2 written s3 prior d4 where p:
    "apply_plan (mb_AlbumID album) (SafeSplit plan) seq d = (d1, Inr split)" "ch = (split \<or> written)"
    "record_outcome (mb_AlbumID album) (Some ?b) ch now (with_lib s3 d1) = (d4, Inr commit)"
    by (rule write_release_Inr [OF w [unfolded c]])
  have d1: split "rb_store d1 = (move_refs A ids (rb_store d))\<lparr>pd_cat := split_catalog A plan seq (lib d)\<rparr>"
    using apply_plan_Inr [OF p(1)] by (simp_all add: A_def ids_def)
  have commit using p(2,3) d1(1) by (auto simp: record_outcome_def bindE_def returnE_def recordMusicBrainzResultTx_def split: if_splits)
  then have finished: "changed" "d' = w" using run c p(2) d1(1) by auto
  show "changed" "A \<notin> set ids" by (rule finished safe(1))+
  have store: "rb_store d' = (rb_store d1)\<lparr>pd_cat := lib d'\<rparr>" using write_release_store [OF w [unfolded c] p(1)] finished by simp
  have tables: "pd_loves (rb_store d') = pd_loves (move_refs A ids (rb_store d))" "pd_ratings (rb_store d') = pd_ratings (move_refs A ids (rb_store d))"
      "pd_recs (rb_store d') = pd_recs (move_refs A ids (rb_store d))"
    using arg_cong [OF store, of pd_loves] arg_cong [OF store, of pd_ratings] arg_cong [OF store, of pd_recs] d1(2) by simp_all
  have places: "map album_place (ct_albums (lib d')) = map album_place (ct_albums (lib d1)) \<and>
      map track_place (ct_tracks (lib d')) = map track_place (ct_tracks (lib d1))"
    using places.write_release_keeps_all [OF w [unfolded c] p(1)] finished(2) by simp
  show "map track_place (ct_tracks (lib d')) =
      map (\<lambda>t. (tk_track_id t, if tk_album_id t \<in> set ids then A else tk_album_id t, tk_missing t)) (ct_tracks (lib d))"
    using places d1(2) by (auto simp: split_catalog_tables joined_track_def track_place_def ids_def)
  show "map album_place (ct_albums (lib d')) = map (\<lambda>a. (al_album_id a, al_missing a \<or> al_album_id a \<in> set ids)) (ct_albums (lib d))"
    using places d1(2) by (simp add: split_catalog_tables joined_album_def album_place_def ids_def Let_def)
  have calm: "\<not> conflicting lv_profile lv_state (\<lambda>l. lv_ref l \<in> set (A # ids)) (pd_loves (rb_store d))"
      "\<not> conflicting rg_profile rg_rating10 (\<lambda>r. rg_item r \<in> set (A # ids)) (pd_ratings (rb_store d))"
    using safe(2) by (auto simp only: splitProfileConflictTx_def)
  show "\<forall>l \<in> set (pd_loves (rb_store d)). lv_ref l \<in> set (A # ids) \<longrightarrow> GetLoveStates (rb_store d') (lv_profile l) [A] A = Some (lv_state l)"
    using loves_joined [OF calm(1)] by (simp add: tables GetLoveStates_def move_refs_def)
  show "\<forall>r \<in> set (pd_ratings (rb_store d)). rg_item r \<in> set (A # ids) \<longrightarrow> GetRatings (rb_store d') (rg_profile r) [A] A = Some (rg_rating10 r)"
    using ratings_joined [OF calm(2)] by (simp add: tables GetRatings_def move_refs_def)
  show "\<forall>r \<in> set (pd_recs (rb_store d)). rc_ref r \<in> set (A # ids) \<longrightarrow> (\<exists>x \<in> set (pd_recs (rb_store d')). rc_ref x = A \<and> rec_key x = rec_key r)"
    using recs_joined by (simp add: tables move_refs_def)
qed

text \<open>C20
  When the fragments of an album fit a release together and the match is applied, nothing of them is
  lost: every track of theirs is then on the album, the fragments are gone and hold no track, no other
  track or album moves, what a profile thought of any of them it now thinks of the album, and what was
  recommended is recommended still.
\<close>

theorem joining_loses_nothing:
  assumes "ApplyMusicBrainzMatch U eqf album release seq selected candidates nxt now d = (d', Inr changed)"
    and "musicBrainzSnapshotTx U (lib d) (mb_AlbumID album) = Some cur" and "sameMusicBrainzSnapshot album cur"
    and "kr_ReleaseID release \<noteq> ''''" and "kr_Tracks release \<noteq> []"
    and "planSplitAlbumReconciliation U eqf d cur release selected = Inr (SafeSplit plan)"
  shows "let A = mb_AlbumID album; ids = sp_fragmentIDs plan in changed \<and> A \<notin> set ids \<and>
    map track_place (ct_tracks (lib d')) =
      map (\<lambda>t. (tk_track_id t, if tk_album_id t \<in> set ids then A else tk_album_id t, tk_missing t)) (ct_tracks (lib d)) \<and>
    map album_place (ct_albums (lib d')) = map (\<lambda>a. (al_album_id a, al_missing a \<or> al_album_id a \<in> set ids)) (ct_albums (lib d)) \<and>
    (\<forall>l \<in> set (pd_loves (rb_store d)). lv_ref l \<in> set (A # ids) \<longrightarrow>
      GetLoveStates (rb_store d') (lv_profile l) [A] A = Some (lv_state l)) \<and>
    (\<forall>r \<in> set (pd_ratings (rb_store d)). rg_item r \<in> set (A # ids) \<longrightarrow>
      GetRatings (rb_store d') (rg_profile r) [A] A = Some (rg_rating10 r)) \<and>
    (\<forall>r \<in> set (pd_recs (rb_store d)). rc_ref r \<in> set (A # ids) \<longrightarrow>
      (\<exists>x \<in> set (pd_recs (rb_store d')). rc_ref x = A \<and> rec_key x = rec_key r))"
  using joined [OF assms] unfolding Let_def by blast

section \<open>Clients are told\<close>

interpretation release_constraints: release_property constraints_ok seq albumID release
  by unfold_locales (simp_all add: constraints_ok_def put_match_def)

interpretation release_delta: release_property "delta_kept v seq s0" seq albumID release
proof unfold_locales
  fix s assume d: "delta_kept v seq s0 s"
  show "delta_kept v seq s0 (s\<lparr>ct_drawn := n\<rparr>)" for n by (rule delta_same_tables [OF d]) simp_all
  show "delta_kept v seq s0 (s\<lparr>ct_updated_at := Some now\<rparr>)" for now by (rule delta_same_tables [OF d]) simp_all
  show "delta_kept v seq s0 (put_match m s)" for m by (rule delta_same_tables [OF d]) (simp_all add: put_match_def)
  show "delta_kept v seq s0 (insert_alias aid name s)" for aid name by (rule delta_same_tables [OF d]) (simp_all add: insert_alias_def)
  have credits: "delta_kept v seq s0 (set_credits ct t s)" for ct t
    by (rule delta_same_tables [OF d]) (simp_all add: set_credits_def split: credit_table.split)
  show "delta_kept v seq s0 (set_credits CAlbum t s)" "delta_kept v seq s0 (set_credits CTrack t s)" for t by (rule credits)+
  show "delta_kept v seq s0 (adopt_artist aid mbid seq s)" for aid mbid
    unfolding adopt_artist_def by (rule delta_artists_update [OF d]) simp
  show "delta_kept v seq s0 (rename_artist aid name seq s)" for aid name
    unfolding rename_artist_def by (rule delta_artists_update [OF d]) simp
  show "delta_kept v seq s0 (stamp_artist aid seq s)" for aid
    unfolding stamp_artist_def by (rule delta_artists_update [OF d]) simp
  show "delta_kept v seq s0 (settle_artists seq s)"
    using d unfolding settle_artists_def delta_defs by (auto intro!: stamped_since_map simp: artist_view_def split: if_splits)
  show "delta_kept v seq s0 (insert_canonical_artist aid name mbid now seq s)" for aid name mbid now
    using d unfolding delta_defs insert_canonical_artist_def by (simp add: stamped_since_append)
  show "delta_kept v seq s0 (update_album albumID (identify_row release seq) s)"
    unfolding update_album_def by (rule delta_albums_update [OF d]) (simp add: identify_row_def album_view_def Let_def)
  show "delta_kept v seq s0 (retry_art_now albumID s)"
    unfolding retry_art_now_def by (rule delta_albums_update [OF d]) (simp add: album_view_def)
  show "delta_kept v seq s0 (retitle_album albumID title seq s)" for title
    unfolding retitle_album_def by (rule delta_albums_update [OF d]) simp
  show "delta_kept v seq s0 (own_album albumID aid seq s)" for aid
    unfolding own_album_def update_album_def by (rule delta_albums_update [OF d]) (simp add: album_view_def)
  show "delta_kept v seq s0 (stamp_album albumID seq s)"
    unfolding stamp_album_def update_album_def by (rule delta_albums_update [OF d]) simp
  show "delta_kept v seq s0 (record_track r tid seq s)" for r tid
    unfolding record_track_def by (rule delta_tracks_update [OF d]) (simp add: set_recording_def)
  show "delta_kept v seq s0 (own_track tid aid name seq s)" for tid aid name
    unfolding own_track_def by (rule delta_tracks_update [OF d]) (simp add: track_view_def)
qed

lemma delta_settle_owners:
  "delta_kept v seq s0 s \<Longrightarrow> delta_kept v seq s0 (fold (\<lambda>i. settle_owner i seq) is s)"
proof (induction "is" arbitrary: s)
  case (Cons i "is")
  have "delta_kept v seq s0 (settle_owner i seq s)"
    unfolding settle_owner_def by (rule delta_artists_update [OF Cons.prems]) simp
  then show ?case using Cons.IH by simp
qed simp

lemma delta_split:
  assumes "delta_kept v seq s0 s"
  shows "delta_kept v seq s0 (split_catalog anchorID plan seq s)"
proof -
  let ?settle = "fold (\<lambda>i. settle_owner i seq) (sp_artistIDs plan)"
  obtain t where t: "split_catalog anchorID plan seq s = ?settle t" "ct_artists t = ct_artists s"
    by (simp add: split_catalog_def Let_def stamp_album_def update_album_def retire_albums_def take_art_def stamp_album_tracks_def join_tracks_def)
  have "ct_albums t = map (joined_album anchorID plan seq) (ct_albums s)" "ct_tracks t = map (joined_track anchorID plan seq) (ct_tracks s)"
    using split_catalog_tables [of anchorID plan seq s] settle_fold_tables [of seq "sp_artistIDs plan" t] t(1) by simp_all
  then have "delta_kept v seq s0 t"
    using assms t(2) unfolding delta_defs
    by (auto intro!: stamped_since_map track_shown_row simp: joined_album_def joined_track_def album_view_def Let_def)
  then show ?thesis unfolding t(1) by (rule delta_settle_owners)
qed

text \<open>An application keeps the constraints and announces what it changes.\<close>

lemma applied_delta:
  assumes run: "applyMusicBrainzRelease U eqf album release result now seq d = (d', r)"
    and ok: "constraints_ok (lib d)" and d: "delta_kept v seq s0 (lib d)"
  shows "constraints_ok (lib d') \<and> delta_kept v seq s0 (lib d')"
proof (cases "d' = d")
  case False
  then obtain verdict changed where w: "write_release U album release verdict result now seq d = (d', Inr (True, changed))"
    using apply_cases [OF run] by auto
  obtain d1 split where d1: "apply_plan (mb_AlbumID album) verdict seq d = (d1, Inr split)" by (rule write_release_Inr [OF w])
  have "constraints_ok (lib d1) \<and> delta_kept v seq s0 (lib d1)"
    using apply_plan_Inr [OF d1] ok d delta_split by (auto split: split_verdict.splits)
  then show ?thesis
    using release_constraints.write_release_keeps_all [OF w d1] release_delta.write_release_keeps_all [OF w d1] by blast
qed (use ok d in simp)

text \<open>
  A client that follows the change feed sees everything an identification writes: a client whose copy was
  that of the version before, follows the pages of the feed since that version, and then has the albums,
  artists and tracks as the catalogue has them, also when fragments were joined. The sequence number is the
  one taken for the application; the list of credits of a track is not part of what the feed announces.
\<close>

lemma release_reaches_clients:
  assumes "constraints_ok (lib d)" and "NextScanSeq (lib d) = (c, seq)"
    and "applyMusicBrainzRelease U eqf album release result now seq (with_lib c d) = (d', r)"
    and "0 < n" and "length (feed (lib d')) < fuel"
  shows "sync (lib d') (walk_pages (\<lambda>k. ChangesSince (lib d') (version (lib d)) k n) fuel None) (live (lib d)) = live (lib d')"
proof -
  have c: "constraints_ok c" "delta_ok (version (lib d)) (lib d) c" and v: "version (lib d) < seq"
    using NextScanSeq_keeps(1) [OF assms(1)] NextScanSeq_keeps(2) [OF delta_ok_refl, of "version (lib d)" "lib d"] NextScanSeq_version [OF assms(2)]
      assms(2) by simp_all
  have "constraints_ok (lib d') \<and> delta_kept (version (lib d)) seq (lib d) (lib d')"
    by (rule applied_delta [OF assms(3)]) (use c in \<open>simp_all add: delta_kept_def\<close>)
  then show ?thesis using v assms(4,5) by (intro sync_delta [OF assms(1)]) (simp_all add: delta_kept_def)
qed

section \<open>An example\<close>

definition split_track :: "string \<Rightarrow> string \<Rightarrow> string \<Rightarrow> string \<Rightarrow> string \<Rightarrow> int \<Rightarrow> track_row" where
  "split_track i album artist display title idx =
     (new_track ''plex'' ((sample_meta i title ''One'')\<lparr>tm_Index := idx\<rparr>) '''' i album artist 1 1)\<lparr>tk_artist_name := display\<rparr>"

definition split_db :: release_db where
  "split_db = \<lparr>rb_store = demo_db\<lparr>pd_cat := demo_catalog\<lparr>
       ct_albums := [demo_album ''alb_a'' ''art_a'' ''One'', demo_album ''alb_b'' ''art_b'' ''One''],
       ct_tracks := [split_track ''trk_a'' ''alb_a'' ''art_a'' ''A'' ''First'' 1, split_track ''trk_b'' ''alb_b'' ''art_b'' ''A with B'' ''Second'' 2],
       ct_album_credits := [\<lparr>cr_owner = ''alb_a'', cr_position = 0, cr_artist_id = ''art_a'', cr_name = ''A'', cr_join = ''''\<rparr>,
         \<lparr>cr_owner = ''alb_b'', cr_position = 0, cr_artist_id = ''art_b'', cr_name = ''B'', cr_join = ''''\<rparr>],
       ct_track_credits := [\<lparr>cr_owner = ''trk_a'', cr_position = 0, cr_artist_id = ''art_a'', cr_name = ''A'', cr_join = ''''\<rparr>,
         \<lparr>cr_owner = ''trk_b'', cr_position = 0, cr_artist_id = ''art_b'', cr_name = ''A with B'', cr_join = ''''\<rparr>]\<rparr>,
       pd_loves := [\<lparr>lv_id = ''lov_2'', lv_profile = ''prf_a'', lv_ref = ''alb_b'', lv_kind = ''album'', lv_state = ''loved'', lv_updated_at = 1\<rparr>]\<rparr>,
     rb_candidates = []\<rparr>"

definition split_release :: CanonicalRelease where
  "split_release = \<lparr>kr_ReleaseID = ''rel'', kr_ReleaseGroupID = ''grp'', kr_Title = ''One'', kr_ReleaseDate = '''',
     kr_AlbumCredits = [\<lparr>ac_Name = ''A'', ac_JoinPhrase = '''', ac_MBID = ''m-a''\<rparr>],
     kr_Tracks = map (\<lambda>(i, t). \<lparr>kt_Disc = 1, kt_Index = i, kt_DurationMs = 1000, kt_Title = t, kt_RecordingID = t,
       kt_Credits = [\<lparr>ac_Name = ''A'', ac_JoinPhrase = '''', ac_MBID = ''m-a''\<rparr>]\<rparr>) [(1, ''First''), (2, ''Second'')],
     kr_Authoritative = False, kr_ReconcileOnly = False\<rparr>"

definition split_anchor :: MusicBrainzAlbum where
  "split_anchor = (the (musicBrainzSnapshotTx ascii (lib split_db) ''alb_a''))\<lparr>mb_PrimaryArtist := \<lparr>acr_ArtistID = ''art_a'', acr_Name = ''A'', acr_JoinPhrase = '''', acr_MusicBrainzID = ''''\<rparr>\<rparr>"

definition split_selected :: MusicBrainzCandidate where
  "split_selected = \<lparr>mc_ReleaseID = ''rel'', mc_ReleaseGroupID = ''grp'', mc_Title = ''One'', mc_ArtistCredit = ''A'', mc_Score = 100,
     mc_Evidence = \<lparr>ev_embeddedReleaseID = True, ev_title = '''', ev_artist = '''', ev_year = '''', ev_trackCount = '''',
       ev_trackEvidence = 0, ev_titleEvidence = 0, ev_positions = 0, ev_recordings = None, ev_fragmentSnapshots = None\<rparr>\<rparr>"



abbreviation split_run :: "release_db \<times> (release_err + bool)" where
  "split_run \<equiv> ApplyMusicBrainzMatch ascii same_text split_anchor split_release 3 split_selected [split_selected] 1000 10 split_db"

lemma split_run_done: "snd split_run = Inr True"
  by code_simp

lemma split_plan_safe:
  "(case planSplitAlbumReconciliation ascii same_text split_db (the (musicBrainzSnapshotTx ascii (lib split_db) ''alb_a'')) split_release split_selected of
     Inr (SafeSplit plan) \<Rightarrow> sp_fragmentIDs plan = [''alb_b''] | _ \<Rightarrow> False)"
  by code_simp

theorem joining_loses_nothing_witness:
  "GetLoveStates (rb_store (fst split_run)) ''prf_a'' [''alb_a''] ''alb_a'' = Some ''loved''"
proof -
  obtain plan where plan: "planSplitAlbumReconciliation ascii same_text split_db (the (musicBrainzSnapshotTx ascii (lib split_db) ''alb_a''))
      split_release split_selected = Inr (SafeSplit plan)" "sp_fragmentIDs plan = [''alb_b'']"
    using split_plan_safe by (auto split: sum.splits split_verdict.splits)
  have run: "split_run = (fst split_run, Inr True)" using split_run_done by (metis prod.collapse)
  have "musicBrainzSnapshotTx ascii (lib split_db) (mb_AlbumID split_anchor) = Some (the (musicBrainzSnapshotTx ascii (lib split_db) ''alb_a''))"
    by code_simp
  moreover have "sameMusicBrainzSnapshot split_anchor (the (musicBrainzSnapshotTx ascii (lib split_db) ''alb_a''))" by code_simp
  moreover have "kr_ReleaseID split_release \<noteq> ''''" "kr_Tracks split_release \<noteq> []" "mb_AlbumID split_anchor = ''alb_a''" by code_simp+
  moreover have "pd_loves (rb_store split_db) = [\<lparr>lv_id = ''lov_2'', lv_profile = ''prf_a'', lv_ref = ''alb_b'', lv_kind = ''album'',
      lv_state = ''loved'', lv_updated_at = 1\<rparr>]" by (simp add: split_db_def)
  ultimately show ?thesis
    using joining_loses_nothing [OF run _ _ _ _ plan(1)] plan(2) unfolding Let_def by (metis (no_types, lifting) list.set_intros love_row.select_convs)
qed

definition split_seq :: "release_db \<times> (release_err + bool)" where
  "split_seq = applyMusicBrainzRelease ascii same_text split_anchor split_release
     (Some \<lparr>br_state = ''matched'', br_selected = split_selected, br_candidates = [split_selected], br_next = 1000\<rparr>) 10 3
     (with_lib (fst (NextScanSeq (lib split_db))) split_db)"

lemma split_seq_results:
  "constraints_ok (lib split_db)" "length (feed (lib (fst split_seq))) < 9"
  "snd (NextScanSeq (lib split_db)) = 3" "version (lib split_db) = 2"
  "live (lib split_db) (''album'', ''alb_b'') \<noteq> None" "live (lib (fst split_seq)) (''album'', ''alb_b'') = None"
  by code_simp+

lemma release_reaches_clients_example:
  "live (lib split_db) (''album'', ''alb_b'') \<noteq> None \<and>
   sync (lib (fst split_seq)) (walk_pages (\<lambda>k. ChangesSince (lib (fst split_seq)) 2 k 2) 9 None) (live (lib split_db)) (''album'', ''alb_b'') = None"
proof -
  have run: "applyMusicBrainzRelease ascii same_text split_anchor split_release
     (Some \<lparr>br_state = ''matched'', br_selected = split_selected, br_candidates = [split_selected], br_next = 1000\<rparr>) 10 3
     (with_lib (fst (NextScanSeq (lib split_db))) split_db) = (fst split_seq, snd split_seq)"
    by (simp add: split_seq_def)
  have two: "0 < (2 :: nat)" by simp
  have start: "NextScanSeq (lib split_db) = (fst (NextScanSeq (lib split_db)), 3)" using split_seq_results(3) by (metis prod.collapse)
  show ?thesis
    using release_reaches_clients [OF split_seq_results(1) start run two split_seq_results(2)] split_seq_results(4-6) by simp
qed

text \<open>The code means to keep the credits a fragment's track displays, and does not.\<close>

lemma joining_overwrites_displays:
  "map (\<lambda>t. (tk_track_id t, tk_artist_name t)) (ct_tracks (lib split_db)) = [(''trk_a'', ''A''), (''trk_b'', ''A with B'')]"
  "map (\<lambda>t. (tk_track_id t, tk_artist_name t)) (ct_tracks (lib (fst split_run))) = [(''trk_a'', ''A''), (''trk_b'', ''A'')]"
  by code_simp+

text \<open>A track's credits may change without the track being stamped: a client that follows the feed keeps the old
  ones.\<close>

definition credit_db :: release_db where
  "credit_db = \<lparr>rb_store = demo_db\<lparr>pd_cat := demo_catalog\<lparr>
       ct_tracks := [(split_track ''trk_a'' ''alb_a'' ''art_a'' ''A'' ''First'' 1)\<lparr>tk_recording_id := Some ''First''\<rparr>]\<rparr>\<rparr>,
     rb_candidates = []\<rparr>"

definition credit_release :: CanonicalRelease where
  "credit_release = split_release\<lparr>kr_Tracks := [\<lparr>kt_Disc = 1, kt_Index = 1, kt_DurationMs = 1000, kt_Title = ''First'', kt_RecordingID = ''First'',
     kt_Credits = [\<lparr>ac_Name = ''A'', ac_JoinPhrase = '' & '', ac_MBID = ''m-a''\<rparr>, \<lparr>ac_Name = ''B'', ac_JoinPhrase = '''', ac_MBID = ''m-b''\<rparr>]\<rparr>]\<rparr>"

definition credit_album :: MusicBrainzAlbum where
  "credit_album = (the (musicBrainzSnapshotTx ascii (lib credit_db) ''alb_a''))\<lparr>
     mb_PrimaryArtist := \<lparr>acr_ArtistID = ''art_a'', acr_Name = ''A'', acr_JoinPhrase = '''', acr_MusicBrainzID = ''''\<rparr>,
     mb_Tracks := map (\<lambda>t. t\<lparr>tr_ArtistID := ''art_a'', tr_ArtistName := ''A''\<rparr>) (mb_Tracks (the (musicBrainzSnapshotTx ascii (lib credit_db) ''alb_a'')))\<rparr>"

abbreviation credit_run :: "release_db \<times> (release_err + bool)" where
  "credit_run \<equiv> ApplyMusicBrainzMatch ascii same_text credit_album credit_release 3 split_selected [] 1000 10 credit_db"

lemma credits_change_unstamped:
  "snd credit_run = Inr True"
  "map (\<lambda>t. (tk_track_id t, tk_change_seq t)) (ct_tracks (lib (fst credit_run))) = [(''trk_a'', 1)]"
  "map acr_Name (readCredits CTrack ''trk_a'' (lib credit_db)) = [''A'']"
  "map acr_Name (readCredits CTrack ''trk_a'' (lib (fst credit_run))) = [''A'', ''B'']"
  by code_simp+

end
