(* ===== verification/Resolver.thy ===== *)
theory Resolver
  imports MatchRules ReleaseLaws
begin

text \<open>
  The resolver (\<open>resolve\<close> in \<open>internal/mbresolver/resolver.go\<close>, \<open>RunWithProgress\<close> in \<open>runner.go\<close>): for every
  album that is due it asks MusicBrainz for releases, scores them, decides, and applies or records what
  it decided; a pass is repeated until nothing is due or nothing moves. The MusicBrainz client is a
  parameter with a state of its own: what it answers for a release id and for a search query. A
  \<open>resolve\<close> reads the clock once. That a statement fails because the context was cancelled while it ran
  is one of the failures of SQLite that are not modelled: a cancellation is seen where the loop looks.
\<close>

section \<open>The client\<close>

record 'w mb_client =
  cl_release :: "string \<Rightarrow> 'w \<Rightarrow> 'w \<times> (string + release)"
  cl_search :: "string \<Rightarrow> 'w \<Rightarrow> 'w \<times> (string + release list)"

definition search_query :: "MusicBrainzAlbum \<Rightarrow> string \<Rightarrow> bool \<Rightarrow> string" where
  "search_query album title withArtist =
     ''release:'' @ [CHR 0x22] @ escape (searchTitle title) @ [CHR 0x22] @
     (if withArtist then '' AND artist:'' @ [CHR 0x22] @ escape (acr_Name (mb_PrimaryArtist album)) @ [CHR 0x22]
      else if 0 < mb_Year album then '' AND date:'' @ format_int (mb_Year album)
      else '''')"

text \<open>The details of the three best answers that are plausible.\<close>

fun fetch_details :: "'w mb_client \<Rightarrow> scoredRelease list \<Rightarrow> 'w \<Rightarrow> 'w \<times> (string + release list)" where
  "fetch_details C [] = returnE []"
| "fetch_details C (c # cs) =
     (if sc_score c < 60 \<or> re_ID (sc_release c) = '''' then fetch_details C cs
      else bindE (cl_release C (re_ID (sc_release c))) (\<lambda>detail.
           bindE (fetch_details C cs) (\<lambda>rest. returnE (detail # rest))))"

definition search_releases ::
  "'w mb_client \<Rightarrow> unicode \<Rightarrow> MusicBrainzAlbum \<Rightarrow> MusicBrainzAlbum \<Rightarrow> string \<Rightarrow> bool \<Rightarrow> 'w \<Rightarrow> 'w \<times> (string + release list)" where
  "search_releases C U album local title withArtist =
     bindE (cl_search C (search_query album title withArtist)) (\<lambda>rs.
       fetch_details C (take 3 (scoreCandidates U local rs)))"

text \<open>With the artist, and without when that finds nothing.\<close>

definition search_twice ::
  "'w mb_client \<Rightarrow> unicode \<Rightarrow> MusicBrainzAlbum \<Rightarrow> MusicBrainzAlbum \<Rightarrow> string \<Rightarrow> 'w \<Rightarrow> 'w \<times> (string + release list)" where
  "search_twice C U album local title =
     bindE (search_releases C U album local title True) (\<lambda>cs.
       if cs = [] then search_releases C U album local title False else returnE cs)"

text \<open>The album the candidates are scored against, and the candidates.\<close>

definition find_candidates ::
  "'w mb_client \<Rightarrow> unicode \<Rightarrow> MusicBrainzAlbum \<Rightarrow> MusicBrainzAlbum \<Rightarrow> 'w \<Rightarrow> 'w \<times> (string + (MusicBrainzAlbum \<times> release list))" where
  "find_candidates C U album matchAlbum =
     (if mb_ReleaseID album \<noteq> '''' then bindE (cl_release C (mb_ReleaseID album)) (\<lambda>direct. returnE (matchAlbum, [direct]))
      else bindE (search_twice C U album matchAlbum (mb_Title album)) (\<lambda>cs.
        if cs = [] \<and> mb_PathTitle matchAlbum \<noteq> '''' \<and>
           normalized U (searchTitle (mb_PathTitle matchAlbum)) \<noteq> normalized U (searchTitle (mb_Title matchAlbum))
        then let scoreAlbum = matchAlbum\<lparr>mb_Title := mb_PathTitle matchAlbum\<rparr>
          in bindE (search_twice C U album scoreAlbum (mb_PathTitle matchAlbum)) (\<lambda>cs'. returnE (scoreAlbum, cs'))
        else returnE (matchAlbum, cs)))"

section \<open>The decision\<close>

definition no_candidate :: MusicBrainzCandidate where
  "no_candidate = \<lparr>mc_ReleaseID = '''', mc_ReleaseGroupID = '''', mc_Title = '''', mc_ArtistCredit = '''', mc_Score = 0,
     mc_Evidence = no_evidence\<rparr>"

text \<open>The five candidates that are kept. A candidate's evidence is one map, so the snapshots of the fragments
  that are put into the chosen one's show among the five as well.\<close>

definition persist_list :: "scoredRelease list \<Rightarrow> MusicBrainzCandidate list" where
  "persist_list scored = map persisted (take 5 scored)"

definition persist_marked :: "scoredRelease \<Rightarrow> MusicBrainzAlbum list \<Rightarrow> scoredRelease list \<Rightarrow> MusicBrainzCandidate list" where
  "persist_marked c fragments scored =
     take 5 (map persisted (takeWhile (\<lambda>x. x \<noteq> c) scored) @
       (case dropWhile (\<lambda>x. x \<noteq> c) scored of [] \<Rightarrow> [] | _ # rest \<Rightarrow> persistedWithFragments c fragments # map persisted rest))"

text \<open>What is recorded without touching the library, the release that is applied, or the identity several
  releases share; with the candidates kept and the seconds until the next attempt.\<close>

datatype decision =
    DRecord string MusicBrainzCandidate "MusicBrainzCandidate list" seconds string
  | DMatch CanonicalRelease MusicBrainzCandidate "MusicBrainzCandidate list" seconds
  | DConsensus CanonicalRelease MusicBrainzCandidate "MusicBrainzCandidate list" seconds

definition week :: seconds where "week = 7 * 24 * 3600"
definition month :: seconds where "month = 30 * 24 * 3600"

definition park :: "MusicBrainzAlbum \<Rightarrow> MusicBrainzAlbum list \<Rightarrow> scoredRelease list \<Rightarrow> scoredRelease \<Rightarrow> decision" where
  "park scoreAlbum fragments scored best =
     (let persist = persist_list scored
      in if sc_score best < 60 then DRecord ''unmatched'' (persisted best) persist month ''''
         else case editionTiebreak scoreAlbum scored of
           Some full \<Rightarrow> DMatch (canonical (sc_release full)) (persistedWithFragments full fragments) (persist_marked full fragments scored) week
         | None \<Rightarrow>
             (case (if fragments = [] then None else structuralEditionConsensus scoreAlbum scored) of
                Some structural \<Rightarrow>
                  DConsensus ((canonical (sc_release structural))\<lparr>kr_ReleaseID := '''', kr_ReconcileOnly := True\<rparr>)
                    (persistedWithFragments structural fragments) (persist_marked structural fragments scored) month
              | None \<Rightarrow>
                  (case consensusIdentity scored of
                     Some partial \<Rightarrow> DConsensus partial (persisted best) persist month
                   | None \<Rightarrow> DRecord ''ambiguous'' (persisted best) persist month '''')))"

definition decide ::
  "unicode \<Rightarrow> MusicBrainzAlbum \<Rightarrow> MusicBrainzAlbum \<Rightarrow> MusicBrainzAlbum list \<Rightarrow> release list \<Rightarrow> decision" where
  "decide U album scoreAlbum fragments candidates =
     (let scored = scoreCandidates U scoreAlbum candidates
      in case scored of
           [] \<Rightarrow> DRecord ''unmatched'' no_candidate [] month ''''
         | best # others \<Rightarrow>
             let margin = (case others of [] \<Rightarrow> sc_score best | c # _ \<Rightarrow> sc_score best - sc_score c)
             in if mb_ReleaseID album \<noteq> '''' \<and> \<not> structurallyUnique scoreAlbum (sc_release best)
                then DRecord ''ambiguous'' (persisted best) (persist_list scored) month ''direct release has ambiguous track positions''
                else if mb_ReleaseID album = '''' \<and> (\<not> strongCandidate scoreAlbum best \<or> others \<noteq> [] \<and> margin < acceptMargin)
                then park scoreAlbum fragments scored best
                else DMatch ((canonical (sc_release best))\<lparr>kr_Authoritative := (mb_ReleaseID album \<noteq> '''')\<rparr>)
                       (persistedWithFragments best fragments) (persist_marked best fragments scored) week)"

section \<open>An album\<close>

datatype resolve_err = EStore release_err | EProvider string

definition next_seq :: "release_db \<Rightarrow> release_db \<times> int" where
  "next_seq d = (case NextScanSeq (lib d) of (s, seq) \<Rightarrow> (with_lib s d, seq))"

definition carry_out ::
  "unicode \<Rightarrow> (string \<Rightarrow> string \<Rightarrow> bool) \<Rightarrow> MusicBrainzAlbum \<Rightarrow> decision \<Rightarrow> seconds \<Rightarrow> release_db \<Rightarrow> release_db \<times> (release_err + bool)" where
  "carry_out U eqf album decision now d = (case decision of
     DRecord state selected persist wait lastError \<Rightarrow>
       bindE (RecordMusicBrainzResult (mb_AlbumID album) state selected persist (now + wait) lastError now) (\<lambda>_. returnE False) d
   | DMatch release selected persist wait \<Rightarrow>
       (case next_seq d of (d, seq) \<Rightarrow> ApplyMusicBrainzMatch U eqf album release seq selected persist (now + wait) now d)
   | DConsensus release selected persist wait \<Rightarrow>
       (case next_seq d of (d, seq) \<Rightarrow> ApplyMusicBrainzConsensus U eqf album release seq selected persist (now + wait) now d))"

definition recordError :: "MusicBrainzAlbum \<Rightarrow> string \<Rightarrow> seconds \<Rightarrow> release_db \<Rightarrow> release_db" where
  "recordError album cause now d =
     fst (RecordMusicBrainzResult (mb_AlbumID album) ''error'' no_candidate [] (now + 24 * 3600) cause now d)"

definition resolve ::
  "'w mb_client \<Rightarrow> unicode \<Rightarrow> (string \<Rightarrow> string \<Rightarrow> bool) \<Rightarrow> MusicBrainzAlbum \<Rightarrow> seconds \<Rightarrow> 'w \<times> release_db \<Rightarrow>
   ('w \<times> release_db) \<times> (resolve_err + bool)" where
  "resolve C U eqf album now x = (case x of (w, d) \<Rightarrow>
     (case MusicBrainzAlbumUnionCandidate U eqf (lib d) album of
        Inl e \<Rightarrow> ((w, d), Inl (EStore e))
      | Inr (matchAlbum, fragments) \<Rightarrow>
          (case find_candidates C U album matchAlbum w of
             (w, Inl cause) \<Rightarrow> ((w, recordError album cause now d), Inl (EProvider cause))
           | (w, Inr (scoreAlbum, candidates)) \<Rightarrow>
               (case carry_out U eqf album (decide U album scoreAlbum fragments candidates) now d of
                  (d, Inl e) \<Rightarrow> ((w, d), Inl (EStore e))
                | (d, Inr applied) \<Rightarrow> ((w, d), Inr applied)))))"

section \<open>A run\<close>

record ResolutionProgress =
  rp_Processed :: nat
  rp_Applied :: nat
  rp_Failed :: nat

text \<open>The run: what was reported, whether anything changed, and the last album that failed.\<close>

record resolution =
  rn_stats :: ResolutionProgress
  rn_reports :: "ResolutionProgress list"
  rn_changed :: bool
  rn_batchErr :: "(string \<times> resolve_err) option"

datatype run_err = EContext | ECatalog cat_err | EBatch string resolve_err

definition note_failed :: "MusicBrainzAlbum \<Rightarrow> resolve_err \<Rightarrow> resolution \<Rightarrow> resolution" where
  "note_failed album e r =
     (let st = (rn_stats r)\<lparr>rp_Processed := rp_Processed (rn_stats r) + 1, rp_Failed := rp_Failed (rn_stats r) + 1\<rparr>
      in r\<lparr>rn_stats := st, rn_reports := rn_reports r @ [st], rn_batchErr := Some (mb_AlbumID album, e)\<rparr>)"

definition note_resolved :: "bool \<Rightarrow> resolution \<Rightarrow> resolution" where
  "note_resolved applied r =
     (let st = (rn_stats r)\<lparr>rp_Processed := rp_Processed (rn_stats r) + 1,
                 rp_Applied := rp_Applied (rn_stats r) + (if applied then 1 else 0)\<rparr>
      in r\<lparr>rn_stats := st, rn_reports := rn_reports r @ [st], rn_changed := (rn_changed r \<or> applied)\<rparr>)"

text \<open>The clock and the context as they are at the \<open>n\<close>-th look.\<close>

record clockwork =
  ck_now :: "nat \<Rightarrow> seconds"
  ck_done :: "nat \<Rightarrow> bool"

fun run_pass ::
  "'w mb_client \<Rightarrow> unicode \<Rightarrow> (string \<Rightarrow> string \<Rightarrow> bool) \<Rightarrow> clockwork \<Rightarrow> MusicBrainzAlbum list \<Rightarrow> nat \<Rightarrow>
   resolution \<Rightarrow> nat \<Rightarrow> 'w \<times> release_db \<Rightarrow> (('w \<times> release_db) \<times> resolution \<times> nat) \<times> nat option" where
  "run_pass C U eqf ck [] n r passApplied x = ((x, r, n), Some passApplied)"
| "run_pass C U eqf ck (album # albums) n r passApplied x =
     (if ck_done ck n then ((x, r, n), None)
      else case resolve C U eqf album (ck_now ck n) x of (x, res) \<Rightarrow>
        if ck_done ck (n + 1) then ((x, r, n + 1), None)
        else (case res of
            Inl e \<Rightarrow> run_pass C U eqf ck albums (n + 2) (note_failed album e r) passApplied x
          | Inr applied \<Rightarrow> run_pass C U eqf ck albums (n + 2) (note_resolved applied r)
              (if applied then passApplied + 1 else passApplied) x))"

definition run_over :: "resolution \<Rightarrow> bool \<times> run_err option" where
  "run_over r = (rn_changed r, case rn_batchErr r of None \<Rightarrow> None | Some (i, e) \<Rightarrow> Some (EBatch i e))"

text \<open>With fuel for the passes; nothing when it runs out.\<close>

fun run_passes ::
  "'w mb_client \<Rightarrow> unicode \<Rightarrow> (string \<Rightarrow> string \<Rightarrow> bool) \<Rightarrow> clockwork \<Rightarrow> nat \<Rightarrow> nat \<Rightarrow> resolution \<Rightarrow> 'w \<times> release_db \<Rightarrow>
   (('w \<times> release_db) \<times> resolution \<times> (bool \<times> run_err option)) option" where
  "run_passes C U eqf ck 0 n r x = None"
| "run_passes C U eqf ck (Suc fuel) n r x =
     (let due = CountDueMusicBrainzAlbums (lib (snd x)) (ck_now ck n)
      in if due = 0 then Some (x, r, run_over r)
         else case DueMusicBrainzAlbums U (lib (snd x)) (ck_now ck (n + 1)) due of
           Inl e \<Rightarrow> Some (x, r, rn_changed r, Some (ECatalog e))
         | Inr albums \<Rightarrow>
             (case run_pass C U eqf ck albums (n + 2) r 0 x of
                ((x, r, n), None) \<Rightarrow> Some (x, r, rn_changed r, Some EContext)
              | ((x, r, n), Some passApplied) \<Rightarrow>
                  let remaining = CountDueMusicBrainzAlbums (lib (snd x)) (ck_now ck n)
                  in if remaining = 0 \<or> due \<le> remaining \<and> passApplied = 0 then Some (x, r, run_over r)
                     else run_passes C U eqf ck fuel (n + 1) r x))"

definition RunWithProgress ::
  "'w mb_client \<Rightarrow> unicode \<Rightarrow> (string \<Rightarrow> string \<Rightarrow> bool) \<Rightarrow> clockwork \<Rightarrow> nat \<Rightarrow> 'w \<times> release_db \<Rightarrow>
   (('w \<times> release_db) \<times> resolution \<times> (bool \<times> run_err option)) option" where
  "RunWithProgress C U eqf ck fuel x =
     run_passes C U eqf ck fuel 0
       \<lparr>rn_stats = \<lparr>rp_Processed = 0, rp_Applied = 0, rp_Failed = 0\<rparr>, rn_reports = [], rn_changed = False, rn_batchErr = None\<rparr> x"

end
