(* ===== verification/ResolverLaws.thy ===== *)
theory ResolverLaws
  imports Resolver
begin

text \<open>
  What a run of the resolver promises: the albums that wait for an attempt only grow fewer, so the run ends;
  the schema holds and clients are told; and an album whose files name no release is matched on evidence only.
\<close>

section \<open>Which albums wait\<close>

definition present :: "catalog \<Rightarrow> string \<Rightarrow> bool" where
  "present s i \<longleftrightarrow> list_ex (\<lambda>a. al_album_id a = i \<and> \<not> al_missing a) (ct_albums s)"

definition waits :: "catalog \<Rightarrow> seconds \<Rightarrow> string \<Rightarrow> bool" where
  "waits s t i \<longleftrightarrow> present s i \<and> (case match_of s i of None \<Rightarrow> True | Some m \<Rightarrow> mr_state m \<noteq> ''matched'') \<and> due_at s i \<le> t"

lemma select1_replaced:
  assumes "\<And>x. key (f x) = key r"
  shows "select1 (\<lambda>x. key x = k) (upsert key r f t) =
    (if k = key r then Some (case select1 (\<lambda>x. key x = key r) t of None \<Rightarrow> r | Some x \<Rightarrow> f x) else select1 (\<lambda>x. key x = k) t)"
proof -
  have updated: "select1 (\<lambda>x. key x = k) (update_where (\<lambda>x. key x = key r) f t) =
      (if k = key r then map_option f (select1 (\<lambda>x. key x = key r) t) else select1 (\<lambda>x. key x = k) t)"
    using assms by (induction t) auto
  show ?thesis
  proof (cases "select1 (\<lambda>x. key x = key r) t")
    case None
    then have "\<not> list_ex (\<lambda>x. key x = key r) t" by (simp add: list_ex_iff select1_None_iff)
    then show ?thesis using None by (auto simp: upsert_def select1_append split: option.split)
  next
    case (Some x)
    then have "list_ex (\<lambda>x. key x = key r) t" by (auto simp: list_ex_iff dest: select1_SomeD)
    then show ?thesis using Some updated by (simp add: upsert_def)
  qed
qed

lemma match_of_put:
  "match_of (put_match m s) i =
     (if i = mr_album_id m then Some (case match_of s i of None \<Rightarrow> m | Some r \<Rightarrow> m\<lparr>mr_attempt_count := mr_attempt_count r + 1\<rparr>)
      else match_of s i)"
  by (simp add: match_of_def put_match_def select1_replaced)

lemma match_of_tables: "ct_matches s' = ct_matches s \<Longrightarrow> match_of s' i = match_of s i"
  by (simp add: match_of_def)

interpretation scan_number: release_property "\<lambda>s. ct_scan_seq s = q" seq albumID release
  by unfold_locales (simp_all add: release_statements record_track_def own_track_def)

interpretation other_matches: release_property "\<lambda>s. \<forall>i. i \<noteq> albumID \<longrightarrow> match_of s i = f i" seq albumID release
proof unfold_locales
  fix s assume f: "\<forall>i. i \<noteq> albumID \<longrightarrow> match_of s i = f i"
  show "\<forall>i. i \<noteq> albumID \<longrightarrow> match_of (put_match m s) i = f i" if "mr_album_id m = albumID" for m
    using f that by (simp add: match_of_put)
qed (simp_all add: match_of_def release_statements record_track_def own_track_def)

text \<open>Once a release is applied, no other album waits that did not, and the album itself waits no more.\<close>

lemma split_catalog_matches:
  "match_of (split_catalog anchorID plan seq s) i = (if i \<in> set (sp_fragmentIDs plan) then None else match_of s i)"
proof -
  have "select1 (\<lambda>m. mr_album_id m = i) (delete_where (\<lambda>m. mr_album_id m \<in> A) t) =
      (if i \<in> A then None else select1 (\<lambda>m. mr_album_id m = i) t)" for A and t :: "match_row table"
    by (induction t) auto
  then show ?thesis by (simp add: match_of_def split_catalog_tables)
qed

lemma applied_waits:
  assumes run: "applyMusicBrainzRelease U eqf album release (Some b) now seq d = (d', r)" and later: "t < br_next b"
  shows "waits (lib d') t i \<Longrightarrow> waits (lib d) t i \<and> match_of (lib d') i = match_of (lib d) i"
    and "r = Inr True \<Longrightarrow> \<not> waits (lib d') t (mb_AlbumID album)"
proof -
  let ?A = "mb_AlbumID album"
  have both: "(waits (lib d') t i \<longrightarrow> waits (lib d) t i \<and> match_of (lib d') i = match_of (lib d) i) \<and> \<not> waits (lib d') t ?A" if new: "d' \<noteq> d \<or> r = Inr True" for i
  proof -
    obtain verdict changed where w: "write_release U album release verdict (Some b) now seq d = (d', Inr (True, changed))"
      using apply_cases [OF run] new by blast
    obtain d1 split s3 d4 where d1: "apply_plan ?A verdict seq d = (d1, Inr split)"
      and outcome: "record_outcome ?A (Some b) changed now (with_lib s3 d1) = (d4, Inr True)"
      and d': "d' = (if changed then with_lib ((lib d4)\<lparr>ct_updated_at := Some now\<rparr>) d4 else d4)"
      by (rule write_release_Inr [OF w])
    obtain m where m: "lib d4 = put_match m s3" "mr_album_id m = ?A" "mr_next_attempt_at m = br_next b"
      using record_outcome_Inr [OF outcome] by auto
    have same: "match_of (s\<lparr>ct_updated_at := u\<rparr>) = match_of s" for s u by (simp add: match_of_def fun_eq_iff)
    have anchor: "\<not> waits (lib d') t ?A"
      using m later d' by (auto simp: waits_def due_at_def same match_of_put split: option.splits)
    have rest: "match_of (lib d') i = match_of (lib d1) i" if "i \<noteq> ?A"
      using other_matches.write_release_keeps_all [OF w d1, of ?A "match_of (lib d1)"] that by auto
    have gone: "map album_place (ct_albums (lib d')) = map album_place (ct_albums (lib d1))"
      using places.write_release_keeps_all [OF w d1] by simp
    have pl: "present s i \<longleftrightarrow> (i, False) \<in> set (map album_place (ct_albums s))" for s
      by (force simp: present_def list_ex_iff album_place_def)
    have "waits (lib d) t i \<and> match_of (lib d') i = match_of (lib d) i" if wt: "waits (lib d') t i"
    proof -
      have "i \<noteq> ?A" using wt anchor by blast
      have there: "present (lib d1) i" using wt gone unfolding waits_def pl by simp
      then have "present (lib d) i \<and> match_of (lib d1) i = match_of (lib d) i"
        using apply_plan_Inr [OF d1]
        by (auto simp: present_def list_ex_iff split_catalog_tables joined_album_def split_catalog_matches Let_def split: split_verdict.splits if_splits)
      then show ?thesis using wt rest [OF \<open>i \<noteq> ?A\<close>] by (simp add: waits_def due_at_def)
    qed
    then show ?thesis using anchor by blast
  qed
  then show "waits (lib d') t i \<Longrightarrow> waits (lib d) t i \<and> match_of (lib d') i = match_of (lib d) i" by blast
  show "r = Inr True \<Longrightarrow> \<not> waits (lib d') t ?A" using both by blast
qed

lemma record_result:
  "RecordMusicBrainzResult albumID state selected cs nxt lastError now d = (d', r) \<Longrightarrow>
     d' = d \<and> r \<noteq> Inr () \<or> (\<exists>m c. d' = (with_lib (put_match m (lib d)) d)\<lparr>rb_candidates := c\<rparr> \<and> mr_album_id m = albumID \<and>
       mr_state m = state \<and> mr_next_attempt_at m = nxt)"
  by (auto simp: RecordMusicBrainzResult_def in_tx_def recordMusicBrainzResultTx_def split: if_splits)

lemma recorded_waits:
  assumes "RecordMusicBrainzResult albumID state selected cs nxt lastError now d = (d', r)" and "t < nxt"
  shows "waits (lib d') t i \<Longrightarrow> waits (lib d) t i \<and> match_of (lib d') i = match_of (lib d) i"
proof -
  have put: "waits (put_match m s) t i \<Longrightarrow> waits s t i \<and> match_of (put_match m s) i = match_of s i" if "t < mr_next_attempt_at m" for m s
    using that by (auto simp: waits_def present_def due_at_def match_of_put split: option.splits if_splits) (simp_all add: put_match_def)
  show "waits (lib d') t i \<Longrightarrow> waits (lib d) t i \<and> match_of (lib d') i = match_of (lib d) i"
    using record_result [OF assms(1)] assms(2) put by auto
qed

section \<open>What an album's resolution does\<close>

fun patient :: "decision \<Rightarrow> bool" where
  "patient (DRecord state selected persist wait lastError) \<longleftrightarrow> 24 * 3600 \<le> wait"
| "patient (DMatch release selected persist wait) \<longleftrightarrow> 24 * 3600 \<le> wait"
| "patient (DConsensus release selected persist wait) \<longleftrightarrow> 24 * 3600 \<le> wait"

lemma decide_patient: "patient (decide U album scoreAlbum fragments candidates)"
  by (simp add: decide_def park_def week_def month_def Let_def split: list.split option.split)

definition progressed :: "seconds \<Rightarrow> release_db \<Rightarrow> release_db \<Rightarrow> bool" where
  "progressed t d d' \<longleftrightarrow> (\<forall>i. waits (lib d') t i \<longrightarrow> waits (lib d) t i \<and> match_of (lib d') i = match_of (lib d) i)"

lemma progressed_refl: "progressed t d d" by (simp add: progressed_def)

lemma progressed_trans [trans]: "progressed t d1 d2 \<Longrightarrow> progressed t d2 d3 \<Longrightarrow> progressed t d1 d3"
  unfolding progressed_def by metis

lemma next_seq_eq: "next_seq d = (d1, seq) \<longleftrightarrow> (\<exists>s. NextScanSeq (lib d) = (s, seq) \<and> d1 = with_lib s d)"
  by (auto simp: next_seq_def split: prod.splits)

lemma next_seq_waits: "next_seq d = (d1, seq) \<Longrightarrow> waits (lib d1) t i = waits (lib d) t i \<and> match_of (lib d1) i = match_of (lib d) i"
  by (auto simp: next_seq_eq NextScanSeq_def Let_def waits_def present_def due_at_def match_of_def)

lemma carry_out_Inr:
  "carry_out U eqf album decision now d = (d', r) \<Longrightarrow> patient decision \<Longrightarrow>
     (\<exists>state selected cs nxt lastError r'. RecordMusicBrainzResult (mb_AlbumID album) state selected cs nxt lastError now d = (d', r') \<and>
        now + 24 * 3600 \<le> nxt \<and> r \<noteq> Inr True) \<or>
     (\<exists>d1 seq release b. next_seq d = (d1, seq) \<and> applyMusicBrainzRelease U eqf album release (Some b) now seq d1 = (d', r) \<and>
        now + 24 * 3600 \<le> br_next b)"
proof (cases decision)
  case (DRecord state selected cs wait lastError)
  then show "carry_out U eqf album decision now d = (d', r) \<Longrightarrow> patient decision \<Longrightarrow> ?thesis"
    by (auto simp: carry_out_def bindE_def returnE_def split: prod.splits sum.splits) fastforce+
next
  case (DMatch release selected cs wait)
  then show "carry_out U eqf album decision now d = (d', r) \<Longrightarrow> patient decision \<Longrightarrow> ?thesis"
    by (auto simp: carry_out_def ApplyMusicBrainzMatch_def split: prod.splits intro!: exI)
next
  case (DConsensus release selected cs wait)
  then show "carry_out U eqf album decision now d = (d', r) \<Longrightarrow> patient decision \<Longrightarrow> ?thesis"
    by (auto simp: carry_out_def ApplyMusicBrainzConsensus_def Let_def split: prod.splits intro!: exI)
qed

lemma carry_out_progress:
  assumes "carry_out U eqf album decision now d = (d', r)" and "patient decision" and "t < now + 24 * 3600"
  shows "progressed t d d' \<and> (r = Inr True \<longrightarrow> \<not> waits (lib d') t (mb_AlbumID album))"
  using carry_out_Inr [OF assms(1,2)]
proof (elim disjE exE conjE)
  fix state selected cs nxt lastError r'
  assume a: "RecordMusicBrainzResult (mb_AlbumID album) state selected cs nxt lastError now d = (d', r')" "now + 24 * 3600 \<le> nxt" "r \<noteq> Inr True"
  then have "t < nxt" using assms(3) by simp
  then show ?thesis using recorded_waits [OF a(1)] a(3) by (auto simp: progressed_def)
next
  fix d1 seq release b
  assume a: "next_seq d = (d1, seq)" "applyMusicBrainzRelease U eqf album release (Some b) now seq d1 = (d', r)" "now + 24 * 3600 \<le> br_next b"
  then have "t < br_next b" using assms(3) by simp
  then show ?thesis using applied_waits [OF a(2)] next_seq_waits [OF a(1)] by (auto simp: progressed_def)
qed

lemma resolve_cases:
  assumes "resolve C U eqf album now (w, d) = ((w', d'), res)"
  shows "d' = d \<and> res \<noteq> Inr True \<or>
    (\<exists>cause r. RecordMusicBrainzResult (mb_AlbumID album) ''error'' no_candidate [] (now + 24 * 3600) cause now d = (d', r) \<and> res \<noteq> Inr True) \<or>
    (\<exists>matchAlbum fragments scoreAlbum candidates w1 r. MusicBrainzAlbumUnionCandidate U eqf (lib d) album = Inr (matchAlbum, fragments) \<and>
      find_candidates C U album matchAlbum w = (w1, Inr (scoreAlbum, candidates)) \<and>
      carry_out U eqf album (decide U album scoreAlbum fragments candidates) now d = (d', r) \<and> (res = Inr True \<longrightarrow> r = Inr True))"
  using assms by (auto simp: resolve_def recordError_def split: sum.splits prod.splits) (metis eq_fst_iff)+

lemma resolve_progress:
  assumes "resolve C U eqf album now (w, d) = ((w', d'), res)" and "t < now + 24 * 3600"
  shows "progressed t d d' \<and> (res = Inr True \<longrightarrow> \<not> waits (lib d') t (mb_AlbumID album))"
  using resolve_cases [OF assms(1)]
proof (elim disjE exE conjE)
  fix cause r
  assume a: "RecordMusicBrainzResult (mb_AlbumID album) ''error'' no_candidate [] (now + 24 * 3600) cause now d = (d', r)" "res \<noteq> Inr True"
  show ?thesis using recorded_waits [OF a(1) assms(2)] a(2) by (simp add: progressed_def)
qed (use carry_out_progress [OF _ decide_patient assms(2)] progressed_refl in blast)+

section \<open>What it keeps\<close>

definition synced :: "int \<Rightarrow> catalog \<Rightarrow> release_db \<Rightarrow> bool" where
  "synced v s0 d \<longleftrightarrow> constraints_ok (lib d) \<and> followed v s0 (lib d)"

lemma applied_number:
  assumes run: "applyMusicBrainzRelease U eqf album release result now seq d = (d', r)"
  shows "ct_scan_seq (lib d') = ct_scan_seq (lib d)"
proof (cases "d' = d")
  case False
  then obtain verdict changed where w: "write_release U album release verdict result now seq d = (d', Inr (True, changed))"
    using apply_cases [OF run] by auto
  obtain d1 split where d1: "apply_plan (mb_AlbumID album) verdict seq d = (d1, Inr split)" by (rule write_release_Inr [OF w])
  have "ct_scan_seq (split_catalog A plan seq s) = ct_scan_seq s" for A plan s
    by (simp add: split_catalog_def Let_def settle_fold_tables stamp_album_def update_album_def retire_albums_def take_art_def
        stamp_album_tracks_def join_tracks_def)
  then have "ct_scan_seq (lib d1) = ct_scan_seq (lib d)"
    using apply_plan_Inr [OF d1] by (auto split: split_verdict.splits)
  then show ?thesis using scan_number.write_release_keeps_all [OF w d1] by simp
qed simp

lemma applied_synced:
  assumes "next_seq d = (d1, seq)" and "applyMusicBrainzRelease U eqf album release result now seq d1 = (d', r)" and "synced v s0 d"
  shows "synced v s0 d'"
proof -
  obtain s where s: "NextScanSeq (lib d) = (s, seq)" "lib d1 = s" using assms(1) by (auto simp: next_seq_eq)
  have one: "constraints_ok (lib d1)" "delta_ok v s0 (lib d1)"
    using NextScanSeq_keeps(1) [of "lib d"] NextScanSeq_keeps(2) [of v s0 "lib d"] s assms(3) by (simp_all add: synced_def followed_def)
  have v: "v < seq" "version (lib d1) = seq"
    using NextScanSeq_version [OF s(1)] s(2) assms(3) by (simp_all add: synced_def followed_def)
  have "constraints_ok (lib d') \<and> delta_kept v seq s0 (lib d')"
    by (rule applied_delta [OF assms(2) one(1)]) (simp add: delta_kept_def one)
  then show ?thesis using v applied_number [OF assms(2)] by (simp add: synced_def followed_def delta_kept_def version_def)
qed

lemma recorded_synced:
  assumes "RecordMusicBrainzResult albumID state selected cs nxt lastError now d = (d', r)" and "synced v s0 d"
  shows "synced v s0 d'"
proof -
  have "constraints_ok (put_match m s) = constraints_ok s" "delta_ok v s0 (put_match m s) = delta_ok v s0 s" "version (put_match m s) = version s" for m s
    by (simp_all add: put_match_def constraints_ok_def delta_ok_def version_def)
  then show ?thesis using record_result [OF assms(1)] assms(2) by (auto simp: synced_def followed_def)
qed

lemma resolve_synced:
  assumes "resolve C U eqf album now (w, d) = ((w', d'), res)" and "synced v s0 d"
  shows "synced v s0 d'"
  using resolve_cases [OF assms(1)]
proof (elim disjE exE conjE)
  fix matchAlbum fragments scoreAlbum candidates w1 r
  assume "carry_out U eqf album (decide U album scoreAlbum fragments candidates) now d = (d', r)"
  from carry_out_Inr [OF this decide_patient] show ?thesis
    by (elim disjE exE conjE) (erule recorded_synced [OF _ assms(2)], erule applied_synced [OF _ _ assms(2)], assumption)
qed (use recorded_synced [OF _ assms(2)] assms(2) in blast)+

section \<open>A run ends\<close>

text \<open>What was reported: every album once, in order.\<close>

definition told :: "resolution \<Rightarrow> bool" where
  "told r \<longleftrightarrow> map rp_Processed (rn_reports r) = [1..<Suc (rp_Processed (rn_stats r))] \<and>
     rp_Applied (rn_stats r) + rp_Failed (rn_stats r) \<le> rp_Processed (rn_stats r) \<and>
     (rn_changed r \<longleftrightarrow> 0 < rp_Applied (rn_stats r)) \<and> (rn_batchErr r = None \<longleftrightarrow> rp_Failed (rn_stats r) = 0)"

lemma told_notes: "told r \<Longrightarrow> told (note_failed album e r)" "told r \<Longrightarrow> told (note_resolved applied r)"
  by (auto simp: told_def note_failed_def note_resolved_def Let_def)

text \<open>A pass keeps what every resolution keeps; and when it applied anything, an album of its list is done.\<close>

definition pass_keeps :: "int \<Rightarrow> catalog \<Rightarrow> release_db \<Rightarrow> resolution \<Rightarrow> nat \<Rightarrow> release_db \<Rightarrow> resolution \<Rightarrow> nat \<Rightarrow> bool" where
  "pass_keeps v s0 d r n d' r' n' \<longleftrightarrow> (synced v s0 d \<longrightarrow> synced v s0 d') \<and> (told r \<longrightarrow> told r') \<and> n \<le> n'"

lemma pass_keeps_refl: "n \<le> n' \<Longrightarrow> pass_keeps v s0 d r n d r n'"
  by (simp add: pass_keeps_def)

lemma pass_keeps_trans: "pass_keeps v s0 d r n d1 r1 n1 \<Longrightarrow> pass_keeps v s0 d1 r1 n1 d2 r2 n2 \<Longrightarrow> pass_keeps v s0 d r n d2 r2 n2"
  by (auto simp: pass_keeps_def)

lemma run_pass_keeps:
  "run_pass C U eqf ck albums n r k x = ((x', r', n'), res) \<Longrightarrow>
    pass_keeps v s0 (snd x) r n (snd x') r' n' \<and>
    ((\<forall>n. t < ck_now ck n + 24 * 3600) \<longrightarrow> progressed t (snd x) (snd x') \<and>
      (res = None \<or> res = Some k \<or> (\<exists>album \<in> set albums. \<not> waits (lib (snd x')) t (mb_AlbumID album))))"
proof (induction albums arbitrary: n r k x)
  case Nil
  then show ?case by (simp add: pass_keeps_refl progressed_refl)
next
  case (Cons album albums)
  obtain w d where x: "x = (w, d)" by fastforce
  obtain w1 d1 out where res: "resolve C U eqf album (ck_now ck n) (w, d) = ((w1, d1), out)" by (metis prod.collapse)
  have synced: "synced v s0 d \<longrightarrow> synced v s0 d1" using resolve_synced [OF res] by blast
  have step: "pass_keeps v s0 d r n d1 r1 n1" if "told r \<longrightarrow> told r1" "n \<le> n1" for r1 n1
    using synced that by (simp add: pass_keeps_def)
  have d1: "progressed t d d1 \<and> (out = Inr True \<longrightarrow> \<not> waits (lib d1) t (mb_AlbumID album))"
    if "\<forall>n. t < ck_now ck n + 24 * 3600" using resolve_progress [OF res] that by blast
  consider "ck_done ck n" | "\<not> ck_done ck n" "ck_done ck (n + 1)" | "\<not> ck_done ck n" "\<not> ck_done ck (n + 1)" by blast
  then show ?case
  proof cases
    case 3
    obtain r1 k1 where r1: "run_pass C U eqf ck albums (n + 2) r1 k1 (w1, d1) = ((x', r', n'), res)" "told r \<longrightarrow> told r1"
      and k1: "k1 = k \<or> out = Inr True"
      using Cons.prems 3 told_notes by (cases out) (auto simp: x res split: if_splits)
    note IH = Cons.IH [OF r1(1), unfolded snd_conv]
    have "pass_keeps v s0 d r n (snd x') r' n'" by (rule pass_keeps_trans [OF step [OF r1(2), of "n + 2"]]) (use IH in simp_all)
    moreover have "progressed t d (snd x')" "\<not> waits (lib (snd x')) t (mb_AlbumID album)" if "\<forall>n. t < ck_now ck n + 24 * 3600" "out = Inr True"
      using d1 IH that progressed_trans by (auto simp: progressed_def)
    moreover have "progressed t d (snd x')" if "\<forall>n. t < ck_now ck n + 24 * 3600"
      using d1 IH that progressed_trans by blast
    ultimately show ?thesis using IH k1 by (auto simp: x)
  qed (use Cons.prems x res d1 step [of r "n + 1"] in \<open>auto simp: pass_keeps_refl progressed_refl\<close>)
qed

lemma waits_iff:
  assumes "constraints_ok s" and "a \<in> set (ct_albums s)"
  shows "waits s t (al_album_id a) \<longleftrightarrow> identity_due s t a"
proof -
  have "inj_on al_album_id (set (ct_albums s))" using assms(1) by (simp add: constraints_ok_def unique_key_def distinct_map)
  then have "present s (al_album_id a) \<longleftrightarrow> \<not> al_missing a"
    using assms(2) by (auto simp: present_def list_ex_iff dest: inj_onD)
  then show ?thesis by (auto simp: waits_def identity_due_def)
qed

lemma waits_known: "waits s t i \<Longrightarrow> \<exists>a \<in> set (ct_albums s). al_album_id a = i"
  by (auto simp: waits_def present_def list_ex_iff)

lemma finite_waits: "finite {i. waits s t i}"
  by (rule finite_subset [of _ "al_album_id ` set (ct_albums s)"]) (use waits_known in fastforce)+

lemma CountDue_waits:
  assumes "constraints_ok s"
  shows "CountDueMusicBrainzAlbums s t = card {i. waits s t i}"
proof -
  have "distinct (map al_album_id (filter (identity_due s t) (ct_albums s)))"
    using assms by (simp add: constraints_ok_def unique_key_def distinct_map_filter)
  then have "card (set (map al_album_id (filter (identity_due s t) (ct_albums s)))) = CountDueMusicBrainzAlbums s t"
    by (simp only: distinct_card) (simp add: CountDueMusicBrainzAlbums_def count_where_def)
  moreover have "set (map al_album_id (filter (identity_due s t) (ct_albums s))) = {i. waits s t i}"
    using waits_iff [OF assms] waits_known by fastforce
  ultimately show ?thesis by simp
qed

lemma due_albums_ids: "due_albums U s as = Inr out \<Longrightarrow> album \<in> set out \<Longrightarrow> \<exists>a \<in> set as. mb_AlbumID album = al_album_id a"
proof (induction "as" arbitrary: out)
  case (Cons a as)
  have row: "bx_AlbumID b = al_album_id a" if "GetAlbum s (al_album_id a) = Some b" for b
    using that by (auto simp: GetAlbum_def album_row_of_def album_columns_def hydrateAlbumCredits_def album_by_id_def Let_def
        split: option.splits if_splits dest: select1_SomeD)
  show ?case
    using Cons.prems Cons.IH row
    by (auto simp: due_album_def Let_def split: option.splits sum.splits prod.splits)
qed simp

lemma Due_waits:
  assumes "constraints_ok s" and "DueMusicBrainzAlbums U s t limit = Inr albums" and "album \<in> set albums"
  shows "waits s t (mb_AlbumID album)"
proof -
  obtain a where a: "a \<in> set (take limit (sort_key (due_key s) (filter (\<lambda>a. identity_due s t a \<and>
       artist_by_id s (al_artist_id a) \<noteq> None \<and> (-1, -1, '''') < due_key s a) (ct_albums s))))" "mb_AlbumID album = al_album_id a"
    using due_albums_ids [OF assms(2) [unfolded DueMusicBrainzAlbums_def DueMusicBrainzAlbumsPage_def] assms(3)] by blast
  then have "a \<in> set (ct_albums s)" "identity_due s t a" using set_take_subset by fastforce+
  then show ?thesis using waits_iff [OF assms(1)] a(2) by simp
qed

lemma waits_mono: "waits s t i \<Longrightarrow> t \<le> t' \<Longrightarrow> waits s t' i"
  by (auto simp: waits_def)

text \<open>A pass after which the run goes on leaves fewer albums waiting.\<close>

lemma pass_moves:
  assumes ok: "constraints_ok (lib d)" "constraints_ok (lib d')" and p: "progressed t d d'" and u: "u \<le> t" "u \<le> u'" "w \<le> t"
    and albums: "DueMusicBrainzAlbums U (lib d) w limit = Inr albums"
    and applied: "k = 0 \<or> (\<exists>album \<in> set albums. \<not> waits (lib d') t (mb_AlbumID album))"
    and on: "\<not> (CountDueMusicBrainzAlbums (lib d) u \<le> CountDueMusicBrainzAlbums (lib d') u' \<and> k = 0)"
  shows "card {i. waits (lib d') t i} < card {i. waits (lib d) t i}"
proof (rule psubset_card_mono [OF finite_waits])
  have sub: "{i. waits (lib d') t i} \<subseteq> {i. waits (lib d) t i}" using p by (auto simp: progressed_def)
  moreover have "{i. waits (lib d') t i} \<noteq> {i. waits (lib d) t i}"
  proof
    assume same: "{i. waits (lib d') t i} = {i. waits (lib d) t i}"
    have "waits (lib d) t (mb_AlbumID album)" if "album \<in> set albums" for album
      using waits_mono [OF Due_waits [OF ok(1) albums that] u(3)] .
    then have "k = 0" using applied same by blast
    have "waits (lib d') u' i" if w: "waits (lib d) u i" for i
    proof -
      have "waits (lib d') t i" using waits_mono [OF w u(1)] same by blast
      then have "match_of (lib d') i = match_of (lib d) i" "present (lib d') i" using p by (auto simp: progressed_def waits_def)
      then show ?thesis using w u(2) by (simp add: waits_def due_at_def)
    qed
    then have "CountDueMusicBrainzAlbums (lib d) u \<le> CountDueMusicBrainzAlbums (lib d') u'"
      unfolding CountDue_waits [OF ok(1)] CountDue_waits [OF ok(2)] by (intro card_mono finite_waits) auto
    then show False using on \<open>k = 0\<close> by blast
  qed
  ultimately show "{i. waits (lib d') t i} \<subset> {i. waits (lib d) t i}" by blast
qed

text \<open>What a round of the run comes to.\<close>

lemma run_passes_step:
  assumes "CountDueMusicBrainzAlbums (lib (snd x)) (ck_now ck n) \<noteq> 0"
    and "DueMusicBrainzAlbums U (lib (snd x)) (ck_now ck (n + 1)) (CountDueMusicBrainzAlbums (lib (snd x)) (ck_now ck n)) = Inr albums"
    and "run_pass C U eqf ck albums (n + 2) r 0 x = ((x1, r1, n1), res)"
  shows "run_passes C U eqf ck (Suc fuel) n r x = (case res of
      None \<Rightarrow> Some (x1, r1, rn_changed r1, Some EContext)
    | Some k \<Rightarrow>
        let remaining = CountDueMusicBrainzAlbums (lib (snd x1)) (ck_now ck n1)
        in if remaining = 0 \<or> CountDueMusicBrainzAlbums (lib (snd x)) (ck_now ck n) \<le> remaining \<and> k = 0 then Some (x1, r1, run_over r1)
           else run_passes C U eqf ck fuel (n1 + 1) r1 x1)"
  using assms by (simp add: Let_def)

lemma run_passes_keeps:
  "run_passes C U eqf ck fuel n r x = Some (x', r', out) \<Longrightarrow> (synced v s0 (snd x) \<longrightarrow> synced v s0 (snd x')) \<and>
     (told r \<longrightarrow> told r') \<and> fst out = rn_changed r'"
proof (induction fuel arbitrary: n r x)
  case (Suc fuel)
  let ?due = "CountDueMusicBrainzAlbums (lib (snd x)) (ck_now ck n)"
  show ?case
  proof (cases "?due = 0")
    case False
    show ?thesis
    proof (cases "DueMusicBrainzAlbums U (lib (snd x)) (ck_now ck (n + 1)) ?due")
      case (Inr albums)
      obtain x1 r1 n1 res where pass: "run_pass C U eqf ck albums (n + 2) r 0 x = ((x1, r1, n1), res)" by (metis prod.collapse)
      have "pass_keeps v s0 (snd x) r (n + 2) (snd x1) r1 n1" using run_pass_keeps [OF pass] by blast
      then show ?thesis
        using Suc.prems Suc.IH [of "n1 + 1" r1 x1] unfolding run_passes_step [OF False Inr pass]
        by (auto simp: pass_keeps_def run_over_def Let_def split: option.splits if_splits)
    qed (use Suc.prems False in auto)
  qed (use Suc.prems in \<open>auto simp: run_over_def\<close>)
qed simp

lemma run_passes_end:
  assumes clock: "\<And>n. ck_now ck n \<le> t" "\<And>n. t < ck_now ck n + 24 * 3600" "mono (ck_now ck)"
  shows "synced v s0 (snd x) \<Longrightarrow> card {i. waits (lib (snd x)) t i} < fuel \<Longrightarrow> run_passes C U eqf ck fuel n r x \<noteq> None"
proof (induction fuel arbitrary: n r x)
  case (Suc fuel)
  let ?due = "CountDueMusicBrainzAlbums (lib (snd x)) (ck_now ck n)"
  show ?case
  proof (cases "?due = 0")
    case False
    show ?thesis
    proof (cases "DueMusicBrainzAlbums U (lib (snd x)) (ck_now ck (n + 1)) ?due")
      case (Inr albums)
      obtain x1 r1 n1 res where pass: "run_pass C U eqf ck albums (n + 2) r 0 x = ((x1, r1, n1), res)" by (metis prod.collapse)
      note keeps = run_pass_keeps [OF pass, of v s0 t]
      have synced: "synced v s0 (snd x1)" and n1: "ck_now ck n \<le> ck_now ck n1"
        using keeps Suc.prems(1) monoD [OF clock(3), of n n1] by (simp_all add: pass_keeps_def)
      have "run_passes C U eqf ck fuel (n1 + 1) r1 x1 \<noteq> None"
        if "res = Some k" "\<not> (?due \<le> CountDueMusicBrainzAlbums (lib (snd x1)) (ck_now ck n1) \<and> k = 0)" for k
      proof -
        have p: "progressed t (snd x) (snd x1)" "k = 0 \<or> (\<exists>album \<in> set albums. \<not> waits (lib (snd x1)) t (mb_AlbumID album))"
          using keeps clock(2) that(1) by auto
        have "card {i. waits (lib (snd x1)) t i} < card {i. waits (lib (snd x)) t i}"
          by (rule pass_moves [OF _ _ p(1) clock(1) n1 clock(1) Inr p(2) that(2)]) (use Suc.prems(1) synced in \<open>simp_all add: synced_def\<close>)
        then show ?thesis using Suc.IH [OF synced, of "n1 + 1" r1] Suc.prems(2) by simp
      qed
      then show ?thesis unfolding run_passes_step [OF False Inr pass] by (auto simp: Let_def split: option.splits)
    qed (use False in simp)
  qed simp
qed simp


text \<open>
  What a run of the resolver writes reaches the clients: a client with the catalogue of the version before
  follows the change feed and has the catalogue as it is after the run, however many releases were applied,
  fragments joined or artists named in it, and whether or not the run was cancelled. The list of credits of
  a track is not part of what the feed announces.
\<close>

lemma resolver_run_reaches_clients:
  assumes "constraints_ok (lib d)" and "RunWithProgress C U eqf ck fuel (w, d) = Some ((w', d'), r, out)"
    and "0 < n" and "length (feed (lib d')) < m"
  shows "sync (lib d') (walk_pages (\<lambda>k. ChangesSince (lib d') (version (lib d)) k n) m None) (live (lib d)) = live (lib d')"
proof -
  have "synced (version (lib d)) (lib d) d" using assms(1) by (simp add: synced_def followed_def delta_ok_refl)
  then have "synced (version (lib d)) (lib d) d'"
    using run_passes_keeps [OF assms(2) [unfolded RunWithProgress_def]] by simp
  then show ?thesis using sync_delta [OF assms(1) _ _ assms(3,4)] by (simp add: synced_def followed_def)
qed

section \<open>Identified only on evidence\<close>

text \<open>MusicBrainz answers a lookup with this release.\<close>

definition answered_with :: "'w mb_client \<Rightarrow> release \<Rightarrow> bool" where
  "answered_with C rel \<longleftrightarrow> (\<exists>i w1 w2. cl_release C i w1 = (w2, Inr rel))"

lemma answered_withI: "cl_release C i w1 = (w2, Inr rel) \<Longrightarrow> answered_with C rel"
  by (auto simp: answered_with_def)

lemma fetch_details_answers:
  "fetch_details C cs w = (w', Inr rs) \<Longrightarrow> rel \<in> set rs \<Longrightarrow> answered_with C rel"
  by (induction cs arbitrary: w w' rs) (auto simp: bindE_Inr returnE_def split: if_splits intro: answered_withI)

lemma search_twice_answers:
  "search_twice C U album local title w = (w', Inr rs) \<Longrightarrow> rel \<in> set rs \<Longrightarrow> answered_with C rel"
  by (auto simp: search_twice_def search_releases_def bindE_Inr returnE_def split: if_splits dest: fetch_details_answers)

lemma find_candidates_answers:
  assumes "find_candidates C U album matchAlbum w = (w', Inr (local, rs))" and "rel \<in> set rs"
  shows "answered_with C rel \<and> (local = matchAlbum \<or> local = matchAlbum\<lparr>mb_Title := mb_PathTitle matchAlbum\<rparr>)"
  using assms
  by (auto simp: find_candidates_def bindE_Inr returnE_def Let_def split: if_splits intro: search_twice_answers answered_withI)

lemma union_candidate_fields:
  assumes "MusicBrainzAlbumUnionCandidate U eqf s album = Inr (matchAlbum, fragments)"
  shows "mb_Title matchAlbum = mb_Title album" "mb_ReleaseID matchAlbum = mb_ReleaseID album"
  using assms by (auto simp: MusicBrainzAlbumUnionCandidate_def albumWithPathDiscs_def Let_def split: option.splits sum.splits if_splits)

lemma set_scoreCandidates: "set (scoreCandidates U album rs) = score_candidate U album ` set rs"
  by (simp add: scoreCandidates_def)

lemma sc_release_score [simp]: "sc_release (score_candidate U album r) = r"
  by (simp add: score_candidate_def split: prod.split)

lemma mc_ReleaseID_persisted [simp]: "mc_ReleaseID (persistedWithFragments c fragments) = re_ID (sc_release c)"
  by (simp add: persistedWithFragments_def persisted_def Let_def)

lemma decide_matches:
  assumes "decide U album local fragments rs = DMatch release selected cs wait" and "mb_ReleaseID album = ''''"
  shows "\<exists>rel \<in> set rs. mc_ReleaseID selected = re_ID rel \<and> strongCandidate local (score_candidate U local rel)"
proof -
  let ?scored = "scoreCandidates U local rs"
  have "\<exists>c \<in> set ?scored. mc_ReleaseID selected = re_ID (sc_release c) \<and> strongCandidate local c"
  proof (cases ?scored)
    case (Cons best others)
    have tie: "c \<in> set scored \<and> strongCandidate local c" if "editionTiebreak local scored = Some c" for c scored
    proof -
      let ?fit = "filter (\<lambda>c. ev_trackCount (sc_evidence c) = ''exact'' \<and> strongCandidate local c) scored"
      have "c \<in> set ?fit" using that by (auto simp: editionTiebreak_def Let_def simp del: set_filter filter_set split: list.splits if_splits)
      then show ?thesis by simp
    qed
    note tie = tie [of "best # others"]
    have "strongCandidate local best \<and> selected = persistedWithFragments best fragments \<or>
        (\<exists>c. editionTiebreak local (best # others) = Some c \<and> selected = persistedWithFragments c fragments)"
      using assms by (auto simp: decide_def Cons park_def Let_def split: if_splits option.splits)
    then show ?thesis using tie by (auto simp: Cons)
  qed (use assms(1) in \<open>simp add: decide_def\<close>)
  then show ?thesis by (auto simp: set_scoreCandidates)
qed

text \<open>The row an application leaves for its album.\<close>

lemma applied_outcome:
  assumes run: "applyMusicBrainzRelease U eqf album release (Some b) now seq d = (d', r)"
  shows "d' = d \<or> (\<exists>m. match_of (lib d') (mb_AlbumID album) = Some m \<and> mr_state m = br_state b \<and>
    mr_release_id m = nullStr (mc_ReleaseID (br_selected b)))"
proof (cases "d' = d")
  case False
  then obtain verdict changed where w: "write_release U album release verdict (Some b) now seq d = (d', Inr (True, changed))"
    using apply_cases [OF run] by auto
  obtain d1 s3 d4 where outcome: "record_outcome (mb_AlbumID album) (Some b) changed now (with_lib s3 d1) = (d4, Inr True)"
    and d': "d' = (if changed then with_lib ((lib d4)\<lparr>ct_updated_at := Some now\<rparr>) d4 else d4)"
    by (rule write_release_Inr [OF w])
  obtain m where m: "lib d4 = put_match m s3" "mr_album_id m = mb_AlbumID album" "mr_state m = br_state b"
      "mr_release_id m = nullStr (mc_ReleaseID (br_selected b))"
    using record_outcome_Inr [OF outcome] by auto
  have "match_of (lib d') (mb_AlbumID album) = match_of (put_match m s3) (mb_AlbumID album)"
    using d' m(1) by (simp add: match_of_def)
  then show ?thesis using m by (auto simp: match_of_put split: option.split)
qed simp


section \<open>An example\<close>

text \<open>One album of one track, and a service that always answers with its release.\<close>

definition lone_release :: release where
  "lone_release = \<lparr>re_ID = ''rel'', re_Title = ''O'', re_Date = '''',
     re_Credits = [\<lparr>xc_Name = ''A'', xc_JoinPhrase = '''', xc_ID = ''m-a''\<rparr>], re_ReleaseGroup = ''grp'',
     re_Media = [\<lparr>me_Position = 1, me_TrackCount = 1, me_Tracks = [\<lparr>rt_Position = 1,
       rt_Recording = \<lparr>rd_ID = ''rec'', rd_Title = ''F'', rd_Length = 1000, rd_Credits = [\<lparr>xc_Name = ''A'', xc_JoinPhrase = '''', xc_ID = ''m-a''\<rparr>]\<rparr>\<rparr>]\<rparr>]\<rparr>"

definition lone_db :: release_db where
  "lone_db = \<lparr>rb_store = demo_db\<lparr>pd_cat := demo_catalog\<lparr>
       ct_albums := [demo_album ''alb_a'' ''art_a'' ''O''],
       ct_tracks := [split_track ''trk_a'' ''alb_a'' ''art_a'' ''A'' ''F'' 1]\<rparr>\<rparr>, rb_candidates = []\<rparr>"

definition lone_client :: "unit mb_client" where
  "lone_client = \<lparr>cl_release = \<lambda>i w. (w, Inr lone_release), cl_search = \<lambda>q w. (w, Inr [lone_release])\<rparr>"

definition lone_album :: MusicBrainzAlbum where
  "lone_album = hd (case DueMusicBrainzAlbums ascii (lib lone_db) 10 1 of Inl e \<Rightarrow> [] | Inr as \<Rightarrow> as)"

lemma lone_fields:
  "mb_Title lone_album = ''O''" "mb_ReleaseID lone_album = ''''" "mb_TrackCount lone_album = 1" "mb_Year lone_album = 0"
   "map tr_Title (mb_Tracks lone_album) = [''F'']"
  by code_simp+

lemma lone_union: "MusicBrainzAlbumUnionCandidate ascii same_text (lib lone_db) lone_album = Inr (lone_album, [])"
  by code_simp

lemma lone_titles: "searchTitle ''O'' = ''O''" "normalizedTrackTitle ascii ''F'' = ''f''" by code_simp+

lemma lone_rows: "tr_Title (hd (mb_Tracks lone_album)) = ''F''" "tr_DurationMs (hd (mb_Tracks lone_album)) = 1000" "track_count lone_release = 1" "mb_AlbumID lone_album = ''alb_a''"
  by code_simp+

lemma lone_pairs: "position_pairs lone_album lone_release = [(hd (mb_Tracks lone_album), hd (me_Tracks (hd (re_Media lone_release))))]"
  by code_simp
lemma lone_artist: "artist_matches ascii lone_album lone_release"
  by code_simp

definition lone_candidate :: scoredRelease where
  "lone_candidate = \<lparr>sc_release = lone_release, sc_score = 90, sc_evidence = no_evidence\<lparr>ev_title := ''exact'', ev_artist := ''matched'',
     ev_trackCount := ''exact'', ev_trackEvidence := 1, ev_titleEvidence := 1, ev_positions := 1\<rparr>\<rparr>"

lemma lone_score: "score_candidate ascii lone_album lone_release = lone_candidate"
proof -
  have "title_matches ascii lone_album lone_release"
    by (simp add: title_matches_def lone_fields lone_titles) (simp add: lone_release_def lone_titles)
  moreover have "title_pair ascii (hd (mb_Tracks lone_album), hd (me_Tracks (hd (re_Media lone_release))))"
    by (simp add: title_pair_def lone_rows lone_titles) (simp add: lone_release_def lone_titles)
  moreover have "duration_pair (hd (mb_Tracks lone_album), hd (me_Tracks (hd (re_Media lone_release))))"
    by (simp add: duration_pair_def lone_rows lone_release_def durationClose_def)
  ultimately show ?thesis
    by (simp add: score_candidate_def scoreRelease_def lone_candidate_def lone_fields lone_pairs lone_artist lone_rows year_matches_def no_evidence_def Let_def)
qed

lemma lone_found: "find_candidates lone_client ascii lone_album lone_album w = (w, Inr (lone_album, [lone_release]))"
  by (simp add: find_candidates_def search_twice_def search_releases_def scoreCandidates_def lone_score bindE_def returnE_def lone_fields
      lone_client_def) (simp add: lone_candidate_def lone_release_def bindE_def returnE_def)

definition lone_decision :: decision where
  "lone_decision = DMatch ((canonical lone_release)\<lparr>kr_Authoritative := False\<rparr>) (persisted lone_candidate) [persisted lone_candidate] week"

lemma lone_decided: "decide ascii lone_album lone_album [] [lone_release] = lone_decision"
proof -
  have "strongCandidate lone_album lone_candidate"
    by (simp add: strongCandidate_def strongSearchMatch_def lone_candidate_def lone_fields acceptScore_def)
  then show ?thesis
    by (simp add: decide_def scoreCandidates_def lone_score lone_fields persist_marked_def persistedWithFragments_def lone_decision_def)
      (simp add: lone_candidate_def)
qed

definition lone_after :: "release_db \<times> (release_err + bool)" where
  "lone_after = carry_out ascii same_text lone_album lone_decision 10 lone_db"

lemma lone_applied: "snd lone_after = Inr True" "CountDueMusicBrainzAlbums (lib (fst lone_after)) 10 = 0"
  "map_option mr_state (match_of (lib (fst lone_after)) ''alb_a'') = Some ''matched''"
  "length (feed (lib (fst lone_after))) < 9"
  "live (lib (fst lone_after)) (''album'', ''alb_a'') \<noteq> live (lib lone_db) (''album'', ''alb_a'')"
  by code_simp+

lemma lone_resolved: "resolve lone_client ascii same_text lone_album 10 ((), lone_db) = (((), fst lone_after), Inr True)"
proof -
  have "carry_out ascii same_text lone_album lone_decision 10 lone_db = (fst lone_after, Inr True)"
    using lone_applied(1) unfolding lone_after_def by (metis prod.collapse)
  then show ?thesis by (simp add: resolve_def lone_union lone_found lone_decided)
qed

abbreviation still :: clockwork where "still \<equiv> \<lparr>ck_now = \<lambda>n. 10, ck_done = \<lambda>n. False\<rparr>"

lemma lone_due: "CountDueMusicBrainzAlbums (lib lone_db) 10 = 1" "DueMusicBrainzAlbums ascii (lib lone_db) 10 1 = Inr [lone_album]"
  "constraints_ok (lib lone_db)" "length (ct_albums (lib lone_db)) = 1" "version (lib lone_db) = 2" "match_of (lib lone_db) ''alb_a'' = None"
  by code_simp+

lemma lone_run:
  "\<exists>r. RunWithProgress lone_client ascii same_text still 2 ((), lone_db) = Some (((), fst lone_after), r, True, None)"
  by (simp add: RunWithProgress_def numeral_2_eq_2 lone_due [simplified] lone_resolved lone_applied run_over_def note_resolved_def Let_def)


lemma resolver_run_reaches_clients_example:
  "live (lib (fst lone_after)) (''album'', ''alb_a'') \<noteq> live (lib lone_db) (''album'', ''alb_a'') \<and>
   sync (lib (fst lone_after)) (walk_pages (\<lambda>k. ChangesSince (lib (fst lone_after)) 2 k 1) 9 None) (live (lib lone_db)) = live (lib (fst lone_after))"
proof -
  obtain r where run: "RunWithProgress lone_client ascii same_text still 2 ((), lone_db) = Some (((), fst lone_after), r, True, None)"
    using lone_run by blast
  show ?thesis
    using resolver_run_reaches_clients [OF lone_due(3) run zero_less_one lone_applied(4)] lone_applied(5) lone_due(5) by simp
qed


end
