(* ===== verification/LibraryWriters.thy ===== *)
theory LibraryWriters
  imports ResolverLaws
begin

text \<open>
  All who write the library, in any order: scans, artwork and retries (\<open>ChangeFeed\<close>), the metadata and the
  consolidation of artists (\<open>ArtistIdentity\<close>), and the runs of the resolver (\<open>Resolver\<close>). The lock
  \<open>libraryIdentity\<close> makes each write atomic; a scan is many writes under the one sequence number it took at
  its start, so others come between them. What every writer relies on, the keys and references of the
  schema, no writer breaks, and what any of them changes the change feed announces.
\<close>

section \<open>The writers\<close>

record 'w library =
  lb_db :: release_db
  lb_aliases_at :: "string \<Rightarrow> seconds"
  lb_genres_at :: "string \<Rightarrow> seconds"
  lb_evaluated :: "int option"
  lb_client :: 'w

definition artists_of :: "'w library \<Rightarrow> artist_db" where
  "artists_of L = \<lparr>ai_cat = lib (lb_db L), ai_aliases_at = lb_aliases_at L, ai_genres_at = lb_genres_at L, ai_evaluated = lb_evaluated L\<rparr>"

definition with_artists :: "artist_db \<Rightarrow> 'w library \<Rightarrow> 'w library" where
  "with_artists a L = L\<lparr>lb_db := with_lib (ai_cat a) (lb_db L), lb_aliases_at := ai_aliases_at a, lb_genres_at := ai_genres_at a,
     lb_evaluated := ai_evaluated a\<rparr>"

text \<open>A run of the resolver comes with its clock and enough fuel (\<open>resolver_run_ends\<close>); without, nothing is done.\<close>

datatype library_write =
    WCatalog cat_op
  | WMetadata string string string "string list" "string list" seconds
  | WTerminal string string
  | WConsolidate "evidence_names list \<Rightarrow> evidence_names list"
  | WResolve clockwork nat

definition library_step ::
  "(string \<Rightarrow> string) \<Rightarrow> (string \<Rightarrow> string \<Rightarrow> bool) \<Rightarrow> unicode \<Rightarrow> 'w mb_client \<Rightarrow> 'w library \<Rightarrow> library_write \<Rightarrow> 'w library" where
  "library_step lower eqf U C L x = (case x of
     WCatalog op \<Rightarrow> L\<lparr>lb_db := with_lib (cat_step eqf (lib (lb_db L)) op) (lb_db L)\<rparr>
   | WMetadata i mbid name aliases genres now \<Rightarrow>
       with_artists (fst (PersistMusicBrainzArtistMetadataAtNextSequence lower eqf i mbid name aliases genres now (artists_of L))) L
   | WTerminal i mbid \<Rightarrow> with_artists (fst (MarkMusicBrainzArtistMetadataTerminal i mbid (artists_of L))) L
   | WConsolidate ord \<Rightarrow> with_artists (fst (ConsolidateMusicBrainzArtistsAtNextSequence lower ord (artists_of L))) L
   | WResolve ck fuel \<Rightarrow>
       (case RunWithProgress C U eqf ck fuel (lb_client L, lb_db L) of
          None \<Rightarrow> L | Some ((w, d), _) \<Rightarrow> L\<lparr>lb_db := d, lb_client := w\<rparr>))"

text \<open>The sequence number a write of a scan carries is later than \<open>v\<close>; the others take the next one.\<close>

definition writes_after :: "int \<Rightarrow> library_write \<Rightarrow> bool" where
  "writes_after v x \<longleftrightarrow> (case x of WCatalog op \<Rightarrow> stamps_after v op | _ \<Rightarrow> True)"

section \<open>What every write keeps\<close>

lemma artists_of_simps [simp]: "ai_cat (artists_of L) = lib (lb_db L)" "lib (lb_db (with_artists a L)) = ai_cat a"
  by (simp_all add: artists_of_def with_artists_def)

lemma terminal_same: "ai_cat (fst (MarkMusicBrainzArtistMetadataTerminal i mbid a)) = ai_cat a"
  by (simp add: MarkMusicBrainzArtistMetadataTerminal_def Let_def)

lemma consolidate_synced:
  assumes "folds lower" and "constraints_ok (ai_cat a)" and "followed v s0 (ai_cat a)"
  shows "constraints_ok (ai_cat (fst (ConsolidateMusicBrainzArtistsAtNextSequence lower ord a))) \<and>
    followed v s0 (ai_cat (fst (ConsolidateMusicBrainzArtistsAtNextSequence lower ord a)))"
proof (cases "readyArtistMergeGroupsTx lower ord a")
  case None
  then show ?thesis using assms(2,3) by (simp add: ConsolidateMusicBrainzArtistsAtNextSequence_def in_tx_def)
next
  case (Some p)
  then show ?thesis using consolidation_result [OF assms(2,1) _ assms(3)] by (cases p) fastforce
qed

lemma library_step_synced:
  assumes "folds lower" and "synced v s0 (lb_db L)" and "writes_after v x"
  shows "synced v s0 (lb_db (library_step lower eqf U C L x))"
proof (cases x)
  case (WCatalog op)
  then show ?thesis
    using assms(2,3) cat_step_constraints cat_step_followed by (simp add: library_step_def writes_after_def synced_def)
next
  case (WMetadata i mbid name aliases genres now)
  then show ?thesis
    using assms(2) persist_next_seq [OF _ _ refl, of "artists_of L" v s0] by (simp add: library_step_def synced_def)
next
  case (WTerminal i mbid)
  then show ?thesis using assms(2) by (simp add: library_step_def synced_def terminal_same)
next
  case (WConsolidate ord)
  then show ?thesis
    using assms(2) consolidate_synced [OF assms(1), of "artists_of L" v s0] by (simp add: library_step_def synced_def)
next
  case (WResolve ck fuel)
  then show ?thesis
    using assms(2) run_passes_keeps [of C U eqf ck fuel 0 _ "(lb_client L, lb_db L)" _ _ _ v s0]
    by (auto simp: library_step_def RunWithProgress_def split: option.split)
qed

lemma library_run_synced:
  "folds lower \<Longrightarrow> synced v s0 (lb_db L) \<Longrightarrow> list_all (writes_after v) xs \<Longrightarrow>
     synced v s0 (lb_db (run_ops (library_step lower eqf U C) L xs))"
  by (induction xs arbitrary: L) (auto intro: library_step_synced)

text \<open>The keys and references hold whatever number a scan's write carries.\<close>

lemma library_step_ok:
  assumes "folds lower" and "constraints_ok (lib (lb_db L))"
  shows "constraints_ok (lib (lb_db (library_step lower eqf U C L x)))"
proof (cases x)
  case (WCatalog op)
  then show ?thesis using cat_step_constraints [OF assms(2)] by (simp add: library_step_def)
next
  case (WResolve ck fuel)
  have "synced (version (lib (lb_db L))) (lib (lb_db L)) (lb_db L)" using assms(2) by (simp add: synced_def followed_refl)
  then show ?thesis
    using WResolve library_step_synced [OF assms(1), of _ _ L x] by (auto simp: writes_after_def synced_def)
qed (use assms library_step_synced [OF assms(1), of "version (lib (lb_db L))" "lib (lb_db L)" L x]
      in \<open>simp_all add: writes_after_def synced_def followed_refl\<close>)

definition empty_library :: "(nat \<Rightarrow> bytes) \<Rightarrow> profile_db \<Rightarrow> 'w \<Rightarrow> 'w library" where
  "empty_library rnd p w = \<lparr>lb_db = \<lparr>rb_store = p\<lparr>pd_cat := empty_catalog rnd\<rparr>, rb_candidates = []\<rparr>,
     lb_aliases_at = (\<lambda>_. 0), lb_genres_at = (\<lambda>_. 0), lb_evaluated = None, lb_client = w\<rparr>"

interpretation libraries: component "empty_library rnd p w" "library_step lower eqf U C" "\<lambda>L. folds lower \<longrightarrow> constraints_ok (lib (lb_db L))"
  by unfold_locales (simp_all add: empty_library_def empty_catalog_ok library_step_ok)



section \<open>An example\<close>

text \<open>A run of the resolver identifies an album, then a scan no longer finds its file.\<close>

definition lone_library :: "unit library" where
  "lone_library = \<lparr>lb_db = lone_db, lb_aliases_at = (\<lambda>_. 0), lb_genres_at = (\<lambda>_. 0), lb_evaluated = None, lb_client = ()\<rparr>"

definition lone_writes :: "library_write list" where
  "lone_writes = [WResolve still 2, WCatalog ONextSeq, WCatalog (OMark 4 ''plex'' []), WCatalog (OFinish 4 ''plex'' 20)]"

definition lone_scanned :: catalog where
  "lone_scanned = run_ops (cat_step same_text) (lib (fst lone_after)) [ONextSeq, OMark 4 ''plex'' [], OFinish 4 ''plex'' 20]"

lemma lone_scanned_facts:
  "length (feed lone_scanned) < 9" "live lone_scanned (''track'', ''trk_a'') = None" "live (lib lone_db) (''track'', ''trk_a'') \<noteq> None"
  by code_simp+

lemma lone_library_run:
  "lib (lb_db (run_ops (library_step to_lower same_text ascii lone_client) lone_library lone_writes)) = lone_scanned"
proof -
  obtain r where run: "RunWithProgress lone_client ascii same_text still 2 ((), lone_db) = Some (((), fst lone_after), r, True, None)"
    using lone_run by blast
  show ?thesis by (simp add: lone_writes_def library_step_def lone_library_def run lone_scanned_def)
qed



end
