(* ===== verification/MbClient.thy ===== *)
theory MbClient
  imports GoText
begin

text \<open>
  The client of the MusicBrainz web service (\<open>internal/musicbrainz/client.go\<close>): its cache of answers, the
  gate and the pacing every request goes through, and the backing off when the service is overloaded. Many
  goroutines call \<open>GetJSON\<close>; the state holds for each call where it is, and a step is a call up to its next
  access of shared state, or the passing of time; what is done with an answer once the gate is given back is one step. The answers of the service, the failures of the cache
  and the moments a caller gives up are arguments of the steps; the parsing of dates and the names of statuses
  (\<open>http.ParseTime\<close>, \<open>http.StatusText\<close>) are parameters. What \<open>json.Unmarshal\<close> makes of a body is left to the caller.
\<close>

section \<open>Configuration\<close>

record http_lib =
  hl_ParseTime :: "string \<Rightarrow> gotime option"
  hl_StatusText :: "int \<Rightarrow> string"

record Options =
  op_BaseURL :: string
  op_UserAgent :: string
  op_Cached :: bool
  op_Interval :: duration
  op_FreshFor :: duration
  op_ErrorFreshFor :: duration
  op_BodyLimit :: int
  op_MaxRetries :: int

definition trim_slashes :: "string \<Rightarrow> string" where
  "trim_slashes s = rev (dropWhile (\<lambda>c. c = CHR ''/'') (rev s))"

definition client_defaults :: "Options \<Rightarrow> Options" where
  "client_defaults o' = o'\<lparr>op_BaseURL := trim_slashes (op_BaseURL o'),
     op_Interval := (if op_Interval o' = 0 then 1100 * millisecond else if op_Interval o' < 0 then 0 else op_Interval o'),
     op_FreshFor := (if op_FreshFor o' = 0 then 30 * day else op_FreshFor o'),
     op_ErrorFreshFor := (if op_ErrorFreshFor o' = 0 then day else op_ErrorFreshFor o'),
     op_BodyLimit := (if op_BodyLimit o' = 0 then 4 * 2 ^ 20 else op_BodyLimit o'),
     op_MaxRetries := (if op_MaxRetries o' = 0 then 2 else op_MaxRetries o')\<rparr>"

fun Contains :: "string \<Rightarrow> string \<Rightarrow> bool" where
  "Contains [] t = (t = [])"
| "Contains (c # s) t = (has_prefix (c # s) t \<or> Contains s t)"

definition NewClient :: "Options \<Rightarrow> string + Options" where
  "NewClient o' =
     (if \<not> Contains (op_UserAgent o') ''/'' \<or> (\<not> Contains (op_UserAgent o') ''http'' \<and> \<not> Contains (op_UserAgent o') ''mailto:'')
      then Inl ''musicbrainz user agent must be versioned and contactable''
      else Inr (client_defaults o'))"

section \<open>The cache and the answers\<close>

text \<open>Go's zero time is the first instant of the year 1.\<close>

definition zero_time :: gotime where "zero_time = - (62135596800 * second)"

record CacheEntry =
  ce_Status :: int
  ce_Body :: bytes
  ce_FetchedAt :: gotime
  ce_FreshUntil :: gotime
  ce_RetryAt :: gotime
  ce_ETag :: string
  ce_LastModified :: string
  ce_Error :: string

definition no_entry :: CacheEntry where
  "no_entry = \<lparr>ce_Status = 0, ce_Body = [], ce_FetchedAt = zero_time, ce_FreshUntil = zero_time, ce_RetryAt = zero_time,
     ce_ETag = '''', ce_LastModified = '''', ce_Error = ''''\<rparr>"

text \<open>An answer; it has no body when reading it failed.\<close>

record mb_answer =
  an_Status :: int
  an_RetryAfter :: string
  an_ETag :: string
  an_LastModified :: string
  an_Body :: "bytes option"

definition transient :: "mb_answer \<Rightarrow> bool" where
  "transient a \<longleftrightarrow> an_Status a = 429 \<or> an_Status a = 503"

text \<open>A \<open>time.Duration\<close> is 64 bits wide: products wrap, differences of times saturate.\<close>

definition wrap64 :: "int \<Rightarrow> int" where
  "wrap64 x = (x + 2 ^ 63) mod 2 ^ 64 - 2 ^ 63"

definition retryAfter :: "(string \<Rightarrow> gotime option) \<Rightarrow> string \<Rightarrow> gotime \<Rightarrow> duration" where
  "retryAfter http_time v now =
     (case parse_int64 v of
        Some n \<Rightarrow>
          if 0 \<le> n then wrap64 (n * second)
          else (case http_time v of None \<Rightarrow> 0 | Some t \<Rightarrow> if now < t then min (t - now) (2 ^ 63 - 1) else 0)
      | None \<Rightarrow> (case http_time v of None \<Rightarrow> 0 | Some t \<Rightarrow> if now < t then min (t - now) (2 ^ 63 - 1) else 0))"

definition backoff_delay :: "http_lib \<Rightarrow> Options \<Rightarrow> nat \<Rightarrow> mb_answer \<Rightarrow> gotime \<Rightarrow> duration" where
  "backoff_delay http c attempt a now =
     (let delay = retryAfter (hl_ParseTime http) (an_RetryAfter a) now
      in if delay \<le> 0 then wrap64 (2 ^ attempt * op_Interval c) else delay)"

section \<open>State\<close>

datatype mb_outcome =
    Body bytes
  | BackoffError gotime int
  | HTTPStatusError int
  | ErrBodyTooLarge
  | ErrTransport
  | ErrCancelled
  | ErrCache

text \<open>Where a call is: called; past the look at the global deadline; waiting for the gate; holding it; having
  read when it may start; sent; answered, the gate given back; over.\<close>

datatype mb_call =
    Called string
  | Looked string gotime
  | Queued string CacheEntry nat
  | Gated string CacheEntry nat
  | Aimed string CacheEntry nat gotime
  | Sent string CacheEntry nat
  | Answered string CacheEntry nat mb_answer
  | Over mb_outcome

text \<open>What is observed: a request of a call started; the service asked not to be called before a time.\<close>

datatype mb_event = Started nat gotime | Throttled gotime

record mb_state =
  ms_now :: gotime
  ms_free :: bool
  ms_nextStart :: gotime
  ms_retryDeadline :: gotime
  ms_cache :: "string \<Rightarrow> CacheEntry option"
  ms_calls :: "nat \<Rightarrow> mb_call option"
  ms_log :: "mb_event list"

definition mb_init :: "gotime \<Rightarrow> (string \<Rightarrow> CacheEntry option) \<Rightarrow> mb_state" where
  "mb_init now cache = \<lparr>ms_now = now, ms_free = True, ms_nextStart = zero_time, ms_retryDeadline = zero_time, ms_cache = cache,
     ms_calls = (\<lambda>_. None), ms_log = []\<rparr>"

definition set_call :: "nat \<Rightarrow> mb_call \<Rightarrow> mb_state \<Rightarrow> mb_state" where
  "set_call i pc s = s\<lparr>ms_calls := (ms_calls s)(i := Some pc)\<rparr>"

definition extendRetry :: "gotime \<Rightarrow> mb_state \<Rightarrow> mb_state" where
  "extendRetry t s = s\<lparr>ms_retryDeadline := (if ms_retryDeadline s < t then t else ms_retryDeadline s)\<rparr>"

text \<open>\<open>put\<close>, and whether it worked.\<close>

definition put_entry :: "Options \<Rightarrow> bool \<Rightarrow> string \<Rightarrow> CacheEntry \<Rightarrow> mb_state \<Rightarrow> mb_state \<times> bool" where
  "put_entry c works key e s =
     (if \<not> op_Cached c then (s, True) else if works then (s\<lparr>ms_cache := (ms_cache s)(key := Some e)\<rparr>, True) else (s, False))"

definition global_key :: "Options \<Rightarrow> string" where
  "global_key c = op_BaseURL c @ ''/.global-retry''"

section \<open>The sections of a call\<close>

definition look_global :: "Options \<Rightarrow> nat \<Rightarrow> string \<Rightarrow> mb_state \<Rightarrow> mb_state" where
  "look_global c i path s =
     (if \<not> op_Cached c then set_call i (Queued path no_entry 0) s
      else case ms_cache s (global_key c) of
        None \<Rightarrow> set_call i (Looked path (ms_now s)) s
      | Some g \<Rightarrow>
          if ms_now s < ce_RetryAt g then set_call i (Over (BackoffError (ce_RetryAt g) (ce_Status g))) (extendRetry (ce_RetryAt g) s)
          else set_call i (Looked path (ms_now s)) s)"

definition look_entry :: "Options \<Rightarrow> nat \<Rightarrow> string \<Rightarrow> gotime \<Rightarrow> mb_state \<Rightarrow> mb_state" where
  "look_entry c i path now s =
     (case ms_cache s (op_BaseURL c @ path) of
        None \<Rightarrow> set_call i (Queued path no_entry 0) s
      | Some e \<Rightarrow>
          if now < ce_RetryAt e then set_call i (Over (BackoffError (ce_RetryAt e) (ce_Status e))) (extendRetry (ce_RetryAt e) s)
          else if now < ce_FreshUntil e
          then set_call i (Over (if ce_Status e \<noteq> 200 then HTTPStatusError (ce_Status e) else Body (ce_Body e))) s
          else set_call i (Queued path e 0) s)"

text \<open>\<open>doAttempt\<close>: when the request may start, its start, its answer.\<close>

definition aim :: "nat \<Rightarrow> string \<Rightarrow> CacheEntry \<Rightarrow> nat \<Rightarrow> mb_state \<Rightarrow> mb_state" where
  "aim i path cached attempt s = set_call i (Aimed path cached attempt
     (if ms_nextStart s < ms_retryDeadline s then ms_retryDeadline s else ms_nextStart s)) s"

definition launch :: "Options \<Rightarrow> nat \<Rightarrow> string \<Rightarrow> CacheEntry \<Rightarrow> nat \<Rightarrow> mb_state \<Rightarrow> mb_state" where
  "launch c i path cached attempt s =
     set_call i (Sent path cached attempt) (s\<lparr>ms_nextStart := ms_now s + op_Interval c, ms_log := Started i (ms_now s) # ms_log s\<rparr>)"

definition land ::
  "http_lib \<Rightarrow> Options \<Rightarrow> nat \<Rightarrow> string \<Rightarrow> CacheEntry \<Rightarrow> nat \<Rightarrow> mb_answer \<Rightarrow> mb_state \<Rightarrow> mb_state" where
  "land http c i path cached attempt a s =
     (let s = (if transient a
               then let t = ms_now s + backoff_delay http c attempt a (ms_now s)
                 in extendRetry t (s\<lparr>ms_log := Throttled t # ms_log s\<rparr>)
               else s)
      in set_call i (Answered path cached attempt a) (s\<lparr>ms_free := True\<rparr>))"

text \<open>What \<open>GetJSON\<close> makes of an answer: a revalidated or new entry, another attempt, or an error; \<open>w1\<close> and
  \<open>w2\<close> tell whether the writes to the cache work.\<close>

definition settle ::
  "http_lib \<Rightarrow> Options \<Rightarrow> nat \<Rightarrow> string \<Rightarrow> CacheEntry \<Rightarrow> nat \<Rightarrow> mb_answer \<Rightarrow> bool \<Rightarrow> bool \<Rightarrow> mb_state \<Rightarrow> mb_state" where
  "settle http c i path cached attempt a w1 w2 s =
     (let now = ms_now s; key = op_BaseURL c @ path in
      case an_Body a of
        None \<Rightarrow> set_call i (Over ErrTransport) s
      | Some body \<Rightarrow>
          if op_BodyLimit c < int (length body) then set_call i (Over ErrBodyTooLarge) s
          else if an_Status a = 304 \<and> ce_Body cached \<noteq> []
          then (let e = cached\<lparr>ce_FetchedAt := now, ce_FreshUntil := now + op_FreshFor c\<rparr>
                in case put_entry c w1 key e s of
                     (s, False) \<Rightarrow> set_call i (Over ErrCache) s
                   | (s, True) \<Rightarrow> set_call i (Over (Body (ce_Body cached))) s)
          else
            (let e = no_entry\<lparr>ce_Status := an_Status a, ce_Body := body, ce_FetchedAt := now, ce_ETag := an_ETag a,
                   ce_LastModified := an_LastModified a\<rparr>
             in if an_Status a = 200
                then (case put_entry c w1 key (e\<lparr>ce_FreshUntil := now + op_FreshFor c\<rparr>) s of
                        (s, False) \<Rightarrow> set_call i (Over ErrCache) s
                      | (s, True) \<Rightarrow> set_call i (Over (Body body)) s)
                else if transient a
                then (let s = extendRetry (now + backoff_delay http c attempt a now) s
                      in case put_entry c w1 (global_key c) (no_entry\<lparr>ce_Status := an_Status a, ce_RetryAt := ms_retryDeadline s\<rparr>) s of
                           (s, False) \<Rightarrow> set_call i (Over ErrCache) s
                         | (s, True) \<Rightarrow>
                             if int attempt < op_MaxRetries c then set_call i (Queued path cached (attempt + 1)) s
                             else (let e = e\<lparr>ce_Error := hl_StatusText http (an_Status a), ce_RetryAt := ms_retryDeadline s\<rparr>
                                   in case put_entry c w2 key e s of
                                        (s, False) \<Rightarrow> set_call i (Over ErrCache) s
                                      | (s, True) \<Rightarrow> set_call i (Over (BackoffError (ce_RetryAt e) (an_Status a))) s))
                else (let e = e\<lparr>ce_FreshUntil := now + op_ErrorFreshFor c, ce_Error := hl_StatusText http (an_Status a), ce_RetryAt := ms_retryDeadline s\<rparr>
                      in case put_entry c w2 key e s of
                           (s, False) \<Rightarrow> set_call i (Over ErrCache) s
                         | (s, True) \<Rightarrow> set_call i (Over (HTTPStatusError (an_Status a))) s)))"

section \<open>Steps\<close>

datatype mb_step =
    Call nat string
  | Go nat
  | Wake nat
  | Answer nat mb_answer
  | Settle nat bool bool
  | Fail nat
  | Tick nat

text \<open>\<open>Go\<close> runs a call to its next section: it looks into the cache, takes the gate if it is free, reads when it
  may start, or starts if the time has come; \<open>Wake\<close> is the end of a sleep, and \<open>Fail\<close> a
  cache that cannot be read, a cancelled wait or a broken request, which gives the gate back.\<close>

definition mb_go :: "Options \<Rightarrow> nat \<Rightarrow> mb_call \<Rightarrow> mb_state \<Rightarrow> mb_state" where
  "mb_go c i pc s = (case pc of
     Called path \<Rightarrow> look_global c i path s
   | Looked path now \<Rightarrow> look_entry c i path now s
   | Queued path cached attempt \<Rightarrow> if ms_free s then set_call i (Gated path cached attempt) (s\<lparr>ms_free := False\<rparr>) else s
   | Gated path cached attempt \<Rightarrow> aim i path cached attempt s
   | Aimed path cached attempt at \<Rightarrow> if at \<le> ms_now s then launch c i path cached attempt s else s
   | _ \<Rightarrow> s)"

definition mb_run :: "http_lib \<Rightarrow> Options \<Rightarrow> mb_state \<Rightarrow> mb_step \<Rightarrow> mb_state" where
  "mb_run http c s x = (case x of
     Call i path \<Rightarrow> if ms_calls s i = None then set_call i (Called path) s else s
   | Go i \<Rightarrow> (case ms_calls s i of None \<Rightarrow> s | Some pc \<Rightarrow> mb_go c i pc s)
   | Wake i \<Rightarrow> (case ms_calls s i of Some (Aimed path cached attempt at) \<Rightarrow> set_call i (Gated path cached attempt) s | _ \<Rightarrow> s)
   | Answer i a \<Rightarrow> (case ms_calls s i of Some (Sent path cached attempt) \<Rightarrow> land http c i path cached attempt a s | _ \<Rightarrow> s)
   | Settle i w1 w2 \<Rightarrow>
       (case ms_calls s i of Some (Answered path cached attempt a) \<Rightarrow> settle http c i path cached attempt a w1 w2 s | _ \<Rightarrow> s)
   | Fail i \<Rightarrow>
       (case ms_calls s i of
          Some (Called _) \<Rightarrow> set_call i (Over ErrCache) s
        | Some (Looked _ _) \<Rightarrow> set_call i (Over ErrCache) s
        | Some (Queued _ _ _) \<Rightarrow> set_call i (Over ErrCancelled) s
        | Some (Aimed _ _ _ _) \<Rightarrow> set_call i (Over ErrCancelled) (s\<lparr>ms_free := True\<rparr>)
        | Some (Sent _ _ _) \<Rightarrow> set_call i (Over ErrTransport) (s\<lparr>ms_free := True\<rparr>)
        | _ \<Rightarrow> s)
   | Tick d \<Rightarrow> s\<lparr>ms_now := ms_now s + int d\<rparr>)"

section \<open>Requests are paced\<close>

definition holds_gate :: "mb_call \<Rightarrow> bool" where
  "holds_gate pc \<longleftrightarrow> (case pc of Gated _ _ _ \<Rightarrow> True | Aimed _ _ _ _ \<Rightarrow> True | Sent _ _ _ \<Rightarrow> True | _ \<Rightarrow> False)"

text \<open>Requests start an interval apart, and none before a time the service asked for earlier.\<close>

fun paced_log :: "duration \<Rightarrow> mb_event list \<Rightarrow> bool" where
  "paced_log iv [] \<longleftrightarrow> True"
| "paced_log iv (Throttled u # l) \<longleftrightarrow> paced_log iv l"
| "paced_log iv (Started i t # l) \<longleftrightarrow> (\<forall>e \<in> set l. case e of Started _ t0 \<Rightarrow> t0 + iv \<le> t | Throttled u \<Rightarrow> u \<le> t) \<and> paced_log iv l"

text \<open>All that was logged lets a request start at \<open>t\<close>.\<close>

definition clear_at :: "duration \<Rightarrow> mb_event list \<Rightarrow> gotime \<Rightarrow> bool" where
  "clear_at iv l t \<longleftrightarrow> (\<forall>e \<in> set l. case e of Started _ t0 \<Rightarrow> t0 + iv \<le> t | Throttled u \<Rightarrow> u \<le> t)"

definition requests_of :: "nat \<Rightarrow> mb_event list \<Rightarrow> nat" where
  "requests_of i l = length (filter (\<lambda>e. case e of Started j _ \<Rightarrow> j = i | Throttled _ \<Rightarrow> False) l)"

definition attempt_of :: "mb_call \<Rightarrow> nat" where
  "attempt_of pc = (case pc of
     Queued _ _ a \<Rightarrow> a | Gated _ _ a \<Rightarrow> a | Aimed _ _ a _ \<Rightarrow> a | Sent _ _ a \<Rightarrow> a | Answered _ _ a _ \<Rightarrow> a | _ \<Rightarrow> 0)"

text \<open>How many requests a call has sent at most.\<close>

definition requests_bound :: "Options \<Rightarrow> mb_call option \<Rightarrow> nat" where
  "requests_bound c pc = (case pc of
     Some (Sent _ _ a) \<Rightarrow> a + 1 | Some (Answered _ _ a _) \<Rightarrow> a + 1 | Some (Over _) \<Rightarrow> nat (op_MaxRetries c) + 1
   | Some pc \<Rightarrow> attempt_of pc | None \<Rightarrow> 0)"

definition call_ok :: "Options \<Rightarrow> mb_event list \<Rightarrow> nat \<Rightarrow> mb_call option \<Rightarrow> bool" where
  "call_ok c l i pc \<longleftrightarrow> requests_of i l \<le> requests_bound c pc \<and>
     (case pc of None \<Rightarrow> True | Some pc \<Rightarrow> attempt_of pc \<le> nat (op_MaxRetries c) \<and>
       (case pc of Aimed _ _ _ at \<Rightarrow> clear_at (op_Interval c) l at | _ \<Rightarrow> True))"

definition one_holder :: "mb_state \<Rightarrow> bool" where
  "one_holder s \<longleftrightarrow> (\<forall>i pc. ms_calls s i = Some pc \<and> holds_gate pc \<longrightarrow> \<not> ms_free s \<and>
     (\<forall>j pc'. ms_calls s j = Some pc' \<and> holds_gate pc' \<longrightarrow> j = i))"

definition mb_inv :: "Options \<Rightarrow> mb_state \<Rightarrow> bool" where
  "mb_inv c s \<longleftrightarrow> one_holder s \<and> clear_at (op_Interval c) (ms_log s) (max (ms_nextStart s) (ms_retryDeadline s)) \<and>
     paced_log (op_Interval c) (ms_log s) \<and> (\<forall>i. call_ok c (ms_log s) i (ms_calls s i))"

lemma clear_at_later: "clear_at iv l t \<Longrightarrow> t \<le> t' \<Longrightarrow> clear_at iv l t'"
  by (fastforce simp: clear_at_def split: mb_event.splits)

lemma clear_at_Cons [simp]: "clear_at iv (Started i t0 # l) t \<longleftrightarrow> t0 + iv \<le> t \<and> clear_at iv l t"
  "clear_at iv (Throttled u # l) t \<longleftrightarrow> u \<le> t \<and> clear_at iv l t" "clear_at iv [] t"
  by (simp_all add: clear_at_def)

lemma paced_log_Started [simp]: "paced_log iv (Started i t # l) \<longleftrightarrow> clear_at iv l t \<and> paced_log iv l"
  by (simp add: clear_at_def)

declare paced_log.simps(3) [simp del]

lemma requests_of_Cons [simp]: "requests_of i (Started j t # l) = (if j = i then 1 else 0) + requests_of i l"
  "requests_of i (Throttled u # l) = requests_of i l" "requests_of i [] = 0"
  by (simp_all add: requests_of_def)

text \<open>A section that neither sends nor hears anything, and after which the call does not hold the gate.\<close>

definition quiet :: "mb_state \<Rightarrow> mb_state \<Rightarrow> bool" where
  "quiet s s' \<longleftrightarrow> ms_calls s' = ms_calls s \<and> ms_free s' = ms_free s \<and> ms_log s' = ms_log s \<and> ms_nextStart s' = ms_nextStart s \<and>
     ms_retryDeadline s \<le> ms_retryDeadline s'"

lemma quiet_rules [simp]: "quiet s s" "quiet s (extendRetry t s)" "quiet s (s\<lparr>ms_cache := k\<rparr>)" "quiet s (s\<lparr>ms_now := n\<rparr>)"
  by (simp_all add: quiet_def extendRetry_def)

lemma quiet_trans: "quiet s s1 \<Longrightarrow> quiet s1 s2 \<Longrightarrow> quiet s s2"
  by (auto simp: quiet_def)

lemma quiet_put: "put_entry c w key e s = (s', b) \<Longrightarrow> quiet s s'"
  by (auto simp: put_entry_def split: if_splits)

lemma inv_quiet: "mb_inv c s \<Longrightarrow> quiet s s' \<Longrightarrow> mb_inv c s'"
  unfolding mb_inv_def quiet_def one_holder_def by (auto intro: clear_at_later)

lemma inv_moves_on:
  assumes "mb_inv c s" and "quiet s s'" and "\<not> holds_gate pc" and "call_ok c (ms_log s) i (Some pc)"
  shows "mb_inv c (set_call i pc s')"
proof -
  have "mb_inv c s'" by (rule inv_quiet [OF assms(1,2)])
  then show ?thesis using assms(2-4) unfolding mb_inv_def one_holder_def set_call_def by (auto simp: quiet_def)
qed

lemma calls_ok: "mb_inv c s \<Longrightarrow> ms_calls s i = Some pc \<Longrightarrow> call_ok c (ms_log s) i (Some pc)"
  unfolding mb_inv_def by metis

lemma inv_look_global: "mb_inv c s \<Longrightarrow> ms_calls s i = Some (Called path) \<Longrightarrow> mb_inv c (look_global c i path s)"
  using calls_ok [of c s i "Called path"]
  by (auto simp: look_global_def call_ok_def requests_bound_def attempt_of_def holds_gate_def split: option.split intro!: inv_moves_on)

lemma inv_look_entry: "mb_inv c s \<Longrightarrow> ms_calls s i = Some (Looked path now) \<Longrightarrow> mb_inv c (look_entry c i path now s)"
  using calls_ok [of c s i "Looked path now"]
  by (auto simp: look_entry_def call_ok_def requests_bound_def attempt_of_def holds_gate_def split: option.split intro!: inv_moves_on)

text \<open>An answer ends the call or queues it for another attempt.\<close>

definition answer_settled :: "Options \<Rightarrow> nat \<Rightarrow> nat \<Rightarrow> mb_state \<Rightarrow> mb_state \<Rightarrow> bool" where
  "answer_settled c i attempt s x \<longleftrightarrow> (\<exists>pc s1. x = set_call i pc s1 \<and> quiet s s1 \<and>
     ((\<exists>r. pc = Over r) \<or> (\<exists>path cached. pc = Queued path cached (attempt + 1)) \<and> int attempt < op_MaxRetries c))"

lemma answer_settled_rules: "quiet s s1 \<Longrightarrow> answer_settled c i attempt s (set_call i (Over r) s1)"
  "quiet s s1 \<Longrightarrow> int attempt < op_MaxRetries c \<Longrightarrow> answer_settled c i attempt s (set_call i (Queued path cached (Suc attempt)) s1)"
  unfolding answer_settled_def Suc_eq_plus1 by blast+

lemma answer_settled_put:
  assumes "quiet s s0" and "\<And>s1. quiet s s1 \<Longrightarrow> answer_settled c i attempt s (f s1)" and "\<And>s1. quiet s s1 \<Longrightarrow> answer_settled c i attempt s (g s1)"
  shows "answer_settled c i attempt s (case put_entry c w key e s0 of (s1, False) \<Rightarrow> f s1 | (s1, True) \<Rightarrow> g s1)"
proof -
  obtain s1 b where p: "put_entry c w key e s0 = (s1, b)" by fastforce
  then have "quiet s s1" using assms(1) quiet_put quiet_trans by blast
  then show ?thesis using assms(2,3) p by (cases b) auto
qed

lemma settle_result: "answer_settled c i attempt s (settle http c i path cached attempt a w1 w2 s)"
  unfolding settle_def Let_def
  by (auto intro!: answer_settled_rules answer_settled_put split: option.split intro: quiet_trans)

lemma inv_settle:
  assumes "mb_inv c s" and "ms_calls s i = Some (Answered path cached attempt a)"
  shows "mb_inv c (settle http c i path cached attempt a w1 w2 s)"
proof -
  obtain pc s1 where p: "settle http c i path cached attempt a w1 w2 s = set_call i pc s1" "quiet s s1"
    "(\<exists>r. pc = Over r) \<or> (\<exists>path cached. pc = Queued path cached (attempt + 1)) \<and> int attempt < op_MaxRetries c"
    using settle_result [of c i attempt s http path cached a w1 w2] unfolding answer_settled_def by (elim exE conjE) (rule that)
  show ?thesis unfolding p(1)
    by (rule inv_moves_on [OF assms(1) p(2)])
      (use p(3) calls_ok [OF assms] in \<open>auto simp: call_ok_def requests_bound_def attempt_of_def holds_gate_def\<close>)
qed

text \<open>The sections that hold the gate.\<close>

lemma inv_gate:
  assumes "mb_inv c s" and "ms_calls s i = Some (Queued path cached attempt)" and "ms_free s"
  shows "mb_inv c (set_call i (Gated path cached attempt) (s\<lparr>ms_free := False\<rparr>))"
proof -
  have "\<not> holds_gate pc" if "ms_calls s j = Some pc" for j pc using assms(1,3) that by (auto simp: mb_inv_def one_holder_def)
  moreover have "call_ok c (ms_log s) i (Some (Gated path cached attempt))"
    using calls_ok [OF assms(1,2)] by (simp add: call_ok_def requests_bound_def attempt_of_def)
  ultimately show ?thesis using assms(1) by (auto simp: mb_inv_def one_holder_def set_call_def)
qed

lemma inv_holder:
  assumes "mb_inv c s" and "ms_calls s i = Some pc" and "holds_gate pc" and "call_ok c (ms_log s) i (Some pc')"
  shows "mb_inv c (set_call i pc' s)"
  using assms by (auto simp: mb_inv_def one_holder_def set_call_def)

lemma inv_aim:
  assumes "mb_inv c s" and "ms_calls s i = Some (Gated path cached attempt)"
  shows "mb_inv c (aim i path cached attempt s)"
  unfolding aim_def
  by (rule inv_holder [OF assms])
    (use calls_ok [OF assms] assms(1) in \<open>auto simp: holds_gate_def call_ok_def requests_bound_def attempt_of_def mb_inv_def max_def not_less intro: clear_at_later\<close>)

lemma inv_launch:
  assumes "mb_inv c s" and "ms_calls s i = Some (Aimed path cached attempt at)" and "at \<le> ms_now s" and "0 \<le> op_Interval c"
  shows "mb_inv c (launch c i path cached attempt s)"
proof -
  have at: "clear_at (op_Interval c) (ms_log s) at" using calls_ok [OF assms(1,2)] by (simp add: call_ok_def)
  have mine: "call_ok c (Started i (ms_now s) # ms_log s) i (Some (Sent path cached attempt))"
    using calls_ok [OF assms(1,2)] by (simp add: call_ok_def requests_bound_def attempt_of_def)
  have others: "call_ok c (Started i (ms_now s) # ms_log s) j (ms_calls s j)" if "j \<noteq> i" for j
  proof -
    have "call_ok c (ms_log s) j (ms_calls s j)" using assms(1) by (simp add: mb_inv_def)
    moreover have "\<not> holds_gate pc" if "ms_calls s j = Some pc" for pc
      using assms(1,2) that \<open>j \<noteq> i\<close> by (fastforce simp: mb_inv_def one_holder_def holds_gate_def)
    ultimately show ?thesis using that by (auto simp: call_ok_def holds_gate_def split: option.splits mb_call.splits)
  qed
  have clear: "clear_at (op_Interval c) (ms_log s) (ms_now s)" "clear_at (op_Interval c) (ms_log s) (max (ms_now s + op_Interval c) (ms_retryDeadline s))"
    by (rule clear_at_later [OF at], use assms(3,4) in simp)+
  show ?thesis
    using assms(1,2) mine others clear
    by (auto simp: mb_inv_def one_holder_def launch_def set_call_def holds_gate_def split: mb_call.splits)
qed

lemma inv_land:
  assumes "mb_inv c s" and "ms_calls s i = Some (Sent path cached attempt)"
  shows "mb_inv c (land http c i path cached attempt a s)"
proof -
  have free: "\<not> holds_gate pc" if "ms_calls s j = Some pc" "j \<noteq> i" for j pc
    using assms that by (fastforce simp: mb_inv_def one_holder_def holds_gate_def)
  have mine: "call_ok c l i (Some (Answered path cached attempt a))" if "requests_of i l = requests_of i (ms_log s)" for l
    using calls_ok [OF assms] that by (simp add: call_ok_def requests_bound_def attempt_of_def)
  have others: "call_ok c (Throttled u # ms_log s) j (ms_calls s j)" if "j \<noteq> i" for j u
  proof -
    have "call_ok c (ms_log s) j (ms_calls s j)" using assms(1) by (simp add: mb_inv_def)
    then show ?thesis using free [OF _ that] by (auto simp: call_ok_def holds_gate_def split: option.splits mb_call.splits)
  qed
  show ?thesis
    using assms(1) mine others free
    by (auto simp: mb_inv_def one_holder_def land_def extendRetry_def set_call_def holds_gate_def Let_def intro: clear_at_later split: mb_call.splits)
qed

lemma inv_released:
  assumes "mb_inv c s" and "ms_calls s i = Some pc" and "holds_gate pc" and "call_ok c (ms_log s) i (Some (Over r))"
  shows "mb_inv c (set_call i (Over r) (s\<lparr>ms_free := True\<rparr>))"
proof -
  have "\<not> holds_gate pc'" if "ms_calls s j = Some pc'" "j \<noteq> i" for j pc'
    using assms(1-3) that by (fastforce simp: mb_inv_def one_holder_def)
  then show ?thesis using assms(1,4) by (auto simp: mb_inv_def one_holder_def set_call_def holds_gate_def)
qed

lemma mb_inv_run:
  assumes "mb_inv c s" and "0 \<le> op_Interval c"
  shows "mb_inv c (mb_run http c s x)"
proof (cases x)
  case (Call i path)
  have "requests_of i (ms_log s) = 0" if "ms_calls s i = None"
    using assms(1) that by (auto simp: mb_inv_def call_ok_def requests_bound_def dest: spec [of _ i])
  then show ?thesis
    using assms(1) Call by (auto simp: mb_run_def call_ok_def requests_bound_def attempt_of_def holds_gate_def intro!: inv_moves_on)
next
  case (Go i)
  then show ?thesis
    using assms by (auto simp: mb_run_def mb_go_def inv_look_global inv_look_entry inv_gate inv_aim inv_launch split: option.split mb_call.split)
next
  case (Wake i)
  have "mb_inv c (set_call i (Gated path cached attempt) s)" if "ms_calls s i = Some (Aimed path cached attempt at)" for path cached attempt at
    by (rule inv_holder [OF assms(1) that])
      (use calls_ok [OF assms(1) that] in \<open>simp_all add: holds_gate_def call_ok_def requests_bound_def attempt_of_def\<close>)
  then show ?thesis using assms(1) Wake by (auto simp: mb_run_def split: option.split mb_call.split)
next
  case (Answer i a)
  then show ?thesis using assms(1) by (auto simp: mb_run_def inv_land split: option.split mb_call.split)
next
  case (Settle i w1 w2)
  then show ?thesis using assms(1) by (auto simp: mb_run_def inv_settle split: option.split mb_call.split)
next
  case (Fail i)
  have over: "call_ok c (ms_log s) i (Some (Over r))" if "ms_calls s i = Some pc" for pc r
    using calls_ok [OF assms(1) that] by (auto simp: call_ok_def requests_bound_def attempt_of_def split: mb_call.splits)
  then show ?thesis
    using assms(1) Fail
    by (auto simp: mb_run_def intro!: inv_moves_on inv_released split: option.split mb_call.split) (simp_all add: holds_gate_def)
next
  case (Tick d)
  then show ?thesis using inv_quiet [OF assms(1)] by (simp add: mb_run_def)
qed


section \<open>What callers get\<close>

lemma NewClient_ok: "NewClient o' = Inr c \<Longrightarrow> c = client_defaults o'"
  by (simp add: NewClient_def split: if_splits)

interpretation clients: component "mb_init now cache" "mb_run http (client_defaults o')" "mb_inv (client_defaults o')"
  for now cache http o'
proof unfold_locales
  have "0 \<le> op_Interval (client_defaults o')" by (simp add: client_defaults_def millisecond_def)
  then show "mb_inv (client_defaults o') (mb_run http (client_defaults o') s x)" if "mb_inv (client_defaults o') s" for s x
    using that by (rule mb_inv_run [rotated])
qed (simp add: mb_init_def mb_inv_def one_holder_def call_ok_def requests_bound_def)

text \<open>C32
  The single gate to MusicBrainz keeps the service's rules, however many goroutines use the client and in whatever order
  their sections, the answers, cancelled waits and failures of the cache come: two requests never start closer together than
  the configured interval, no request starts before the time an earlier 429 or 503 asked to wait for (by
  Retry-After or by the exponential delay), and one call sends no more than MaxRetries + 1 requests.\<close>

theorem requests_are_paced:
  assumes "NewClient o' = Inr c"
  shows "let s = run_ops (mb_run http c) (mb_init now cache) steps
     in paced_log (op_Interval c) (ms_log s) \<and> (\<forall>i. requests_of i (ms_log s) \<le> nat (op_MaxRetries c) + 1)"
proof -
  have inv: "mb_inv c (run_ops (mb_run http c) (mb_init now cache) steps)"
    unfolding NewClient_ok [OF assms] by (rule clients.inv_reachable)
  have "requests_bound c pc \<le> nat (op_MaxRetries c) + 1" if "call_ok c l i pc" for l i pc
    using that by (auto simp: call_ok_def requests_bound_def attempt_of_def split: option.splits mb_call.splits)
  with inv show ?thesis unfolding mb_inv_def Let_def call_ok_def by (meson order_trans)
qed

definition demo_options :: Options where
  "demo_options = \<lparr>op_BaseURL = ''https://mb/'', op_UserAgent = ''demo/1 (mailto:a@b)'', op_Cached = False, op_Interval = 0, op_FreshFor = 0,
     op_ErrorFreshFor = 0, op_BodyLimit = 0, op_MaxRetries = 0\<rparr>"

definition demo_http :: http_lib where
  "demo_http = \<lparr>hl_ParseTime = (\<lambda>_. None), hl_StatusText = (\<lambda>_. ''status'')\<rparr>"

text \<open>The first call is told to wait for five seconds; the second one, in the queue meanwhile, starts after them.\<close>

definition demo_steps :: "mb_step list" where
  "demo_steps = [Call 0 ''/a'', Call 1 ''/b'', Go 0, Go 0, Go 0, Go 1, Go 0, Go 1,
     Answer 0 \<lparr>an_Status = 503, an_RetryAfter = ''5'', an_ETag = [], an_LastModified = [], an_Body = Some []\<rparr>,
     Go 1, Go 1, Go 1, Tick 5000000000, Go 1]"

definition demo_client :: Options where
  "demo_client = client_defaults demo_options"

theorem requests_are_paced_witness:
  "NewClient demo_options = Inr demo_client \<and>
   (let s = run_ops (mb_run demo_http demo_client) (mb_init 0 (\<lambda>_. None)) demo_steps
    in ms_log s = [Started 1 5000000000, Throttled 5000000000, Started 0 0] \<and> paced_log (op_Interval demo_client) (ms_log s) \<and>
       requests_of 1 (ms_log s) \<le> 3)"
proof -
  have ok: "NewClient demo_options = Inr demo_client" by code_simp
  have c: "demo_client = \<lparr>op_BaseURL = ''https://mb'', op_UserAgent = ''demo/1 (mailto:a@b)'', op_Cached = False, op_Interval = 1100000000,
    op_FreshFor = 2592000000000000, op_ErrorFreshFor = 86400000000000, op_BodyLimit = 4194304, op_MaxRetries = 2\<rparr>" by code_simp
  have d: "backoff_delay demo_http demo_client 0 \<lparr>an_Status = 503, an_RetryAfter = ''5'', an_ETag = [], an_LastModified = [], an_Body = Some []\<rparr> 0 =
    5000000000" by code_simp
  have lg: "ms_log (run_ops (mb_run demo_http demo_client) (mb_init 0 (\<lambda>_. None)) demo_steps) = [Started 1 5000000000, Throttled 5000000000, Started 0 0]"
    by (simp add: c demo_steps_def mb_init_def mb_run_def mb_go_def look_global_def set_call_def aim_def launch_def land_def transient_def
        d [unfolded c] zero_time_def extendRetry_def second_def Let_def)
  have n: "nat (op_MaxRetries demo_client) + 1 = 3" by code_simp
  have "paced_log (op_Interval demo_client) [Started 1 5000000000, Throttled 5000000000, Started 0 0] \<and>
    (\<forall>i. requests_of i [Started 1 5000000000, Throttled 5000000000, Started 0 0] \<le> 3)"
    using requests_are_paced [OF ok, where http = demo_http and now = 0 and cache = "\<lambda>_. None" and steps = demo_steps]
    unfolding Let_def lg n .
  then show ?thesis unfolding Let_def lg using ok by blast
qed

text \<open>While an entry is fresh, a call ends with it and sends nothing.\<close>

lemma fresh_entry_answers:
  assumes "ms_calls s i = None" and "op_Cached c"
    and "ms_cache s (global_key c) = None" and "ms_cache s (op_BaseURL c @ path) = Some e"
    and "ce_RetryAt e \<le> ms_now s" and "ms_now s < ce_FreshUntil e"
  shows "run_ops (mb_run http c) s [Call i path, Go i, Go i] =
    set_call i (Over (if ce_Status e \<noteq> 200 then HTTPStatusError (ce_Status e) else Body (ce_Body e))) s"
  using assms by (simp add: mb_run_def mb_go_def look_global_def look_entry_def set_call_def not_less)

text \<open>Once the global deadline is stored, a call made before it ends with it and sends nothing, and so do the calls of a client
  started later on the same cache.\<close>

lemma deadline_is_kept:
  assumes "ms_calls s i = None" and "op_Cached c" and "ms_cache s (global_key c) = Some g" and "ms_now s < ce_RetryAt g"
  shows "run_ops (mb_run http c) s [Call i path, Go i] =
    set_call i (Over (BackoffError (ce_RetryAt g) (ce_Status g))) (extendRetry (ce_RetryAt g) s)"
  using assms by (simp add: mb_run_def mb_go_def look_global_def set_call_def extendRetry_def)

text \<open>An answer that was an error is stored with its body and its \<open>ETag\<close>; once it is stale, it is revalidated, and
  if the service then says it has not changed, the caller gets the body of the error as a success. The entry keeps its
  status, so calls made while it is fresh again get the error (\<open>fresh_entry_answers\<close>).\<close>

lemma revalidated_error_is_returned:
  assumes "ce_Status cached = 404" and "ce_Body cached \<noteq> []" and "an_Status a = 304" and "an_Body a = Some []" and "0 \<le> op_BodyLimit c"
  shows "\<exists>s'. settle http c i path cached attempt a True w2 s = set_call i (Over (Body (ce_Body cached))) s'"
  using assms by (auto simp: settle_def put_entry_def Let_def)

end
